(* ===== verification/Prelude.thy ===== *)
theory Prelude
  imports
    Complex_Main
    "HOL-Library.Word"
    "HOL-Library.AList"
    "HOL-Library.List_Lexorder"
    "HOL-Library.Char_ord"
begin

text \<open>
  Shared vocabulary of the development: the Rust types and the parts of the
  Rust standard library that the components use.

  \<^item> machine types and byte strings;
  \<^item> \<open>result\<close>, the value of a fallible call (\<open>Ok\<close>, \<open>Err\<close>) extended with
    \<open>Panic\<close> for an unwinding call, and the two forms of the \<open>?\<close> operator;
  \<^item> \<open>BTreeMap\<close> and \<open>BTreeSet\<close> as strictly sorted lists and \<open>HashMap\<close> as a
    list with distinct keys whose order is the unspecified iteration order;
  \<^item> the interface \<open>rust_map\<close> that both maps implement and its extension
    \<open>ordered_map\<close>, in which a map is determined by its lookups;
  \<^item> \<open>core::time::Duration\<close> with its overflow panics.
\<close>

named_theorems result_simps \<open>evaluation of fallible computations\<close>
named_theorems keeps_state \<open>rules for calls that return the state unchanged\<close>
named_theorems map_laws \<open>lookup and invariant laws of the map types\<close>

section \<open>Machine types\<close>

type_synonym u8 = "8 word"
type_synonym u32 = "32 word"
type_synonym bytes = "u8 list"

section \<open>Fallible computations\<close>

datatype ('a, 'e) result = Ok 'a | Err 'e | Panic

fun is_ok :: "('a, 'e) result \<Rightarrow> bool" where
  "is_ok (Ok _) = True"
| "is_ok _ = False"

fun is_err :: "('a, 'e) result \<Rightarrow> bool" where
  "is_err (Err _) = True"
| "is_err _ = False"

text \<open>The \<open>?\<close> operator on a call that changes no state.\<close>

fun and_then :: "('a, 'e) result \<Rightarrow> ('a \<Rightarrow> ('b, 'e) result) \<Rightarrow> ('b, 'e) result" where
  "and_then (Ok a) f = f a"
| "and_then (Err e) f = Err e"
| "and_then Panic f = Panic"

text \<open>
  The \<open>?\<close> operator on a call through \<open>&mut self\<close>: the changes made before an
  error stay in the state that the caller sees.
\<close>

fun try_st :: "'s \<times> ('a, 'e) result \<Rightarrow> ('s \<Rightarrow> 'a \<Rightarrow> 's \<times> ('b, 'e) result) \<Rightarrow> 's \<times> ('b, 'e) result" where
  "try_st (s, Ok a) f = f s a"
| "try_st (s, Err e) f = (s, Err e)"
| "try_st (s, Panic) f = (s, Panic)"

text \<open>A call that changes no state, in a context with state \<open>s\<close>.\<close>

fun lift_st :: "'s \<Rightarrow> ('a, 'e) result \<Rightarrow> ('a \<Rightarrow> 's \<times> ('b, 'e) result) \<Rightarrow> 's \<times> ('b, 'e) result" where
  "lift_st s (Ok a) f = f a"
| "lift_st s (Err e) f = (s, Err e)"
| "lift_st s Panic f = (s, Panic)"

fun ok_or :: "'e \<Rightarrow> 'a option \<Rightarrow> ('a, 'e) result" where
  "ok_or e (Some a) = Ok a"
| "ok_or e None = Err e"

text \<open>\<open>Option::unwrap\<close> and \<open>Option::expect\<close>.\<close>

fun unwrap :: "'a option \<Rightarrow> ('a, 'e) result" where
  "unwrap (Some a) = Ok a"
| "unwrap None = Panic"

fun map_err :: "('e \<Rightarrow> 'f) \<Rightarrow> ('a, 'e) result \<Rightarrow> ('a, 'f) result" where
  "map_err f (Ok a) = Ok a"
| "map_err f (Err e) = Err (f e)"
| "map_err f Panic = Panic"

section \<open>BTreeMap and BTreeSet\<close>

type_synonym ('k, 'v) btree = "('k \<times> 'v) list"

definition bt_wf :: "('k::linorder, 'v) btree \<Rightarrow> bool" where
  "bt_wf m = sorted_wrt (<) (map fst m)"

definition bt_get :: "('k, 'v) btree \<Rightarrow> 'k \<Rightarrow> 'v option" where
  "bt_get m k = map_of m k"

fun bt_insert :: "'k::linorder \<Rightarrow> 'v \<Rightarrow> ('k, 'v) btree \<Rightarrow> ('k, 'v) btree" where
  "bt_insert k v [] = [(k, v)]"
| "bt_insert k v (e # m) =
     (if fst e < k then e # bt_insert k v m
      else if fst e = k then (k, v) # m
      else (k, v) # e # m)"

definition bt_remove :: "'k \<Rightarrow> ('k, 'v) btree \<Rightarrow> ('k, 'v) btree" where
  "bt_remove k m = filter (\<lambda>e. fst e \<noteq> k) m"

definition bt_contains :: "('k, 'v) btree \<Rightarrow> 'k \<Rightarrow> bool" where
  "bt_contains m k = (bt_get m k \<noteq> None)"

text \<open>\<open>BTreeSet::insert\<close> also tells whether the element is new.\<close>

definition bts_wf :: "'k::linorder list \<Rightarrow> bool" where
  "bts_wf s = sorted_wrt (<) s"

definition bts_insert :: "'k::linorder \<Rightarrow> 'k list \<Rightarrow> 'k list \<times> bool" where
  "bts_insert k s = (if k \<in> set s then (s, False) else (insort k s, True))"

section \<open>HashMap\<close>

type_synonym ('k, 'v) hmap = "('k \<times> 'v) list"

definition hm_wf :: "('k, 'v) hmap \<Rightarrow> bool" where
  "hm_wf m = distinct (map fst m)"

definition hm_get :: "('k, 'v) hmap \<Rightarrow> 'k \<Rightarrow> 'v option" where
  "hm_get m k = map_of m k"

definition hm_insert :: "'k \<Rightarrow> 'v \<Rightarrow> ('k, 'v) hmap \<Rightarrow> ('k, 'v) hmap" where
  "hm_insert k v m = AList.update k v m"

definition hm_remove :: "'k \<Rightarrow> ('k, 'v) hmap \<Rightarrow> ('k, 'v) hmap" where
  "hm_remove k m = AList.delete k m"

definition hm_contains :: "('k, 'v) hmap \<Rightarrow> 'k \<Rightarrow> bool" where
  "hm_contains m k = (hm_get m k \<noteq> None)"

section \<open>core::time::Duration\<close>

text \<open>Seconds in the range of \<open>u64\<close> and the nanoseconds below one second.\<close>

datatype duration = Duration (dur_secs: nat) (dur_nanos: nat)

definition duration_wf :: "duration \<Rightarrow> bool" where
  "duration_wf d = (dur_secs d < 2 ^ 64 \<and> dur_nanos d < 1000000000)"

text \<open>\<open>Duration::new\<close> carries whole seconds out of the nanoseconds and panics when they overflow.\<close>

definition duration_new :: "nat \<Rightarrow> nat \<Rightarrow> (duration, 'e) result" where
  "duration_new secs nanos =
     (let s = secs + nanos div 1000000000 in
      if s < 2 ^ 64 then Ok (Duration s (nanos mod 1000000000)) else Panic)"

text \<open>\<open>impl Add for Duration\<close>.\<close>

definition duration_add :: "duration \<Rightarrow> duration \<Rightarrow> (duration, 'e) result" where
  "duration_add a b = duration_new (dur_secs a + dur_secs b) (dur_nanos a + dur_nanos b)"

definition duration_total :: "duration \<Rightarrow> nat" where
  "duration_total d = dur_secs d * 1000000000 + dur_nanos d"

instantiation duration :: linorder
begin

definition less_eq_duration :: "duration \<Rightarrow> duration \<Rightarrow> bool" where
  "less_eq_duration a b =
     (dur_secs a < dur_secs b \<or> dur_secs a = dur_secs b \<and> dur_nanos a \<le> dur_nanos b)"

definition less_duration :: "duration \<Rightarrow> duration \<Rightarrow> bool" where
  "less_duration a b =
     (dur_secs a < dur_secs b \<or> dur_secs a = dur_secs b \<and> dur_nanos a < dur_nanos b)"

instance
  by intro_classes
    (auto simp: less_eq_duration_def less_duration_def intro: duration.expand)

end

section \<open>f64 comparisons\<close>

text \<open>
  A double is a rational, an infinity or NaN; both zeros are \<open>Finite 0\<close>. Every comparison
  with NaN is false.
\<close>

datatype f64 = NaN | NegInf | Finite rat | PosInf

fun f64_lt :: "f64 \<Rightarrow> f64 \<Rightarrow> bool" where
  "f64_lt (Finite a) (Finite b) = (a < b)"
| "f64_lt NegInf (Finite b) = True"
| "f64_lt NegInf PosInf = True"
| "f64_lt (Finite a) PosInf = True"
| "f64_lt _ _ = False"

fun f64_eq :: "f64 \<Rightarrow> f64 \<Rightarrow> bool" where
  "f64_eq (Finite a) (Finite b) = (a = b)"
| "f64_eq NegInf NegInf = True"
| "f64_eq PosInf PosInf = True"
| "f64_eq _ _ = False"

definition f64_le :: "f64 \<Rightarrow> f64 \<Rightarrow> bool" where
  "f64_le a b = (f64_lt a b \<or> f64_eq a b)"

section \<open>Strings\<close>

text \<open>\<open>str::split\<close> on one character: the parts between the separators, never an empty list.\<close>

fun str_split :: "char \<Rightarrow> string \<Rightarrow> string list" where
  "str_split c [] = [[]]"
| "str_split c (x # xs) =
     (if x = c then [] # str_split c xs
      else case str_split c xs of [] \<Rightarrow> [[x]] | p # ps \<Rightarrow> (x # p) # ps)"

text \<open>\<open>format!\<close> of an unsigned number: its decimal digits.\<close>

fun decimal :: "nat \<Rightarrow> string" where
  "decimal n = (if n < 10 then [char_of (48 + n)] else decimal (n div 10) @ [char_of (48 + n mod 10)])"

text \<open>\<open>rfind\<close>: the position of the last occurrence of a character.\<close>

fun rfind :: "char \<Rightarrow> string \<Rightarrow> nat option" where
  "rfind c [] = None"
| "rfind c (x # xs) =
     (case rfind c xs of Some n \<Rightarrow> Some (Suc n) | None \<Rightarrow> if x = c then Some 0 else None)"

section \<open>RPC status\<close>

text \<open>\<open>micro_rpc::Status\<close>; the text that an error of another crate adds to a message is left out.\<close>

datatype status_code = InvalidArgument | NotFound | FailedPrecondition | ResourceExhausted | Aborted | Internal

datatype status = Status (status_code: status_code) (status_message: string)

section \<open>Laws of fallible computations\<close>

lemma and_then_Ok [result_simps]:
  "and_then r f = Ok b \<longleftrightarrow> (\<exists>a. r = Ok a \<and> f a = Ok b)"
  by (cases r) auto

lemma and_then_pair:
  assumes "and_then r (\<lambda>(a, b). f a b) = Ok z"
  obtains a b where "r = Ok (a, b)" "f a b = Ok z"
  using assms by (auto simp: result_simps)

lemma and_then_Panic [result_simps]:
  "and_then r f = Panic \<longleftrightarrow> r = Panic \<or> (\<exists>a. r = Ok a \<and> f a = Panic)"
  by (cases r) auto

lemma and_then_Err [result_simps]:
  "and_then r f = Err e \<longleftrightarrow> r = Err e \<or> (\<exists>a. r = Ok a \<and> f a = Err e)"
  by (cases r) auto

lemma ok_or_not_Panic [result_simps]: "ok_or e x \<noteq> Panic"
  by (cases x) auto

lemma map_err_Panic [result_simps]: "map_err f r = Panic \<longleftrightarrow> r = Panic"
  by (cases r) auto

lemma try_st_Ok [result_simps]:
  "try_st r f = (s', Ok b) \<longleftrightarrow> (\<exists>s a. r = (s, Ok a) \<and> f s a = (s', Ok b))"
  by (cases "(r, f)" rule: try_st.cases) auto

lemma lift_st_Ok [result_simps]:
  "lift_st s r f = (s', Ok b) \<longleftrightarrow> (\<exists>a. r = Ok a \<and> f a = (s', Ok b))"
  by (cases r) auto

lemma lift_st_Err [result_simps]:
  "lift_st s r f = (s', Err e) \<longleftrightarrow> r = Err e \<and> s' = s \<or> (\<exists>a. r = Ok a \<and> f a = (s', Err e))"
  by (cases r) auto

lemma map_err_Err [result_simps]: "map_err f r = Err e \<longleftrightarrow> (\<exists>x. r = Err x \<and> e = f x)"
  by (cases r) auto

lemma ok_or_Err [result_simps]: "ok_or e x = Err e' \<longleftrightarrow> x = None \<and> e' = e"
  by (cases x) auto

lemma ok_or_Ok [result_simps]: "ok_or e x = Ok a \<longleftrightarrow> x = Some a"
  by (cases x) auto

lemma unwrap_Ok [result_simps]: "unwrap x = Ok a \<longleftrightarrow> x = Some a"
  by (cases x) auto

lemma map_err_Ok [result_simps]: "map_err f r = Ok a \<longleftrightarrow> r = Ok a"
  by (cases r) auto

lemma apsnd_map_err_Ok [result_simps]: "apsnd (map_err f) r = (s, Ok a) \<longleftrightarrow> r = (s, Ok a)"
  by (cases r) (simp add: map_err_Ok)

lemma is_ok_and_then [result_simps]: "is_ok (and_then r f) \<longleftrightarrow> (\<exists>a. r = Ok a \<and> is_ok (f a))"
  by (cases r) auto

lemma is_ok_ok_or [result_simps]: "is_ok (ok_or e x) \<longleftrightarrow> x \<noteq> None"
  by (cases x) auto

lemma fst_try_st: "(\<And>s a. fst (f s a) = s) \<Longrightarrow> fst (try_st p f) = fst p"
  by (cases "(p, f)" rule: try_st.cases) auto

lemma fst_lift_st [keeps_state]: "(\<And>a. fst (f a) = s) \<Longrightarrow> fst (lift_st s r f) = s"
  by (cases r) auto

lemma fst_case_prod [keeps_state]: "(\<And>a b. fst (f a b) = s) \<Longrightarrow> fst (case_prod f p) = s"
  by (cases p) simp

lemma fst_if [keeps_state]: "fst a = s \<Longrightarrow> fst b = s \<Longrightarrow> fst (if c then a else b) = s"
  by simp

declare fst_conv [keeps_state]

section \<open>The map interface\<close>

locale rust_map =
  fixes empty_map :: 'm
    and get :: "'m \<Rightarrow> 'k \<Rightarrow> 'v option"
    and put :: "'k \<Rightarrow> 'v \<Rightarrow> 'm \<Rightarrow> 'm"
    and del :: "'k \<Rightarrow> 'm \<Rightarrow> 'm"
    and entries :: "'m \<Rightarrow> ('k \<times> 'v) list"
    and wf :: "'m \<Rightarrow> bool"
  assumes wf_empty: "wf empty_map"
    and wf_put: "wf m \<Longrightarrow> wf (put k v m)"
    and wf_del: "wf m \<Longrightarrow> wf (del k m)"
    and get_empty: "get empty_map k = None"
    and get_put: "wf m \<Longrightarrow> get (put k v m) j = (if j = k then Some v else get m j)"
    and get_del: "wf m \<Longrightarrow> get (del k m) j = (if j = k then None else get m j)"
    and get_entries: "wf m \<Longrightarrow> get m k = map_of (entries m) k"
    and entries_distinct: "wf m \<Longrightarrow> distinct (map fst (entries m))"
begin

lemma put_all_wf: "wf m \<Longrightarrow> wf (fold (\<lambda>e. put (fst e) (snd e)) kvs m)"
  by (induction kvs arbitrary: m) (auto simp: wf_put)

lemma put_all_get:
  "wf m \<Longrightarrow> get (fold (\<lambda>e. put (fst e) (snd e)) kvs m) k =
     (case map_of (rev kvs) k of Some v \<Rightarrow> Some v | None \<Rightarrow> get m k)"
proof (induction kvs arbitrary: m)
  case (Cons e kvs)
  show ?case
    using Cons.IH [OF wf_put [OF Cons.prems]] Cons.prems
    by (auto simp: get_put map_add_def split: option.splits)
qed simp

text \<open>Reading out the entries and putting them into an empty map gives the same lookups.\<close>

lemma put_entries_get:
  assumes "wf m"
  shows "get (fold (\<lambda>e. put (fst e) (snd e)) (entries m) empty_map) = get m"
proof
  fix k
  have "map_of (rev (entries m)) = map_of (entries m)"
    using entries_distinct [OF assms] by (simp add: map_of_inject_set rev_map [symmetric])
  then show "get (fold (\<lambda>e. put (fst e) (snd e)) (entries m) empty_map) k = get m k"
    by (simp add: put_all_get wf_empty get_empty get_entries [OF assms] split: option.split)
qed

end

locale ordered_map = rust_map +
  assumes get_ext: "wf m \<Longrightarrow> wf m' \<Longrightarrow> get m = get m' \<Longrightarrow> m = m'"
begin

lemma put_entries_id:
  "wf m \<Longrightarrow> fold (\<lambda>e. put (fst e) (snd e)) (entries m) empty_map = m"
  by (rule get_ext) (auto simp: put_entries_get wf_empty intro: put_all_wf)

lemma put_commute:
  "wf m \<Longrightarrow> j \<noteq> k \<Longrightarrow> put j v (put k w m) = put k w (put j v m)"
  by (rule get_ext) (auto simp: wf_put get_put fun_eq_iff)

lemma put_same: "wf m \<Longrightarrow> get m k = Some v \<Longrightarrow> put k v m = m"
  by (rule get_ext) (auto simp: wf_put get_put fun_eq_iff)

lemma put_put: "wf m \<Longrightarrow> put k v (put k w m) = put k v m"
  by (rule get_ext) (auto simp: wf_put get_put fun_eq_iff)

lemma del_absent: "wf m \<Longrightarrow> get m k = None \<Longrightarrow> del k m = m"
  by (rule get_ext) (auto simp: wf_del get_del fun_eq_iff)

end

section \<open>Lists with distinct keys\<close>

lemma distinct_fst_Cons: "distinct (map fst (e # m)) \<Longrightarrow> x \<in> set m \<Longrightarrow> fst x \<noteq> fst e"
  by (metis distinct.simps(2) image_eqI list.set_map list.simps(9))

lemma fold_insort_wf:
  "bts_wf acc \<Longrightarrow> distinct xs \<Longrightarrow> set xs \<inter> set acc = {} \<Longrightarrow>
    bts_wf (fold insort xs acc) \<and> set (fold insort xs acc) = set xs \<union> set acc"
  by (induction xs arbitrary: acc)
    (auto simp: bts_wf_def strict_sorted_iff sorted_insort distinct_insort set_insort_key)

section \<open>BTreeMap implements the interface\<close>

lemma bt_insert_keys: "set (map fst (bt_insert k v m)) = insert k (set (map fst m))"
  by (induction k v m rule: bt_insert.induct) auto

lemma bt_wf_Cons: "bt_wf (e # m) \<longleftrightarrow> (\<forall>x \<in> set m. fst e < fst x) \<and> bt_wf m"
  by (auto simp: bt_wf_def)

lemma bt_wf_insert [map_laws]: "bt_wf m \<Longrightarrow> bt_wf (bt_insert k v m)"
proof (induction k v m rule: bt_insert.induct)
  case (2 k v e m)
  then show ?case
    using bt_insert_keys [of k v m]
    by (auto simp: bt_wf_def simp del: bt_insert_keys split: if_splits)
qed (simp add: bt_wf_def)

lemma bt_wf_remove [map_laws]: "bt_wf m \<Longrightarrow> bt_wf (bt_remove k m)"
  by (induction m) (auto simp: bt_wf_Cons bt_remove_def)

lemma bt_wf_filter [map_laws]: "bt_wf m \<Longrightarrow> bt_wf (filter P m)"
  by (induction m) (auto simp: bt_wf_Cons)

lemma bt_wf_map_values [map_laws]: "bt_wf (map (\<lambda>e. (fst e, f e)) m) = bt_wf m"
  by (simp add: bt_wf_def comp_def)

lemma bt_wf_Nil [map_laws, simp]: "bt_wf []"
  by (simp add: bt_wf_def)

lemma bt_wf_distinct: "bt_wf m \<Longrightarrow> distinct (map fst m)"
  by (simp add: bt_wf_def strict_sorted_iff)

lemma bt_get_Nil [simp, map_laws]: "bt_get [] k = None"
  by (simp add: bt_get_def)

lemma bt_get_insert [map_laws, simp]:
  "bt_get (bt_insert k v m) j = (if j = k then Some v else bt_get m j)"
  by (induction k v m rule: bt_insert.induct) (auto simp: bt_get_def)

lemma bt_get_remove [map_laws, simp]:
  "bt_get (bt_remove k m) j = (if j = k then None else bt_get m j)"
  by (induction m) (auto simp: bt_get_def bt_remove_def)

lemma bt_get_filter:
  assumes "bt_wf m"
  shows "bt_get (filter P m) k =
    (case bt_get m k of Some v \<Rightarrow> if P (k, v) then Some v else None | None \<Rightarrow> None)"
  using assms
proof (induction m)
  case (Cons e m)
  have "fst e = k \<Longrightarrow> map_of m k = None"
    using Cons.prems by (fastforce simp: bt_wf_Cons map_of_eq_None_iff)
  with Cons show ?case
    by (cases e) (auto simp: bt_get_def bt_wf_Cons split: option.splits)
qed (simp add: bt_get_def)

lemma bt_get_Some_in: "bt_get m k = Some v \<Longrightarrow> (k, v) \<in> set m"
  unfolding bt_get_def by (rule map_of_SomeD)

lemma bt_in_get: "bt_wf m \<Longrightarrow> (k, v) \<in> set m \<Longrightarrow> bt_get m k = Some v"
  unfolding bt_get_def by (simp add: bt_wf_distinct)

lemma bt_rebuild: "bt_wf m \<Longrightarrow> map (\<lambda>k. (k, the (bt_get m k))) (map fst m) = m"
  by (simp add: comp_def) (rule map_idI, auto dest: bt_in_get)

lemma bt_ext:
  assumes "bt_wf m" "bt_wf m'" "bt_get m = bt_get m'"
  shows "m = m'"
proof -
  have "dom (bt_get m) = dom (bt_get m')"
    by (simp add: assms)
  then have "set (map fst m) = set (map fst m')"
    by (simp add: bt_get_def [abs_def] dom_map_of_conv_image_fst)
  then have "map fst m = map fst m'"
    using assms(1,2) by (intro strict_sorted_equal) (auto simp: bt_wf_def)
  then show ?thesis
    using bt_rebuild [OF assms(1)] bt_rebuild [OF assms(2)] by (metis assms(3))
qed

interpretation bt: ordered_map "[]" bt_get bt_insert bt_remove "\<lambda>m. m" bt_wf
  by unfold_locales (auto simp: map_laws bt_wf_distinct intro: bt_ext, simp add: bt_get_def)

section \<open>HashMap implements the interface\<close>

lemma hm_wf_laws [map_laws]:
  "hm_wf []"
  "hm_wf m \<Longrightarrow> hm_wf (hm_insert k v m)"
  "hm_wf m \<Longrightarrow> hm_wf (hm_remove k m)"
  by (simp_all add: hm_wf_def hm_insert_def hm_remove_def distinct_update distinct_delete)

lemma hm_get_laws [map_laws, simp]:
  "hm_get [] j = None"
  "hm_get (hm_insert k v m) j = (if j = k then Some v else hm_get m j)"
  "hm_get (hm_remove k m) j = (if j = k then None else hm_get m j)"
  by (simp_all add: hm_get_def hm_insert_def hm_remove_def update_conv' delete_conv')

interpretation hm: rust_map "[]" hm_get hm_insert hm_remove "\<lambda>m. m" hm_wf
  by unfold_locales (auto simp: map_laws, simp_all add: hm_get_def hm_wf_def)

lemma hm_insert_same: "hm_get m k = Some v \<Longrightarrow> hm_insert k v m = m"
  by (induction m) (auto simp: hm_get_def hm_insert_def)

lemma hm_insert_set: "set (hm_insert k v m) \<subseteq> insert (k, v) (set m)"
  by (induction m) (auto simp: hm_insert_def)

lemma hm_insert_all: "list_all P m \<Longrightarrow> P (k, v) \<Longrightarrow> list_all P (hm_insert k v m)"
  using hm_insert_set [of k v m] by (auto simp: list_all_iff)

lemma hm_insert_twice: "hm_insert k v (hm_insert k w m) = hm_insert k v m"
  by (induction m) (auto simp: hm_insert_def)

lemma bt_insert_set: "set (bt_insert k v m) \<subseteq> insert (k, v) (set m)"
  by (induction m) (auto split: if_splits)

lemma hm_get_Some_in: "hm_get m k = Some v \<Longrightarrow> (k, v) \<in> set m"
  by (simp add: hm_get_def map_of_SomeD)

section \<open>BTreeSet\<close>

lemma bts_wf_insert: "bts_wf s \<Longrightarrow> bts_wf (fst (bts_insert k s))"
  by (auto simp: bts_wf_def bts_insert_def strict_sorted_iff sorted_insort distinct_insort)

lemma bts_insert_set: "set (fst (bts_insert k s)) = insert k (set s)"
  by (auto simp: bts_insert_def set_insort_key)

lemma bts_insert_new: "snd (bts_insert k s) \<longleftrightarrow> k \<notin> set s"
  by (simp add: bts_insert_def)

lemma bts_ext: "bts_wf s \<Longrightarrow> bts_wf t \<Longrightarrow> set s = set t \<Longrightarrow> s = t"
  unfolding bts_wf_def by (rule strict_sorted_equal)

lemma fold_insort_id: "bts_wf s \<Longrightarrow> fold insort s [] = s"
  using fold_insort_wf [of "[]" s]
  by (intro bts_ext) (simp_all add: bts_wf_def strict_sorted_iff)

section \<open>Comparisons of doubles\<close>

lemma f64_cases:
  "f64_lt a b \<or> f64_eq a b \<or> f64_lt b a \<longleftrightarrow> a \<noteq> NaN \<and> b \<noteq> NaN"
  by (cases a; cases b) auto

lemma f64_exclusive:
  "\<not> (f64_lt a b \<and> f64_eq a b)" "\<not> (f64_lt a b \<and> f64_lt b a)"
  by (cases a; cases b; auto)+

section \<open>Splitting strings\<close>

lemma str_split_nonempty [simp]: "str_split c s \<noteq> []"
  by (induction s) (auto split: list.splits)

lemma str_split_no_sep: "p \<in> set (str_split c s) \<Longrightarrow> c \<notin> set p"
  by (induction s arbitrary: p) (auto split: list.splits if_splits)

lemma rfind_absent [simp]: "c \<notin> set s \<Longrightarrow> rfind c s = None"
  by (induction s) auto

lemma rfind_last: "c \<notin> set t \<Longrightarrow> rfind c (s @ c # t) = Some (length s)"
  by (induction s) simp_all

section \<open>Signed words\<close>

lemma sint_neg_iff: "sint (w :: 'a::len word) < 0 \<longleftrightarrow> 2 ^ (LENGTH('a) - 1) \<le> unat w"
proof -
  have "sint w < 0 \<longleftrightarrow> drop_bit (LENGTH('a) - Suc 0) w \<noteq> 0"
    by (simp add: drop_bit_eq_zero_iff_not_bit_last bit_last_iff)
  also have "\<dots> \<longleftrightarrow> unat (drop_bit (LENGTH('a) - Suc 0) w) \<noteq> 0"
    by (simp add: unat_eq_0)
  also have "\<dots> \<longleftrightarrow> 2 ^ (LENGTH('a) - 1) \<le> unat w"
    unfolding unsigned_drop_bit_eq
    by (simp add: drop_bit_eq_div take_bit_nat_eq_self div_eq_0_iff not_less)
  finally show ?thesis .
qed

section \<open>Duration\<close>

lemma duration_new_wf: "duration_new s n = Ok d \<Longrightarrow> duration_wf d"
  by (auto simp: duration_new_def duration_wf_def Let_def split: if_splits)

lemma duration_new_id:
  "duration_wf d \<Longrightarrow> duration_new (dur_secs d) (dur_nanos d) = Ok d"
  by (simp add: duration_wf_def duration_new_def)

lemma duration_new_total:
  "duration_new s n = Ok d \<Longrightarrow> duration_total d = s * 1000000000 + n"
  by (auto simp: duration_new_def duration_total_def Let_def algebra_simps split: if_splits)

lemma duration_le_total:
  "duration_wf a \<Longrightarrow> duration_wf b \<Longrightarrow> a \<le> b \<longleftrightarrow> duration_total a \<le> duration_total b"
  by (auto simp: less_eq_duration_def duration_total_def duration_wf_def)

lemma duration_add_total:
  "duration_add a b = Ok d \<Longrightarrow> duration_total d = duration_total a + duration_total b"
  unfolding duration_add_def by (drule duration_new_total) (simp add: duration_total_def algebra_simps)

end
