(* ===== verification/Crypto.thy ===== *)
theory Crypto
  imports Prelude
begin

text \<open>
  Model of \<open>src/apps/ledger/cfc_crypto/src/lib.rs\<close>: hybrid encryption of client data.
  A message is encrypted with a fresh AEAD key, that key is wrapped for the ledger with
  HPKE, the ledger re-wraps it for a recipient, and the recipient decrypts the message.

  The cryptographic crates and the CBOR codecs (\<open>hpke\<close>, \<open>aes_gcm_siv\<close>, \<open>coset\<close>, \<open>sha2\<close>,
  \<open>p256\<close> and the Oak verifier) are the fields of the parameter \<open>crypto_env\<close>. A key of a
  library is represented by its serialisation and a random draw by the bytes drawn.
  \<open>hpke_laws\<close> and \<open>codec_laws\<close> collect what those crates document and the code relies on.
\<close>

section \<open>Data of the COSE and CBOR crates\<close>

datatype cbor =
    CInteger int
  | CBytes bytes
  | CFloat f64
  | CText string
  | CBool bool
  | CNull
  | CTag nat cbor
  | CArray "cbor list"
  | CMap "(cbor \<times> cbor) list"

fun cbor_as_bytes :: "cbor \<Rightarrow> bytes option" where
  "cbor_as_bytes (CBytes b) = Some b"
| "cbor_as_bytes _ = None"

datatype label = LInt int | LText string
datatype key_type = KtyAssigned int | KtyText string
datatype algorithm = AlgAssigned int | AlgPrivateUse int | AlgText string
datatype claim_name = ClaimAssigned int | ClaimPrivateUse int | ClaimText string
datatype cwt_timestamp = WholeSeconds int | FractionalSeconds f64

record cose_key =
  ck_kty :: key_type
  ck_key_id :: bytes
  ck_alg :: "algorithm option"
  ck_params :: "(label \<times> cbor) list"

record cose_sign1 =
  cs_alg :: "algorithm option"
  cs_payload :: "bytes option"
  cs_signature :: bytes

record claims_set =
  cl_expiration_time :: "cwt_timestamp option"
  cl_issued_at :: "cwt_timestamp option"
  cl_rest :: "(claim_name \<times> cbor) list"

text \<open>Oak messages that the code passes on without looking into them, by their serialisation.\<close>

type_synonym evidence = bytes
type_synonym endorsements = bytes
type_synonym reference_values = bytes

section \<open>The crates that the code calls\<close>

record crypto_env =
  kem_gen_keypair :: "bytes \<Rightarrow> bytes \<times> bytes"
  kem_public_key_from_bytes :: "bytes \<Rightarrow> bytes option"
  kem_private_key_from_bytes :: "bytes \<Rightarrow> bytes option"
  kem_encapped_key_from_bytes :: "bytes \<Rightarrow> bytes option"
  hpke_single_shot_seal :: "bytes \<Rightarrow> bytes \<Rightarrow> bytes \<Rightarrow> bytes \<Rightarrow> bytes \<Rightarrow> (bytes \<times> bytes) option"
  hpke_single_shot_open :: "bytes \<Rightarrow> bytes \<Rightarrow> bytes \<Rightarrow> bytes \<Rightarrow> bytes \<Rightarrow> bytes option"
  aead_generate_key :: "bytes \<Rightarrow> bytes"
  aead_new_from_slice :: "bytes \<Rightarrow> bytes option"
  aead_encrypt :: "bytes \<Rightarrow> bytes \<Rightarrow> bytes \<Rightarrow> bytes \<Rightarrow> bytes option"
  aead_decrypt :: "bytes \<Rightarrow> bytes \<Rightarrow> bytes \<Rightarrow> bytes \<Rightarrow> bytes option"
  cose_key_to_vec :: "cose_key \<Rightarrow> bytes option"
  cose_key_from_slice :: "bytes \<Rightarrow> cose_key option"
  cose_sign1_to_vec :: "cose_sign1 \<Rightarrow> bytes option"
  cose_sign1_from_slice :: "bytes \<Rightarrow> cose_sign1 option"
  cose_sign1_tbs_data :: "cose_sign1 \<Rightarrow> bytes \<Rightarrow> bytes"
  claims_to_vec :: "claims_set \<Rightarrow> bytes option"
  claims_from_slice :: "bytes \<Rightarrow> claims_set option"
  sha256_digest :: "bytes \<Rightarrow> bytes"
  signer_sign :: "bytes \<Rightarrow> bytes option"
  verifying_key_from_sec1 :: "bytes \<Rightarrow> bytes option"
  ecdsa_signature_from_slice :: "bytes \<Rightarrow> bytes option"
  ecdsa_verify :: "bytes \<Rightarrow> bytes \<Rightarrow> bytes \<Rightarrow> bool"
  oak_verify_dice_chain :: "evidence \<Rightarrow> bytes option"
  oak_verify :: "int \<Rightarrow> evidence \<Rightarrow> endorsements \<Rightarrow> reference_values \<Rightarrow> bool"

section \<open>Constants\<close>

definition NONCE :: bytes where
  "NONCE = [0x74, 0xDF, 0x8F, 0xD4, 0xBE, 0x34, 0xAF, 0x64, 0x7F, 0x5E, 0x54, 0xF6]"

definition INFO :: bytes where
  "INFO = []"

definition PUBLIC_KEY_CLAIM :: int where
  "PUBLIC_KEY_CLAIM = -65537"

definition CONFIG_PROPERTIES_CLAIM :: int where
  "CONFIG_PROPERTIES_CLAIM = -65538"

definition HPKE_BASE_X25519_SHA256_AES128GCM :: int where
  "HPKE_BASE_X25519_SHA256_AES128GCM = -65537"

definition AEAD_AES_128_GCM_SIV_FIXED_NONCE :: int where
  "AEAD_AES_128_GCM_SIV_FIXED_NONCE = -65538"

text \<open>Values of the IANA registries, as the enumerations of \<open>coset::iana\<close> assign them.\<close>

definition iana_OKP :: int where "iana_OKP = 1"
definition iana_Symmetric :: int where "iana_Symmetric = 4"
definition iana_Crv :: int where "iana_Crv = -1"
definition iana_X :: int where "iana_X = -2"
definition iana_K :: int where "iana_K = -1"
definition iana_X25519 :: int where "iana_X25519 = 4"
definition iana_ES256 :: int where "iana_ES256 = -7"

section \<open>Operations\<close>

definition cose_param :: "label \<Rightarrow> cose_key \<Rightarrow> bytes option" where
  "cose_param l key =
     (case find (\<lambda>p. fst p = l) (ck_params key) of
        None \<Rightarrow> None
      | Some p \<Rightarrow> cbor_as_bytes (snd p))"

definition wrap_symmetric_key ::
  "crypto_env \<Rightarrow> bytes \<Rightarrow> bytes \<Rightarrow> cose_key \<Rightarrow> bytes \<Rightarrow> (bytes \<times> bytes, string) result" where
  "wrap_symmetric_key env rng symmetric_key recipient_public_key associated_data =
     (if ck_kty recipient_public_key \<noteq> KtyAssigned iana_OKP
         \<or> ck_alg recipient_public_key \<noteq> Some (AlgPrivateUse HPKE_BASE_X25519_SHA256_AES128GCM)
         \<or> \<not> list_ex (\<lambda>p. fst p = LInt iana_Crv \<and> snd p = CInteger iana_X25519)
               (ck_params recipient_public_key)
      then Err ''unsupported CoseKey type''
      else
        and_then (ok_or ''CoseKey missing X parameter''
                    (cose_param (LInt iana_X) recipient_public_key)) (\<lambda>raw.
        and_then (ok_or ''failed to parse recipient public key''
                    (kem_public_key_from_bytes env raw)) (\<lambda>public_key.
        ok_or ''failed to seal key''
          (hpke_single_shot_seal env rng public_key INFO symmetric_key associated_data))))"

definition unwrap_symmetric_key ::
  "crypto_env \<Rightarrow> bytes \<Rightarrow> bytes \<Rightarrow> bytes \<Rightarrow> bytes \<Rightarrow> (bytes, string) result" where
  "unwrap_symmetric_key env encrypted_symmetric_key serialized_encapped_key private_key associated_data =
     and_then (ok_or ''failed to load encapped key''
                 (kem_encapped_key_from_bytes env serialized_encapped_key)) (\<lambda>encapped_key.
     ok_or ''failed to unwrap symmetric key''
       (hpke_single_shot_open env private_key encapped_key INFO encrypted_symmetric_key associated_data))"

definition gen_keypair :: "crypto_env \<Rightarrow> bytes \<Rightarrow> bytes \<Rightarrow> bytes \<times> cose_key" where
  "gen_keypair env rng key_id =
     (let (private_key, raw_public_key) = kem_gen_keypair env rng in
      (private_key,
       \<lparr> ck_kty = KtyAssigned iana_OKP,
         ck_key_id = key_id,
         ck_alg = Some (AlgPrivateUse HPKE_BASE_X25519_SHA256_AES128GCM),
         ck_params = [(LInt iana_Crv, CInteger iana_X25519),
                      (LInt iana_X, CBytes raw_public_key)] \<rparr>))"

text \<open>\<open>rng_key\<close> is the draw for the AEAD key and \<open>rng_seal\<close> the one for the HPKE seal.\<close>

definition encrypt_message ::
  "crypto_env \<Rightarrow> bytes \<Rightarrow> bytes \<Rightarrow> bytes \<Rightarrow> cose_key \<Rightarrow> bytes
   \<Rightarrow> (bytes \<times> bytes \<times> bytes, string) result" where
  "encrypt_message env rng_key rng_seal plaintext public_key associated_data =
     (let symmetric_key = aead_generate_key env rng_key in
      and_then (ok_or ''failed to encrypt plaintext''
                  (aead_encrypt env symmetric_key NONCE plaintext associated_data)) (\<lambda>ciphertext.
      and_then (ok_or ''failed to serialize CoseKey''
                  (cose_key_to_vec env
                    \<lparr> ck_kty = KtyAssigned iana_Symmetric,
                      ck_key_id = [],
                      ck_alg = Some (AlgPrivateUse AEAD_AES_128_GCM_SIV_FIXED_NONCE),
                      ck_params = [(LInt iana_K, CBytes symmetric_key)] \<rparr>)) (\<lambda>cose_key.
      and_then (wrap_symmetric_key env rng_seal cose_key public_key associated_data)
        (\<lambda>(encapped_key, encrypted_symmetric_key).
           Ok (ciphertext, encapped_key, encrypted_symmetric_key)))))"

definition rewrap_symmetric_key ::
  "crypto_env \<Rightarrow> bytes \<Rightarrow> bytes \<Rightarrow> bytes \<Rightarrow> bytes \<Rightarrow> bytes \<Rightarrow> cose_key \<Rightarrow> bytes
   \<Rightarrow> (bytes \<times> bytes, string) result" where
  "rewrap_symmetric_key env rng encrypted_symmetric_key serialized_encapped_key private_key
     unwrap_associated_data recipient_public_key wrap_associated_data =
     and_then (unwrap_symmetric_key env encrypted_symmetric_key serialized_encapped_key private_key
                 unwrap_associated_data) (\<lambda>symmetric_key.
     wrap_symmetric_key env rng symmetric_key recipient_public_key wrap_associated_data)"

definition decrypt_message ::
  "crypto_env \<Rightarrow> bytes \<Rightarrow> bytes \<Rightarrow> bytes \<Rightarrow> bytes \<Rightarrow> bytes \<Rightarrow> bytes \<Rightarrow> (bytes, string) result" where
  "decrypt_message env ciphertext ciphertext_associated_data encrypted_symmetric_key
     encrypted_symmetric_key_associated_data serialized_encapped_key private_key =
     and_then (unwrap_symmetric_key env encrypted_symmetric_key serialized_encapped_key private_key
                 encrypted_symmetric_key_associated_data) (\<lambda>symmetric_key.
     and_then (ok_or ''failed to decode CoseKey'' (cose_key_from_slice env symmetric_key)) (\<lambda>cose_key.
     if ck_kty cose_key \<noteq> KtyAssigned iana_Symmetric
        \<or> ck_alg cose_key \<noteq> Some (AlgPrivateUse AEAD_AES_128_GCM_SIV_FIXED_NONCE)
     then Err ''unsupported CoseKey type''
     else
       and_then (ok_or ''CoseKey missing K parameter'' (cose_param (LInt iana_K) cose_key)) (\<lambda>raw.
       and_then (ok_or ''failed to load symmetric key'' (aead_new_from_slice env raw)) (\<lambda>cipher.
       ok_or ''failed to decrypt data''
         (aead_decrypt env cipher NONCE ciphertext ciphertext_associated_data)))))"

definition extract_key_from_cwt :: "crypto_env \<Rightarrow> bytes \<Rightarrow> (cose_key, string) result" where
  "extract_key_from_cwt env cwt =
     and_then (ok_or ''failed to decode CWT claims''
                 (case cose_sign1_from_slice env cwt of
                    None \<Rightarrow> None
                  | Some c \<Rightarrow> claims_from_slice env (case cs_payload c of Some p \<Rightarrow> p | None \<Rightarrow> []))) (\<lambda>claims.
     and_then (ok_or ''missing public key claim''
                 (find (\<lambda>c. fst c = ClaimPrivateUse PUBLIC_KEY_CLAIM) (cl_rest claims))) (\<lambda>claim.
     and_then (ok_or ''invalid public key claim'' (cbor_as_bytes (snd claim))) (\<lambda>b.
     ok_or ''failed to decode CoseKey'' (cose_key_from_slice env b))))"

section \<open>Documented behaviour of the crates\<close>

text \<open>
  RFC 9180: opening a sealed message with the matching private key and the same info and
  associated data returns the plaintext. Keys and encapsulated keys read back from their
  serialisation, and AEAD decryption inverts encryption.
\<close>

definition hpke_laws :: "crypto_env \<Rightarrow> bool" where
  "hpke_laws env \<longleftrightarrow>
     (\<forall>rng pk sk. kem_gen_keypair env rng = (sk, pk) \<longrightarrow> kem_public_key_from_bytes env pk = Some pk) \<and>
     (\<forall>rng sk pk rng' info pt aad e c.
        kem_gen_keypair env rng = (sk, pk) \<longrightarrow>
        hpke_single_shot_seal env rng' pk info pt aad = Some (e, c) \<longrightarrow>
        kem_encapped_key_from_bytes env e = Some e \<and>
        hpke_single_shot_open env sk e info c aad = Some pt)"

definition aead_laws :: "crypto_env \<Rightarrow> bool" where
  "aead_laws env \<longleftrightarrow>
     (\<forall>rng. aead_new_from_slice env (aead_generate_key env rng) = Some (aead_generate_key env rng)) \<and>
     (\<forall>k n m a c. aead_encrypt env k n m a = Some c \<longrightarrow> aead_decrypt env k n c a = Some m)"

text \<open>Decoding what was encoded gives the value back.\<close>

definition codec_laws :: "crypto_env \<Rightarrow> bool" where
  "codec_laws env \<longleftrightarrow>
     (\<forall>k b. cose_key_to_vec env k = Some b \<longrightarrow> cose_key_from_slice env b = Some k) \<and>
     (\<forall>s b. cose_sign1_to_vec env s = Some b \<longrightarrow> cose_sign1_from_slice env b = Some s) \<and>
     (\<forall>c b. claims_to_vec env c = Some b \<longrightarrow> claims_from_slice env b = Some c)"


text \<open>
  An instance of the environment that satisfies these laws: the seal puts the associated
  data in front of the plaintext and opening checks it. It shows that the laws can hold
  and is where the witnesses of the development run the code.
\<close>

definition demo_aead_key :: bytes where
  "demo_aead_key = replicate 16 7"

definition demo_symmetric_cose_key :: cose_key where
  "demo_symmetric_cose_key =
     \<lparr> ck_kty = KtyAssigned iana_Symmetric, ck_key_id = [],
       ck_alg = Some (AlgPrivateUse AEAD_AES_128_GCM_SIV_FIXED_NONCE),
       ck_params = [(LInt iana_K, CBytes demo_aead_key)] \<rparr>"

definition demo_open :: "bytes \<Rightarrow> bytes \<Rightarrow> bytes option" where
  "demo_open c aad = (if take (length aad) c = aad then Some (drop (length aad) c) else None)"

definition demo_public_cose_key :: "bytes \<Rightarrow> bytes \<Rightarrow> cose_key" where
  "demo_public_cose_key kid raw =
     \<lparr> ck_kty = KtyAssigned iana_OKP, ck_key_id = kid,
       ck_alg = Some (AlgPrivateUse HPKE_BASE_X25519_SHA256_AES128GCM),
       ck_params = [(LInt iana_Crv, CInteger iana_X25519), (LInt iana_X, CBytes raw)] \<rparr>"

definition demo_claims :: "bytes \<Rightarrow> int \<Rightarrow> int \<Rightarrow> claims_set" where
  "demo_claims key expires issued =
     \<lparr> cl_expiration_time = Some (WholeSeconds expires), cl_issued_at = Some (WholeSeconds issued),
       cl_rest = [(ClaimPrivateUse PUBLIC_KEY_CLAIM, CBytes key)] \<rparr>"

text \<open>Public keys with a one-byte id and a one-byte raw key encode as tag 1 and these two bytes.\<close>

definition demo_env :: crypto_env where
  "demo_env =
     \<lparr> kem_gen_keypair = (\<lambda>rng. (rng, rng)),
       kem_public_key_from_bytes = Some,
       kem_private_key_from_bytes = Some,
       kem_encapped_key_from_bytes = Some,
       hpke_single_shot_seal = (\<lambda>rng pk info pt aad. Some (rng, aad @ pt)),
       hpke_single_shot_open = (\<lambda>sk e info c aad. demo_open c aad),
       aead_generate_key = (\<lambda>rng. demo_aead_key),
       aead_new_from_slice = (\<lambda>k. if length k = 16 then Some k else None),
       aead_encrypt = (\<lambda>k n m a. Some (k @ n @ a @ m)),
       aead_decrypt = (\<lambda>k n c a. demo_open c (k @ n @ a)),
       cose_key_to_vec = (\<lambda>k.
         if k = demo_symmetric_cose_key then Some [0]
         else case (ck_key_id k, cose_param (LInt iana_X) k) of
           ([i], Some [r]) \<Rightarrow> if k = demo_public_cose_key [i] [r] then Some [1, i, r] else None
         | _ \<Rightarrow> None),
       cose_key_from_slice = (\<lambda>b.
         case b of [x] \<Rightarrow> if x = 0 then Some demo_symmetric_cose_key else None
         | [t, i, r] \<Rightarrow> Some (demo_public_cose_key [i] [r])
         | _ \<Rightarrow> None),
       cose_sign1_to_vec = (\<lambda>s. case cs_payload s of
           Some p \<Rightarrow> if s = \<lparr> cs_alg = Some (AlgAssigned iana_ES256), cs_payload = Some p, cs_signature = [9] \<rparr>
                     then Some p else None
         | None \<Rightarrow> None),
       cose_sign1_from_slice = (\<lambda>b.
         Some \<lparr> cs_alg = Some (AlgAssigned iana_ES256), cs_payload = Some b, cs_signature = [9] \<rparr>),
       cose_sign1_tbs_data = (\<lambda>s aad. aad),
       claims_to_vec = (\<lambda>c. case cl_rest c of
           [(n, CBytes key)] \<Rightarrow>
             if c = demo_claims key 100 0 then Some (10 # key)
             else if c = demo_claims key 100 10 then Some (11 # key) else None
         | _ \<Rightarrow> None),
       claims_from_slice = (\<lambda>b. case b of
           [] \<Rightarrow> None
         | t # key \<Rightarrow> if t = 10 then Some (demo_claims key 100 0)
                    else if t = 11 then Some (demo_claims key 100 10) else None),
       sha256_digest = (\<lambda>b. b),
       signer_sign = (\<lambda>m. Some [9]),
       verifying_key_from_sec1 = Some,
       ecdsa_signature_from_slice = Some,
       ecdsa_verify = (\<lambda>vk m s. s = [9]),
       oak_verify_dice_chain = (\<lambda>e. if e = [] then None else Some e),
       oak_verify = (\<lambda>now ev en rv. ev = rv) \<rparr>"

lemma demo_env_hpke_laws: "hpke_laws demo_env"
  by (simp add: hpke_laws_def demo_env_def demo_open_def)

lemma demo_env_aead_laws: "aead_laws demo_env"
  by (auto simp: aead_laws_def demo_env_def demo_open_def demo_aead_key_def)

lemma demo_env_codec_laws: "codec_laws demo_env"
  by (auto simp: codec_laws_def demo_env_def split: if_splits list.splits option.splits cbor.splits)

section \<open>Wrapping and unwrapping\<close>

lemma gen_keypair_wrap:
  assumes "hpke_laws env" "gen_keypair env r kid = (sk, pk)"
  shows "wrap_symmetric_key env r' m pk ad =
    ok_or ''failed to seal key''
      (hpke_single_shot_seal env r' (snd (kem_gen_keypair env r)) INFO m ad)"
proof -
  have "kem_public_key_from_bytes env (snd (kem_gen_keypair env r)) = Some (snd (kem_gen_keypair env r))"
    using assms(1) unfolding hpke_laws_def by (metis prod.collapse)
  with assms(2) show ?thesis
    by (auto simp: gen_keypair_def wrap_symmetric_key_def cose_param_def iana_Crv_def iana_X_def
        split: prod.splits)
qed

text \<open>What is wrapped for a generated key unwraps with its private key and the same associated data.\<close>

lemma unwrap_wrap:
  assumes "hpke_laws env" "gen_keypair env r kid = (sk, pk)"
    and "wrap_symmetric_key env r' m pk ad = Ok (e, c)"
  shows "unwrap_symmetric_key env c e sk ad = Ok m"
proof -
  obtain raw where kp: "kem_gen_keypair env r = (sk, raw)"
    using assms(2) by (auto simp: gen_keypair_def split: prod.splits)
  have "hpke_single_shot_seal env r' raw INFO m ad = Some (e, c)"
    using assms(3) by (simp add: gen_keypair_wrap [OF assms(1,2)] kp result_simps)
  then show ?thesis
    using assms(1) kp unfolding hpke_laws_def unwrap_symmetric_key_def by fastforce
qed

lemma encrypt_message_parts:
  assumes "encrypt_message env rk rs pt pk ad = Ok (ct, e, c)"
  obtains symkey where
    "aead_encrypt env (aead_generate_key env rk) NONCE pt ad = Some ct"
    "cose_key_to_vec env
       \<lparr> ck_kty = KtyAssigned iana_Symmetric, ck_key_id = [],
         ck_alg = Some (AlgPrivateUse AEAD_AES_128_GCM_SIV_FIXED_NONCE),
         ck_params = [(LInt iana_K, CBytes (aead_generate_key env rk))] \<rparr> = Some symkey"
    "wrap_symmetric_key env rs symkey pk ad = Ok (e, c)"
  using assms by (auto simp: encrypt_message_def Let_def result_simps split: prod.splits)

lemma decrypt_wrapped:
  assumes "aead_laws env" "codec_laws env"
    and "aead_encrypt env (aead_generate_key env rk) NONCE pt ad = Some ct"
    and "cose_key_to_vec env
       \<lparr> ck_kty = KtyAssigned iana_Symmetric, ck_key_id = [],
         ck_alg = Some (AlgPrivateUse AEAD_AES_128_GCM_SIV_FIXED_NONCE),
         ck_params = [(LInt iana_K, CBytes (aead_generate_key env rk))] \<rparr> = Some symkey"
    and "unwrap_symmetric_key env c e sk wad = Ok symkey"
  shows "decrypt_message env ct ad c wad e sk = Ok pt"
  using assms
  by (auto simp: decrypt_message_def aead_laws_def codec_laws_def cose_param_def)

text \<open>
  C26. End-to-end round trip of the hybrid encryption. A message encrypted for a ledger key,
  whose symmetric key the ledger re-wraps for a recipient key under other associated data,
  decrypts to the plaintext with the recipient's private key; the only way the re-wrapping
  can fail is that the HPKE seal itself fails.
\<close>

theorem rewrap_roundtrip:
  assumes "hpke_laws env" "aead_laws env" "codec_laws env"
    and "gen_keypair env r1 ledger_kid = (ledger_sk, ledger_pk)"
    and "gen_keypair env r2 recipient_kid = (recipient_sk, recipient_pk)"
    and "encrypt_message env rk rs plaintext ledger_pk header = Ok (ciphertext, encapped, wrapped)"
  shows "case rewrap_symmetric_key env r3 wrapped encapped ledger_sk header recipient_pk wad of
           Ok (encapped', wrapped') \<Rightarrow>
             decrypt_message env ciphertext header wrapped' wad encapped' recipient_sk = Ok plaintext
         | Err e \<Rightarrow> e = ''failed to seal key''
         | Panic \<Rightarrow> False"
proof -
  obtain symkey where symkey: "aead_encrypt env (aead_generate_key env rk) NONCE plaintext header = Some ciphertext"
    "cose_key_to_vec env
       \<lparr> ck_kty = KtyAssigned iana_Symmetric, ck_key_id = [],
         ck_alg = Some (AlgPrivateUse AEAD_AES_128_GCM_SIV_FIXED_NONCE),
         ck_params = [(LInt iana_K, CBytes (aead_generate_key env rk))] \<rparr> = Some symkey"
    "wrap_symmetric_key env rs symkey ledger_pk header = Ok (encapped, wrapped)"
    using assms(6) by (rule encrypt_message_parts)
  have "rewrap_symmetric_key env r3 wrapped encapped ledger_sk header recipient_pk wad =
      wrap_symmetric_key env r3 symkey recipient_pk wad"
    by (simp add: rewrap_symmetric_key_def unwrap_wrap [OF assms(1,4) symkey(3)])
  then show ?thesis
    using decrypt_wrapped [OF assms(2,3) symkey(1,2)] unwrap_wrap [OF assms(1,5)]
      gen_keypair_wrap [OF assms(1,5), of r3 symkey wad]
    by (cases "hpke_single_shot_seal env r3 (snd (kem_gen_keypair env r2)) INFO symkey wad")
      (auto split: prod.splits)
qed

theorem rewrap_roundtrip_witness:
  "case rewrap_symmetric_key demo_env [3] [5, 0] [2] [1] [5] (demo_public_cose_key [4] [6]) [8, 8] of
     Ok (e, c) \<Rightarrow> decrypt_message demo_env (demo_aead_key @ NONCE @ [5] @ [42, 43]) [5] c [8, 8] e [6] = Ok [42, 43]
   | Err e \<Rightarrow> e = ''failed to seal key''
   | Panic \<Rightarrow> False"
  by (rule rewrap_roundtrip [OF demo_env_hpke_laws demo_env_aead_laws demo_env_codec_laws,
        where ?r1.0 = "[1]" and ?r2.0 = "[6]" and ledger_kid = "[3]" and recipient_kid = "[4]"
        and ledger_pk = "demo_public_cose_key [3] [1]" and rk = "[]" and rs = "[2]"])
    (simp_all add: gen_keypair_def demo_env_def demo_public_cose_key_def encrypt_message_def
      wrap_symmetric_key_def cose_param_def iana_Crv_def iana_X_def demo_symmetric_cose_key_def Let_def)

end
