(* ===== verification/Attestation.thy ===== *)
theory Attestation
  imports Crypto
begin

text \<open>
  Model of \<open>src/apps/ledger/service/src/attestation.rs\<close>: an application that asks for
  access is described by its tag, its attestation evidence and the configuration
  properties in its signed public key, and is matched against the conditions of an
  access policy. \<open>Struct::decode\<close> of the protobuf runtime is the parameter \<open>decode_struct\<close>;
  the Oak verifier and the signature checks come with \<open>crypto_env\<close>.
\<close>

section \<open>google.protobuf.Struct\<close>

text \<open>A \<open>Value\<close> is the option of its kind, a \<open>Struct\<close> the ordered map of its fields.\<close>

datatype value_kind =
    NullValue
  | NumberValue f64
  | StringValue string
  | BoolValue bool
  | StructValue "(string \<times> value_kind option) list"
  | ListValue "value_kind option list"

type_synonym pb_value = "value_kind option"
type_synonym pb_struct = "(string, pb_value) btree"

section \<open>Matchers of the access policy\<close>

datatype number_matcher = Lt f64 | Le f64 | Eq f64 | Ge f64 | Gt f64

text \<open>\<open>ValueMatcher\<close> has the single kind \<open>number_value\<close>; the inner option is the kind of \<open>NumberMatcher\<close>.\<close>

datatype value_matcher_kind = NumberValueMatcher "number_matcher option"

type_synonym value_matcher = "value_matcher_kind option"

record field_matcher =
  fm_path :: string
  fm_matcher :: "value_matcher option"

type_synonym struct_matcher = "field_matcher list"

record application_matcher =
  am_tag :: "string option"
  am_reference_values :: "reference_values option"
  am_config_properties :: "struct_matcher option"

record application =
  app_tag :: string
  app_evidence :: "evidence option"
  app_endorsements :: "endorsements option"
  app_config_properties :: "pb_struct option"

section \<open>Operations\<close>

definition number_value_matches :: "f64 \<Rightarrow> number_matcher option \<Rightarrow> bool" where
  "number_value_matches value matcher =
     (case matcher of
        Some (Lt x) \<Rightarrow> f64_lt value x
      | Some (Le x) \<Rightarrow> f64_le value x
      | Some (Eq x) \<Rightarrow> f64_eq value x
      | Some (Ge x) \<Rightarrow> f64_le x value
      | Some (Gt x) \<Rightarrow> f64_lt x value
      | None \<Rightarrow> False)"

fun value_matches :: "pb_value \<Rightarrow> value_matcher option \<Rightarrow> bool" where
  "value_matches _ None = True"
| "value_matches _ (Some None) = True"
| "value_matches (Some (NumberValue v)) (Some (Some (NumberValueMatcher m))) = number_value_matches v m"
| "value_matches _ (Some (Some (NumberValueMatcher _))) = False"

text \<open>
  The loop over the parts of a path, with the early return as \<open>Inl\<close>: the struct to look
  into is the argument while no value has been found and the found value afterwards.
\<close>

fun path_loop :: "pb_struct option \<Rightarrow> pb_value option \<Rightarrow> string list \<Rightarrow> bool + pb_value option" where
  "path_loop struct_value current_value [] = Inr current_value"
| "path_loop struct_value current_value (path_part # rest) =
     (case (current_value, struct_value) of
        (None, Some s) \<Rightarrow> path_loop struct_value (bt_get s path_part) rest
      | (Some (Some (StructValue s)), _) \<Rightarrow> path_loop struct_value (bt_get s path_part) rest
      | _ \<Rightarrow> Inl False)"

definition struct_value_matches :: "pb_struct option \<Rightarrow> struct_matcher \<Rightarrow> bool" where
  "struct_value_matches struct_value matcher =
     list_all (\<lambda>field_matcher.
       case path_loop struct_value None (str_split (CHR ''.'') (fm_path field_matcher)) of
         Inl b \<Rightarrow> b
       | Inr current_value \<Rightarrow>
           (case current_value of
              None \<Rightarrow> False
            | Some v \<Rightarrow> value_matches v (fm_matcher field_matcher))) matcher"

definition config_properties_match :: "application \<Rightarrow> struct_matcher option \<Rightarrow> bool" where
  "config_properties_match app config_properties =
     (case config_properties of
        None \<Rightarrow> True
      | Some cp \<Rightarrow> struct_value_matches (app_config_properties app) cp)"

text \<open>\<open>as_millis\<close> is a \<open>u128\<close>; the conversion to \<open>i64\<close> fails above \<open>i64::MAX\<close>.\<close>

definition duration_as_millis :: "duration \<Rightarrow> nat" where
  "duration_as_millis d = dur_secs d * 1000 + dur_nanos d div 1000000"

definition reference_values_match ::
  "crypto_env \<Rightarrow> application \<Rightarrow> reference_values option \<Rightarrow> duration \<Rightarrow> bool" where
  "reference_values_match env app reference_values now =
     (case reference_values of
        None \<Rightarrow> True
      | Some rv \<Rightarrow>
          (if duration_as_millis now \<ge> 2 ^ 63 then False
           else case (app_evidence app, app_endorsements app) of
             (Some evidence, Some endorsements) \<Rightarrow>
               oak_verify env (int (duration_as_millis now)) evidence endorsements rv
           | _ \<Rightarrow> False))"

definition tag_matches :: "application \<Rightarrow> string option \<Rightarrow> bool" where
  "tag_matches app tag = (case tag of None \<Rightarrow> True | Some t \<Rightarrow> app_tag app = t)"

definition matches :: "crypto_env \<Rightarrow> application \<Rightarrow> application_matcher option \<Rightarrow> duration \<Rightarrow> bool" where
  "matches env app matcher now =
     (case matcher of
        None \<Rightarrow> True
      | Some m \<Rightarrow>
          tag_matches app (am_tag m)
          \<and> reference_values_match env app (am_reference_values m) now
          \<and> config_properties_match app (am_config_properties m))"

text \<open>The checks on a public key that comes with evidence, and its configuration properties.\<close>

definition cwt_config_properties ::
  "crypto_env \<Rightarrow> (bytes \<Rightarrow> pb_struct option) \<Rightarrow> cose_sign1 \<Rightarrow> (pb_struct option, string) result" where
  "cwt_config_properties env decode_struct cwt =
     (case claims_from_slice env (case cs_payload cwt of Some p \<Rightarrow> p | None \<Rightarrow> []) of
        None \<Rightarrow> Err ''failed to decode config properties claim''
      | Some claims \<Rightarrow>
          (case find (\<lambda>c. fst c = ClaimPrivateUse CONFIG_PROPERTIES_CLAIM) (cl_rest claims) of
             None \<Rightarrow> Ok None
           | Some claim \<Rightarrow>
               (case cbor_as_bytes (snd claim) of
                  None \<Rightarrow> Err ''failed to decode config properties claim''
                | Some b \<Rightarrow>
                    (case decode_struct b of
                       None \<Rightarrow> Err ''failed to decode config properties claim''
                     | Some s \<Rightarrow> Ok (Some s)))))"

definition cwt_verify_signature :: "crypto_env \<Rightarrow> bytes \<Rightarrow> cose_sign1 \<Rightarrow> bool" where
  "cwt_verify_signature env verifying_key cwt =
     (case ecdsa_signature_from_slice env (cs_signature cwt) of
        None \<Rightarrow> False
      | Some sig \<Rightarrow> ecdsa_verify env verifying_key (cose_sign1_tbs_data env cwt []) sig)"

definition verify_attestation ::
  "crypto_env \<Rightarrow> (bytes \<Rightarrow> pb_struct option) \<Rightarrow> bytes \<Rightarrow> evidence option \<Rightarrow> endorsements option \<Rightarrow> string
   \<Rightarrow> (application \<times> cose_key, string) result" where
  "verify_attestation env decode_struct public_key evidence endorsements tag =
     and_then
       (case evidence of
          None \<Rightarrow> Ok None
        | Some ev \<Rightarrow>
            and_then (ok_or ''invalid public key'' (cose_sign1_from_slice env public_key)) (\<lambda>cwt.
            if cs_alg cwt \<noteq> None \<and> cs_alg cwt \<noteq> Some (AlgAssigned iana_ES256)
            then Err ''unsupported public key algorithm''
            else
              and_then (ok_or ''invalid DICE chain'' (oak_verify_dice_chain env ev)) (\<lambda>signing_public_key.
              and_then (ok_or ''invalid application signing key''
                          (verifying_key_from_sec1 env signing_public_key)) (\<lambda>verifying_key.
              if \<not> cwt_verify_signature env verifying_key cwt then Err ''invalid public key signature''
              else cwt_config_properties env decode_struct cwt)))) (\<lambda>config_properties.
     and_then (map_err (\<lambda>_. ''invalid public key'') (extract_key_from_cwt env public_key)) (\<lambda>key.
     Ok (\<lparr> app_tag = tag, app_evidence = evidence, app_endorsements = endorsements,
           app_config_properties = config_properties \<rparr>, key)))"

text \<open>The application that \<open>demo_env\<close> attests in the witnesses.\<close>

definition demo_app :: application where
  "demo_app = \<lparr> app_tag = ''t'', app_evidence = Some [5], app_endorsements = Some [],
                app_config_properties = None \<rparr>"

section \<open>Path lookup\<close>

text \<open>The specification of the path loop: the value that a path names in a struct, if any.\<close>

fun struct_lookup :: "pb_struct \<Rightarrow> string list \<Rightarrow> pb_value option" where
  "struct_lookup s [] = None"
| "struct_lookup s [p] = bt_get s p"
| "struct_lookup s (p # q # ps) =
     (case bt_get s p of
        Some (Some (StructValue t)) \<Rightarrow> struct_lookup t (q # ps)
      | _ \<Rightarrow> None)"

definition field_value :: "pb_struct option \<Rightarrow> string \<Rightarrow> pb_value option" where
  "field_value struct_value path =
     (case struct_value of
        None \<Rightarrow> None
      | Some s \<Rightarrow> struct_lookup s (str_split (CHR ''.'') path))"


text \<open>Every proper prefix of the path names a value.\<close>

fun prefixes_present :: "pb_struct \<Rightarrow> string list \<Rightarrow> bool" where
  "prefixes_present s (p # q # ps) =
     (case bt_get s p of
        None \<Rightarrow> False
      | Some (Some (StructValue t)) \<Rightarrow> prefixes_present t (q # ps)
      | Some _ \<Rightarrow> True)"
| "prefixes_present s _ = True"

text \<open>What a field matcher concludes from the outcome of the loop.\<close>

definition loop_value :: "bool + pb_value option \<Rightarrow> pb_value option" where
  "loop_value r = (case r of Inl _ \<Rightarrow> None | Inr v \<Rightarrow> v)"

lemma path_loop_Inl: "path_loop sv cv ps = Inl b \<Longrightarrow> \<not> b"
  by (induction sv cv ps rule: path_loop.induct) (auto split: option.splits value_kind.splits)

lemma struct_value_matches_loop:
  "struct_value_matches sv matcher \<longleftrightarrow>
     (\<forall>fm \<in> set matcher. \<exists>v.
        loop_value (path_loop sv None (str_split (CHR ''.'') (fm_path fm))) = Some v \<and>
        value_matches v (fm_matcher fm))"
  unfolding struct_value_matches_def list_all_iff loop_value_def
proof (rule ball_cong [OF refl])
  fix fm :: field_matcher
  show "(case path_loop sv None (str_split (CHR ''.'') (fm_path fm)) of Inl b \<Rightarrow> b
      | Inr cv \<Rightarrow> (case cv of None \<Rightarrow> False | Some v \<Rightarrow> value_matches v (fm_matcher fm))) \<longleftrightarrow>
    (\<exists>v. (case path_loop sv None (str_split (CHR ''.'') (fm_path fm)) of Inl _ \<Rightarrow> None | Inr v \<Rightarrow> v) = Some v
      \<and> value_matches v (fm_matcher fm))"
    using path_loop_Inl by (auto split: sum.splits option.splits)
qed

lemma struct_lookup_loop:
  assumes "struct_lookup t ps = Some v"
  shows "path_loop (Some r) (Some (Some (StructValue t))) ps = Inr (Some v)"
  using assms
proof (induction t ps rule: struct_lookup.induct)
  case (3 s p q ps)
  then show ?case
    by (auto split: option.splits value_kind.splits)
qed auto

lemma path_loop_start:
  "ps \<noteq> [] \<Longrightarrow> path_loop (Some s) None ps = path_loop (Some s) (Some (Some (StructValue s))) ps"
  by (cases ps) auto

lemma loop_lookup_present:
  assumes "prefixes_present t ps" "ps \<noteq> []"
  shows "loop_value (path_loop (Some r) (Some (Some (StructValue t))) ps) = struct_lookup t ps"
  using assms
proof (induction t ps rule: struct_lookup.induct)
  case (3 s p q ps)
  then show ?case
    by (auto simp: loop_value_def split: option.splits value_kind.splits)
qed (auto simp: loop_value_def)

lemma loop_field_present:
  assumes "prefixes_present s (str_split (CHR ''.'') path)"
  shows "loop_value (path_loop (Some s) None (str_split (CHR ''.'') path)) = field_value (Some s) path"
  using loop_lookup_present [OF assms str_split_nonempty]
  by (simp add: field_value_def path_loop_start)


section \<open>Properties\<close>

text \<open>
  Matching of configuration properties: when no path of the matcher runs through a
  missing field, a struct matches exactly when every path of the matcher names a value of
  the struct and that value satisfies the matcher of the path.
\<close>

theorem struct_value_matches_iff:
  assumes "\<forall>fm \<in> set matcher. prefixes_present s (str_split (CHR ''.'') (fm_path fm))"
  shows "struct_value_matches (Some s) matcher \<longleftrightarrow>
    (\<forall>fm \<in> set matcher. \<exists>v. field_value (Some s) (fm_path fm) = Some v \<and> value_matches v (fm_matcher fm))"
  using assms by (simp add: struct_value_matches_loop loop_field_present)

theorem struct_value_matches_iff_witness:
  "struct_value_matches (Some [(''a'', Some (StructValue [(''b'', Some (NumberValue (Finite 2)))]))])
     [\<lparr> fm_path = ''a.b'', fm_matcher = Some (Some (NumberValueMatcher (Some (Lt (Finite 3))))) \<rparr>]"
  by (rule struct_value_matches_iff [THEN iffD2])
    (simp_all add: field_value_def bt_get_def number_value_matches_def)

text \<open>
  A path whose first part is missing is looked up again from the root: with no field
  \<open>p\<close>, the path \<open>p.q\<close> matches exactly when the top-level field \<open>q\<close> exists and matches,
  although the struct has no value at \<open>p.q\<close>.
\<close>

theorem struct_value_matches_missing_parent:
  assumes "str_split (CHR ''.'') path = [p, q]" "bt_get s p = None"
  shows "field_value (Some s) path = None \<and>
    (struct_value_matches (Some s) [\<lparr> fm_path = path, fm_matcher = m \<rparr>] \<longleftrightarrow>
      (\<exists>v. bt_get s q = Some v \<and> value_matches v m))"
  using assms by (auto simp: field_value_def struct_value_matches_loop loop_value_def)

theorem struct_value_matches_missing_parent_witness:
  "field_value (Some [(''q'', Some (NumberValue (Finite 1)))]) ''p.q'' = None \<and>
   struct_value_matches (Some [(''q'', Some (NumberValue (Finite 1)))])
     [\<lparr> fm_path = ''p.q'', fm_matcher = Some (Some (NumberValueMatcher (Some (Ge (Finite 1))))) \<rparr>]"
  using struct_value_matches_missing_parent [of "''p.q''" "''p''" "''q''"
      "[(''q'', Some (NumberValue (Finite 1)))]" "Some (Some (NumberValueMatcher (Some (Ge (Finite 1)))))"]
  by (simp add: bt_get_def number_value_matches_def f64_le_def)

lemma verify_attestation_Ok:
  assumes "verify_attestation env dec pk ev en tag = Ok (app, key)"
  shows "app_tag app = tag" "app_evidence app = ev" "app_endorsements app = en"
    and "extract_key_from_cwt env pk = Ok key"
    and "ev = None \<Longrightarrow> app_config_properties app = None"
    and "ev = Some e \<Longrightarrow> \<exists>cwt signing_key vk.
      cose_sign1_from_slice env pk = Some cwt \<and>
      (cs_alg cwt = None \<or> cs_alg cwt = Some (AlgAssigned iana_ES256)) \<and>
      oak_verify_dice_chain env e = Some signing_key \<and>
      verifying_key_from_sec1 env signing_key = Some vk \<and>
      cwt_verify_signature env vk cwt \<and>
      cwt_config_properties env dec cwt = Ok (app_config_properties app)"
  using assms
  by (auto simp: verify_attestation_def result_simps split: option.splits if_splits)

text \<open>
  C27. An application admitted by \<open>verify_attestation\<close> that then matches a matcher with
  reference values has evidence and endorsements that the Oak verifier accepts against
  these reference values at the current time, and its public key, together with the
  configuration properties that were matched, is signed by the key that the DICE chain of
  the evidence certifies.
\<close>

theorem attested_match_sound:
  assumes "verify_attestation env decode_struct public_key evidence endorsements tag = Ok (app, key)"
    and "matches env app (Some m) now"
    and "am_reference_values m = Some rv"
  shows "\<exists>ev en cwt signing_key vk.
    evidence = Some ev \<and> endorsements = Some en \<and>
    oak_verify env (int (duration_as_millis now)) ev en rv \<and>
    cose_sign1_from_slice env public_key = Some cwt \<and>
    oak_verify_dice_chain env ev = Some signing_key \<and>
    verifying_key_from_sec1 env signing_key = Some vk \<and>
    cwt_verify_signature env vk cwt \<and>
    cwt_config_properties env decode_struct cwt = Ok (app_config_properties app) \<and>
    extract_key_from_cwt env public_key = Ok key"
proof -
  have "reference_values_match env app (Some rv) now"
    using assms(2,3) by (simp add: matches_def)
  then obtain ev en where evs: "evidence = Some ev" "endorsements = Some en"
    "oak_verify env (int (duration_as_millis now)) ev en rv"
    using verify_attestation_Ok(2,3) [OF assms(1)]
    by (auto simp: reference_values_match_def split: option.splits if_splits)
  then show ?thesis
    using verify_attestation_Ok(6) [OF assms(1) evs(1)] verify_attestation_Ok(4) [OF assms(1)]
    by auto
qed

theorem attested_match_sound_witness:
  "\<exists>ev en cwt signing_key vk.
    Some [5] = Some ev \<and> Some [] = Some en \<and>
    oak_verify demo_env (int (duration_as_millis (Duration 1 0))) ev en [5] \<and>
    cose_sign1_from_slice demo_env [10, 1, 2, 3] = Some cwt \<and>
    oak_verify_dice_chain demo_env ev = Some signing_key \<and>
    verifying_key_from_sec1 demo_env signing_key = Some vk \<and>
    cwt_verify_signature demo_env vk cwt \<and>
    cwt_config_properties demo_env (\<lambda>_. None) cwt = Ok (app_config_properties demo_app) \<and>
    extract_key_from_cwt demo_env [10, 1, 2, 3] = Ok (demo_public_cose_key [2] [3])"
proof (rule attested_match_sound)
  show "verify_attestation demo_env (\<lambda>_. None) [10, 1, 2, 3] (Some [5]) (Some []) ''t'' =
      Ok (demo_app, demo_public_cose_key [2] [3])"
    by (simp add: verify_attestation_def demo_env_def extract_key_from_cwt_def demo_app_def
        cwt_verify_signature_def cwt_config_properties_def demo_claims_def PUBLIC_KEY_CLAIM_def
        CONFIG_PROPERTIES_CLAIM_def)
  show "matches demo_env demo_app
      (Some \<lparr> am_tag = None, am_reference_values = Some [5], am_config_properties = None \<rparr>) (Duration 1 0)"
    by (simp add: matches_def tag_matches_def reference_values_match_def config_properties_match_def
        duration_as_millis_def demo_env_def demo_app_def)
qed simp

end
