(* ===== verification/Budget.thy ===== *)
theory Budget
  imports Attestation
begin

text \<open>
  Model of \<open>src/apps/ledger/service/src/budget.rs\<close>: the remaining privacy budgets of the
  blobs encrypted under one ledger key. The messages \<open>DataAccessPolicy\<close>, \<open>Transform\<close> and
  \<open>AccessBudget\<close> are those of \<open>access_policy.proto\<close>, the snapshot messages those of
  \<open>ledger_actor.proto\<close>. Budgets are \<open>u32\<close> words; an index out of range of a \<open>Vec\<close> is \<open>Panic\<close>.

  The main results: over every run of the tracker, across failures, revocations and
  snapshots, no transform and no shared budget is used more often than its policy says;
  a transform that the tracker offers can be recorded; snapshots restore the tracker.
\<close>

section \<open>Access policies\<close>

text \<open>\<open>AccessBudget\<close> with its optional kind \<open>Times(n)\<close>.\<close>

datatype access_budget = AccessBudget (budget_kind: "u32 option")

record transform =
  tr_src :: u32
  tr_dest :: "u32 option"
  tr_application :: "application_matcher option"
  tr_access_budget :: "access_budget option"
  tr_shared_access_budget_indices :: "u32 list"

record data_access_policy =
  pol_transforms :: "transform list"
  pol_shared_access_budgets :: "access_budget list"

section \<open>The budget of one blob\<close>

record blob_budget =
  transform_access_budgets :: "u32 list"
  shared_access_budgets :: "u32 list"

definition blob_budget_new :: "data_access_policy \<Rightarrow> blob_budget" where
  "blob_budget_new policy =
     \<lparr> transform_access_budgets = map (\<lambda>transform.
         case tr_access_budget transform of
           Some (AccessBudget (Some n)) \<Rightarrow> n
         | Some (AccessBudget None) \<Rightarrow> 0
         | None \<Rightarrow> 0) (pol_transforms policy),
       shared_access_budgets = map (\<lambda>access_budget.
         case budget_kind access_budget of Some n \<Rightarrow> n | None \<Rightarrow> 0) (pol_shared_access_budgets policy) \<rparr>"

definition has_remaining_budget :: "u32 list \<Rightarrow> nat \<Rightarrow> access_budget \<Rightarrow> bool" where
  "has_remaining_budget budgets index access_budget =
     (case budget_kind access_budget of
        Some _ \<Rightarrow> (if index < length budgets then budgets ! index else 0) > 0
      | None \<Rightarrow> True)"

definition allows_access :: "blob_budget \<Rightarrow> nat \<Rightarrow> data_access_policy \<Rightarrow> (bool, 'e) result" where
  "allows_access budget transform_index policy =
     (if transform_index \<ge> length (pol_transforms policy) then Panic
      else let transform = pol_transforms policy ! transform_index in
        Ok ((case tr_access_budget transform of
               Some access_budget \<Rightarrow>
                 has_remaining_budget (transform_access_budgets budget) transform_index access_budget
             | None \<Rightarrow> True)
            \<and> list_all (\<lambda>shared_index.
                 unat shared_index < length (pol_shared_access_budgets policy)
                 \<and> has_remaining_budget (shared_access_budgets budget) (unat shared_index)
                     (pol_shared_access_budgets policy ! unat shared_index))
               (tr_shared_access_budget_indices transform)))"

definition update_remaining_budget ::
  "u32 list \<Rightarrow> nat \<Rightarrow> access_budget \<Rightarrow> u32 list \<times> (unit, status) result" where
  "update_remaining_budget budgets index access_budget =
     (case budget_kind access_budget of
        Some _ \<Rightarrow>
          (if index < length budgets \<and> budgets ! index > 0
           then (budgets[index := budgets ! index - 1], Ok ())
           else (budgets, Err (Status Internal ''no budget remaining or DataAccessPolicy invalid'')))
      | None \<Rightarrow> (budgets, Ok ()))"

text \<open>The loop of \<open>record_access\<close> over the shared budgets.\<close>

fun record_shared_access ::
  "data_access_policy \<Rightarrow> u32 list \<Rightarrow> u32 list \<Rightarrow> u32 list \<times> (unit, status) result" where
  "record_shared_access policy budgets [] = (budgets, Ok ())"
| "record_shared_access policy budgets (shared_index # rest) =
     (if unat shared_index < length (pol_shared_access_budgets policy) then
        try_st (update_remaining_budget budgets (unat shared_index)
                  (pol_shared_access_budgets policy ! unat shared_index))
          (\<lambda>budgets _. record_shared_access policy budgets rest)
      else (budgets, Err (Status InvalidArgument ''AccessPolicy is invalid'')))"

definition record_access ::
  "blob_budget \<Rightarrow> nat \<Rightarrow> data_access_policy \<Rightarrow> blob_budget \<times> (unit, status) result" where
  "record_access budget transform_index policy =
     (if transform_index \<ge> length (pol_transforms policy) then (budget, Panic)
      else let transform = pol_transforms policy ! transform_index in
        try_st
          (case tr_access_budget transform of
             Some access_budget \<Rightarrow>
               (let (budgets, r) = update_remaining_budget (transform_access_budgets budget)
                                     transform_index access_budget in
                (budget\<lparr>transform_access_budgets := budgets\<rparr>, r))
           | None \<Rightarrow> (budget, Ok ()))
          (\<lambda>budget _.
             let (budgets, r) = record_shared_access policy (shared_access_budgets budget)
                                  (tr_shared_access_budget_indices transform) in
             (budget\<lparr>shared_access_budgets := budgets\<rparr>, r)))"

section \<open>The tracker\<close>

record budget_tracker =
  budgets :: "(bytes, (bytes, blob_budget) btree) btree"
  consumed_budgets :: "bytes list"

definition budget_tracker_new :: budget_tracker where
  "budget_tracker_new = \<lparr> budgets = [], consumed_budgets = [] \<rparr>"

text \<open>The budget of a blob, if it has an entry.\<close>

definition blob_entry :: "budget_tracker \<Rightarrow> bytes \<Rightarrow> bytes \<Rightarrow> blob_budget option" where
  "blob_entry tracker policy_hash blob_id =
     (case bt_get (budgets tracker) policy_hash of
        None \<Rightarrow> None
      | Some per_policy \<Rightarrow> bt_get per_policy blob_id)"

text \<open>The loop of \<open>find_matching_transform\<close> from transform \<open>i\<close> on.\<close>

fun find_transform_loop ::
  "crypto_env \<Rightarrow> blob_budget \<Rightarrow> data_access_policy \<Rightarrow> u32 \<Rightarrow> application \<Rightarrow> duration
   \<Rightarrow> nat \<Rightarrow> bool \<Rightarrow> transform list \<Rightarrow> (nat, status) result" where
  "find_transform_loop env budget policy node_id app now i match_found [] =
     Err (if match_found
          then Status ResourceExhausted ''data access budget exhausted''
          else Status FailedPrecondition ''requesting application does not match the access policy'')"
| "find_transform_loop env budget policy node_id app now i match_found (transform # rest) =
     (if tr_src transform \<noteq> node_id \<or> \<not> matches env app (tr_application transform) now
      then find_transform_loop env budget policy node_id app now (Suc i) match_found rest
      else and_then (allows_access budget i policy) (\<lambda>allowed.
        if allowed then Ok i
        else find_transform_loop env budget policy node_id app now (Suc i) True rest))"

definition find_matching_transform ::
  "crypto_env \<Rightarrow> budget_tracker \<Rightarrow> bytes \<Rightarrow> u32 \<Rightarrow> data_access_policy \<Rightarrow> bytes \<Rightarrow> application \<Rightarrow> duration
   \<Rightarrow> (nat, status) result" where
  "find_matching_transform env tracker blob_id node_id policy policy_hash app now =
     (if blob_id \<in> set (consumed_budgets tracker)
      then Err (Status ResourceExhausted ''data access budget consumed'')
      else
        find_transform_loop env
          (case blob_entry tracker policy_hash blob_id of Some b \<Rightarrow> b | None \<Rightarrow> blob_budget_new policy)
          policy node_id app now 0 False (pol_transforms policy))"

definition update_budget ::
  "budget_tracker \<Rightarrow> bytes \<Rightarrow> nat \<Rightarrow> data_access_policy \<Rightarrow> bytes \<Rightarrow> budget_tracker \<times> (unit, status) result" where
  "update_budget tracker blob_id transform_index policy policy_hash =
     (if blob_id \<in> set (consumed_budgets tracker)
      then (tracker, Err (Status Internal ''data access budget consumed''))
      else
        let per_policy = (case bt_get (budgets tracker) policy_hash of Some m \<Rightarrow> m | None \<Rightarrow> []);
            entry = (case bt_get per_policy blob_id of Some b \<Rightarrow> b | None \<Rightarrow> blob_budget_new policy);
            (entry', r) = record_access entry transform_index policy
        in (tracker\<lparr>budgets := bt_insert policy_hash (bt_insert blob_id entry' per_policy) (budgets tracker)\<rparr>, r))"

definition consume_budget :: "budget_tracker \<Rightarrow> bytes \<Rightarrow> budget_tracker" where
  "consume_budget tracker blob_id =
     (let (consumed, new) = bts_insert blob_id (consumed_budgets tracker) in
      if new then
        tracker\<lparr>consumed_budgets := consumed,
                budgets := map (\<lambda>e. (fst e, bt_remove blob_id (snd e))) (budgets tracker)\<rparr>
      else tracker\<lparr>consumed_budgets := consumed\<rparr>)"

section \<open>Snapshots\<close>

record blob_budget_snapshot =
  bbs_blob_id :: bytes
  bbs_transform_access_budgets :: "u32 list"
  bbs_shared_access_budgets :: "u32 list"

record per_policy_snapshot =
  pps_access_policy_sha256 :: bytes
  pps_budgets :: "blob_budget_snapshot list"

record budget_snapshot =
  bs_per_policy_snapshots :: "per_policy_snapshot list"
  bs_consumed_budgets :: "bytes list"

definition save_budget_snapshot :: "budget_tracker \<Rightarrow> budget_snapshot" where
  "save_budget_snapshot tracker =
     \<lparr> bs_per_policy_snapshots = map (\<lambda>(access_policy_sha256, per_policy).
         \<lparr> pps_access_policy_sha256 = access_policy_sha256,
           pps_budgets = map (\<lambda>(blob_id, blob_budget).
             \<lparr> bbs_blob_id = blob_id,
               bbs_transform_access_budgets = transform_access_budgets blob_budget,
               bbs_shared_access_budgets = shared_access_budgets blob_budget \<rparr>) per_policy \<rparr>) (budgets tracker),
       bs_consumed_budgets = consumed_budgets tracker \<rparr>"

fun load_blob_budgets ::
  "(bytes, blob_budget) btree \<Rightarrow> blob_budget_snapshot list \<Rightarrow> ((bytes, blob_budget) btree, status) result" where
  "load_blob_budgets m [] = Ok m"
| "load_blob_budgets m (s # rest) =
     (if bt_contains m (bbs_blob_id s)
      then Err (Status InvalidArgument ''Duplicated `blob_id` entries in the snapshot'')
      else load_blob_budgets
        (bt_insert (bbs_blob_id s)
          \<lparr> transform_access_budgets = bbs_transform_access_budgets s,
            shared_access_budgets = bbs_shared_access_budgets s \<rparr> m) rest)"

fun load_per_policy :: "budget_tracker \<Rightarrow> per_policy_snapshot list \<Rightarrow> budget_tracker \<times> (unit, status) result" where
  "load_per_policy tracker [] = (tracker, Ok ())"
| "load_per_policy tracker (s # rest) =
     lift_st tracker (load_blob_budgets [] (pps_budgets s)) (\<lambda>per_policy.
       let tracker' = tracker\<lparr>budgets := bt_insert (pps_access_policy_sha256 s) per_policy (budgets tracker)\<rparr> in
       if bt_contains (budgets tracker) (pps_access_policy_sha256 s)
       then (tracker', Err (Status InvalidArgument ''Duplicated `access_policy_sha256` entries in the snapshot''))
       else load_per_policy tracker' rest)"

fun load_consumed :: "budget_tracker \<Rightarrow> bytes list \<Rightarrow> budget_tracker \<times> (unit, status) result" where
  "load_consumed tracker [] = (tracker, Ok ())"
| "load_consumed tracker (blob_id # rest) =
     (let (consumed, new) = bts_insert blob_id (consumed_budgets tracker);
          tracker' = tracker\<lparr>consumed_budgets := consumed\<rparr> in
      if new then load_consumed tracker' rest
      else (tracker', Err (Status InvalidArgument ''Duplicated `consumed_budgets` entries in the snapshot'')))"

definition load_budget_snapshot ::
  "budget_tracker \<Rightarrow> budget_snapshot \<Rightarrow> budget_tracker \<times> (unit, status) result" where
  "load_budget_snapshot tracker snapshot =
     try_st (load_per_policy (tracker\<lparr>budgets := [], consumed_budgets := []\<rparr>)
               (bs_per_policy_snapshots snapshot))
       (\<lambda>tracker _. load_consumed tracker (bs_consumed_budgets snapshot))"


section \<open>Specification\<close>

text \<open>The accesses that an entry of a budget vector still allows.\<close>

definition remaining :: "u32 list \<Rightarrow> nat \<Rightarrow> nat" where
  "remaining xs i = (if i < length xs then unat (xs ! i) else 0)"

text \<open>The limits that a policy sets on one of its transforms and on one of its shared budgets.\<close>

definition transform_limit :: "data_access_policy \<Rightarrow> nat \<Rightarrow> u32 option" where
  "transform_limit policy i =
     (if i < length (pol_transforms policy) then
        (case tr_access_budget (pol_transforms policy ! i) of
           Some access_budget \<Rightarrow> budget_kind access_budget
         | None \<Rightarrow> None)
      else None)"

definition shared_limit :: "data_access_policy \<Rightarrow> u32 \<Rightarrow> u32 option" where
  "shared_limit policy j =
     (if unat j < length (pol_shared_access_budgets policy)
      then budget_kind (pol_shared_access_budgets policy ! unat j) else None)"

text \<open>How often one access through transform \<open>i\<close> draws on shared budget \<open>j\<close>.\<close>

definition shared_uses :: "data_access_policy \<Rightarrow> u32 \<Rightarrow> nat \<Rightarrow> nat" where
  "shared_uses policy j i =
     (if i < length (pol_transforms policy)
      then count_list (tr_shared_access_budget_indices (pol_transforms policy ! i)) j else 0)"

definition tracker_wf :: "budget_tracker \<Rightarrow> bool" where
  "tracker_wf t \<longleftrightarrow>
     bt_wf (budgets t) \<and> bts_wf (consumed_budgets t) \<and>
     (\<forall>e \<in> set (budgets t). bt_wf (snd e)) \<and>
     (\<forall>h. \<forall>b \<in> set (consumed_budgets t). blob_entry t h b = None)"

text \<open>An access that was granted: policy hash, blob and transform.\<close>

type_synonym access = "bytes \<times> bytes \<times> nat"

text \<open>
  The steps of a tracker with the accesses that they grant, and its runs. \<open>pol\<close> is the
  policy that the callers pass for a policy hash; \<open>restore\<close> is a restart from a snapshot,
  into any previous state.
\<close>

inductive tracker_step ::
  "(bytes \<Rightarrow> data_access_policy) \<Rightarrow> budget_tracker \<Rightarrow> access list \<Rightarrow> budget_tracker \<Rightarrow> bool" for pol where
  grant: "update_budget t b i (pol h) h = (t', Ok ()) \<Longrightarrow> tracker_step pol t [(h, b, i)] t'"
| refuse: "update_budget t b i (pol h) h = (t', Err e) \<Longrightarrow> tracker_step pol t [] t'"
| consume: "tracker_step pol t [] (consume_budget t b)"
| restore: "load_budget_snapshot t0 (save_budget_snapshot t) = (t', Ok ()) \<Longrightarrow> tracker_step pol t [] t'"

inductive tracker_run ::
  "(bytes \<Rightarrow> data_access_policy) \<Rightarrow> budget_tracker \<Rightarrow> access list \<Rightarrow> budget_tracker \<Rightarrow> bool" for pol where
  stop: "tracker_run pol t [] t"
| more: "tracker_run pol t granted t' \<Longrightarrow> tracker_step pol t' g t'' \<Longrightarrow> tracker_run pol t (g @ granted) t''"

definition granted_weight :: "bytes \<Rightarrow> bytes \<Rightarrow> (nat \<Rightarrow> nat) \<Rightarrow> access list \<Rightarrow> nat" where
  "granted_weight h b w granted = (\<Sum>(h', b', i) \<leftarrow> granted. if h' = h \<and> b' = b then w i else 0)"

text \<open>The transforms of a policy that an application matches at a node.\<close>

definition candidate :: "crypto_env \<Rightarrow> data_access_policy \<Rightarrow> u32 \<Rightarrow> application \<Rightarrow> duration \<Rightarrow> nat \<Rightarrow> bool" where
  "candidate env p node_id app now i \<longleftrightarrow>
     i < length (pol_transforms p) \<and> tr_src (pol_transforms p ! i) = node_id \<and>
     matches env app (tr_application (pol_transforms p ! i)) now"


text \<open>
  What \<open>find_matching_transform\<close> promises for a blob budget \<open>e\<close>: the first matching
  transform that the budget allows, or the reason why there is none.
\<close>

definition find_spec ::
  "crypto_env \<Rightarrow> blob_budget \<Rightarrow> data_access_policy \<Rightarrow> u32 \<Rightarrow> application \<Rightarrow> duration
   \<Rightarrow> (nat, status) result \<Rightarrow> bool" where
  "find_spec env e p node_id app now r =
     (case r of
        Ok i \<Rightarrow> candidate env p node_id app now i \<and> allows_access e i p = (Ok True :: (bool, status) result) \<and>
          (\<forall>i' < i. candidate env p node_id app now i' \<longrightarrow> allows_access e i' p \<noteq> (Ok True :: (bool, status) result))
      | Err x \<Rightarrow>
          (\<forall>i. candidate env p node_id app now i \<longrightarrow> allows_access e i p \<noteq> (Ok True :: (bool, status) result)) \<and>
          (status_code x = ResourceExhausted \<longleftrightarrow> (\<exists>i. candidate env p node_id app now i)) \<and>
          (status_code x = FailedPrecondition \<longleftrightarrow> (\<nexists>i. candidate env p node_id app now i))
      | Panic \<Rightarrow> False)"

text \<open>A policy with two transforms that share one budget, and a run that grants an access through each.\<close>

definition demo_policy :: data_access_policy where
  "demo_policy =
     \<lparr> pol_transforms =
         [\<lparr> tr_src = 0, tr_dest = None, tr_application = None,
            tr_access_budget = Some (AccessBudget (Some 1)), tr_shared_access_budget_indices = [0] \<rparr>,
          \<lparr> tr_src = 0, tr_dest = Some 1,
            tr_application = Some \<lparr> am_tag = Some ''t'', am_reference_values = None, am_config_properties = None \<rparr>,
            tr_access_budget = Some (AccessBudget (Some 3)), tr_shared_access_budget_indices = [0] \<rparr>],
       pol_shared_access_budgets = [AccessBudget (Some 2)] \<rparr>"

definition demo_tracker :: budget_tracker where
  "demo_tracker =
     \<lparr> budgets = [([7], [([8], \<lparr> transform_access_budgets = [0, 2], shared_access_budgets = [0] \<rparr>)])],
       consumed_budgets = [] \<rparr>"

section \<open>Recording an access\<close>

lemma remaining_update:
  assumes "update_remaining_budget xs i ab = (ys, r)"
  shows "remaining ys j \<le> remaining xs j"
    and "r = Ok () \<Longrightarrow> remaining ys j + (if j = i \<and> budget_kind ab \<noteq> None then 1 else 0) = remaining xs j"
    and "length ys = length xs"
    and "r \<noteq> Panic"
    and "r = Ok () \<longleftrightarrow> has_remaining_budget xs i ab"
  using assms
  by (auto simp: update_remaining_budget_def remaining_def has_remaining_budget_def unat_minus_one
      word_gt_0 unat_gt_0 nth_list_update Suc_leI split: option.splits if_splits)

lemma record_shared_mono:
  "record_shared_access p xs js = (ys, r) \<Longrightarrow> remaining ys j \<le> remaining xs j"
proof (induction js arbitrary: xs)
  case (Cons k js)
  obtain zs r1 where u: "update_remaining_budget xs (unat k) (pol_shared_access_budgets p ! unat k) = (zs, r1)"
    by fastforce
  show ?case
    using Cons.IH [of zs] Cons.prems remaining_update(1) [OF u, of j]
    by (cases r1) (auto simp: u split: if_splits)
qed simp

lemma record_shared_exact:
  assumes "record_shared_access p xs js = (ys, Ok ())"
  shows "remaining ys (unat j) + (if shared_limit p j \<noteq> None then count_list js j else 0) = remaining xs (unat j)"
  using assms
proof (induction js arbitrary: xs)
  case (Cons k js)
  obtain zs where k: "unat k < length (pol_shared_access_budgets p)"
    and u: "update_remaining_budget xs (unat k) (pol_shared_access_budgets p ! unat k) = (zs, Ok ())"
    and rest: "record_shared_access p zs js = (ys, Ok ())"
    using Cons.prems by (auto simp: result_simps split: if_splits)
  have "remaining zs (unat j) + (if j = k \<and> shared_limit p j \<noteq> None then 1 else 0) = remaining xs (unat j)"
    using remaining_update(2) [OF u refl, of "unat j"] k
    by (auto simp: shared_limit_def simp flip: word_unat_eq_iff)
  with Cons.IH [OF rest] show ?case
    by (auto split: if_splits)
qed simp

text \<open>The two phases of \<open>record_access\<close>.\<close>

lemma record_access_phases:
  assumes "i < length (pol_transforms p)"
  shows "record_access e i p =
    (let (tb, r1) = (case tr_access_budget (pol_transforms p ! i) of
           Some ab \<Rightarrow> update_remaining_budget (transform_access_budgets e) i ab
         | None \<Rightarrow> (transform_access_budgets e, Ok ()));
         (sb, r2) = record_shared_access p (shared_access_budgets e)
           (tr_shared_access_budget_indices (pol_transforms p ! i))
     in if r1 = Ok () then (\<lparr> transform_access_budgets = tb, shared_access_budgets = sb \<rparr>, r2)
        else (\<lparr> transform_access_budgets = tb, shared_access_budgets = shared_access_budgets e \<rparr>, r1))"
proof (cases "tr_access_budget (pol_transforms p ! i)")
  case None
  then show ?thesis
    using assms by (simp add: record_access_def Let_def split: prod.split)
next
  case (Some ab)
  obtain tb r1 where "update_remaining_budget (transform_access_budgets e) i ab = (tb, r1)"
    by fastforce
  then show ?thesis
    using assms Some by (cases r1) (auto simp: record_access_def Let_def split: prod.split)
qed

lemma record_access_mono:
  assumes "record_access e i p = (e', r)" "r \<noteq> Panic"
  shows "remaining (transform_access_budgets e') j \<le> remaining (transform_access_budgets e) j"
    and "remaining (shared_access_budgets e') j \<le> remaining (shared_access_budgets e) j"
proof -
  have i: "i < length (pol_transforms p)"
    using assms by (auto simp: record_access_def split: if_splits)
  show "remaining (transform_access_budgets e') j \<le> remaining (transform_access_budgets e) j"
    using assms remaining_update(1)
    by (fastforce simp: record_access_phases [OF i] Let_def split: prod.splits option.splits if_splits)
  show "remaining (shared_access_budgets e') j \<le> remaining (shared_access_budgets e) j"
    using assms record_shared_mono
    by (fastforce simp: record_access_phases [OF i] Let_def split: prod.splits option.splits if_splits)
qed

lemma record_access_exact:
  assumes "record_access e i p = (e', Ok ())"
  shows "remaining (transform_access_budgets e') j
      + (if i = j \<and> transform_limit p j \<noteq> None then 1 else 0) = remaining (transform_access_budgets e) j"
    and "remaining (shared_access_budgets e') (unat k)
      + (if shared_limit p k \<noteq> None then shared_uses p k i else 0) = remaining (shared_access_budgets e) (unat k)"
proof -
  have i: "i < length (pol_transforms p)"
    using assms by (auto simp: record_access_def split: if_splits)
  show "remaining (transform_access_budgets e') j
      + (if i = j \<and> transform_limit p j \<noteq> None then 1 else 0) = remaining (transform_access_budgets e) j"
    using assms i
    by (auto simp: record_access_phases [OF i] Let_def transform_limit_def
        split: prod.splits option.splits if_splits dest!: remaining_update(2) [OF _ refl, where j = j])
  show "remaining (shared_access_budgets e') (unat k)
      + (if shared_limit p k \<noteq> None then shared_uses p k i else 0) = remaining (shared_access_budgets e) (unat k)"
    using assms i
    by (auto simp: record_access_phases [OF i] Let_def shared_uses_def
        split: prod.splits option.splits if_splits dest!: record_shared_exact [where j = k])
qed


section \<open>Tracker operations\<close>

lemma tracker_wf_entry: "tracker_wf t \<Longrightarrow> bt_get (budgets t) h = Some m \<Longrightarrow> bt_wf m"
  unfolding tracker_wf_def using bt_get_Some_in by fastforce

lemma blob_entry_update:
  assumes "update_budget t b i p h = (t', r)" "b \<notin> set (consumed_budgets t)"
  defines "e \<equiv> (case blob_entry t h b of Some e \<Rightarrow> e | None \<Rightarrow> blob_budget_new p)"
  shows "blob_entry t' h' b' =
      (if h' = h \<and> b' = b then Some (fst (record_access e i p)) else blob_entry t h' b')"
    and "r = snd (record_access e i p)"
    and "consumed_budgets t' = consumed_budgets t"
proof -
  define m where "m = (case bt_get (budgets t) h of Some m \<Rightarrow> m | None \<Rightarrow> [])"
  have e: "e = (case bt_get m b of Some e \<Rightarrow> e | None \<Rightarrow> blob_budget_new p)"
    by (simp add: e_def m_def blob_entry_def split: option.split)
  have u: "t' = t\<lparr>budgets := bt_insert h (bt_insert b (fst (record_access e i p)) m) (budgets t)\<rparr>"
    "r = snd (record_access e i p)"
    using assms(1,2) by (auto simp: update_budget_def Let_def e m_def split: prod.splits)
  show "blob_entry t' h' b' =
      (if h' = h \<and> b' = b then Some (fst (record_access e i p)) else blob_entry t h' b')"
    by (auto simp: u blob_entry_def m_def split: option.split)
  show "r = snd (record_access e i p)" "consumed_budgets t' = consumed_budgets t"
    by (simp_all add: u)
qed

lemma update_budget_consumed:
  "b \<in> set (consumed_budgets t) \<Longrightarrow>
    update_budget t b i p h = (t, Err (Status Internal ''data access budget consumed''))"
  by (simp add: update_budget_def)

lemma tracker_wf_new: "tracker_wf budget_tracker_new"
  by (simp add: tracker_wf_def budget_tracker_new_def bts_wf_def)

lemma update_budget_wf:
  assumes "tracker_wf t" "update_budget t b i p h = (t', r)"
  shows "tracker_wf t'"
proof (cases "b \<in> set (consumed_budgets t)")
  case True
  then show ?thesis
    using assms by (simp add: update_budget_consumed)
next
  case False
  obtain e' where t': "t' = t\<lparr>budgets := bt_insert h (bt_insert b e'
      (case bt_get (budgets t) h of Some m \<Rightarrow> m | None \<Rightarrow> [])) (budgets t)\<rparr>"
    using assms(2) False by (auto simp: update_budget_def Let_def split: prod.splits)
  have "\<forall>e \<in> set (budgets t'). bt_wf (snd e)"
  proof
    fix e assume "e \<in> set (budgets t')"
    then have "bt_get (budgets t') (fst e) = Some (snd e)"
      using assms(1) by (intro bt_in_get) (simp_all add: t' tracker_wf_def bt_wf_insert)
    then show "bt_wf (snd e)"
      using tracker_wf_entry [OF assms(1)]
      by (auto simp: t' bt_wf_insert bt_wf_Cons split: if_splits option.splits dest!: sym [of _ "snd e"])
  qed
  then show ?thesis
    using assms(1) blob_entry_update(1,3) [OF assms(2) False] False
    by (auto simp: tracker_wf_def t' bt_wf_insert)
qed

lemma bt_get_map_values: "bt_get (map (\<lambda>e. (fst e, f (snd e))) m) k = map_option f (bt_get m k)"
  by (induction m) (auto simp: bt_get_def)

lemma consume_budget_entry:
  "b \<notin> set (consumed_budgets t) \<Longrightarrow>
    blob_entry (consume_budget t b) h b' = (if b' = b then None else blob_entry t h b')"
  by (auto simp: consume_budget_def bts_insert_def blob_entry_def bt_get_map_values split: option.splits)

lemma consume_budget_again: "b \<in> set (consumed_budgets t) \<Longrightarrow> consume_budget t b = t"
  by (simp add: consume_budget_def bts_insert_def)

lemma consume_budget_set: "set (consumed_budgets (consume_budget t b)) = insert b (set (consumed_budgets t))"
  by (auto simp: consume_budget_def bts_insert_def set_insort_key)

lemma consume_budget_wf:
  assumes "tracker_wf t"
  shows "tracker_wf (consume_budget t b)"
proof (cases "b \<in> set (consumed_budgets t)")
  case False
  have "bts_wf (consumed_budgets (consume_budget t b))"
    using assms False bts_wf_insert [of "consumed_budgets t" b]
    by (simp add: tracker_wf_def consume_budget_def bts_insert_def)
  moreover have "bt_wf (budgets (consume_budget t b))" "\<forall>e \<in> set (budgets (consume_budget t b)). bt_wf (snd e)"
    using assms False
    by (auto simp: tracker_wf_def consume_budget_def bts_insert_def bt_wf_map_values bt_wf_remove)
  ultimately show ?thesis
    using assms by (auto simp: tracker_wf_def consume_budget_set consume_budget_entry [OF False])
qed (simp add: assms consume_budget_again)


section \<open>Snapshot round trip\<close>

lemma blob_budget_eta [simp]:
  "\<lparr> transform_access_budgets = transform_access_budgets b, shared_access_budgets = shared_access_budgets b \<rparr> = b"
  by simp

lemma load_blob_budgets_fold:
  assumes "distinct (map fst m)" "\<forall>e \<in> set m. bt_get acc (fst e) = None"
  shows "load_blob_budgets acc (map (\<lambda>(b, bb). \<lparr> bbs_blob_id = b,
      bbs_transform_access_budgets = transform_access_budgets bb,
      bbs_shared_access_budgets = shared_access_budgets bb \<rparr>) m) =
    Ok (fold (\<lambda>e. bt_insert (fst e) (snd e)) m acc)"
  using assms
proof (induction m arbitrary: acc)
  case (Cons e m)
  then have "\<forall>x \<in> set m. bt_get (bt_insert (fst e) (snd e) acc) (fst x) = None"
    using distinct_fst_Cons [OF Cons.prems(1)] by simp
  from Cons.IH [OF _ this] Cons.prems show ?case
    by (cases e) (simp add: bt_contains_def)
qed simp

lemma load_per_policy_fold:
  assumes "distinct (map fst m)" "\<forall>e \<in> set m. bt_get (budgets t) (fst e) = None" "\<forall>e \<in> set m. bt_wf (snd e)"
  shows "load_per_policy t (map (\<lambda>(h, pp). \<lparr> pps_access_policy_sha256 = h,
      pps_budgets = map (\<lambda>(b, bb). \<lparr> bbs_blob_id = b,
        bbs_transform_access_budgets = transform_access_budgets bb,
        bbs_shared_access_budgets = shared_access_budgets bb \<rparr>) pp \<rparr>) m) =
    (t\<lparr>budgets := fold (\<lambda>e. bt_insert (fst e) (snd e)) m (budgets t)\<rparr>, Ok ())"
  using assms
proof (induction m arbitrary: t)
  case (Cons e m)
  obtain h pp where e: "e = (h, pp)" by fastforce
  have pp: "load_blob_budgets [] (map (\<lambda>(b, bb). \<lparr> bbs_blob_id = b,
      bbs_transform_access_budgets = transform_access_budgets bb,
      bbs_shared_access_budgets = shared_access_budgets bb \<rparr>) pp) = Ok pp"
    using Cons.prems by (simp add: e load_blob_budgets_fold bt_wf_distinct bt.put_entries_id)
  have "\<forall>x \<in> set m. bt_get (budgets (t\<lparr>budgets := bt_insert h pp (budgets t)\<rparr>)) (fst x) = None"
    using Cons.prems(2) distinct_fst_Cons [OF Cons.prems(1)] by (simp add: e)
  from Cons.IH [OF _ this] Cons.prems pp show ?case
    by (simp add: e Let_def bt_contains_def)
qed simp

lemma load_consumed_fold:
  assumes "distinct s" "\<forall>b \<in> set s. b \<notin> set (consumed_budgets t)"
  shows "load_consumed t s = (t\<lparr>consumed_budgets := fold insort s (consumed_budgets t)\<rparr>, Ok ())"
  using assms
proof (induction s arbitrary: t)
  case (Cons b s)
  then have "\<forall>x \<in> set s. x \<notin> set (consumed_budgets (t\<lparr>consumed_budgets := insort b (consumed_budgets t)\<rparr>))"
    by (auto simp: set_insort_key)
  with Cons show ?case
    by (simp add: bts_insert_def)
qed simp

lemma budget_snapshot_roundtrip:
  assumes "tracker_wf t"
  shows "load_budget_snapshot t0 (save_budget_snapshot t) = (t, Ok ())"
  using assms
  by (simp add: load_budget_snapshot_def save_budget_snapshot_def load_per_policy_fold load_consumed_fold
      tracker_wf_def bt_wf_distinct bt.put_entries_id fold_insort_id bts_wf_def strict_sorted_iff)

lemma tracker_step_wf: "tracker_step pol t g t' \<Longrightarrow> tracker_wf t \<Longrightarrow> tracker_wf t'"
  by (induction rule: tracker_step.induct)
    (auto simp: update_budget_wf consume_budget_wf budget_snapshot_roundtrip)

lemma tracker_run_wf: "tracker_run pol t g t' \<Longrightarrow> tracker_wf t \<Longrightarrow> tracker_wf t'"
  by (induction rule: tracker_run.induct) (auto intro: tracker_step_wf)

section \<open>Accounting\<close>

lemma granted_weight_append:
  "granted_weight h b w (g @ granted) = granted_weight h b w g + granted_weight h b w granted"
  by (simp add: granted_weight_def)

text \<open>
  What the accounting of one budget of a policy needs: a measure of a blob budget that a
  recorded access through transform \<open>i\<close> lowers by at least \<open>w i\<close> and that a refused access
  does not raise.
\<close>

locale budget_measure =
  fixes policy :: data_access_policy
    and f :: "blob_budget \<Rightarrow> nat"
    and w :: "nat \<Rightarrow> nat"
  assumes access_pays: "record_access e i policy = (e', Ok ()) \<Longrightarrow> f e' + w i \<le> f e"
    and refusal_keeps: "record_access e i policy = (e', Err x) \<Longrightarrow> f e' \<le> f e"
begin

text \<open>The measure of the budget that the next access to the blob would use.\<close>

lemma step_pays:
  assumes "tracker_step pol t g t'" "tracker_wf t" "pol h = policy" "b \<notin> set (consumed_budgets t')"
  shows "b \<notin> set (consumed_budgets t) \<and>
    granted_weight h b w g + f (case blob_entry t' h b of Some e \<Rightarrow> e | None \<Rightarrow> blob_budget_new policy)
      \<le> f (case blob_entry t h b of Some e \<Rightarrow> e | None \<Rightarrow> blob_budget_new policy)"
  using assms(1)
proof cases
  case (grant b' i h')
  have nc: "b' \<notin> set (consumed_budgets t)"
    using grant(2) by (auto simp: update_budget_consumed)
  note u = blob_entry_update [OF grant(2) nc]
  show ?thesis
  proof (cases "h' = h \<and> b' = b")
    case True
    define e where "e = (case blob_entry t h b of Some e \<Rightarrow> e | None \<Rightarrow> blob_budget_new policy)"
    have "(case blob_entry t h' b' of Some e \<Rightarrow> e | None \<Rightarrow> blob_budget_new (pol h')) = e"
      using True assms(3) by (auto simp: e_def split: option.split)
    then have "blob_entry t' h b = Some (fst (record_access e i policy))"
      "record_access e i policy = (fst (record_access e i policy), Ok ())"
      using u(1) [of h b] u(2) True assms(3) by (auto simp: prod_eq_iff)
    then show ?thesis
      using access_pays [of e i] grant(1) True nc by (fastforce simp: granted_weight_def e_def)
  qed (use grant(1) assms(4) u(1,3) in \<open>auto simp: granted_weight_def\<close>)
next
  case (refuse b' i h' x)
  show ?thesis
  proof (cases "b' \<in> set (consumed_budgets t) \<or> \<not> (h' = h \<and> b' = b)")
    case True
    then show ?thesis
      using refuse assms(4) blob_entry_update(1,3) [OF refuse(2)]
      by (cases "b' \<in> set (consumed_budgets t)") (auto simp: update_budget_consumed granted_weight_def)
  next
    case False
    then have nc: "b' \<notin> set (consumed_budgets t)" by blast
    note u = blob_entry_update [OF refuse(2) nc]
    define e where "e = (case blob_entry t h b of Some e \<Rightarrow> e | None \<Rightarrow> blob_budget_new policy)"
    have "(case blob_entry t h' b' of Some e \<Rightarrow> e | None \<Rightarrow> blob_budget_new (pol h')) = e"
      using False assms(3) by (auto simp: e_def split: option.split)
    then have "blob_entry t' h b = Some (fst (record_access e i policy))"
      "record_access e i policy = (fst (record_access e i policy), Err x)"
      using u(1) [of h b] u(2) False assms(3) by (auto simp: prod_eq_iff)
    then show ?thesis
      using refusal_keeps [of e i] refuse(1) u(3) assms(4) by (fastforce simp: e_def granted_weight_def)
  qed
next
  case (consume b')
  then show ?thesis
    using assms(4) consume_budget_entry [of b' t h b]
    by (cases "b' \<in> set (consumed_budgets t)")
      (auto simp: consume_budget_again consume_budget_set granted_weight_def)
next
  case (restore t0)
  then show ?thesis
    using assms(2,4) by (simp add: budget_snapshot_roundtrip granted_weight_def)
qed

lemma granted_bounded:
  assumes "tracker_run pol budget_tracker_new granted t" "pol h = policy"
  shows "granted_weight h b w granted \<le> f (blob_budget_new policy) \<and>
    (b \<notin> set (consumed_budgets t) \<longrightarrow>
      granted_weight h b w granted + f (case blob_entry t h b of Some e \<Rightarrow> e | None \<Rightarrow> blob_budget_new policy)
        \<le> f (blob_budget_new policy))"
  using assms(1)
proof (induction budget_tracker_new granted t rule: tracker_run.induct)
  case (more granted t' g t'')
  have wf: "tracker_wf t'"
    using more.hyps(1) tracker_run_wf tracker_wf_new by blast
  have grant_free: "b \<in> set (consumed_budgets t') \<Longrightarrow> granted_weight h b w g = 0"
    using more.hyps(3) by cases (auto simp: update_budget_consumed granted_weight_def)
  have "b \<notin> set (consumed_budgets t') \<Longrightarrow> b \<in> set (consumed_budgets t'') \<Longrightarrow> granted_weight h b w g = 0"
    using more.hyps(3)
    by cases (auto simp: granted_weight_def update_budget_def Let_def split: prod.splits if_splits)
  then show ?case
    using more.hyps(2) grant_free step_pays [OF more.hyps(3) wf assms(2), of b]
    by (cases "b \<in> set (consumed_budgets t')"; cases "b \<in> set (consumed_budgets t'')")
      (auto simp: granted_weight_append)
qed (simp add: granted_weight_def budget_tracker_new_def blob_entry_def)

end

interpretation transform_accounting: budget_measure policy
  "\<lambda>e. remaining (transform_access_budgets e) i"
  "\<lambda>i'. if i' = i \<and> transform_limit policy i \<noteq> None then 1 else 0" for policy i
  by unfold_locales
    (auto dest: record_access_mono(1) [where j = i] record_access_exact(1) [where j = i] split: if_splits)

interpretation shared_accounting: budget_measure policy
  "\<lambda>e. remaining (shared_access_budgets e) (unat j)"
  "\<lambda>i. if shared_limit policy j \<noteq> None then shared_uses policy j i else 0" for policy j
  by unfold_locales
    (auto dest: record_access_mono(2) [where j = "unat j"] record_access_exact(2) [where k = j] split: if_splits)

lemma remaining_new:
  "transform_limit p i = Some n \<Longrightarrow> remaining (transform_access_budgets (blob_budget_new p)) i = unat n"
  "shared_limit p j = Some n \<Longrightarrow> remaining (shared_access_budgets (blob_budget_new p)) (unat j) = unat n"
  by (auto simp: remaining_def blob_budget_new_def transform_limit_def shared_limit_def
      split: if_splits option.splits access_budget.splits)

lemma granted_weight_count:
  "granted_weight h b (\<lambda>i'. if i' = i then 1 else 0) granted = count_list granted (h, b, i)"
  by (induction granted) (auto simp: granted_weight_def split: if_splits)

section \<open>Offering a transform\<close>

lemma has_remaining_other:
  assumes "update_remaining_budget xs i ab = (ys, r)" "k \<noteq> i"
  shows "has_remaining_budget ys k ab' = has_remaining_budget xs k ab'"
  using assms by (auto simp: update_remaining_budget_def has_remaining_budget_def split: option.splits if_splits)

lemma record_shared_Ok_iff:
  assumes "distinct js"
  shows "snd (record_shared_access p xs js) = Ok () \<longleftrightarrow>
    (\<forall>j \<in> set js. unat j < length (pol_shared_access_budgets p) \<and>
      has_remaining_budget xs (unat j) (pol_shared_access_budgets p ! unat j))"
  using assms
proof (induction js arbitrary: xs)
  case (Cons k js)
  obtain zs r where u: "update_remaining_budget xs (unat k) (pol_shared_access_budgets p ! unat k) = (zs, r)"
    by fastforce
  have "\<forall>j \<in> set js. has_remaining_budget zs (unat j) ab = has_remaining_budget xs (unat j) ab" for ab
    using has_remaining_other [OF u] Cons.prems by (metis distinct.simps(2) word_unat_eq_iff)
  with Cons show ?case
    using remaining_update(4,5) [OF u] by (cases r) (auto simp: u)
qed simp

lemma allows_access_record:
  assumes "i < length (pol_transforms p)"
    and "distinct (tr_shared_access_budget_indices (pol_transforms p ! i))"
  shows "allows_access e i p = Ok (snd (record_access e i p) = Ok ())"
proof -
  have "snd (record_access e i p) = Ok () \<longleftrightarrow>
      (case tr_access_budget (pol_transforms p ! i) of
         Some ab \<Rightarrow> has_remaining_budget (transform_access_budgets e) i ab | None \<Rightarrow> True)
      \<and> snd (record_shared_access p (shared_access_budgets e)
               (tr_shared_access_budget_indices (pol_transforms p ! i))) = Ok ()"
    using remaining_update(5) [of "transform_access_budgets e" i]
    by (auto simp: record_access_phases [OF assms(1)] Let_def split: prod.splits option.splits)
  then show ?thesis
    using assms(1) by (simp add: allows_access_def Let_def list_all_iff record_shared_Ok_iff [OF assms(2)])
qed

lemma find_loop_spec:
  assumes "drop k (pol_transforms p) = trs"
    and "\<forall>i < k. candidate env p node app now i \<longrightarrow> allows_access e i p \<noteq> (Ok True :: (bool, status) result)"
    and "mf \<longleftrightarrow> (\<exists>i < k. candidate env p node app now i)"
  shows "find_spec env e p node app now (find_transform_loop env e p node app now k mf trs)"
  using assms
proof (induction trs arbitrary: k mf)
  case Nil
  then have "length (pol_transforms p) \<le> k"
    by simp
  then have "\<And>i. candidate env p node app now i \<Longrightarrow> i < k"
    by (auto simp: candidate_def)
  with Nil show ?case
    by (auto simp: find_spec_def)
next
  case (Cons tr trs)
  have k: "k < length (pol_transforms p)" "pol_transforms p ! k = tr" "drop (Suc k) (pol_transforms p) = trs"
    using Cons.prems(1)
    by (metis drop_all list.distinct(1) not_less, metis nth_via_drop, metis drop_Suc list.sel(3) tl_drop)
  show ?case
  proof (cases "candidate env p node app now k")
    case False
    have "find_spec env e p node app now (find_transform_loop env e p node app now (Suc k) mf trs)"
      using Cons.prems False by (intro Cons.IH) (auto simp: k less_Suc_eq)
    then show ?thesis
      using False k by (auto simp: candidate_def)
  next
    case True
    obtain a where a: "allows_access e k p = (Ok a :: (bool, status) result)"
      using k by (simp add: allows_access_def Let_def)
    have "\<not> a \<Longrightarrow> find_spec env e p node app now (find_transform_loop env e p node app now (Suc k) True trs)"
      using Cons.prems True a by (intro Cons.IH) (auto simp: k less_Suc_eq)
    then show ?thesis
      using True k Cons.prems(2) a by (auto simp: candidate_def find_spec_def)
  qed
qed


section \<open>Properties\<close>

lemma demo_tracker_run:
  "tracker_run (\<lambda>_. demo_policy) budget_tracker_new ([([7], [8], 1)] @ [([7], [8], 0)] @ []) demo_tracker"
proof (rule tracker_run.more [OF tracker_run.more [OF tracker_run.stop]])
  show "tracker_step (\<lambda>_. demo_policy) budget_tracker_new [([7], [8], 0)]
    \<lparr> budgets = [([7], [([8], \<lparr> transform_access_budgets = [0, 3], shared_access_budgets = [1] \<rparr>)])],
      consumed_budgets = [] \<rparr>"
    by (rule tracker_step.grant) code_simp
  show "tracker_step (\<lambda>_. demo_policy)
    \<lparr> budgets = [([7], [([8], \<lparr> transform_access_budgets = [0, 3], shared_access_budgets = [1] \<rparr>)])],
      consumed_budgets = [] \<rparr> [([7], [8], 1)] demo_tracker"
    by (rule tracker_step.grant) code_simp
qed

text \<open>
  C3. The access budget of a transform is never exceeded. In every run of the tracker,
  with refused accesses, revocations and restarts from snapshots, the accesses to a blob
  that are granted through a transform number at most the \<open>times\<close> of its access budget.
\<close>

theorem transform_budget_never_exceeded:
  assumes "tracker_run pol budget_tracker_new granted t" "transform_limit (pol h) i = Some n"
  shows "count_list granted (h, b, i) \<le> unat n"
  using transform_accounting.granted_bounded [where policy = "pol h" and i = i and h = h and b = b, OF assms(1) refl] assms(2)
  by (simp add: granted_weight_count remaining_new(1))

theorem transform_budget_never_exceeded_witness:
  "count_list ([([7], [8], 1), ([7], [8], 0)] :: access list) ([7], [8], 0) \<le> unat (1 :: u32)"
  using transform_budget_never_exceeded [OF demo_tracker_run, where h = "[7]" and i = 0 and n = 1 and b = "[8]"]
  by (simp add: transform_limit_def demo_policy_def)

text \<open>
  C4. The same for shared budgets: all granted accesses to a blob together draw on a shared
  budget at most as often as its \<open>times\<close> says, whatever transforms they go through.
\<close>

theorem shared_budget_never_exceeded:
  assumes "tracker_run pol budget_tracker_new granted t" "shared_limit (pol h) j = Some n"
  shows "(\<Sum>(h', b', i) \<leftarrow> granted. if h' = h \<and> b' = b then shared_uses (pol h) j i else 0) \<le> unat n"
  using shared_accounting.granted_bounded [where policy = "pol h" and j = j and h = h and b = b, OF assms(1) refl] assms(2)
  by (simp add: granted_weight_def remaining_new(2))


theorem shared_budget_never_exceeded_witness:
  "(\<Sum>(h', b', i) \<leftarrow> ([([7], [8], 1), ([7], [8], 0)] :: access list).
      if h' = [7] \<and> b' = [8] then shared_uses demo_policy 0 i else 0) \<le> unat (2 :: u32)"
  using shared_budget_never_exceeded [OF demo_tracker_run, where h = "[7]" and j = 0 and n = 2 and b = "[8]"]
  by (simp add: shared_limit_def demo_policy_def)

lemma consumed_step:
  assumes "tracker_step pol t g t'" "tracker_wf t" "b \<in> set (consumed_budgets t)"
  shows "b \<in> set (consumed_budgets t') \<and> (h, b, i) \<notin> set g"
  using assms(1)
proof cases
  case (grant b' i' h')
  then show ?thesis
    using assms(3) by (auto simp: update_budget_def Let_def split: prod.splits if_splits)
next
  case (refuse b' i' h' e)
  then show ?thesis
    using assms(3) by (auto simp: update_budget_def Let_def split: prod.splits if_splits)
qed (use assms in \<open>auto simp: consume_budget_set budget_snapshot_roundtrip\<close>)

text \<open>
  Revocation is final: in every continuation of a state in which the budget of a blob has
  been consumed no access to the blob is granted, and in the state reached the tracker neither
  offers a transform for it nor records an access to it.
\<close>

theorem consumed_stays_refused:
  assumes "tracker_wf t" "tracker_run pol (consume_budget t b) granted t'"
  shows "(h, b, i) \<notin> set granted \<and>
    find_matching_transform env t' b node_id p h app now =
      Err (Status ResourceExhausted ''data access budget consumed'') \<and>
    update_budget t' b i p h = (t', Err (Status Internal ''data access budget consumed''))"
proof -
  have "b \<in> set (consumed_budgets t') \<and> (h, b, i) \<notin> set granted"
    using assms(2)
  proof (induction "consume_budget t b" granted t' rule: tracker_run.induct)
    case (more granted t' g t'')
    then show ?case
      using consumed_step [OF more.hyps(3)] tracker_run_wf consume_budget_wf [OF assms(1)] by fastforce
  qed (simp add: consume_budget_set)
  then show ?thesis
    by (simp add: update_budget_consumed find_matching_transform_def)
qed

theorem consumed_stays_refused_witness:
  "find_matching_transform demo_env (consume_budget demo_tracker [8]) [8] 0 demo_policy [7] demo_app (Duration 1 0) =
     Err (Status ResourceExhausted ''data access budget consumed'')"
  using consumed_stays_refused [OF tracker_run_wf [OF demo_tracker_run tracker_wf_new] tracker_run.stop] by blast

text \<open>
  \<open>find_matching_transform\<close> returns the first transform of the policy that the application
  matches and the budget of the blob allows; it fails with \<open>ResourceExhausted\<close> exactly when
  some transform matches and none is allowed, with \<open>FailedPrecondition\<close> exactly when none
  matches, and never panics.
\<close>

theorem find_matching_transform_correct:
  assumes "b \<notin> set (consumed_budgets t)"
  shows "find_spec env (case blob_entry t h b of Some e \<Rightarrow> e | None \<Rightarrow> blob_budget_new p) p node_id app now
    (find_matching_transform env t b node_id p h app now)"
  using assms by (auto simp: find_matching_transform_def intro!: find_loop_spec)

theorem find_matching_transform_correct_witness:
  "find_spec demo_env (blob_budget_new demo_policy) demo_policy 0 demo_app (Duration 1 0)
    (find_matching_transform demo_env budget_tracker_new [8] 0 demo_policy [7] demo_app (Duration 1 0))"
  using find_matching_transform_correct [where b = "[8]" and t = budget_tracker_new and env = demo_env and h = "[7]"
      and p = demo_policy and node_id = 0 and app = demo_app and now = "Duration 1 0"]
  by (simp add: budget_tracker_new_def blob_entry_def)

text \<open>
  An offered transform can be used: if \<open>find_matching_transform\<close> returns transform \<open>i\<close> and
  the shared budget indices of that transform are distinct, recording the access succeeds.
\<close>

theorem offered_transform_recordable:
  assumes "find_matching_transform env t b node_id p h app now = Ok i"
    and "distinct (tr_shared_access_budget_indices (pol_transforms p ! i))"
  shows "\<exists>t'. update_budget t b i p h = (t', Ok ())"
proof -
  define e where "e = (case blob_entry t h b of Some e \<Rightarrow> e | None \<Rightarrow> blob_budget_new p)"
  have nc: "b \<notin> set (consumed_budgets t)"
    using assms(1) by (auto simp: find_matching_transform_def)
  have "find_spec env e p node_id app now (Ok i)"
    using find_loop_spec [of 0 p "pol_transforms p" env node_id app now e False] nc assms(1)
    by (auto simp: find_matching_transform_def e_def)
  then have "i < length (pol_transforms p)" "allows_access e i p = (Ok True :: (bool, status) result)"
    by (simp_all add: find_spec_def candidate_def)
  then have "snd (record_access e i p) = Ok ()"
    using allows_access_record [OF _ assms(2), of e, where ?'a = status] by simp
  moreover obtain t' r where u: "update_budget t b i p h = (t', r)"
    by fastforce
  ultimately show ?thesis
    using blob_entry_update(2) [OF u nc] by (simp add: e_def)
qed

theorem offered_transform_recordable_witness:
  "\<exists>t'. update_budget budget_tracker_new [8] 0 demo_policy [7] = (t', Ok ())"
proof (rule offered_transform_recordable)
  show "find_matching_transform demo_env budget_tracker_new [8] 0 demo_policy [7] demo_app (Duration 1 0) = Ok 0"
    by (simp add: find_matching_transform_def budget_tracker_new_def blob_entry_def demo_policy_def
        matches_def allows_access_def has_remaining_budget_def blob_budget_new_def)
qed (simp add: demo_policy_def)

text \<open>
  C6. Loading the snapshot of a well-formed tracker, into any tracker, restores it exactly.
\<close>

theorem budget_snapshot_restores:
  assumes "tracker_wf t"
  shows "load_budget_snapshot t0 (save_budget_snapshot t) = (t, Ok ())"
  using assms by (rule budget_snapshot_roundtrip)

theorem budget_snapshot_restores_witness:
  "load_budget_snapshot (consume_budget demo_tracker [8]) (save_budget_snapshot demo_tracker) = (demo_tracker, Ok ())"
  by (rule budget_snapshot_restores [OF tracker_run_wf [OF demo_tracker_run tracker_wf_new]])

text \<open>
  A refused access can still cost budget: when the budget of the transform itself is left
  but a shared budget is used up, \<open>record_access\<close> fails and the transform has lost one access.
\<close>

theorem refused_access_costs_budget:
  assumes "i < length (pol_transforms p)" "i < length (transform_access_budgets e)"
    and "transform_limit p i = Some n" "transform_access_budgets e ! i > 0"
    and "tr_shared_access_budget_indices (pol_transforms p ! i) = [j]"
    and "shared_limit p j = Some m" "remaining (shared_access_budgets e) (unat j) = 0"
  shows "record_access e i p =
    (e\<lparr>transform_access_budgets := (transform_access_budgets e)[i := transform_access_budgets e ! i - 1]\<rparr>,
     Err (Status Internal ''no budget remaining or DataAccessPolicy invalid''))"
  using assms
  by (auto simp: record_access_phases update_remaining_budget_def transform_limit_def shared_limit_def
      remaining_def unat_eq_0 word_gt_0 split: if_splits option.splits)

theorem refused_access_costs_budget_witness:
  "record_access \<lparr> transform_access_budgets = [0, 2], shared_access_budgets = [0] \<rparr> 1 demo_policy =
     (\<lparr> transform_access_budgets = [0, 1], shared_access_budgets = [0] \<rparr>,
      Err (Status Internal ''no budget remaining or DataAccessPolicy invalid''))"
  using refused_access_costs_budget [of 1 demo_policy
      "\<lparr> transform_access_budgets = [0, 2], shared_access_budgets = [0] \<rparr>" 3 0 2]
  by (simp add: demo_policy_def transform_limit_def shared_limit_def remaining_def)

end
