(* ===== verification/Ledger.thy ===== *)
theory Ledger
  imports Budget
begin

text \<open>
  Model of \<open>src/apps/ledger/service/src/ledger.rs\<close>: the ledger of keys, their expiration
  and the budgets of the blobs encrypted under them. Every operation of \<open>LedgerService\<close>
  that takes \<open>&mut self\<close> returns the changed state together with its result, also when the
  result is an error. Messages are those of \<open>ledger.proto\<close>, \<open>blob_header.proto\<close> and
  \<open>ledger_actor.proto\<close>; their codecs and the conversion of protobuf durations come with
  the parameter \<open>ledger_env\<close>. \<open>OsRng\<close> is the list of the values that it draws.
\<close>

section \<open>Messages\<close>

text \<open>\<open>prost_types::Timestamp\<close> with its \<open>i64\<close> seconds and \<open>i32\<close> nanoseconds.\<close>

record timestamp =
  ts_seconds :: "64 word"
  ts_nanos :: "32 word"

record pb_duration =
  pd_seconds :: "64 word"
  pd_nanos :: "32 word"

record blob_header =
  bh_blob_id :: bytes
  bh_key_id :: bytes
  bh_access_policy_sha256 :: bytes
  bh_access_policy_node_id :: u32

record create_key_request =
  ckr_now :: "timestamp option"
  ckr_ttl :: "pb_duration option"

record create_key_response =
  ckp_public_key :: bytes
  ckp_attestation_evidence :: "evidence option"

record create_key_event =
  cke_event_time :: "timestamp option"
  cke_public_key :: bytes
  cke_private_key :: bytes
  cke_expiration :: "timestamp option"

datatype delete_key_request = DeleteKeyRequest (dkr_public_key: bytes)

record authorize_access_request =
  aar_now :: "timestamp option"
  aar_access_policy :: bytes
  aar_blob_header :: bytes
  aar_encapsulated_key :: bytes
  aar_encrypted_symmetric_key :: bytes
  aar_recipient_public_key :: bytes
  aar_recipient_attestation_evidence :: "evidence option"
  aar_recipient_attestation_endorsements :: "endorsements option"
  aar_recipient_tag :: string
  aar_recipient_nonce :: bytes

record authorize_access_event =
  aae_event_time :: "timestamp option"
  aae_access_policy :: bytes
  aae_transform_index :: nat
  aae_blob_header :: bytes
  aae_encapsulated_key :: bytes
  aae_encrypted_symmetric_key :: bytes
  aae_recipient_public_key :: bytes
  aae_recipient_nonce :: bytes

record authorize_access_response =
  aap_encapsulated_key :: bytes
  aap_encrypted_symmetric_key :: bytes
  aap_reencryption_public_key :: bytes

record revoke_access_request =
  rar_key_id :: bytes
  rar_blob_id :: bytes

record per_key_snapshot =
  pks_key_id :: bytes
  pks_public_key :: bytes
  pks_private_key :: bytes
  pks_expiration :: "timestamp option"
  pks_budgets :: "budget_snapshot option"

record ledger_snapshot =
  lsn_current_time :: "timestamp option"
  lsn_per_key_snapshots :: "per_key_snapshot list"

section \<open>Environment and state\<close>

record ledger_env =
  le_crypto :: crypto_env
  le_decode_struct :: "bytes \<Rightarrow> pb_struct option"
  le_decode_blob_header :: "bytes \<Rightarrow> blob_header option"
  le_decode_access_policy :: "bytes \<Rightarrow> data_access_policy option"
  le_duration_try_from :: "pb_duration \<Rightarrow> duration option"

record per_key_ledger =
  pk_private_key :: bytes
  pk_public_key :: bytes
  pk_expiration :: duration
  pk_budget_tracker :: budget_tracker

record ledger_service =
  ls_evidence :: evidence
  ls_current_time :: duration
  ls_per_key_ledgers :: "(bytes, per_key_ledger) btree"

definition ledger_create :: "evidence \<Rightarrow> ledger_service" where
  "ledger_create evidence =
     \<lparr> ls_evidence = evidence, ls_current_time = Duration 0 0, ls_per_key_ledgers = [] \<rparr>"

section \<open>Times\<close>

text \<open>\<open>try_into\<close> from a signed to the unsigned type of the same width.\<close>

definition try_into_unsigned :: "'a::len word \<Rightarrow> nat option" where
  "try_into_unsigned w = (if sint w < 0 then None else Some (unat w))"

definition parse_timestamp :: "timestamp option \<Rightarrow> (duration, string) result" where
  "parse_timestamp timestamp =
     (case timestamp of
        None \<Rightarrow> Ok (Duration 0 0)
      | Some ts \<Rightarrow>
          and_then (ok_or ''out of range integral type conversion attempted''
                      (try_into_unsigned (ts_seconds ts))) (\<lambda>seconds.
          and_then (ok_or ''out of range integral type conversion attempted''
                      (try_into_unsigned (ts_nanos ts))) (\<lambda>nanos.
          duration_new seconds nanos)))"

text \<open>\<open>u64\<close> seconds must fit into \<open>i64\<close>; the nanoseconds of a \<open>Duration\<close> always fit into \<open>i32\<close>.\<close>

definition format_timestamp :: "duration \<Rightarrow> (timestamp, status) result" where
  "format_timestamp d =
     (if dur_secs d < 2 ^ 63 then
        (if dur_nanos d < 2 ^ 31
         then Ok \<lparr> ts_seconds = word_of_nat (dur_secs d), ts_nanos = word_of_nat (dur_nanos d) \<rparr>
         else Panic)
      else Err (Status InvalidArgument ''timestamp overflowed''))"

definition parse_duration :: "ledger_env \<Rightarrow> pb_duration option \<Rightarrow> (duration, string) result" where
  "parse_duration env d =
     (case d of
        None \<Rightarrow> Ok (Duration 0 0)
      | Some pd \<Rightarrow> ok_or ''duration is negative or out of range'' (le_duration_try_from env pd))"

definition update_current_time ::
  "ledger_service \<Rightarrow> timestamp option \<Rightarrow> ledger_service \<times> (unit, string) result" where
  "update_current_time self now =
     lift_st self (parse_timestamp now) (\<lambda>now.
       if now > ls_current_time self
       then (self\<lparr>ls_current_time := now,
                  ls_per_key_ledgers := filter (\<lambda>e. pk_expiration (snd e) > now) (ls_per_key_ledgers self)\<rparr>,
             Ok ())
       else (self, Ok ()))"

section \<open>Keys\<close>

definition build_cwt :: "ledger_env \<Rightarrow> ledger_service \<Rightarrow> cose_key \<Rightarrow> duration \<Rightarrow> (bytes, string) result" where
  "build_cwt env self cose_key expiration =
     (if dur_secs expiration \<ge> 2 ^ 63 then Panic
      else if dur_secs (ls_current_time self) \<ge> 2 ^ 63 then Panic
      else
        and_then (ok_or ''CoseKey'' (cose_key_to_vec (le_crypto env) cose_key)) (\<lambda>key.
        let claims = \<lparr> cl_expiration_time = Some (WholeSeconds (int (dur_secs expiration))),
                       cl_issued_at = Some (WholeSeconds (int (dur_secs (ls_current_time self)))),
                       cl_rest = [(ClaimPrivateUse PUBLIC_KEY_CLAIM, CBytes key)] \<rparr> in
        and_then (ok_or ''ClaimsSet'' (claims_to_vec (le_crypto env) claims)) (\<lambda>payload.
        let unsigned = \<lparr> cs_alg = Some (AlgAssigned iana_ES256), cs_payload = Some payload, cs_signature = [] \<rparr> in
        and_then (ok_or ''sign'' (signer_sign (le_crypto env)
                                    (cose_sign1_tbs_data (le_crypto env) unsigned []))) (\<lambda>signature.
        ok_or ''CoseSign1'' (cose_sign1_to_vec (le_crypto env) (unsigned\<lparr>cs_signature := signature\<rparr>))))))"

text \<open>
  The loop that draws four random bytes until they are no key id in use, over the list of
  the next draws; \<open>None\<close> means that the loop is still running after these draws.
\<close>

fun pick_key_id :: "ledger_service \<Rightarrow> bytes list \<Rightarrow> bytes option" where
  "pick_key_id self [] = None"
| "pick_key_id self (key_id # draws) =
     (if bt_contains (ls_per_key_ledgers self) key_id then pick_key_id self draws else Some key_id)"

definition produce_create_key_event ::
  "ledger_env \<Rightarrow> bytes list \<Rightarrow> bytes \<Rightarrow> ledger_service \<Rightarrow> create_key_request
   \<Rightarrow> (ledger_service \<times> (create_key_event, status) result) option" where
  "produce_create_key_event env draws rng self request =
     (case update_current_time self (ckr_now request) of
        (self, Err _) \<Rightarrow> Some (self, Err (Status InvalidArgument ''`now` is invalid''))
      | (self, Panic) \<Rightarrow> Some (self, Panic)
      | (self, Ok _) \<Rightarrow>
          (case parse_duration env (ckr_ttl request) of
             Err _ \<Rightarrow> Some (self, Err (Status InvalidArgument ''`ttl` is invalid''))
           | Panic \<Rightarrow> Some (self, Panic)
           | Ok ttl \<Rightarrow>
               (case duration_add (ls_current_time self) ttl of
                  Err e \<Rightarrow> Some (self, Err e)
                | Panic \<Rightarrow> Some (self, Panic)
                | Ok expiration \<Rightarrow>
                    (case pick_key_id self draws of
                       None \<Rightarrow> None
                     | Some key_id \<Rightarrow>
                         (let (private_key, cose_public_key) = gen_keypair (le_crypto env) rng key_id in
                          Some (self,
                            and_then (map_err (\<lambda>_. Status Internal ''failed to encode CWT'')
                                        (build_cwt env self cose_public_key expiration)) (\<lambda>public_key.
                            and_then (format_timestamp (ls_current_time self)) (\<lambda>event_time.
                            and_then (format_timestamp expiration) (\<lambda>expires.
                            Ok \<lparr> cke_event_time = Some event_time,
                                 cke_public_key = public_key,
                                 cke_private_key = private_key,
                                 cke_expiration = Some expires \<rparr>)))))))))"

definition apply_create_key_event ::
  "ledger_env \<Rightarrow> ledger_service \<Rightarrow> create_key_event
   \<Rightarrow> ledger_service \<times> (create_key_response, status) result" where
  "apply_create_key_event env self event =
     try_st (apsnd (map_err (\<lambda>_. Status InvalidArgument ''event_time is invalid''))
               (update_current_time self (cke_event_time event))) (\<lambda>self _.
     lift_st self (map_err (\<lambda>_. Status InvalidArgument ''expiration is invalid'')
                     (parse_timestamp (cke_expiration event))) (\<lambda>expiration.
     lift_st self (map_err (\<lambda>_. Status InvalidArgument ''public_key is invalid'')
                     (extract_key_from_cwt (le_crypto env) (cke_public_key event))) (\<lambda>key.
     if bt_contains (ls_per_key_ledgers self) (ck_key_id key)
     then (self, Err (Status InvalidArgument ''cannot commit changes for already used key id''))
     else
       lift_st self (ok_or (Status InvalidArgument ''failed to parse private_key'')
                       (kem_private_key_from_bytes (le_crypto env) (cke_private_key event))) (\<lambda>private_key.
       (self\<lparr>ls_per_key_ledgers := bt_insert (ck_key_id key)
                \<lparr> pk_private_key = private_key,
                  pk_public_key = cke_public_key event,
                  pk_expiration = expiration,
                  pk_budget_tracker = budget_tracker_new \<rparr> (ls_per_key_ledgers self)\<rparr>,
        Ok \<lparr> ckp_public_key = cke_public_key event,
             ckp_attestation_evidence = Some (ls_evidence self) \<rparr>)))))"

section \<open>Access\<close>

definition attest_and_produce_authorize_access_event ::
  "ledger_env \<Rightarrow> ledger_service \<Rightarrow> authorize_access_request
   \<Rightarrow> ledger_service \<times> (authorize_access_event, status) result" where
  "attest_and_produce_authorize_access_event env self request =
     try_st (apsnd (map_err (\<lambda>_. Status InvalidArgument ''`now` is invalid''))
               (update_current_time self (aar_now request))) (\<lambda>self _.
     lift_st self (map_err (\<lambda>_. Status InvalidArgument ''attestation validation failed'')
                     (verify_attestation (le_crypto env) (le_decode_struct env)
                        (aar_recipient_public_key request)
                        (aar_recipient_attestation_evidence request)
                        (aar_recipient_attestation_endorsements request)
                        (aar_recipient_tag request))) (\<lambda>(recipient_app, _).
     lift_st self (ok_or (Status InvalidArgument ''failed to parse blob header'')
                     (le_decode_blob_header env (aar_blob_header request))) (\<lambda>header.
     if sha256_digest (le_crypto env) (aar_access_policy request) \<noteq> bh_access_policy_sha256 header
     then (self, Err (Status InvalidArgument ''access policy does not match blob header''))
     else
       lift_st self (ok_or (Status InvalidArgument ''failed to parse access policy'')
                       (le_decode_access_policy env (aar_access_policy request))) (\<lambda>access_policy.
       lift_st self (ok_or (Status NotFound ''public key not found'')
                       (bt_get (ls_per_key_ledgers self) (bh_key_id header))) (\<lambda>per_key_ledger.
       lift_st self (find_matching_transform (le_crypto env) (pk_budget_tracker per_key_ledger)
                       (bh_blob_id header) (bh_access_policy_node_id header) access_policy
                       (bh_access_policy_sha256 header) recipient_app (ls_current_time self)) (\<lambda>transform_index.
       lift_st self (format_timestamp (ls_current_time self)) (\<lambda>event_time.
       (self, Ok \<lparr> aae_event_time = Some event_time,
                   aae_access_policy = aar_access_policy request,
                   aae_transform_index = transform_index,
                   aae_blob_header = aar_blob_header request,
                   aae_encapsulated_key = aar_encapsulated_key request,
                   aae_encrypted_symmetric_key = aar_encrypted_symmetric_key request,
                   aae_recipient_public_key = aar_recipient_public_key request,
                   aae_recipient_nonce = aar_recipient_nonce request \<rparr>))))))))"

definition apply_authorize_access_event ::
  "ledger_env \<Rightarrow> bytes \<Rightarrow> ledger_service \<Rightarrow> authorize_access_event
   \<Rightarrow> ledger_service \<times> (authorize_access_response, status) result" where
  "apply_authorize_access_event env rng self event =
     try_st (apsnd (map_err (\<lambda>_. Status InvalidArgument ''event_time is invalid''))
               (update_current_time self (aae_event_time event))) (\<lambda>self _.
     lift_st self (map_err (\<lambda>_. Status InvalidArgument ''public_key is invalid'')
                     (extract_key_from_cwt (le_crypto env) (aae_recipient_public_key event))) (\<lambda>recipient_public_key.
     lift_st self (ok_or (Status InvalidArgument ''failed to parse blob header'')
                     (le_decode_blob_header env (aae_blob_header event))) (\<lambda>header.
     lift_st self (ok_or (Status InvalidArgument ''failed to parse access policy'')
                     (le_decode_access_policy env (aae_access_policy event))) (\<lambda>access_policy.
     lift_st self (ok_or (Status NotFound ''public key not found'')
                     (bt_get (ls_per_key_ledgers self) (bh_key_id header))) (\<lambda>per_key_ledger.
     lift_st self (map_err (\<lambda>_. Status InvalidArgument ''failed to re-wrap symmetric key'')
                     (rewrap_symmetric_key (le_crypto env) rng
                        (aae_encrypted_symmetric_key event)
                        (aae_encapsulated_key event)
                        (pk_private_key per_key_ledger)
                        (aae_blob_header event)
                        recipient_public_key
                        (pk_public_key per_key_ledger @ aae_recipient_nonce event)))
       (\<lambda>(encapsulated_key, encrypted_symmetric_key).
     let (tracker, r) = update_budget (pk_budget_tracker per_key_ledger) (bh_blob_id header)
                          (aae_transform_index event) access_policy (bh_access_policy_sha256 header);
         self = self\<lparr>ls_per_key_ledgers := bt_insert (bh_key_id header)
                       (per_key_ledger\<lparr>pk_budget_tracker := tracker\<rparr>) (ls_per_key_ledgers self)\<rparr>
     in lift_st self r (\<lambda>_.
        (self, Ok \<lparr> aap_encapsulated_key = encapsulated_key,
                    aap_encrypted_symmetric_key = encrypted_symmetric_key,
                    aap_reencryption_public_key = pk_public_key per_key_ledger \<rparr>))))))))"

definition delete_key ::
  "ledger_env \<Rightarrow> ledger_service \<Rightarrow> delete_key_request \<Rightarrow> ledger_service \<times> (unit, status) result" where
  "delete_key env self request =
     lift_st self (map_err (\<lambda>_. Status InvalidArgument ''public_key is invalid'')
                     (extract_key_from_cwt (le_crypto env) (dkr_public_key request))) (\<lambda>key.
     case bt_get (ls_per_key_ledgers self) (ck_key_id key) of
       Some _ \<Rightarrow> (self\<lparr>ls_per_key_ledgers := bt_remove (ck_key_id key) (ls_per_key_ledgers self)\<rparr>, Ok ())
     | None \<Rightarrow> (self, Err (Status NotFound ''public key not found'')))"

definition revoke_access ::
  "ledger_service \<Rightarrow> revoke_access_request \<Rightarrow> ledger_service \<times> (unit, status) result" where
  "revoke_access self request =
     (case bt_get (ls_per_key_ledgers self) (rar_key_id request) of
        None \<Rightarrow> (self, Err (Status NotFound ''public key not found''))
      | Some per_key_ledger \<Rightarrow>
          (self\<lparr>ls_per_key_ledgers := bt_insert (rar_key_id request)
                  (per_key_ledger\<lparr>pk_budget_tracker :=
                     consume_budget (pk_budget_tracker per_key_ledger) (rar_blob_id request)\<rparr>)
                  (ls_per_key_ledgers self)\<rparr>, Ok ()))"

text \<open>\<open>create_key\<close> and \<open>authorize_access\<close> of the \<open>Ledger\<close> trait produce an event and apply it at once.\<close>

definition create_key ::
  "ledger_env \<Rightarrow> bytes list \<Rightarrow> bytes \<Rightarrow> ledger_service \<Rightarrow> create_key_request
   \<Rightarrow> (ledger_service \<times> (create_key_response, status) result) option" where
  "create_key env draws rng self request =
     map_option (\<lambda>p. try_st p (apply_create_key_event env))
       (produce_create_key_event env draws rng self request)"

definition authorize_access ::
  "ledger_env \<Rightarrow> bytes \<Rightarrow> ledger_service \<Rightarrow> authorize_access_request
   \<Rightarrow> ledger_service \<times> (authorize_access_response, status) result" where
  "authorize_access env rng self request =
     try_st (attest_and_produce_authorize_access_event env self request)
       (apply_authorize_access_event env rng)"

section \<open>Snapshots\<close>

fun save_per_key :: "(bytes, per_key_ledger) btree \<Rightarrow> (per_key_snapshot list, status) result" where
  "save_per_key [] = Ok []"
| "save_per_key (e # rest) =
     and_then (format_timestamp (pk_expiration (snd e))) (\<lambda>expiration.
     and_then (save_per_key rest) (\<lambda>snapshots.
     Ok (\<lparr> pks_key_id = fst e,
           pks_public_key = pk_public_key (snd e),
           pks_private_key = pk_private_key (snd e),
           pks_expiration = Some expiration,
           pks_budgets = Some (save_budget_snapshot (pk_budget_tracker (snd e))) \<rparr> # snapshots)))"

definition save_ledger_snapshot :: "ledger_service \<Rightarrow> (ledger_snapshot, status) result" where
  "save_ledger_snapshot self =
     and_then (format_timestamp (ls_current_time self)) (\<lambda>current_time.
     and_then (save_per_key (ls_per_key_ledgers self)) (\<lambda>snapshots.
     Ok \<lparr> lsn_current_time = Some current_time, lsn_per_key_snapshots = snapshots \<rparr>))"

fun load_per_key ::
  "ledger_env \<Rightarrow> ledger_service \<Rightarrow> per_key_snapshot list \<Rightarrow> ledger_service \<times> (unit, status) result" where
  "load_per_key env self [] = (self, Ok ())"
| "load_per_key env self (s # rest) =
     lift_st self (ok_or (Status InvalidArgument ''failed to parse private_key'')
                     (kem_private_key_from_bytes (le_crypto env) (pks_private_key s))) (\<lambda>private_key.
     lift_st self (map_err (\<lambda>_. Status InvalidArgument ''expiration is invalid'')
                     (parse_timestamp (pks_expiration s))) (\<lambda>expiration.
     lift_st self (case pks_budgets s of
                     None \<Rightarrow> Ok budget_tracker_new
                   | Some b \<Rightarrow> (case load_budget_snapshot budget_tracker_new b of
                       (t, Ok _) \<Rightarrow> Ok t | (_, Err e) \<Rightarrow> Err e | (_, Panic) \<Rightarrow> Panic)) (\<lambda>tracker.
     let self' = self\<lparr>ls_per_key_ledgers := bt_insert (pks_key_id s)
                   \<lparr> pk_private_key = private_key,
                     pk_public_key = pks_public_key s,
                     pk_expiration = expiration,
                     pk_budget_tracker = tracker \<rparr> (ls_per_key_ledgers self)\<rparr> in
     if bt_contains (ls_per_key_ledgers self) (pks_key_id s)
     then (self', Err (Status InvalidArgument ''Duplicated key_id in the snapshot''))
     else load_per_key env self' rest)))"

definition load_ledger_snapshot ::
  "ledger_env \<Rightarrow> ledger_service \<Rightarrow> ledger_snapshot \<Rightarrow> ledger_service \<times> (unit, status) result" where
  "load_ledger_snapshot env self snapshot =
     lift_st self (map_err (\<lambda>_. Status InvalidArgument ''current_time is invalid'')
                     (parse_timestamp (lsn_current_time snapshot))) (\<lambda>current_time.
     load_per_key env (self\<lparr>ls_current_time := current_time, ls_per_key_ledgers := []\<rparr>)
       (lsn_per_key_snapshots snapshot))"


section \<open>Specification\<close>

text \<open>
  The clock of a ledger moves to \<open>now\<close> and the keys that have expired by then go; a time
  that is not later than the clock changes nothing.
\<close>

definition advance :: "duration \<Rightarrow> ledger_service \<Rightarrow> ledger_service" where
  "advance now s =
     (if now > ls_current_time s
      then s\<lparr>ls_current_time := now,
              ls_per_key_ledgers := filter (\<lambda>e. pk_expiration (snd e) > now) (ls_per_key_ledgers s)\<rparr>
      else s)"

text \<open>The keys that are not expired at a time.\<close>

definition live :: "duration \<Rightarrow> ledger_service \<Rightarrow> (bytes, per_key_ledger) btree" where
  "live now s = filter (\<lambda>e. pk_expiration (snd e) > now) (ls_per_key_ledgers s)"

text \<open>A change of the entry of one key, if there is one.\<close>

definition modify_key ::
  "bytes \<Rightarrow> (per_key_ledger \<Rightarrow> per_key_ledger) \<Rightarrow> (bytes, per_key_ledger) btree \<Rightarrow> (bytes, per_key_ledger) btree" where
  "modify_key kid f m = (case bt_get m kid of None \<Rightarrow> m | Some e \<Rightarrow> bt_insert kid (f e) m)"

definition ledger_wf :: "ledger_env \<Rightarrow> ledger_service \<Rightarrow> bool" where
  "ledger_wf env s \<longleftrightarrow>
     bt_wf (ls_per_key_ledgers s) \<and> duration_wf (ls_current_time s) \<and>
     (\<forall>e \<in> set (ls_per_key_ledgers s).
        tracker_wf (pk_budget_tracker (snd e)) \<and> duration_wf (pk_expiration (snd e)) \<and>
        kem_private_key_from_bytes (le_crypto env) (pk_private_key (snd e)) = Some (pk_private_key (snd e)))"

text \<open>The serialisation of a private key parses back to the same key.\<close>

definition private_key_law :: "ledger_env \<Rightarrow> bool" where
  "private_key_law env \<longleftrightarrow>
     (\<forall>b k. kem_private_key_from_bytes (le_crypto env) b = Some k \<longrightarrow>
       kem_private_key_from_bytes (le_crypto env) k = Some k)"

text \<open>What an authorisation event does to the entry of its key and to the map of all keys.\<close>

definition authorize_entry ::
  "ledger_env \<Rightarrow> bytes \<Rightarrow> authorize_access_event \<Rightarrow> cose_key \<Rightarrow> blob_header \<Rightarrow> data_access_policy
   \<Rightarrow> per_key_ledger \<Rightarrow> per_key_ledger" where
  "authorize_entry env rng ev rk hdr p e =
     (if is_ok (rewrap_symmetric_key (le_crypto env) rng (aae_encrypted_symmetric_key ev)
                  (aae_encapsulated_key ev) (pk_private_key e) (aae_blob_header ev) rk
                  (pk_public_key e @ aae_recipient_nonce ev))
      then e\<lparr>pk_budget_tracker := fst (update_budget (pk_budget_tracker e) (bh_blob_id hdr)
                (aae_transform_index ev) p (bh_access_policy_sha256 hdr))\<rparr>
      else e)"

definition authorize_keys ::
  "ledger_env \<Rightarrow> bytes \<Rightarrow> authorize_access_event \<Rightarrow> (bytes, per_key_ledger) btree
   \<Rightarrow> (bytes, per_key_ledger) btree" where
  "authorize_keys env rng ev m =
     (case extract_key_from_cwt (le_crypto env) (aae_recipient_public_key ev) of
        Ok rk \<Rightarrow>
          (case le_decode_blob_header env (aae_blob_header ev) of
             Some hdr \<Rightarrow>
               (case le_decode_access_policy env (aae_access_policy ev) of
                  Some p \<Rightarrow> modify_key (bh_key_id hdr) (authorize_entry env rng ev rk hdr p) m
                | None \<Rightarrow> m)
           | None \<Rightarrow> m)
      | _ \<Rightarrow> m)"

text \<open>
  The runs of a ledger replica with the accesses that it has granted, each with the id of its
  key; \<open>policies\<close> are the serialised access policies that occur. Authorisation events are those
  that some ledger produced from a request. Creating a key forgets the accesses of an earlier
  key with the same id. The clock moves in the produce steps; a restore replaces the state by
  what a snapshot holds.
\<close>

inductive ledger_run ::
  "ledger_env \<Rightarrow> bytes set \<Rightarrow> ledger_service \<Rightarrow> (bytes \<times> access) list \<Rightarrow> bool" for env policies where
  init: "ledger_run env policies (ledger_create evidence) []"
| produce_create: "ledger_run env policies s g \<Longrightarrow>
    produce_create_key_event env draws rng s create_request = Some (s', r) \<Longrightarrow> ledger_run env policies s' g"
| create: "ledger_run env policies s g \<Longrightarrow> apply_create_key_event env s ev = (s', Ok resp) \<Longrightarrow>
    extract_key_from_cwt (le_crypto env) (cke_public_key ev) = Ok key \<Longrightarrow>
    ledger_run env policies s' (filter (\<lambda>x. fst x \<noteq> ck_key_id key) g)"
| create_refused: "ledger_run env policies s g \<Longrightarrow> apply_create_key_event env s ev = (s', Err x) \<Longrightarrow>
    ledger_run env policies s' g"
| produce_authorize: "ledger_run env policies s g \<Longrightarrow>
    attest_and_produce_authorize_access_event env s request = (s', r2) \<Longrightarrow> ledger_run env policies s' g"
| authorize: "ledger_run env policies s g \<Longrightarrow>
    attest_and_produce_authorize_access_event env s0 request = (s1, Ok aev) \<Longrightarrow>
    aae_access_policy aev \<in> policies \<Longrightarrow>
    apply_authorize_access_event env rng s aev = (s', Ok aresp) \<Longrightarrow>
    le_decode_blob_header env (aae_blob_header aev) = Some hdr \<Longrightarrow>
    ledger_run env policies s'
      ((bh_key_id hdr, bh_access_policy_sha256 hdr, bh_blob_id hdr, aae_transform_index aev) # g)"
| authorize_refused: "ledger_run env policies s g \<Longrightarrow>
    attest_and_produce_authorize_access_event env s0 request = (s1, Ok aev) \<Longrightarrow>
    aae_access_policy aev \<in> policies \<Longrightarrow>
    apply_authorize_access_event env rng s aev = (s', Err x) \<Longrightarrow> ledger_run env policies s' g"
| delete: "ledger_run env policies s g \<Longrightarrow> delete_key env s delete_request = (s', r3) \<Longrightarrow> ledger_run env policies s' g"
| revoke: "ledger_run env policies s g \<Longrightarrow> revoke_access s revoke_request = (s', r4) \<Longrightarrow> ledger_run env policies s' g"
| restore: "ledger_run env policies s g \<Longrightarrow> save_ledger_snapshot s = Ok snapshot \<Longrightarrow>
    load_ledger_snapshot env s0 snapshot = (s', Ok ()) \<Longrightarrow> ledger_run env policies s' g"

definition grants_of :: "bytes \<Rightarrow> (bytes \<times> access) list \<Rightarrow> access list" where
  "grants_of kid g = map snd (filter (\<lambda>x. fst x = kid) g)"

text \<open>A step that grants nothing: every key left was there before and its tracker made at most one step.\<close>

definition quiet :: "(bytes \<Rightarrow> data_access_policy) \<Rightarrow> ledger_service \<Rightarrow> ledger_service \<Rightarrow> bool" where
  "quiet pol s s' \<longleftrightarrow>
     (\<forall>kid e'. bt_get (ls_per_key_ledgers s') kid = Some e' \<longrightarrow>
       (\<exists>e. bt_get (ls_per_key_ledgers s) kid = Some e \<and>
         (pk_budget_tracker e' = pk_budget_tracker e \<or>
          tracker_step pol (pk_budget_tracker e) [] (pk_budget_tracker e'))))"

text \<open>The granted accesses of every key are a run of a tracker, the one of the key if it is there.\<close>

definition tracked :: "(bytes \<Rightarrow> data_access_policy) \<Rightarrow> ledger_service \<Rightarrow> (bytes \<times> access) list \<Rightarrow> bool" where
  "tracked pol s g \<longleftrightarrow>
     (\<forall>kid. \<exists>t. tracker_run pol budget_tracker_new (grants_of kid g) t) \<and>
     (\<forall>kid e. bt_get (ls_per_key_ledgers s) kid = Some e \<longrightarrow>
       tracker_run pol budget_tracker_new (grants_of kid g) (pk_budget_tracker e))"

text \<open>
  A concrete ledger for the witnesses: one key with id 2 that expires at 100 seconds, and the
  policy \<open>demo_policy\<close> with hash 7 for the blob 8.
\<close>

definition demo_ledger_env :: ledger_env where
  "demo_ledger_env =
     \<lparr> le_crypto = demo_env,
       le_decode_struct = (\<lambda>_. None),
       le_decode_blob_header = (\<lambda>b. if b = [5] then
          Some \<lparr> bh_blob_id = [8], bh_key_id = [2], bh_access_policy_sha256 = [7], bh_access_policy_node_id = 0 \<rparr>
          else None),
       le_decode_access_policy = (\<lambda>b. if b = [7] then Some demo_policy else None),
       le_duration_try_from = (\<lambda>d. Some (Duration (unat (pd_seconds d)) (unat (pd_nanos d)))) \<rparr>"

definition demo_create_event :: create_key_event where
  "demo_create_event =
     \<lparr> cke_event_time = Some \<lparr> ts_seconds = 10, ts_nanos = 0 \<rparr>,
       cke_public_key = [11, 1, 2, 3], cke_private_key = [3],
       cke_expiration = Some \<lparr> ts_seconds = 100, ts_nanos = 0 \<rparr> \<rparr>"

definition demo_ledger :: ledger_service where
  "demo_ledger =
     \<lparr> ls_evidence = [6], ls_current_time = Duration 10 0,
       ls_per_key_ledgers = [([2], \<lparr> pk_private_key = [3], pk_public_key = [11, 1, 2, 3],
          pk_expiration = Duration 100 0, pk_budget_tracker = budget_tracker_new \<rparr>)] \<rparr>"

definition demo_authorize_request :: authorize_access_request where
  "demo_authorize_request =
     \<lparr> aar_now = Some \<lparr> ts_seconds = 20, ts_nanos = 0 \<rparr>, aar_access_policy = [7], aar_blob_header = [5],
       aar_encapsulated_key = [1], aar_encrypted_symmetric_key = [5, 0],
       aar_recipient_public_key = [10, 1, 4, 6], aar_recipient_attestation_evidence = Some [5],
       aar_recipient_attestation_endorsements = Some [], aar_recipient_tag = ''t'', aar_recipient_nonce = [9] \<rparr>"

definition demo_authorize_event :: authorize_access_event where
  "demo_authorize_event =
     \<lparr> aae_event_time = Some \<lparr> ts_seconds = 20, ts_nanos = 0 \<rparr>, aae_access_policy = [7],
       aae_transform_index = 0, aae_blob_header = [5], aae_encapsulated_key = [1],
       aae_encrypted_symmetric_key = [5, 0], aae_recipient_public_key = [10, 1, 4, 6],
       aae_recipient_nonce = [9] \<rparr>"

definition demo_ledger_after :: ledger_service where
  "demo_ledger_after =
     \<lparr> ls_evidence = [6], ls_current_time = Duration 20 0,
       ls_per_key_ledgers = [([2], \<lparr> pk_private_key = [3], pk_public_key = [11, 1, 2, 3],
          pk_expiration = Duration 100 0, pk_budget_tracker =
            \<lparr> budgets = [([7], [([8], \<lparr> transform_access_budgets = [0, 3], shared_access_budgets = [1] \<rparr>)])],
              consumed_budgets = [] \<rparr> \<rparr>)] \<rparr>"

definition demo_authorize_response :: authorize_access_response where
  "demo_authorize_response =
     \<lparr> aap_encapsulated_key = [1], aap_encrypted_symmetric_key = [11, 1, 2, 3, 9, 0],
       aap_reencryption_public_key = [11, 1, 2, 3] \<rparr>"

section \<open>Times\<close>


lemma try_into_unsigned_Some:
  "try_into_unsigned (w :: 'a::len word) = Some n \<longleftrightarrow> n = unat w \<and> n < 2 ^ (LENGTH('a) - 1)"
  by (auto simp: try_into_unsigned_def sint_neg_iff)

lemma try_into_unsigned_of_nat:
  "n < 2 ^ (LENGTH('a) - 1) \<Longrightarrow> try_into_unsigned (word_of_nat n :: 'a::len word) = Some n"
proof -
  assume n: "n < 2 ^ (LENGTH('a) - 1)"
  also have "(2::nat) ^ (LENGTH('a) - 1) \<le> 2 ^ LENGTH('a)"
    by simp
  finally show ?thesis
    using n by (simp add: try_into_unsigned_Some unat_of_nat)
qed

lemma parse_timestamp_not_Panic: "parse_timestamp ts \<noteq> Panic"
proof (cases ts)
  case (Some t)
  show ?thesis
  proof (cases "try_into_unsigned (ts_seconds t)"; cases "try_into_unsigned (ts_nanos t)")
    fix s n assume sn: "try_into_unsigned (ts_seconds t) = Some s" "try_into_unsigned (ts_nanos t) = Some n"
    then have "s < 2 ^ 63" "n < 2 ^ 31"
      by (simp_all add: try_into_unsigned_Some)
    moreover from this(2) have "n div 1000000000 < 2 ^ 31"
      by (meson div_le_dividend le_less_trans)
    ultimately show ?thesis
      using Some sn by (simp add: parse_timestamp_def duration_new_def)
  qed (use Some in \<open>simp_all add: parse_timestamp_def\<close>)
qed (simp add: parse_timestamp_def)

lemma parse_timestamp_wf: "parse_timestamp ts = Ok d \<Longrightarrow> duration_wf d"
  by (auto simp: parse_timestamp_def result_simps duration_new_wf split: option.splits)
    (simp add: duration_wf_def)

text \<open>A time below \<open>i64::MAX\<close> seconds survives formatting and parsing.\<close>

lemma format_timestamp_Ok:
  "duration_wf d \<Longrightarrow> dur_secs d < 2 ^ 63 \<Longrightarrow> \<exists>ts. format_timestamp d = Ok ts"
  by (auto simp: format_timestamp_def duration_wf_def)

lemma parse_format_timestamp:
  assumes "duration_wf d" "format_timestamp d = Ok ts"
  shows "parse_timestamp (Some ts) = Ok d"
proof -
  have "dur_secs d < 2 ^ 63" "dur_nanos d < 2 ^ 31"
    "ts = \<lparr> ts_seconds = word_of_nat (dur_secs d), ts_nanos = word_of_nat (dur_nanos d) \<rparr>"
    using assms(2) by (auto simp: format_timestamp_def split: if_splits)
  then show ?thesis
    using assms(1) by (simp add: parse_timestamp_def try_into_unsigned_of_nat duration_new_id)
qed

lemma format_timestamp_range: "format_timestamp d = Ok ts \<Longrightarrow> dur_secs d < 2 ^ 63"
  by (auto simp: format_timestamp_def split: if_splits)

lemma update_current_time_advance:
  "update_current_time s ts = lift_st s (parse_timestamp ts) (\<lambda>now. (advance now s, Ok ()))"
  by (cases "parse_timestamp ts") (auto simp: update_current_time_def advance_def)

lemma advance_fields [simp]:
  "ls_current_time (advance now s) = max now (ls_current_time s)"
  "ls_evidence (advance now s) = ls_evidence s"
  by (auto simp: advance_def max_def)

lemma live_advance: "now \<le> t \<Longrightarrow> live t (advance now s) = live t s"
  by (auto simp: live_def advance_def intro!: filter_cong)

lemma live_mono: "live t s = live t s' \<Longrightarrow> t \<le> t' \<Longrightarrow> live t' s = live t' s'"
proof -
  assume eq: "live t s = live t s'" and "t \<le> t'"
  then have "live t' x = filter (\<lambda>e. pk_expiration (snd e) > t') (live t x)" for x
    by (auto simp: live_def intro!: filter_cong)
  with eq show ?thesis
    by simp
qed

lemma advance_subset: "set (ls_per_key_ledgers (advance now s)) \<subseteq> set (ls_per_key_ledgers s)"
  by (auto simp: advance_def)

lemma advance_get:
  "bt_wf (ls_per_key_ledgers s) \<Longrightarrow> bt_get (ls_per_key_ledgers (advance now s)) kid =
    (case bt_get (ls_per_key_ledgers s) kid of
       Some e \<Rightarrow> if now > ls_current_time s \<and> pk_expiration e \<le> now then None else Some e
     | None \<Rightarrow> None)"
  by (auto simp: advance_def bt_get_filter split: option.splits)

lemma advance_wf: "ledger_wf env s \<Longrightarrow> duration_wf now \<Longrightarrow> ledger_wf env (advance now s)"
  by (auto simp: ledger_wf_def advance_def bt_wf_filter)

section \<open>Entries of keys\<close>

lemma modify_key_wf: "bt_wf m \<Longrightarrow> bt_wf (modify_key kid f m)"
  by (auto simp: modify_key_def bt_wf_insert split: option.split)

lemma modify_key_get:
  "bt_get (modify_key kid f m) k = (if k = kid then map_option f (bt_get m kid) else bt_get m k)"
  by (auto simp: modify_key_def split: option.split)

text \<open>A change that keeps the expiration commutes with the removal of expired keys.\<close>

lemma filter_modify_key:
  assumes "bt_wf m" "\<And>e. pk_expiration (f e) = pk_expiration e"
  shows "filter (\<lambda>e. pk_expiration (snd e) > t) (modify_key kid f m) =
    modify_key kid f (filter (\<lambda>e. pk_expiration (snd e) > t) m)"
  by (rule bt_ext)
    (auto simp: assms bt_wf_filter modify_key_wf modify_key_get bt_get_filter fun_eq_iff split: option.splits)

lemma filter_bt_insert:
  assumes "bt_wf m"
  shows "bt_get m kid = None \<Longrightarrow> filter P (bt_insert kid e m) = (if P (kid, e) then bt_insert kid e (filter P m) else filter P m)"
  by (rule bt_ext)
    (auto simp: assms bt_wf_filter bt_wf_insert bt_get_filter fun_eq_iff split: option.splits if_splits)

lemma filter_bt_remove: "filter P (bt_remove kid m) = bt_remove kid (filter P m)"
  by (simp add: bt_remove_def conj_commute)

lemma ledger_wf_modify:
  assumes "ledger_wf env s"
    and "\<And>e. bt_get (ls_per_key_ledgers s) kid = Some e \<Longrightarrow> tracker_wf (pk_budget_tracker e) \<Longrightarrow>
      tracker_wf (pk_budget_tracker (f e)) \<and> pk_expiration (f e) = pk_expiration e \<and>
      pk_private_key (f e) = pk_private_key e"
  shows "ledger_wf env (s\<lparr>ls_per_key_ledgers := modify_key kid f (ls_per_key_ledgers s)\<rparr>)"
proof -
  have wf: "bt_wf (ls_per_key_ledgers s)"
    using assms(1) by (simp add: ledger_wf_def)
  have "tracker_wf (pk_budget_tracker e) \<and> duration_wf (pk_expiration e) \<and>
      kem_private_key_from_bytes (le_crypto env) (pk_private_key e) = Some (pk_private_key e)"
    if "(k, e) \<in> set (modify_key kid f (ls_per_key_ledgers s))" for k e
  proof -
    have "bt_get (modify_key kid f (ls_per_key_ledgers s)) k = Some e"
      using that wf by (simp add: bt_in_get modify_key_wf)
    then show ?thesis
      using assms(1) assms(2) bt_get_Some_in
      by (fastforce simp: modify_key_get ledger_wf_def split: if_splits)
  qed
  then show ?thesis
    using assms(1) by (auto simp: ledger_wf_def modify_key_wf)
qed

section \<open>Effects of the operations\<close>

lemma extract_key_not_Panic [simp]: "extract_key_from_cwt env b \<noteq> Panic"
  by (simp add: extract_key_from_cwt_def result_simps)

lemma authorize_entry_fields [simp]:
  "pk_expiration (authorize_entry env rng ev rk hdr p e) = pk_expiration e"
  "pk_private_key (authorize_entry env rng ev rk hdr p e) = pk_private_key e"
  "pk_public_key (authorize_entry env rng ev rk hdr p e) = pk_public_key e"
  by (simp_all add: authorize_entry_def)

lemma authorize_keys_wf: "bt_wf m \<Longrightarrow> bt_wf (authorize_keys env rng ev m)"
  by (auto simp: authorize_keys_def modify_key_wf split: result.split option.split)

lemma apply_authorize_bad_time:
  "parse_timestamp (aae_event_time ev) = Err x \<Longrightarrow>
    apply_authorize_access_event env rng s ev = (s, Err (Status InvalidArgument ''event_time is invalid''))"
  by (simp add: apply_authorize_access_event_def update_current_time_advance)

lemma apply_authorize_effect:
  assumes "parse_timestamp (aae_event_time ev) = Ok now" "bt_wf (ls_per_key_ledgers s)"
  shows "fst (apply_authorize_access_event env rng s ev) =
    (advance now s)\<lparr>ls_per_key_ledgers := authorize_keys env rng ev (ls_per_key_ledgers (advance now s))\<rparr>"
proof -
  have wf: "bt_wf (ls_per_key_ledgers (advance now s))"
    using assms(2) by (simp add: advance_def bt_wf_filter)
  note defs = apply_authorize_access_event_def update_current_time_advance assms(1) authorize_keys_def modify_key_def
  show ?thesis
  proof (cases "extract_key_from_cwt (le_crypto env) (aae_recipient_public_key ev)")
    case (Ok rk)
    show ?thesis
    proof (cases "le_decode_blob_header env (aae_blob_header ev)";
        cases "le_decode_access_policy env (aae_access_policy ev)")
      fix hdr p
      assume dec: "le_decode_blob_header env (aae_blob_header ev) = Some hdr"
        "le_decode_access_policy env (aae_access_policy ev) = Some p"
      show ?thesis
      proof (cases "bt_get (ls_per_key_ledgers (advance now s)) (bh_key_id hdr)")
        case (Some e)
        obtain t r where "update_budget (pk_budget_tracker e) (bh_blob_id hdr) (aae_transform_index ev) p
            (bh_access_policy_sha256 hdr) = (t, r)"
          by fastforce
        then show ?thesis
        proof (cases "rewrap_symmetric_key (le_crypto env) rng (aae_encrypted_symmetric_key ev)
            (aae_encapsulated_key ev) (pk_private_key e) (aae_blob_header ev) rk
            (pk_public_key e @ aae_recipient_nonce ev)")
          case (Ok keys)
          then show ?thesis
            using \<open>extract_key_from_cwt _ _ = Ok rk\<close> \<open>update_budget _ _ _ _ _ = (t, r)\<close> dec Some
            by (cases keys; cases r) (simp_all add: defs authorize_entry_def)
        qed (use \<open>extract_key_from_cwt _ _ = Ok rk\<close> dec Some wf
            in \<open>simp_all add: defs authorize_entry_def bt.put_same\<close>)
      qed (use Ok dec in \<open>simp add: defs\<close>)
    qed (use Ok in \<open>simp_all add: defs\<close>)
  qed (simp_all add: defs)
qed

lemma apply_create_bad_time:
  "parse_timestamp (cke_event_time ev) = Err x \<Longrightarrow>
    apply_create_key_event env s ev = (s, Err (Status InvalidArgument ''event_time is invalid''))"
  by (simp add: apply_create_key_event_def update_current_time_advance)

lemma apply_create_effect:
  assumes "parse_timestamp (cke_event_time ev) = Ok now"
    and "apply_create_key_event env s ev = (s', r)"
  shows "(\<exists>key expiration private_key.
      parse_timestamp (cke_expiration ev) = Ok expiration \<and>
      extract_key_from_cwt (le_crypto env) (cke_public_key ev) = Ok key \<and>
      kem_private_key_from_bytes (le_crypto env) (cke_private_key ev) = Some private_key \<and>
      bt_get (ls_per_key_ledgers (advance now s)) (ck_key_id key) = None \<and>
      s' = (advance now s)\<lparr>ls_per_key_ledgers := bt_insert (ck_key_id key)
                \<lparr> pk_private_key = private_key, pk_public_key = cke_public_key ev,
                  pk_expiration = expiration, pk_budget_tracker = budget_tracker_new \<rparr>
                (ls_per_key_ledgers (advance now s))\<rparr> \<and>
      r = Ok \<lparr> ckp_public_key = cke_public_key ev, ckp_attestation_evidence = Some (ls_evidence s) \<rparr>)
    \<or> s' = advance now s \<and> is_err r"
proof (cases "parse_timestamp (cke_expiration ev)")
  case (Ok expiration)
  show ?thesis
    using assms Ok
    by (cases "extract_key_from_cwt (le_crypto env) (cke_public_key ev)";
        cases "kem_private_key_from_bytes (le_crypto env) (cke_private_key ev)")
      (auto simp: apply_create_key_event_def update_current_time_advance bt_contains_def split: if_splits)
qed (use assms parse_timestamp_not_Panic in \<open>auto simp: apply_create_key_event_def update_current_time_advance\<close>)

lemma revoke_access_effect:
  "fst (revoke_access s req) =
    s\<lparr>ls_per_key_ledgers := modify_key (rar_key_id req)
        (\<lambda>e. e\<lparr>pk_budget_tracker := consume_budget (pk_budget_tracker e) (rar_blob_id req)\<rparr>)
        (ls_per_key_ledgers s)\<rparr>"
  by (simp add: revoke_access_def modify_key_def split: option.split)

lemma delete_key_effect:
  assumes "extract_key_from_cwt (le_crypto env) (dkr_public_key req) = Ok key" "bt_wf (ls_per_key_ledgers s)"
  shows "fst (delete_key env s req) = s\<lparr>ls_per_key_ledgers := bt_remove (ck_key_id key) (ls_per_key_ledgers s)\<rparr>"
  using assms by (auto simp: delete_key_def bt.del_absent split: option.split)

text \<open>Producing an event changes nothing but the clock.\<close>

lemma produce_create_effect:
  assumes "produce_create_key_event env draws rng s req = Some (s', r)"
  shows "s' = (case parse_timestamp (ckr_now req) of Ok now \<Rightarrow> advance now s | _ \<Rightarrow> s)"
proof (cases "parse_timestamp (ckr_now req)")
  case (Ok now)
  show ?thesis
  proof (cases "parse_duration env (ckr_ttl req)")
    case (Ok ttl)
    show ?thesis
      using assms Ok \<open>parse_timestamp (ckr_now req) = Ok now\<close>
      by (cases "duration_add (ls_current_time (advance now s)) ttl :: (duration, status) result";
          cases "pick_key_id (advance now s) draws")
        (simp_all add: produce_create_key_event_def update_current_time_advance split: prod.splits)
  qed (use assms Ok in \<open>simp_all add: produce_create_key_event_def update_current_time_advance\<close>)
qed (use assms in \<open>simp_all add: produce_create_key_event_def update_current_time_advance\<close>)

lemma produce_authorize_effect:
  "fst (attest_and_produce_authorize_access_event env s req) =
    (case parse_timestamp (aar_now req) of Ok now \<Rightarrow> advance now s | _ \<Rightarrow> s)"
proof (cases "parse_timestamp (aar_now req)")
  case (Ok now)
  show ?thesis
    unfolding attest_and_produce_authorize_access_event_def update_current_time_advance Ok lift_st.simps
      apsnd_conv map_err.simps try_st.simps result.case
    by (intro keeps_state)
qed (simp_all add: attest_and_produce_authorize_access_event_def update_current_time_advance)

section \<open>The invariant is preserved\<close>

lemma ledger_wf_create: "ledger_wf env (ledger_create evidence)"
  by (simp add: ledger_wf_def ledger_create_def duration_wf_def)

lemma ledger_wf_bt: "ledger_wf env s \<Longrightarrow> bt_wf (ls_per_key_ledgers s)"
  by (simp add: ledger_wf_def)

lemma ledger_wf_get:
  "ledger_wf env s \<Longrightarrow> bt_get (ls_per_key_ledgers s) k = Some e \<Longrightarrow>
    tracker_wf (pk_budget_tracker e) \<and> duration_wf (pk_expiration e) \<and>
    kem_private_key_from_bytes (le_crypto env) (pk_private_key e) = Some (pk_private_key e)"
  by (auto simp: ledger_wf_def dest!: bt_get_Some_in)

lemma ledger_wf_insert:
  assumes "ledger_wf env s" "tracker_wf (pk_budget_tracker e)" "duration_wf (pk_expiration e)"
    and "kem_private_key_from_bytes (le_crypto env) (pk_private_key e) = Some (pk_private_key e)"
  shows "ledger_wf env (s\<lparr>ls_per_key_ledgers := bt_insert k e (ls_per_key_ledgers s)\<rparr>)"
proof -
  have "tracker_wf (pk_budget_tracker x) \<and> duration_wf (pk_expiration x) \<and>
      kem_private_key_from_bytes (le_crypto env) (pk_private_key x) = Some (pk_private_key x)"
    if "(j, x) \<in> set (bt_insert k e (ls_per_key_ledgers s))" for j x
    using bt_in_get [OF bt_wf_insert [OF ledger_wf_bt [OF assms(1)]] that] assms ledger_wf_get [OF assms(1)]
    by (auto split: if_splits)
  then show ?thesis
    using assms(1) by (auto simp: ledger_wf_def bt_wf_insert)
qed

lemma apply_create_wf:
  assumes "ledger_wf env s" "private_key_law env"
  shows "ledger_wf env (fst (apply_create_key_event env s ev))"
proof (cases "parse_timestamp (cke_event_time ev)")
  case (Ok now)
  obtain s' r where a: "apply_create_key_event env s ev = (s', r)"
    by fastforce
  have wf: "ledger_wf env (advance now s)"
    using assms(1) Ok by (simp add: advance_wf parse_timestamp_wf)
  show ?thesis
    using apply_create_effect [OF Ok a] a wf assms(2)
    by (auto simp: private_key_law_def parse_timestamp_wf tracker_wf_new intro!: ledger_wf_insert)
qed (use assms parse_timestamp_not_Panic in \<open>auto simp: apply_create_bad_time\<close>)

lemma apply_authorize_wf:
  assumes "ledger_wf env s"
  shows "ledger_wf env (fst (apply_authorize_access_event env rng s ev))"
proof (cases "parse_timestamp (aae_event_time ev)")
  case (Ok now)
  have wf: "ledger_wf env (advance now s)"
    using assms Ok by (simp add: advance_wf parse_timestamp_wf)
  have "tracker_wf (pk_budget_tracker e) \<Longrightarrow> tracker_wf (pk_budget_tracker (authorize_entry env rng ev rk hdr p e))"
    for rk hdr p e
    using update_budget_wf [of "pk_budget_tracker e"] by (simp add: authorize_entry_def) (metis prod.collapse)
  then show ?thesis
    using wf assms Ok
    by (auto simp: apply_authorize_effect ledger_wf_bt authorize_keys_def intro!: ledger_wf_modify
        split: result.split option.split)
qed (use assms parse_timestamp_not_Panic in \<open>auto simp: apply_authorize_bad_time\<close>)

lemma revoke_access_wf: "ledger_wf env s \<Longrightarrow> ledger_wf env (fst (revoke_access s req))"
  by (auto simp: revoke_access_effect consume_budget_wf intro!: ledger_wf_modify)

lemma delete_key_wf:
  assumes "ledger_wf env s"
  shows "ledger_wf env (fst (delete_key env s req))"
proof (cases "extract_key_from_cwt (le_crypto env) (dkr_public_key req)")
  case (Ok key)
  then show ?thesis
    using assms by (auto simp: delete_key_effect ledger_wf_bt) (auto simp: ledger_wf_def bt_remove_def bt_wf_filter)
qed (use assms in \<open>auto simp: delete_key_def\<close>)

section \<open>Snapshot round trip\<close>

lemma per_key_ledger_eta [simp]:
  "\<lparr> pk_private_key = pk_private_key e, pk_public_key = pk_public_key e,
     pk_expiration = pk_expiration e, pk_budget_tracker = pk_budget_tracker e \<rparr> = e"
  by simp

lemma load_save_per_key:
  assumes "save_per_key m = Ok ss" "distinct (map fst m)"
    and "\<forall>e \<in> set m. bt_get (ls_per_key_ledgers s) (fst e) = None"
    and "\<forall>e \<in> set m. tracker_wf (pk_budget_tracker (snd e)) \<and> duration_wf (pk_expiration (snd e)) \<and>
        kem_private_key_from_bytes (le_crypto env) (pk_private_key (snd e)) = Some (pk_private_key (snd e))"
  shows "load_per_key env s ss =
    (s\<lparr>ls_per_key_ledgers := fold (\<lambda>e. bt_insert (fst e) (snd e)) m (ls_per_key_ledgers s)\<rparr>, Ok ())"
  using assms
proof (induction m arbitrary: s ss)
  case (Cons e m)
  obtain ts rest where ts: "format_timestamp (pk_expiration (snd e)) = Ok ts"
    and rest: "save_per_key m = Ok rest"
    and ss: "ss = \<lparr> pks_key_id = fst e, pks_public_key = pk_public_key (snd e),
        pks_private_key = pk_private_key (snd e), pks_expiration = Some ts,
        pks_budgets = Some (save_budget_snapshot (pk_budget_tracker (snd e))) \<rparr> # rest"
    using Cons.prems(1) by (auto simp: result_simps)
  have "\<forall>x \<in> set m. bt_get (ls_per_key_ledgers
      (s\<lparr>ls_per_key_ledgers := bt_insert (fst e) (snd e) (ls_per_key_ledgers s)\<rparr>)) (fst x) = None"
    using Cons.prems(3) distinct_fst_Cons [OF Cons.prems(2)] by simp
  note IH = Cons.IH [OF rest _ this]
  show ?case
    using IH Cons.prems(2-4)
    by (simp add: ss parse_format_timestamp [OF _ ts] budget_snapshot_roundtrip Let_def bt_contains_def)
qed simp

lemma save_per_key_Ok:
  "\<forall>e \<in> set m. duration_wf (pk_expiration (snd e)) \<and> dur_secs (pk_expiration (snd e)) < 2 ^ 63 \<Longrightarrow>
    \<exists>ss. save_per_key m = Ok ss"
proof (induction m)
  case (Cons e m)
  then obtain ts where "format_timestamp (pk_expiration (snd e)) = Ok ts"
    using format_timestamp_Ok [of "pk_expiration (snd e)"] by auto
  with Cons show ?case
    by auto
qed simp

lemma ledger_snapshot_roundtrip:
  assumes "ledger_wf env s" "save_ledger_snapshot s = Ok snapshot"
  shows "load_ledger_snapshot env s0 snapshot = (s\<lparr>ls_evidence := ls_evidence s0\<rparr>, Ok ())"
proof -
  obtain ts ss where ts: "format_timestamp (ls_current_time s) = Ok ts"
    and ss: "save_per_key (ls_per_key_ledgers s) = Ok ss"
    and snapshot: "snapshot = \<lparr> lsn_current_time = Some ts, lsn_per_key_snapshots = ss \<rparr>"
    using assms(2) by (auto simp: save_ledger_snapshot_def result_simps)
  have "load_per_key env (s0\<lparr>ls_current_time := ls_current_time s, ls_per_key_ledgers := []\<rparr>) ss =
      (s0\<lparr>ls_current_time := ls_current_time s, ls_per_key_ledgers := ls_per_key_ledgers s\<rparr>, Ok ())"
    using load_save_per_key [OF ss] assms(1)
    by (simp add: ledger_wf_def bt_wf_distinct bt.put_entries_id)
  then show ?thesis
    using assms(1) parse_format_timestamp [OF _ ts]
    by (simp add: load_ledger_snapshot_def snapshot ledger_wf_def)
qed

lemma save_ledger_snapshot_Ok:
  assumes "ledger_wf env s" "dur_secs (ls_current_time s) < 2 ^ 63"
    and "\<forall>e \<in> set (ls_per_key_ledgers s). dur_secs (pk_expiration (snd e)) < 2 ^ 63"
  shows "\<exists>snapshot. save_ledger_snapshot s = Ok snapshot"
proof -
  obtain ts where "format_timestamp (ls_current_time s) = Ok ts"
    using assms(1,2) format_timestamp_Ok [of "ls_current_time s"] by (auto simp: ledger_wf_def)
  moreover obtain ss where "save_per_key (ls_per_key_ledgers s) = Ok ss"
    using assms(1,3) save_per_key_Ok [of "ls_per_key_ledgers s"] by (auto simp: ledger_wf_def)
  ultimately show ?thesis
    by (simp add: save_ledger_snapshot_def)
qed

section \<open>Inversion of the access operations\<close>

lemma rewrap_not_Panic [simp]: "rewrap_symmetric_key env rng a b c d e f \<noteq> Panic"
  by (auto simp: rewrap_symmetric_key_def unwrap_symmetric_key_def wrap_symmetric_key_def result_simps)

lemma apply_authorize_Ok:
  assumes "apply_authorize_access_event env rng s ev = (s', Ok resp)"
  obtains now rk hdr p e t' where
    "parse_timestamp (aae_event_time ev) = Ok now"
    "extract_key_from_cwt (le_crypto env) (aae_recipient_public_key ev) = Ok rk"
    "le_decode_blob_header env (aae_blob_header ev) = Some hdr"
    "le_decode_access_policy env (aae_access_policy ev) = Some p"
    "bt_get (ls_per_key_ledgers (advance now s)) (bh_key_id hdr) = Some e"
    "rewrap_symmetric_key (le_crypto env) rng (aae_encrypted_symmetric_key ev) (aae_encapsulated_key ev)
       (pk_private_key e) (aae_blob_header ev) rk (pk_public_key e @ aae_recipient_nonce ev) =
       Ok (aap_encapsulated_key resp, aap_encrypted_symmetric_key resp)"
    "aap_reencryption_public_key resp = pk_public_key e"
    "update_budget (pk_budget_tracker e) (bh_blob_id hdr) (aae_transform_index ev) p
       (bh_access_policy_sha256 hdr) = (t', Ok ())"
    "s' = (advance now s)\<lparr>ls_per_key_ledgers := bt_insert (bh_key_id hdr)
       (e\<lparr>pk_budget_tracker := t'\<rparr>) (ls_per_key_ledgers (advance now s))\<rparr>"
proof -
  have snd_Ok: "snd x = Ok () \<Longrightarrow> x = (fst x, Ok ())" for x :: "budget_tracker \<times> (unit, status) result"
    by (cases x) simp
  show ?thesis
    using assms
    by (auto simp: apply_authorize_access_event_def update_current_time_advance result_simps Let_def
        case_prod_beta intro: that dest!: snd_Ok)
qed

lemma produce_authorize_Ok:
  assumes "attest_and_produce_authorize_access_event env s request = (s', Ok ev)"
  obtains now app key hdr p e i ts where
    "parse_timestamp (aar_now request) = Ok now"
    "s' = advance now s"
    "verify_attestation (le_crypto env) (le_decode_struct env) (aar_recipient_public_key request)
       (aar_recipient_attestation_evidence request) (aar_recipient_attestation_endorsements request)
       (aar_recipient_tag request) = Ok (app, key)"
    "le_decode_blob_header env (aar_blob_header request) = Some hdr"
    "sha256_digest (le_crypto env) (aar_access_policy request) = bh_access_policy_sha256 hdr"
    "le_decode_access_policy env (aar_access_policy request) = Some p"
    "bt_get (ls_per_key_ledgers s') (bh_key_id hdr) = Some e"
    "find_matching_transform (le_crypto env) (pk_budget_tracker e) (bh_blob_id hdr)
       (bh_access_policy_node_id hdr) p (bh_access_policy_sha256 hdr) app (ls_current_time s') = Ok i"
    "format_timestamp (ls_current_time s') = Ok ts"
    "ev = \<lparr> aae_event_time = Some ts, aae_access_policy = aar_access_policy request,
       aae_transform_index = i, aae_blob_header = aar_blob_header request,
       aae_encapsulated_key = aar_encapsulated_key request,
       aae_encrypted_symmetric_key = aar_encrypted_symmetric_key request,
       aae_recipient_public_key = aar_recipient_public_key request,
       aae_recipient_nonce = aar_recipient_nonce request \<rparr>"
  using assms
  by (auto simp: attest_and_produce_authorize_access_event_def update_current_time_advance result_simps
      split: prod.splits if_splits)

lemma apply_authorize_Err:
  assumes "apply_authorize_access_event env rng s ev = (s', Err x)"
    and "parse_timestamp (aae_event_time ev) = Ok now"
  shows "s' = advance now s \<or> (\<exists>hdr p e t'.
    le_decode_blob_header env (aae_blob_header ev) = Some hdr \<and>
    le_decode_access_policy env (aae_access_policy ev) = Some p \<and>
    bt_get (ls_per_key_ledgers (advance now s)) (bh_key_id hdr) = Some e \<and>
    update_budget (pk_budget_tracker e) (bh_blob_id hdr) (aae_transform_index ev) p
       (bh_access_policy_sha256 hdr) = (t', Err x) \<and>
    s' = (advance now s)\<lparr>ls_per_key_ledgers := bt_insert (bh_key_id hdr)
       (e\<lparr>pk_budget_tracker := t'\<rparr>) (ls_per_key_ledgers (advance now s))\<rparr>)"
proof -
  have snd_Err: "snd y = Err x \<Longrightarrow> y = (fst y, Err x)" for y :: "budget_tracker \<times> (unit, status) result"
    by (cases y) simp
  show ?thesis
    using assms
    by (auto simp: apply_authorize_access_event_def update_current_time_advance result_simps Let_def
        case_prod_beta dest!: snd_Err)
qed

lemma quiet_advance: "bt_wf (ls_per_key_ledgers s) \<Longrightarrow> quiet pol s (advance now s)"
  by (auto simp: quiet_def advance_get split: option.splits if_splits)

lemma quiet_refl: "ls_per_key_ledgers s' = ls_per_key_ledgers s \<Longrightarrow> quiet pol s s'"
  by (simp add: quiet_def)

lemma quiet_insert:
  assumes "quiet pol s s1" "bt_get (ls_per_key_ledgers s1) kid = Some e"
    and "bt_get (ls_per_key_ledgers s) kid = Some e"
    and "tracker_step pol (pk_budget_tracker e) [] t'"
    and "ls_per_key_ledgers s' = bt_insert kid (e\<lparr>pk_budget_tracker := t'\<rparr>) (ls_per_key_ledgers s1)"
  shows "quiet pol s s'"
  using assms by (auto simp: quiet_def)

lemma tracked_quiet: "tracked pol s g \<Longrightarrow> quiet pol s s' \<Longrightarrow> tracked pol s' g"
  unfolding tracked_def quiet_def using tracker_run.more [of pol budget_tracker_new _ _ "[]"] by fastforce

lemma quiet_revoke: "quiet pol s (fst (revoke_access s req))"
  using tracker_step.consume [of pol]
  by (fastforce simp: quiet_def revoke_access_effect modify_key_get split: if_splits)

lemma quiet_delete:
  assumes "bt_wf (ls_per_key_ledgers s)"
  shows "quiet pol s (fst (delete_key env s req))"
  using assms
  by (cases "extract_key_from_cwt (le_crypto env) (dkr_public_key req)")
    (auto simp: quiet_def delete_key_def split: if_splits option.splits)

section \<open>Runs of a ledger\<close>

lemma grants_of_simps [simp]:
  "grants_of kid [] = []"
  "grants_of kid ((k, a) # g) = (if k = kid then a # grants_of kid g else grants_of kid g)"
  "grants_of kid (filter (\<lambda>x. fst x \<noteq> k) g) = (if k = kid then [] else grants_of kid g)"
proof -
  show "grants_of kid (filter (\<lambda>x. fst x \<noteq> k) g) = (if k = kid then [] else grants_of kid g)"
    by (induction g) (auto simp: grants_of_def)
qed (auto simp: grants_of_def)

lemma grants_of_count: "count_list (grants_of kid g) a = count_list g (kid, a)"
  by (induction g) (auto simp: grants_of_def)

lemma tracked_create:
  assumes "tracked pol s g" "ledger_wf env s"
    and "apply_create_key_event env s ev = (s', Ok resp)"
    and "extract_key_from_cwt (le_crypto env) (cke_public_key ev) = Ok key"
  shows "tracked pol s' (filter (\<lambda>x. fst x \<noteq> ck_key_id key) g)"
proof -
  obtain now where now: "parse_timestamp (cke_event_time ev) = Ok now"
    using assms(3) parse_timestamp_not_Panic
    by (cases "parse_timestamp (cke_event_time ev)") (auto simp: apply_create_bad_time)
  have "tracked pol (advance now s) g"
    using assms(1,2) by (intro tracked_quiet [OF assms(1)] quiet_advance) (simp add: ledger_wf_bt)
  then show ?thesis
    using apply_create_effect [OF now assms(3)] assms(4) tracker_run.stop [of pol budget_tracker_new]
    by (auto simp: tracked_def)
qed

lemma tracked_authorize:
  assumes "tracked pol s g" "ledger_wf env s"
    and "apply_authorize_access_event env rng s ev = (s', Ok resp)"
    and "le_decode_blob_header env (aae_blob_header ev) = Some hdr"
    and pol: "\<And>p. le_decode_access_policy env (aae_access_policy ev) = Some p \<Longrightarrow> pol (bh_access_policy_sha256 hdr) = p"
  shows "tracked pol s' ((bh_key_id hdr, bh_access_policy_sha256 hdr, bh_blob_id hdr, aae_transform_index ev) # g)"
proof -
  obtain now rk hdr' p e t' where a:
    "le_decode_blob_header env (aae_blob_header ev) = Some hdr'"
    "le_decode_access_policy env (aae_access_policy ev) = Some p"
    "bt_get (ls_per_key_ledgers (advance now s)) (bh_key_id hdr') = Some e"
    "update_budget (pk_budget_tracker e) (bh_blob_id hdr') (aae_transform_index ev) p
       (bh_access_policy_sha256 hdr') = (t', Ok ())"
    "s' = (advance now s)\<lparr>ls_per_key_ledgers := bt_insert (bh_key_id hdr')
       (e\<lparr>pk_budget_tracker := t'\<rparr>) (ls_per_key_ledgers (advance now s))\<rparr>"
    using assms(3) by (rule apply_authorize_Ok)
  have hdr: "hdr' = hdr"
    using a(1) assms(4) by simp
  have tr: "tracked pol (advance now s) g"
    using assms(2) by (intro tracked_quiet [OF assms(1)] quiet_advance) (simp add: ledger_wf_bt)
  have "tracker_step pol (pk_budget_tracker e) [(bh_access_policy_sha256 hdr, bh_blob_id hdr, aae_transform_index ev)] t'"
    using a(4) pol [OF a(2)] by (intro tracker_step.grant) (simp add: hdr)
  then have "tracker_run pol budget_tracker_new
      ([(bh_access_policy_sha256 hdr, bh_blob_id hdr, aae_transform_index ev)] @ grants_of (bh_key_id hdr) g) t'"
    using tr a(3) by (intro tracker_run.more) (auto simp: tracked_def hdr)
  then show ?thesis
    using tr by (auto simp: tracked_def a(5) hdr)
qed

lemma quiet_authorize_refused:
  assumes "ledger_wf env s" "apply_authorize_access_event env rng s ev = (s', Err x)"
    and "\<And>hdr p. le_decode_blob_header env (aae_blob_header ev) = Some hdr \<Longrightarrow>
      le_decode_access_policy env (aae_access_policy ev) = Some p \<Longrightarrow> pol (bh_access_policy_sha256 hdr) = p"
  shows "quiet pol s s'"
proof (cases "parse_timestamp (aae_event_time ev)")
  case (Ok now)
  have q: "quiet pol s (advance now s)"
    using assms(1) by (intro quiet_advance) (simp add: ledger_wf_bt)
  from apply_authorize_Err [OF assms(2) Ok] show ?thesis
  proof (elim disjE exE conjE)
    fix hdr p e t'
    assume a: "le_decode_blob_header env (aae_blob_header ev) = Some hdr"
      "le_decode_access_policy env (aae_access_policy ev) = Some p"
      "bt_get (ls_per_key_ledgers (advance now s)) (bh_key_id hdr) = Some e"
      "update_budget (pk_budget_tracker e) (bh_blob_id hdr) (aae_transform_index ev) p
         (bh_access_policy_sha256 hdr) = (t', Err x)"
      "s' = (advance now s)\<lparr>ls_per_key_ledgers := bt_insert (bh_key_id hdr)
         (e\<lparr>pk_budget_tracker := t'\<rparr>) (ls_per_key_ledgers (advance now s))\<rparr>"
    have "bt_get (ls_per_key_ledgers s) (bh_key_id hdr) = Some e"
      using a(3) assms(1) by (auto simp: advance_get ledger_wf_bt split: option.splits if_splits)
    moreover have "update_budget (pk_budget_tracker e) (bh_blob_id hdr) (aae_transform_index ev)
        (pol (bh_access_policy_sha256 hdr)) (bh_access_policy_sha256 hdr) = (t', Err x)"
      using a(4) assms(3) [OF a(1,2)] by simp
    then have "tracker_step pol (pk_budget_tracker e) [] t'"
      by (rule tracker_step.refuse)
    ultimately show ?thesis
      using q a(3,5) by (intro quiet_insert [OF q]) simp_all
  qed (simp add: q)
qed (use assms(2) parse_timestamp_not_Panic in \<open>auto simp: apply_authorize_bad_time intro: quiet_refl\<close>)

lemma produced_event_policy:
  assumes "attest_and_produce_authorize_access_event env s req = (s', Ok ev)"
    and "le_decode_blob_header env (aae_blob_header ev) = Some hdr"
  shows "sha256_digest (le_crypto env) (aae_access_policy ev) = bh_access_policy_sha256 hdr"
  using produce_authorize_Ok [OF assms(1)] assms(2) by fastforce

lemma quiet_create_refused:
  assumes "ledger_wf env s" "apply_create_key_event env s ev = (s', Err x)"
  shows "quiet pol s s'"
proof (cases "parse_timestamp (cke_event_time ev)")
  case (Ok now)
  then show ?thesis
    using apply_create_effect [OF Ok assms(2)] assms(1) by (auto intro: quiet_advance simp: ledger_wf_bt)
qed (use assms(2) parse_timestamp_not_Panic in \<open>auto simp: apply_create_bad_time intro: quiet_refl\<close>)

lemma ledger_run_tracked:
  assumes "ledger_run env policies s g" "private_key_law env"
    and "inj_on (sha256_digest (le_crypto env)) policies"
  defines "pol \<equiv> \<lambda>h. the (le_decode_access_policy env (the_inv_into policies (sha256_digest (le_crypto env)) h))"
  shows "ledger_wf env s \<and> tracked pol s g"
proof -
  have pol: "pol (bh_access_policy_sha256 hdr) = p"
    if "attest_and_produce_authorize_access_event env s0 req = (s1, Ok ev)" "aae_access_policy ev \<in> policies"
      "le_decode_blob_header env (aae_blob_header ev) = Some hdr"
      "le_decode_access_policy env (aae_access_policy ev) = Some p" for s0 req s1 ev hdr p
    using produced_event_policy [OF that(1,3)] the_inv_into_f_f [OF assms(3) that(2)] that(4)
    by (simp add: pol_def)
  from assms(1) show ?thesis
  proof (induction rule: ledger_run.induct)
    case (init evidence)
    show ?case
      using tracker_run.stop [of pol budget_tracker_new]
      by (auto simp: ledger_wf_create tracked_def) (simp add: ledger_create_def)
  next
    case (produce_create s g draws rng req s' r)
    then show ?case
      using produce_create_effect [OF produce_create.hyps(2)] quiet_advance tracked_quiet
      by (auto simp: ledger_wf_bt advance_wf parse_timestamp_wf split: result.splits)
  next
    case (create s g ev s' resp key)
    then show ?case
      using apply_create_wf [OF _ assms(2), of s ev] tracked_create by (metis fst_conv)
  next
    case (create_refused s g ev s' x)
    then show ?case
      using apply_create_wf [OF _ assms(2), of s ev] quiet_create_refused tracked_quiet by (metis fst_conv)
  next
    case (produce_authorize s g req s' r)
    then show ?case
      using produce_authorize_effect [of env s req] quiet_advance tracked_quiet
      by (auto simp: ledger_wf_bt advance_wf parse_timestamp_wf split: result.splits)
  next
    case (authorize s g s0 req s1 ev rng s' resp hdr)
    then show ?case
      using apply_authorize_wf [of env s rng ev] pol [OF authorize.hyps(2,3)]
        tracked_authorize [OF _ _ authorize.hyps(4,5), of pol g]
      by simp
  next
    case (authorize_refused s g s0 req s1 ev rng s' x)
    then show ?case
      using apply_authorize_wf [of env s rng ev] pol [OF authorize_refused.hyps(2,3)]
        quiet_authorize_refused [OF _ authorize_refused.hyps(4), of pol] tracked_quiet [of pol s g s']
      by simp
  next
    case (delete s g req s' r)
    then show ?case
      using delete_key_wf [of env s req] quiet_delete [of s pol env req] tracked_quiet by (metis fst_conv ledger_wf_bt)
  next
    case (revoke s g req s' r)
    then show ?case
      using revoke_access_wf [of env s req] quiet_revoke [of pol s req] tracked_quiet by (metis fst_conv)
  next
    case (restore s g snapshot s0 s')
    then have "s' = s\<lparr>ls_evidence := ls_evidence s0\<rparr>"
      using ledger_snapshot_roundtrip by fastforce
    then show ?case
      using restore.IH by (auto simp: ledger_wf_def tracked_def)
  qed
qed

section \<open>Witness runs\<close>

lemma demo_private_key_law: "private_key_law demo_ledger_env"
  by (simp add: private_key_law_def demo_ledger_env_def demo_env_def)

lemma demo_times:
  "parse_timestamp (Some \<lparr> ts_seconds = 10, ts_nanos = 0 \<rparr>) = Ok (Duration 10 0)"
  "parse_timestamp (Some \<lparr> ts_seconds = 20, ts_nanos = 0 \<rparr>) = Ok (Duration 20 0)"
  "parse_timestamp (Some \<lparr> ts_seconds = 100, ts_nanos = 0 \<rparr>) = Ok (Duration 100 0)"
  "format_timestamp (Duration 20 0) = Ok \<lparr> ts_seconds = 20, ts_nanos = 0 \<rparr>"
  by (simp_all add: parse_timestamp_def try_into_unsigned_def sint_neg_iff duration_new_def format_timestamp_def)

lemma demo_crypto [simp]: "le_crypto demo_ledger_env = demo_env"
  by (simp add: demo_ledger_env_def)

lemma demo_sha: "sha256_digest demo_env b = b"
  by (simp add: demo_env_def)

lemma demo_extract:
  "extract_key_from_cwt demo_env [11, 1, 2, 3] = Ok (demo_public_cose_key [2] [3])"
  "extract_key_from_cwt demo_env [10, 1, 4, 6] = Ok (demo_public_cose_key [4] [6])"
  by (simp_all add: extract_key_from_cwt_def demo_env_def demo_claims_def)

lemma demo_create:
  "apply_create_key_event demo_ledger_env (ledger_create [6]) demo_create_event =
    (demo_ledger, Ok \<lparr> ckp_public_key = [11, 1, 2, 3], ckp_attestation_evidence = Some [6] \<rparr>)"
  by (simp add: apply_create_key_event_def update_current_time_def demo_create_event_def demo_times
      demo_extract ledger_create_def demo_ledger_def demo_public_cose_key_def bt_contains_def less_duration_def)
    (simp add: demo_env_def)

lemma demo_advance:
  "advance (Duration 20 0) demo_ledger = demo_ledger\<lparr>ls_current_time := Duration 20 0\<rparr>"
  by (simp add: advance_def demo_ledger_def less_duration_def)

lemma demo_verify:
  "verify_attestation demo_env (\<lambda>_. None) [10, 1, 4, 6] (Some [5]) (Some []) ''t'' =
    Ok (demo_app, demo_public_cose_key [4] [6])"
  by (simp add: verify_attestation_def demo_extract)
    (simp add: demo_env_def demo_app_def cwt_verify_signature_def cwt_config_properties_def
      demo_claims_def PUBLIC_KEY_CLAIM_def CONFIG_PROPERTIES_CLAIM_def)

lemma demo_find:
  "find_matching_transform demo_env budget_tracker_new [8] 0 demo_policy [7] demo_app (Duration 20 0) = Ok 0"
  by (simp add: find_matching_transform_def budget_tracker_new_def blob_entry_def demo_policy_def
      matches_def allows_access_def has_remaining_budget_def blob_budget_new_def)

lemma demo_produce:
  "attest_and_produce_authorize_access_event demo_ledger_env demo_ledger demo_authorize_request =
    (advance (Duration 20 0) demo_ledger, Ok demo_authorize_event)"
  by (simp add: attest_and_produce_authorize_access_event_def update_current_time_advance demo_times
      demo_authorize_request_def demo_advance demo_ledger_env_def demo_verify)
    (simp add: demo_ledger_def demo_find bt_get_def demo_sha demo_times demo_authorize_event_def)

lemma demo_rewrap:
  "rewrap_symmetric_key demo_env [1] [5, 0] [1] [3] [5] (demo_public_cose_key [4] [6]) [11, 1, 2, 3, 9] =
    Ok ([1], [11, 1, 2, 3, 9, 0])"
  by (simp add: rewrap_symmetric_key_def unwrap_symmetric_key_def wrap_symmetric_key_def cose_param_def
      demo_public_cose_key_def iana_Crv_def iana_X_def)
    (simp add: demo_env_def demo_open_def)

lemma demo_update:
  "update_budget budget_tracker_new [8] 0 demo_policy [7] =
    (\<lparr> budgets = [([7], [([8], \<lparr> transform_access_budgets = [0, 3], shared_access_budgets = [1] \<rparr>)])],
       consumed_budgets = [] \<rparr>, Ok ())"
  by (simp add: update_budget_def budget_tracker_new_def demo_policy_def blob_budget_new_def record_access_def
      update_remaining_budget_def)

lemma demo_apply:
  "apply_authorize_access_event demo_ledger_env [1] demo_ledger demo_authorize_event =
    (demo_ledger_after, Ok demo_authorize_response)"
  by (simp add: apply_authorize_access_event_def update_current_time_advance demo_times
      demo_authorize_event_def demo_advance demo_extract)
    (simp add: demo_ledger_env_def demo_ledger_def bt_get_def demo_rewrap demo_update demo_ledger_after_def
      demo_authorize_response_def)

lemma demo_ledger_run:
  "ledger_run demo_ledger_env {[7]} demo_ledger_after [([2], [7], [8], 0)]"
proof -
  have "ledger_run demo_ledger_env {[7]} demo_ledger (filter (\<lambda>x. fst x \<noteq> ck_key_id (demo_public_cose_key [2] [3])) [])"
    by (rule ledger_run.create [OF ledger_run.init demo_create]) (simp add: demo_create_event_def demo_extract)
  then have "ledger_run demo_ledger_env {[7]} demo_ledger []"
    by simp
  from ledger_run.authorize [OF this demo_produce _ demo_apply] show ?thesis
    by (simp add: demo_ledger_env_def demo_authorize_event_def)
qed

lemma demo_ledger_wf: "ledger_wf demo_ledger_env demo_ledger"
  by (simp add: ledger_wf_def demo_ledger_def tracker_wf_new duration_wf_def bt_wf_Cons)
    (simp add: demo_env_def)

lemma demo_authorize:
  "authorize_access demo_ledger_env [1] demo_ledger demo_authorize_request =
    (demo_ledger_after, Ok demo_authorize_response)"
proof -
  have "advance (Duration 20 0) (demo_ledger\<lparr>ls_current_time := Duration 20 0\<rparr>) =
      demo_ledger\<lparr>ls_current_time := Duration 20 0\<rparr>"
    by (simp add: advance_def)
  then show ?thesis
    by (simp add: authorize_access_def demo_produce apply_authorize_access_event_def update_current_time_advance
        demo_times demo_authorize_event_def demo_advance demo_extract)
      (simp add: demo_ledger_env_def demo_ledger_def bt_get_def demo_rewrap demo_update demo_ledger_after_def
        demo_authorize_response_def)
qed

section \<open>Creating keys\<close>

lemma build_cwt_extract:
  assumes "codec_laws (le_crypto env)" "build_cwt env s key expiration = Ok cwt"
  shows "extract_key_from_cwt (le_crypto env) cwt = Ok key"
  using assms
  by (auto simp: build_cwt_def result_simps Let_def codec_laws_def extract_key_from_cwt_def split: if_splits)

lemma build_cwt_not_Panic:
  "dur_secs expiration < 2 ^ 63 \<Longrightarrow> dur_secs (ls_current_time s) < 2 ^ 63 \<Longrightarrow> build_cwt env s key expiration \<noteq> Panic"
  by (auto simp: build_cwt_def result_simps Let_def)

lemma pick_key_id_fresh:
  "pick_key_id s draws = Some kid \<Longrightarrow> kid \<in> set draws \<and> \<not> bt_contains (ls_per_key_ledgers s) kid"
  by (induction draws) (auto split: if_splits)

lemma pick_key_id_None: "pick_key_id s draws = None \<longleftrightarrow> (\<forall>k \<in> set draws. bt_contains (ls_per_key_ledgers s) k)"
  by (induction draws) auto

lemma gen_keypair_id: "ck_key_id (snd (gen_keypair env rng kid)) = kid"
  by (simp add: gen_keypair_def split: prod.split)

lemma duration_add_secs: "duration_add a b = Ok d \<Longrightarrow> dur_secs a \<le> dur_secs d"
  by (auto simp: duration_add_def duration_new_def Let_def split: if_splits)

section \<open>Properties\<close>

text \<open>
  C2. The privacy budget holds end to end. In every run of a ledger replica, with failed
  requests, expirations, deletions, revocations and restarts from snapshots, and as long as no
  two of the occurring policies have the same hash, the accesses granted to a blob through a
  transform since its key was created number at most the \<open>times\<close> of the transform in the policy.
\<close>

theorem ledger_access_budget:
  assumes "ledger_run env policies s granted" "private_key_law env"
    and "inj_on (sha256_digest (le_crypto env)) policies"
    and "policy \<in> policies" "le_decode_access_policy env policy = Some p" "transform_limit p i = Some n"
  shows "count_list granted (kid, sha256_digest (le_crypto env) policy, blob, i) \<le> unat n"
proof -
  define pol where "pol = (\<lambda>h. the (le_decode_access_policy env (the_inv_into policies (sha256_digest (le_crypto env)) h)))"
  obtain t where "tracker_run pol budget_tracker_new (grants_of kid granted) t"
    using ledger_run_tracked [OF assms(1-3)] unfolding tracked_def pol_def by blast
  moreover have "pol (sha256_digest (le_crypto env) policy) = p"
    using assms(4,5) by (simp add: pol_def the_inv_into_f_f [OF assms(3)])
  ultimately show ?thesis
    using transform_accounting.granted_bounded [where policy = p and i = i and b = blob] assms(6)
    by (fastforce simp: granted_weight_count remaining_new(1) grants_of_count)
qed

theorem ledger_access_budget_witness:
  "count_list [([2], [7], [8], 0)] ([2], [7], [8], 0 :: nat) \<le> unat (1 :: u32)"
  using ledger_access_budget [OF demo_ledger_run demo_private_key_law, of "[7]" demo_policy 0 1 "[2]" "[8]"]
  by (simp add: demo_ledger_env_def demo_sha transform_limit_def demo_policy_def)



text \<open>
  Expired keys are refused: a request with a time later than the clock and not before the
  expiration of the key named in its header never produces an authorisation event, and the key
  is gone afterwards.
\<close>

theorem expired_key_refused:
  assumes "bt_wf (ls_per_key_ledgers s)" "parse_timestamp (aar_now req) = Ok now" "ls_current_time s < now"
    and "le_decode_blob_header env (aar_blob_header req) = Some hdr"
    and "bt_get (ls_per_key_ledgers s) (bh_key_id hdr) = Some e" "pk_expiration e \<le> now"
  shows "\<not> is_ok (snd (attest_and_produce_authorize_access_event env s req)) \<and>
    bt_get (ls_per_key_ledgers (fst (attest_and_produce_authorize_access_event env s req))) (bh_key_id hdr) = None"
proof
  have gone: "bt_get (ls_per_key_ledgers (advance now s)) (bh_key_id hdr) = None"
    using assms by (simp add: advance_get)
  then show "bt_get (ls_per_key_ledgers (fst (attest_and_produce_authorize_access_event env s req))) (bh_key_id hdr) = None"
    by (simp add: produce_authorize_effect assms(2))
  show "\<not> is_ok (snd (attest_and_produce_authorize_access_event env s req))"
  proof (cases "attest_and_produce_authorize_access_event env s req")
    case (Pair s' r)
    then show ?thesis
      using assms(2,4) gone by (cases r) (auto elim!: produce_authorize_Ok)
  qed
qed

theorem expired_key_refused_witness:
  "\<not> is_ok (snd (attest_and_produce_authorize_access_event demo_ledger_env demo_ledger
      (demo_authorize_request\<lparr>aar_now := Some \<lparr> ts_seconds = 100, ts_nanos = 0 \<rparr>\<rparr>)))"
  using expired_key_refused [of demo_ledger "demo_authorize_request\<lparr>aar_now := Some \<lparr> ts_seconds = 100, ts_nanos = 0 \<rparr>\<rparr>"
      "Duration 100 0" demo_ledger_env
      "\<lparr> bh_blob_id = [8], bh_key_id = [2], bh_access_policy_sha256 = [7], bh_access_policy_node_id = 0 \<rparr>"]
    ledger_wf_bt [OF demo_ledger_wf]
  by (simp add: demo_times demo_authorize_request_def demo_ledger_def demo_ledger_env_def bt_get_def less_duration_def)

text \<open>
  A ledger whose times are below \<open>i64::MAX\<close> seconds can be saved, and loading the snapshot
  into any ledger restores the clock, the keys and all budgets exactly.
\<close>

theorem ledger_snapshot_restores:
  assumes "ledger_wf env s" "dur_secs (ls_current_time s) < 2 ^ 63"
    and "\<forall>e \<in> set (ls_per_key_ledgers s). dur_secs (pk_expiration (snd e)) < 2 ^ 63"
  shows "\<exists>snapshot. save_ledger_snapshot s = Ok snapshot \<and>
    load_ledger_snapshot env s0 snapshot = (s\<lparr>ls_evidence := ls_evidence s0\<rparr>, Ok ())"
  using save_ledger_snapshot_Ok [OF assms] ledger_snapshot_roundtrip [OF assms(1)] by blast

theorem ledger_snapshot_restores_witness:
  "\<exists>snapshot. save_ledger_snapshot demo_ledger = Ok snapshot \<and>
    load_ledger_snapshot demo_ledger_env (ledger_create [1]) snapshot = (demo_ledger\<lparr>ls_evidence := [1]\<rparr>, Ok ())"
  using ledger_snapshot_restores [OF demo_ledger_wf, of "ledger_create [1]"]
  by (simp add: demo_ledger_def ledger_create_def)

text \<open>
  Creating a key. With a fresh id among the draws and an expiration below \<open>i64::MAX\<close>
  seconds, \<open>create_key\<close> ends, and unless the CWT cannot be encoded it stores a key with an
  empty budget tracker under an unused drawn id that the returned public key carries, expiring
  at the requested time.
\<close>

theorem create_key_correct:
  assumes "ledger_wf env s" "codec_laws (le_crypto env)"
    and "\<And>r. kem_private_key_from_bytes (le_crypto env) (fst (kem_gen_keypair (le_crypto env) r)) =
           Some (fst (kem_gen_keypair (le_crypto env) r))"
    and "parse_timestamp (ckr_now req) = Ok now" "parse_duration env (ckr_ttl req) = Ok ttl"
    and "duration_add (max now (ls_current_time s)) ttl = (Ok expires :: (duration, status) result)"
    and "dur_secs expires < 2 ^ 63"
    and "\<exists>k \<in> set draws. bt_get (ls_per_key_ledgers (advance now s)) k = None"
  shows "\<exists>s' r. create_key env draws rng s req = Some (s', r) \<and>
    (r = Err (Status Internal ''failed to encode CWT'') \<and> s' = advance now s \<or>
     (\<exists>resp kid key. r = Ok resp \<and> kid \<in> set draws \<and>
       bt_get (ls_per_key_ledgers (advance now s)) kid = None \<and>
       extract_key_from_cwt (le_crypto env) (ckp_public_key resp) = Ok key \<and> ck_key_id key = kid \<and>
       bt_get (ls_per_key_ledgers s') kid =
         Some \<lparr> pk_private_key = fst (kem_gen_keypair (le_crypto env) rng),
                pk_public_key = ckp_public_key resp, pk_expiration = expires,
                pk_budget_tracker = budget_tracker_new \<rparr> \<and>
       (\<forall>k. k \<noteq> kid \<longrightarrow> bt_get (ls_per_key_ledgers s') k = bt_get (ls_per_key_ledgers (advance now s)) k)))"
proof -
  define s1 where "s1 = advance now s"
  have s1: "ledger_wf env s1" "ls_current_time s1 = max now (ls_current_time s)"
    using assms(1,4) by (simp_all add: s1_def advance_wf parse_timestamp_wf)
  have exp: "duration_wf expires" "dur_secs (ls_current_time s1) < 2 ^ 63"
    using assms(6,7) duration_add_secs [OF assms(6)]
    by (auto simp: s1(2) duration_add_def duration_new_wf)
  obtain kid where kid: "pick_key_id s1 draws = Some kid"
    using assms(8) pick_key_id_None [of s1 draws] by (auto simp: s1_def bt_contains_def)
  have fresh: "kid \<in> set draws" "bt_get (ls_per_key_ledgers s1) kid = None"
    using pick_key_id_fresh [OF kid] by (simp_all add: bt_contains_def)
  obtain sk pk where gk: "gen_keypair (le_crypto env) rng kid = (sk, pk)"
    by fastforce
  have sk: "sk = fst (kem_gen_keypair (le_crypto env) rng)" and pk: "ck_key_id pk = kid"
    using gk gen_keypair_id [of "le_crypto env" rng kid] by (auto simp: gen_keypair_def split: prod.splits)
  obtain ts1 ts2 where ts: "format_timestamp (ls_current_time s1) = Ok ts1" "format_timestamp expires = Ok ts2"
    using format_timestamp_Ok s1(1) exp assms(7) by (metis ledger_wf_def)
  have parse: "parse_timestamp (Some ts1) = Ok (ls_current_time s1)" "parse_timestamp (Some ts2) = Ok expires"
    using ts s1(1) exp(1) by (auto intro: parse_format_timestamp simp: ledger_wf_def)
  have adv: "advance (ls_current_time s1) s1 = s1"
    by (simp add: advance_def)
  have produce: "produce_create_key_event env draws rng s req = Some (s1,
      and_then (map_err (\<lambda>_. Status Internal ''failed to encode CWT'') (build_cwt env s1 pk expires)) (\<lambda>cwt.
        Ok \<lparr> cke_event_time = Some ts1, cke_public_key = cwt, cke_private_key = sk, cke_expiration = Some ts2 \<rparr>))"
    using assms(4-6) kid ts gk
    by (simp add: produce_create_key_event_def update_current_time_advance flip: s1_def s1(2))
  show ?thesis
  proof (cases "build_cwt env s1 pk expires")
    case (Ok cwt)
    have "extract_key_from_cwt (le_crypto env) cwt = Ok pk"
      using build_cwt_extract [OF assms(2) Ok] .
    then show ?thesis
      using Ok fresh pk parse adv assms(3) [of rng]
      by (auto simp: create_key_def produce apply_create_key_event_def update_current_time_advance
          bt_contains_def sk s1_def [symmetric])
  qed (use build_cwt_not_Panic [OF assms(7) exp(2)] in \<open>auto simp: create_key_def produce s1_def\<close>)
qed

theorem create_key_correct_witness:
  "\<exists>s' r. create_key demo_ledger_env [[2]] [3] (ledger_create [6])
      \<lparr> ckr_now = Some \<lparr> ts_seconds = 10, ts_nanos = 0 \<rparr>, ckr_ttl = Some \<lparr> pd_seconds = 90, pd_nanos = 0 \<rparr> \<rparr> = Some (s', r) \<and>
    (r = Err (Status Internal ''failed to encode CWT'') \<and> s' = advance (Duration 10 0) (ledger_create [6]) \<or>
     (\<exists>resp kid key. r = Ok resp \<and> kid \<in> set [[2]] \<and>
       bt_get (ls_per_key_ledgers (advance (Duration 10 0) (ledger_create [6]))) kid = None \<and>
       extract_key_from_cwt (le_crypto demo_ledger_env) (ckp_public_key resp) = Ok key \<and> ck_key_id key = kid \<and>
       bt_get (ls_per_key_ledgers s') kid =
         Some \<lparr> pk_private_key = fst (kem_gen_keypair (le_crypto demo_ledger_env) [3]),
                pk_public_key = ckp_public_key resp, pk_expiration = Duration 100 0,
                pk_budget_tracker = budget_tracker_new \<rparr> \<and>
       (\<forall>k. k \<noteq> kid \<longrightarrow> bt_get (ls_per_key_ledgers s') k =
          bt_get (ls_per_key_ledgers (advance (Duration 10 0) (ledger_create [6]))) k)))"
proof (rule create_key_correct [where ttl = "Duration 90 0"])
  show "duration_add (max (Duration 10 0) (ls_current_time (ledger_create [6]))) (Duration 90 0) =
      (Ok (Duration 100 0) :: (duration, status) result)"
    by (simp add: ledger_create_def duration_add_def duration_new_def max_def less_eq_duration_def)
  show "kem_private_key_from_bytes (le_crypto demo_ledger_env) (fst (kem_gen_keypair (le_crypto demo_ledger_env) r)) =
      Some (fst (kem_gen_keypair (le_crypto demo_ledger_env) r))" for r
    by (simp add: demo_env_def)
  show "ledger_wf demo_ledger_env (ledger_create [6])"
    by (rule ledger_wf_create)
qed (simp_all add: demo_env_codec_laws demo_times parse_duration_def demo_ledger_env_def
    ledger_create_def advance_def)

text \<open>
  \<open>create_key\<close> panics when the clock plus the requested lifetime reaches \<open>2^63\<close> seconds: the
  conversion of the expiration in \<open>build_cwt\<close> is unwrapped before \<open>format_timestamp\<close> could
  report the overflow.
\<close>

theorem create_key_overflow_panics:
  assumes "parse_timestamp (ckr_now req) = Ok now" "parse_duration env (ckr_ttl req) = Ok ttl"
    and "2 ^ 63 \<le> dur_secs (max now (ls_current_time s)) + dur_secs ttl"
    and "\<exists>k \<in> set draws. bt_get (ls_per_key_ledgers (advance now s)) k = None"
  shows "create_key env draws rng s req = Some (advance now s, Panic)"
proof -
  obtain kid where kid: "pick_key_id (advance now s) draws = Some kid"
    using assms(4) pick_key_id_None [of "advance now s" draws] by (auto simp: bt_contains_def)
  have "build_cwt env (advance now s) key (Duration (dur_secs (max now (ls_current_time s)) + dur_secs ttl + c) n) = Panic" for key c n
    using assms(3) by (simp add: build_cwt_def)
  then show ?thesis
    using assms(1,2) kid
    by (auto simp: create_key_def produce_create_key_event_def update_current_time_advance duration_add_def
        duration_new_def Let_def split: prod.splits result.splits)
qed

theorem create_key_overflow_panics_witness:
  "create_key demo_ledger_env [[2]] [3] (ledger_create [6])
     \<lparr> ckr_now = Some \<lparr> ts_seconds = 9223372036854775807, ts_nanos = 0 \<rparr>,
       ckr_ttl = Some \<lparr> pd_seconds = 1, pd_nanos = 0 \<rparr> \<rparr> =
   Some (advance (Duration 9223372036854775807 0) (ledger_create [6]), Panic)"
proof (rule create_key_overflow_panics [where ttl = "Duration 1 0"])
  show "parse_timestamp (ckr_now \<lparr> ckr_now = Some \<lparr> ts_seconds = 9223372036854775807, ts_nanos = 0 \<rparr>,
       ckr_ttl = Some \<lparr> pd_seconds = 1, pd_nanos = 0 \<rparr> \<rparr>) = Ok (Duration 9223372036854775807 0)"
    by (simp add: parse_timestamp_def try_into_unsigned_def sint_neg_iff duration_new_def)
qed (simp_all add: parse_duration_def demo_ledger_env_def ledger_create_def advance_def max_def less_eq_duration_def)

end
