(* ===== verification/Actor.thy ===== *)
theory Actor
  imports Prelude
begin

text \<open>
  Model of \<open>src/runtime/src/model.rs\<close>: commands, events and outcomes of actors, and the
  contract of the \<open>Actor\<close> trait as the replicated state machine that the platform runs.
  Messages in headers and events are serialised; the codecs are parameters of the actors.

  The locale \<open>replicated_actor\<close> is the interface between the platform and an actor: applying
  a committed event keeps replicas in agreement, whatever the replica-local context of the
  application is (who owns the event, what randomness it draws), and a snapshot taken at one
  replica can be loaded at a replica that lags behind. Its lemmas show that replicas that
  apply the same log agree and that a replica may catch up through a snapshot.
\<close>

section \<open>Commands, events and outcomes\<close>

datatype actor_error = ActorInternal | ActorConfigLoading | ActorSnapshotLoading

record actor_context =
  ctx_id :: nat
  ctx_instant :: nat
  ctx_config :: bytes
  ctx_leader :: bool

record actor_command =
  ac_correlation_id :: nat
  ac_header :: bytes
  ac_payload :: bytes

definition command_with_header :: "nat \<Rightarrow> bytes \<Rightarrow> actor_command" where
  "command_with_header correlation_id header =
     \<lparr> ac_correlation_id = correlation_id, ac_header = header, ac_payload = [] \<rparr>"

definition command_with_header_and_payload :: "nat \<Rightarrow> bytes \<Rightarrow> bytes \<Rightarrow> actor_command" where
  "command_with_header_and_payload correlation_id header payload =
     \<lparr> ac_correlation_id = correlation_id, ac_header = header, ac_payload = payload \<rparr>"

record actor_event =
  ae_correlation_id :: nat
  ae_contents :: bytes

definition event_with_bytes :: "nat \<Rightarrow> bytes \<Rightarrow> actor_event" where
  "event_with_bytes correlation_id contents =
     \<lparr> ae_correlation_id = correlation_id, ae_contents = contents \<rparr>"

record actor_event_context =
  aec_index :: nat
  aec_owned :: bool

record command_outcome =
  co_commands :: "actor_command list"
  co_event :: "actor_event option"

definition outcome_with_none :: command_outcome where
  "outcome_with_none = \<lparr> co_commands = [], co_event = None \<rparr>"

definition outcome_with_command :: "actor_command \<Rightarrow> command_outcome" where
  "outcome_with_command command = \<lparr> co_commands = [command], co_event = None \<rparr>"

definition outcome_with_commands :: "actor_command list \<Rightarrow> command_outcome" where
  "outcome_with_commands commands = \<lparr> co_commands = commands, co_event = None \<rparr>"

definition outcome_with_event :: "actor_event \<Rightarrow> command_outcome" where
  "outcome_with_event event = \<lparr> co_commands = [], co_event = Some event \<rparr>"

definition outcome_with_command_and_event :: "actor_command \<Rightarrow> actor_event \<Rightarrow> command_outcome" where
  "outcome_with_command_and_event command event = \<lparr> co_commands = [command], co_event = Some event \<rparr>"

datatype event_outcome = EventOutcome (eo_commands: "actor_command list")

definition event_outcome_with_none :: event_outcome where
  "event_outcome_with_none = EventOutcome []"

definition event_outcome_with_command :: "actor_command \<Rightarrow> event_outcome" where
  "event_outcome_with_command command = EventOutcome [command]"

definition event_outcome_with_commands :: "actor_command list \<Rightarrow> event_outcome" where
  "event_outcome_with_commands commands = EventOutcome commands"

section \<open>The contract of an actor\<close>

text \<open>
  \<open>step c s e\<close> is the state after applying event \<open>e\<close> in the replica-local context \<open>c\<close>;
  \<open>admits s e\<close> is what the actor requires of an event in a state. \<open>lags t s\<close> says that
  replica state \<open>t\<close> may be replaced by a snapshot of \<open>s\<close>.
\<close>

locale replicated_actor =
  fixes inv :: "'s \<Rightarrow> bool"
    and agree :: "'s \<Rightarrow> 's \<Rightarrow> bool"
    and admits :: "'s \<Rightarrow> 'e \<Rightarrow> bool"
    and step :: "'c \<Rightarrow> 's \<Rightarrow> 'e \<Rightarrow> 's"
    and save :: "'s \<Rightarrow> 'b option"
    and load :: "'s \<Rightarrow> 'b \<Rightarrow> 's option"
    and lags :: "'s \<Rightarrow> 's \<Rightarrow> bool"
  assumes inv_step: "inv s \<Longrightarrow> inv (step c s e)"
    and agree_step: "inv s \<Longrightarrow> inv t \<Longrightarrow> agree s t \<Longrightarrow> admits s e \<Longrightarrow> admits t e \<Longrightarrow>
      agree (step c s e) (step d t e)"
    and lags_agree: "agree s t \<Longrightarrow> lags t s"
    and lags_step: "inv s \<Longrightarrow> lags t s \<Longrightarrow> lags t (step c s e)"
    and load_save: "inv s \<Longrightarrow> inv t \<Longrightarrow> lags t s \<Longrightarrow> save s = Some b \<Longrightarrow>
      \<exists>u. load t b = Some u \<and> inv u \<and> agree s u"
begin

text \<open>A replica applies a log; the local context of each event is paired with it.\<close>

lemma inv_run: "inv s \<Longrightarrow> inv (fold (\<lambda>(c, e) s. step c s e) es s)"
  by (induction es arbitrary: s) (auto simp: inv_step)

lemma lags_run: "inv s \<Longrightarrow> lags t s \<Longrightarrow> lags t (fold (\<lambda>(c, e) s. step c s e) es s)"
  by (induction es arbitrary: s) (auto simp: inv_step lags_step)

text \<open>Two replicas that agree still agree after the same log, with their own contexts.\<close>

lemma agree_run:
  assumes "inv s" "inv t" "agree s t" "map snd es = map snd fs"
    and "\<And>pre c e post. es = pre @ (c, e) # post \<Longrightarrow> admits (fold (\<lambda>(c, e) s. step c s e) pre s) e"
    and "\<And>pre c e post. fs = pre @ (c, e) # post \<Longrightarrow> admits (fold (\<lambda>(c, e) s. step c s e) pre t) e"
  shows "agree (fold (\<lambda>(c, e) s. step c s e) es s) (fold (\<lambda>(c, e) s. step c s e) fs t)"
  using assms
proof (induction es arbitrary: s t fs)
  case (Cons x es)
  obtain c e where x: "x = (c, e)" by fastforce
  obtain d fs' where fs: "fs = (d, e) # fs'" and eq: "map snd es = map snd fs'"
    using Cons.prems(4) by (cases fs) (auto simp: x)
  have "admits s e" "admits t e"
    using Cons.prems(5) [of "[]"] Cons.prems(6) [of "[]"] by (auto simp: x fs)
  then have "agree (step c s e) (step d t e)"
    using Cons.prems by (intro agree_step)
  moreover have "admits (fold (\<lambda>(c, e) s. step c s e) pre (step c s e)) e'"
    if "es = pre @ (c', e') # post" for pre c' e' post
    using Cons.prems(5) [of "(c, e) # pre"] that by (simp add: x)
  moreover have "admits (fold (\<lambda>(c, e) s. step c s e) pre (step d t e)) e'"
    if "fs' = pre @ (c', e') # post" for pre c' e' post
    using Cons.prems(6) [of "(d, e) # pre"] that by (simp add: fs)
  ultimately show ?case
    using Cons.IH [of "step c s e" "step d t e" fs'] Cons.prems(1,2) eq by (simp add: x fs inv_step)
qed simp

text \<open>
  A replica \<open>t\<close> that agrees with an earlier state \<open>s\<close> of another replica loads the snapshot that
  the other one takes after the events \<open>es\<close>, and then agrees with it.
\<close>

lemma catch_up:
  assumes "inv s" "inv t" "agree s t" "save (fold (\<lambda>(c, e) s. step c s e) es s) = Some b"
  shows "\<exists>u. load t b = Some u \<and> inv u \<and> agree (fold (\<lambda>(c, e) s. step c s e) es s) u"
  using assms by (intro load_save) (auto intro: inv_run lags_run lags_agree)

end

end
