(* ===== verification/Codec.thy ===== *)
theory Codec
  imports Prelude
begin

text \<open>
  A concrete self-delimiting codec, built from combinators. The protobuf codecs are parameters
  of the model; this theory provides instances for which the law \<open>decode (encode x) = Some x\<close>
  holds, so that theorems with that hypothesis can be applied to concrete actors.
\<close>

type_synonym 'a parser = "bytes \<Rightarrow> ('a \<times> bytes) option"

section \<open>Combinators\<close>

definition enc_nat :: "nat \<Rightarrow> bytes" where
  "enc_nat n = replicate n 1 @ [0]"

fun dec_nat :: "nat parser" where
  "dec_nat [] = None"
| "dec_nat (b # bs) = (if b = 0 then Some (0, bs) else map_option (apfst Suc) (dec_nat bs))"

definition enc_pair :: "('a \<Rightarrow> bytes) \<Rightarrow> ('b \<Rightarrow> bytes) \<Rightarrow> 'a \<times> 'b \<Rightarrow> bytes" where
  "enc_pair e f x = e (fst x) @ f (snd x)"

definition dec_pair :: "'a parser \<Rightarrow> 'b parser \<Rightarrow> ('a \<times> 'b) parser" where
  "dec_pair p q bs = (case p bs of None \<Rightarrow> None | Some (x, r) \<Rightarrow> map_option (apfst (Pair x)) (q r))"

definition dec_map :: "('a \<Rightarrow> 'b) \<Rightarrow> 'a parser \<Rightarrow> 'b parser" where
  "dec_map g p bs = map_option (apfst g) (p bs)"

definition enc_sum :: "('a \<Rightarrow> bytes) \<Rightarrow> ('b \<Rightarrow> bytes) \<Rightarrow> 'a + 'b \<Rightarrow> bytes" where
  "enc_sum e f x = (case x of Inl a \<Rightarrow> 0 # e a | Inr b \<Rightarrow> 1 # f b)"

fun dec_sum :: "'a parser \<Rightarrow> 'b parser \<Rightarrow> ('a + 'b) parser" where
  "dec_sum p q [] = None"
| "dec_sum p q (b # bs) = (if b = 0 then dec_map Inl p bs else dec_map Inr q bs)"

definition enc_list :: "('a \<Rightarrow> bytes) \<Rightarrow> 'a list \<Rightarrow> bytes" where
  "enc_list e xs = enc_nat (length xs) @ concat (map e xs)"

fun dec_times :: "'a parser \<Rightarrow> nat \<Rightarrow> 'a list parser" where
  "dec_times p 0 bs = Some ([], bs)"
| "dec_times p (Suc n) bs = (case p bs of None \<Rightarrow> None | Some (x, r) \<Rightarrow> map_option (apfst (Cons x)) (dec_times p n r))"

definition dec_list :: "'a parser \<Rightarrow> 'a list parser" where
  "dec_list p bs = (case dec_nat bs of None \<Rightarrow> None | Some (n, r) \<Rightarrow> dec_times p n r)"

definition enc_option :: "('a \<Rightarrow> bytes) \<Rightarrow> 'a option \<Rightarrow> bytes" where
  "enc_option e x = (case x of None \<Rightarrow> [0] | Some a \<Rightarrow> 1 # e a)"

fun dec_option :: "'a parser \<Rightarrow> 'a option parser" where
  "dec_option p [] = None"
| "dec_option p (b # bs) = (if b = 0 then Some (None, bs) else dec_map Some p bs)"

definition enc_word :: "'a::len word \<Rightarrow> bytes" where
  "enc_word w = enc_nat (unat w)"

definition dec_word :: "'a::len word parser" where
  "dec_word = dec_map word_of_nat dec_nat"

definition enc_bytes :: "bytes \<Rightarrow> bytes" where
  "enc_bytes = enc_list enc_word"

definition dec_bytes :: "bytes parser" where
  "dec_bytes = dec_list dec_word"

definition enc_string :: "string \<Rightarrow> bytes" where
  "enc_string s = enc_list (\<lambda>c. enc_nat (of_char c)) s"

definition dec_string :: "string parser" where
  "dec_string = dec_list (dec_map char_of dec_nat)"

text \<open>A whole message: nothing may be left over.\<close>

definition decode_all :: "'a parser \<Rightarrow> bytes \<Rightarrow> 'a option" where
  "decode_all p bs = (case p bs of Some (x, []) \<Rightarrow> Some x | _ \<Rightarrow> None)"

definition codec :: "('a \<Rightarrow> bytes) \<Rightarrow> 'a parser \<Rightarrow> bool" where
  "codec e p \<longleftrightarrow> (\<forall>x rest. p (e x @ rest) = Some (x, rest))"

section \<open>Round trips\<close>

named_theorems codecs \<open>round trips of the combinators\<close>

lemma codec_nat [codecs]: "codec enc_nat dec_nat"
proof -
  have "dec_nat (replicate n 1 @ 0 # rest) = Some (n, rest)" for n rest
    by (induction n) auto
  then show ?thesis
    by (simp add: codec_def enc_nat_def)
qed

lemma codec_pair [codecs]: "codec e p \<Longrightarrow> codec f q \<Longrightarrow> codec (enc_pair e f) (dec_pair p q)"
  by (simp add: codec_def enc_pair_def dec_pair_def)

lemma codec_map: "codec e p \<Longrightarrow> (\<And>x. g (f x) = x) \<Longrightarrow> codec (\<lambda>x. e (f x)) (dec_map g p)"
  by (simp add: codec_def dec_map_def)

lemma codec_sum [codecs]: "codec e p \<Longrightarrow> codec f q \<Longrightarrow> codec (enc_sum e f) (dec_sum p q)"
  by (simp add: codec_def enc_sum_def dec_map_def split: sum.split)

lemma codec_option [codecs]: "codec e p \<Longrightarrow> codec (enc_option e) (dec_option p)"
  by (simp add: codec_def enc_option_def dec_map_def split: option.split)

lemma codec_list [codecs]:
  assumes "codec e p"
  shows "codec (enc_list e) (dec_list p)"
proof -
  have "dec_times p (length xs) (concat (map e xs) @ rest) = Some (xs, rest)" for xs rest
    using assms by (induction xs) (auto simp: codec_def)
  then show ?thesis
    using codec_nat by (simp add: codec_def enc_list_def dec_list_def)
qed

lemma codec_word [codecs]: "codec enc_word (dec_word :: 'a::len word parser)"
  using codec_map [OF codec_nat, of "word_of_nat :: nat \<Rightarrow> 'a word" unat]
  by (simp add: enc_word_def [abs_def] dec_word_def)

lemma codec_bytes [codecs]: "codec enc_bytes dec_bytes"
  unfolding enc_bytes_def dec_bytes_def by (intro codecs)

lemma codec_string [codecs]: "codec enc_string dec_string"
  unfolding enc_string_def [abs_def] dec_string_def by (intro codec_list codec_map codec_nat) simp

lemma decode_all_encode: "codec e p \<Longrightarrow> decode_all p (e x) = Some x"
proof -
  assume "codec e p"
  then have "p (e x @ []) = Some (x, [])"
    unfolding codec_def by blast
  then show ?thesis
    by (simp add: decode_all_def)
qed

end
