(* ===== verification/LedgerActor.thy ===== *)
theory LedgerActor
  imports Ledger Actor Codec
begin

text \<open>
  Model of \<open>src/apps/ledger/service/src/actor.rs\<close>: the ledger as a replicated actor. The
  leader turns a request into an event, every replica applies the committed events, and the
  replica that owns an event answers. The protobuf codecs of the actor messages are the
  parameter \<open>ledger_actor_env\<close>; the logger is left out, but a log call on an actor without
  context panics as in the code.

  Main results: the ledger meets the contract \<open>replicated_actor\<close>, so replicas that apply the
  same events agree on all keys that are not expired at the later of their clocks, although
  the leader moves its clock before an event is committed.
\<close>

section \<open>Messages and state\<close>

datatype ledger_request =
    ReqCreateKey create_key_request
  | ReqDeleteKey delete_key_request
  | ReqAuthorizeAccess authorize_access_request
  | ReqRevokeAccess revoke_access_request

datatype ledger_event =
    EvCreateKey create_key_event
  | EvDeleteKey delete_key_request
  | EvAuthorizeAccess authorize_access_event
  | EvRevokeAccess revoke_access_request

datatype ledger_response =
    RespCreateKey create_key_response
  | RespDeleteKey
  | RespAuthorizeAccess authorize_access_response
  | RespRevokeAccess
  | RespError int string

text \<open>The codecs; a message is the option of its \<open>oneof\<close>.\<close>

record ledger_actor_env =
  lae_ledger :: ledger_env
  lae_decode_request :: "bytes \<Rightarrow> ledger_request option option"
  lae_encode_event :: "ledger_event option \<Rightarrow> bytes"
  lae_decode_event :: "bytes \<Rightarrow> ledger_event option option"
  lae_encode_response :: "ledger_response option \<Rightarrow> bytes"
  lae_decode_config :: "bytes \<Rightarrow> unit option"
  lae_encode_snapshot :: "ledger_snapshot \<Rightarrow> bytes"
  lae_decode_snapshot :: "bytes \<Rightarrow> ledger_snapshot option"

record ledger_actor =
  la_context :: "actor_context option"
  la_ledger :: ledger_service

definition ledger_actor_create :: "evidence \<Rightarrow> ledger_actor" where
  "ledger_actor_create evidence = \<lparr> la_context = None, la_ledger = ledger_create evidence \<rparr>"



section \<open>Operations\<close>

text \<open>\<open>micro_rpc::StatusCode as i32\<close>, the canonical codes of google.rpc.\<close>

fun status_code_int :: "status_code \<Rightarrow> int" where
  "status_code_int InvalidArgument = 3"
| "status_code_int NotFound = 5"
| "status_code_int ResourceExhausted = 8"
| "status_code_int FailedPrecondition = 9"
| "status_code_int Aborted = 10"
| "status_code_int Internal = 13"

definition response_with_error :: "status \<Rightarrow> ledger_response" where
  "response_with_error error = RespError (status_code_int (status_code error)) (status_message error)"

text \<open>The result of an operation on the ledger inside the actor.\<close>

definition on_ledger :: "ledger_actor \<Rightarrow> ledger_service \<times> 'r \<Rightarrow> ledger_actor \<times> 'r" where
  "on_ledger self p = (self\<lparr>la_ledger := fst p\<rparr>, snd p)"

definition handle_command ::
  "ledger_actor_env \<Rightarrow> bytes list \<Rightarrow> bytes \<Rightarrow> ledger_actor \<Rightarrow> actor_command
   \<Rightarrow> (ledger_actor \<times> (command_outcome, status) result) option" where
  "handle_command env draws rng self command =
     (case la_context self of
        None \<Rightarrow> Some (self, Panic)
      | Some context \<Rightarrow>
          (case lae_decode_request env (ac_header command) of
             None \<Rightarrow> Some (self, Err (Status InvalidArgument ''LedgerRequest cannot be parsed''))
           | Some request \<Rightarrow>
               (if \<not> ctx_leader context then Some (self, Err (Status Aborted ''Command rejected''))
                else
                  map_option (\<lambda>p. try_st p (\<lambda>self event.
                      (self, Ok (outcome_with_event
                         (event_with_bytes (ac_correlation_id command) (lae_encode_event env (Some event)))))))
                    (case request of
                       Some (ReqAuthorizeAccess r) \<Rightarrow>
                         Some (try_st (on_ledger self
                                 (attest_and_produce_authorize_access_event (lae_ledger env) (la_ledger self) r))
                               (\<lambda>self event. (self, Ok (EvAuthorizeAccess event))))
                     | Some (ReqCreateKey r) \<Rightarrow>
                         map_option (\<lambda>p. try_st (on_ledger self p)
                               (\<lambda>self event. (self, Ok (EvCreateKey event))))
                           (produce_create_key_event (lae_ledger env) draws rng (la_ledger self) r)
                     | Some (ReqDeleteKey r) \<Rightarrow> Some (self, Ok (EvDeleteKey r))
                     | Some (ReqRevokeAccess r) \<Rightarrow> Some (self, Ok (EvRevokeAccess r))
                     | None \<Rightarrow>
                         Some (self, Err (Status InvalidArgument ''LedgerActor: unexpected request type''))))))"

definition handle_event ::
  "ledger_actor_env \<Rightarrow> bytes \<Rightarrow> ledger_actor \<Rightarrow> actor_event_context \<Rightarrow> actor_event
   \<Rightarrow> ledger_actor \<times> (event_outcome, status) result" where
  "handle_event env rng self context event =
     (case la_context self of
        None \<Rightarrow> (self, Panic)
      | Some _ \<Rightarrow>
          (case lae_decode_event env (ae_contents event) of
             None \<Rightarrow> (self, Err (Status InvalidArgument ''LedgerRequest cannot be parsed''))
           | Some ledger_event \<Rightarrow>
               try_st
                 (case ledger_event of
                    Some (EvAuthorizeAccess e) \<Rightarrow>
                      try_st (on_ledger self (apply_authorize_access_event (lae_ledger env) rng (la_ledger self) e))
                        (\<lambda>self r. (self, Ok (RespAuthorizeAccess r)))
                  | Some (EvCreateKey e) \<Rightarrow>
                      try_st (on_ledger self (apply_create_key_event (lae_ledger env) (la_ledger self) e))
                        (\<lambda>self r. (self, Ok (RespCreateKey r)))
                  | Some (EvDeleteKey e) \<Rightarrow>
                      try_st (on_ledger self (delete_key (lae_ledger env) (la_ledger self) e))
                        (\<lambda>self r. (self, Ok RespDeleteKey))
                  | Some (EvRevokeAccess e) \<Rightarrow>
                      try_st (on_ledger self (revoke_access (la_ledger self) e))
                        (\<lambda>self r. (self, Ok RespRevokeAccess))
                  | None \<Rightarrow>
                      (self, Err (Status InvalidArgument ''LedgerActor: unexpected event type'')))
                 (\<lambda>self response.
                    if \<not> aec_owned context then (self, Ok event_outcome_with_none)
                    else (self, Ok (event_outcome_with_command (command_with_header (ae_correlation_id event)
                                      (lae_encode_response env (Some response))))))))"

definition ledger_on_init ::
  "ledger_actor_env \<Rightarrow> ledger_actor \<Rightarrow> actor_context \<Rightarrow> ledger_actor \<times> (unit, actor_error) result" where
  "ledger_on_init env self context =
     (case la_context self of
        Some _ \<Rightarrow> (self, Err ActorInternal)
      | None \<Rightarrow>
          (self\<lparr>la_context := Some context\<rparr>,
           ok_or ActorConfigLoading (lae_decode_config env (ctx_config context))))"

definition ledger_on_save_snapshot ::
  "ledger_actor_env \<Rightarrow> ledger_actor \<Rightarrow> (bytes, actor_error) result" where
  "ledger_on_save_snapshot env self =
     (case la_context self of
        None \<Rightarrow> Panic
      | Some _ \<Rightarrow>
          and_then (map_err (\<lambda>_. ActorInternal) (save_ledger_snapshot (la_ledger self)))
            (\<lambda>snapshot. Ok (lae_encode_snapshot env snapshot)))"

definition ledger_on_load_snapshot ::
  "ledger_actor_env \<Rightarrow> ledger_actor \<Rightarrow> bytes \<Rightarrow> ledger_actor \<times> (unit, actor_error) result" where
  "ledger_on_load_snapshot env self snapshot =
     (case la_context self of
        None \<Rightarrow> (self, Panic)
      | Some _ \<Rightarrow>
          lift_st self (ok_or ActorSnapshotLoading (lae_decode_snapshot env snapshot)) (\<lambda>s.
            apsnd (map_err (\<lambda>_. ActorSnapshotLoading))
              (on_ledger self (load_ledger_snapshot (lae_ledger env) (la_ledger self) s))))"

definition ledger_on_process_command ::
  "ledger_actor_env \<Rightarrow> bytes list \<Rightarrow> bytes \<Rightarrow> ledger_actor \<Rightarrow> actor_command option
   \<Rightarrow> (ledger_actor \<times> (command_outcome, actor_error) result) option" where
  "ledger_on_process_command env draws rng self command =
     (case command of
        None \<Rightarrow> Some (self, Ok outcome_with_none)
      | Some command \<Rightarrow>
          map_option (\<lambda>p. case p of
              (self, Ok outcome) \<Rightarrow> (self, Ok outcome)
            | (self, Err err) \<Rightarrow>
                (self, Ok (outcome_with_command (command_with_header (ac_correlation_id command)
                   (lae_encode_response env (Some (response_with_error err))))))
            | (self, Panic) \<Rightarrow> (self, Panic))
          (handle_command env draws rng self command))"

definition ledger_on_apply_event ::
  "ledger_actor_env \<Rightarrow> bytes \<Rightarrow> ledger_actor \<Rightarrow> actor_event_context \<Rightarrow> actor_event
   \<Rightarrow> ledger_actor \<times> (event_outcome, actor_error) result" where
  "ledger_on_apply_event env rng self context event =
     (case handle_event env rng self context event of
        (self, Ok outcome) \<Rightarrow> (self, Ok outcome)
      | (self, Err err) \<Rightarrow>
          (self, Ok (event_outcome_with_command (command_with_header (ae_correlation_id event)
             (lae_encode_response env (Some (response_with_error err))))))
      | (self, Panic) \<Rightarrow> (self, Panic))"

section \<open>Specification\<close>

text \<open>Two ledgers agree when they have the same keys that are not expired at the later of their clocks.\<close>

definition ledgers_agree :: "ledger_service \<Rightarrow> ledger_service \<Rightarrow> bool" where
  "ledgers_agree s t \<longleftrightarrow>
     live (max (ls_current_time s) (ls_current_time t)) s = live (max (ls_current_time s) (ls_current_time t)) t"

text \<open>Documented behaviour of the crates: whether a seal succeeds does not depend on the randomness
  drawn, and the snapshot message survives its codec.\<close>

definition seal_uniform :: "crypto_env \<Rightarrow> bool" where
  "seal_uniform c \<longleftrightarrow>
     (\<forall>r r' pk info pt aad. (hpke_single_shot_seal c r pk info pt aad = None) =
        (hpke_single_shot_seal c r' pk info pt aad = None))"

definition ledger_actor_laws :: "ledger_actor_env \<Rightarrow> bool" where
  "ledger_actor_laws env \<longleftrightarrow>
     private_key_law (lae_ledger env) \<and> seal_uniform (le_crypto (lae_ledger env)) \<and>
     (\<forall>s. lae_decode_snapshot env (lae_encode_snapshot env s) = Some s)"

definition ledger_actor_inv :: "ledger_actor_env \<Rightarrow> ledger_actor \<Rightarrow> bool" where
  "ledger_actor_inv env s \<longleftrightarrow>
     la_context s \<noteq> None \<and> ledger_wf (lae_ledger env) (la_ledger s) \<and> ledger_actor_laws env"

text \<open>The key id of a creation event is not in use when the event is applied.\<close>

definition no_collision :: "ledger_actor_env \<Rightarrow> ledger_actor \<Rightarrow> actor_event \<Rightarrow> bool" where
  "no_collision env s event \<longleftrightarrow>
     (\<forall>ev key now. lae_decode_event env (ae_contents event) = Some (Some (EvCreateKey ev)) \<longrightarrow>
       extract_key_from_cwt (le_crypto (lae_ledger env)) (cke_public_key ev) = Ok key \<longrightarrow>
       parse_timestamp (cke_event_time ev) = Ok now \<longrightarrow>
       bt_get (ls_per_key_ledgers (advance now (la_ledger s))) (ck_key_id key) = None)"

definition ledger_agree :: "ledger_actor \<Rightarrow> ledger_actor \<Rightarrow> bool" where
  "ledger_agree s t = ledgers_agree (la_ledger s) (la_ledger t)"

text \<open>The map of keys after a creation event, if the new key is wanted at its expiration time.\<close>

definition created_keys ::
  "ledger_env \<Rightarrow> create_key_event \<Rightarrow> (duration \<Rightarrow> bool) \<Rightarrow> (bytes, per_key_ledger) btree
   \<Rightarrow> (bytes, per_key_ledger) btree" where
  "created_keys env ev P m =
     (case parse_timestamp (cke_expiration ev) of
        Ok x \<Rightarrow>
          (case extract_key_from_cwt (le_crypto env) (cke_public_key ev) of
             Ok key \<Rightarrow>
               (case kem_private_key_from_bytes (le_crypto env) (cke_private_key ev) of
                  Some sk \<Rightarrow>
                    if P x then bt_insert (ck_key_id key)
                      \<lparr> pk_private_key = sk, pk_public_key = cke_public_key ev,
                        pk_expiration = x, pk_budget_tracker = budget_tracker_new \<rparr> m
                    else m
                | None \<Rightarrow> m)
           | _ \<Rightarrow> m)
      | _ \<Rightarrow> m)"

text \<open>The replica-local context of an application: the event context and the randomness.\<close>

definition ledger_step ::
  "ledger_actor_env \<Rightarrow> actor_event_context \<times> bytes \<Rightarrow> ledger_actor \<Rightarrow> actor_event \<Rightarrow> ledger_actor" where
  "ledger_step env c s event = fst (ledger_on_apply_event env (snd c) s (fst c) event)"

definition ledger_save :: "ledger_actor_env \<Rightarrow> ledger_actor \<Rightarrow> bytes option" where
  "ledger_save env s = (case ledger_on_save_snapshot env s of Ok b \<Rightarrow> Some b | _ \<Rightarrow> None)"

definition ledger_load :: "ledger_actor_env \<Rightarrow> ledger_actor \<Rightarrow> bytes \<Rightarrow> ledger_actor option" where
  "ledger_load env s b = (case ledger_on_load_snapshot env s b of (u, Ok _) \<Rightarrow> Some u | _ \<Rightarrow> None)"

text \<open>A concrete codec of the snapshot message.\<close>

definition enc_timestamp :: "timestamp \<Rightarrow> bytes" where
  "enc_timestamp ts = enc_pair enc_word enc_word (ts_seconds ts, ts_nanos ts)"

definition dec_timestamp :: "timestamp parser" where
  "dec_timestamp = dec_map (\<lambda>(s, n). \<lparr> ts_seconds = s, ts_nanos = n \<rparr>) (dec_pair dec_word dec_word)"

definition enc_blob_budget_snapshot :: "blob_budget_snapshot \<Rightarrow> bytes" where
  "enc_blob_budget_snapshot b =
     enc_pair enc_bytes (enc_pair (enc_list enc_word) (enc_list enc_word))
       (bbs_blob_id b, bbs_transform_access_budgets b, bbs_shared_access_budgets b)"

definition dec_blob_budget_snapshot :: "blob_budget_snapshot parser" where
  "dec_blob_budget_snapshot =
     dec_map (\<lambda>(i, t, s). \<lparr> bbs_blob_id = i, bbs_transform_access_budgets = t, bbs_shared_access_budgets = s \<rparr>)
       (dec_pair dec_bytes (dec_pair (dec_list dec_word) (dec_list dec_word)))"

definition enc_per_policy_snapshot :: "per_policy_snapshot \<Rightarrow> bytes" where
  "enc_per_policy_snapshot p =
     enc_pair enc_bytes (enc_list enc_blob_budget_snapshot) (pps_access_policy_sha256 p, pps_budgets p)"

definition dec_per_policy_snapshot :: "per_policy_snapshot parser" where
  "dec_per_policy_snapshot =
     dec_map (\<lambda>(h, b). \<lparr> pps_access_policy_sha256 = h, pps_budgets = b \<rparr>)
       (dec_pair dec_bytes (dec_list dec_blob_budget_snapshot))"

definition enc_budget_snapshot :: "budget_snapshot \<Rightarrow> bytes" where
  "enc_budget_snapshot s =
     enc_pair (enc_list enc_per_policy_snapshot) (enc_list enc_bytes)
       (bs_per_policy_snapshots s, bs_consumed_budgets s)"

definition dec_budget_snapshot :: "budget_snapshot parser" where
  "dec_budget_snapshot =
     dec_map (\<lambda>(p, c). \<lparr> bs_per_policy_snapshots = p, bs_consumed_budgets = c \<rparr>)
       (dec_pair (dec_list dec_per_policy_snapshot) (dec_list dec_bytes))"

definition enc_per_key_snapshot :: "per_key_snapshot \<Rightarrow> bytes" where
  "enc_per_key_snapshot s =
     enc_pair enc_bytes (enc_pair enc_bytes (enc_pair enc_bytes
       (enc_pair (enc_option enc_timestamp) (enc_option enc_budget_snapshot))))
       (pks_key_id s, pks_public_key s, pks_private_key s, pks_expiration s, pks_budgets s)"

definition dec_per_key_snapshot :: "per_key_snapshot parser" where
  "dec_per_key_snapshot =
     dec_map (\<lambda>(k, pub, priv, x, b). \<lparr> pks_key_id = k, pks_public_key = pub, pks_private_key = priv,
          pks_expiration = x, pks_budgets = b \<rparr>)
       (dec_pair dec_bytes (dec_pair dec_bytes (dec_pair dec_bytes
         (dec_pair (dec_option dec_timestamp) (dec_option dec_budget_snapshot)))))"

definition enc_ledger_snapshot :: "ledger_snapshot \<Rightarrow> bytes" where
  "enc_ledger_snapshot s =
     enc_pair (enc_option enc_timestamp) (enc_list enc_per_key_snapshot) (lsn_current_time s, lsn_per_key_snapshots s)"

definition dec_ledger_snapshot :: "ledger_snapshot parser" where
  "dec_ledger_snapshot =
     dec_map (\<lambda>(t, k). \<lparr> lsn_current_time = t, lsn_per_key_snapshots = k \<rparr>)
       (dec_pair (dec_option dec_timestamp) (dec_list dec_per_key_snapshot))"

text \<open>A concrete actor for the witnesses: event 1 creates the key of \<open>demo_create_event\<close>, event 2 uses it.\<close>

definition demo_actor_env :: ledger_actor_env where
  "demo_actor_env =
     \<lparr> lae_ledger = demo_ledger_env,
       lae_decode_request = (\<lambda>b. if b = [1] then Some (Some (ReqAuthorizeAccess demo_authorize_request)) else None),
       lae_encode_event = (\<lambda>e. if e = Some (EvAuthorizeAccess demo_authorize_event) then [2] else [3]),
       lae_decode_event = (\<lambda>b. if b = [1] then Some (Some (EvCreateKey demo_create_event))
          else if b = [2] then Some (Some (EvAuthorizeAccess demo_authorize_event)) else None),
       lae_encode_response = (\<lambda>_. []),
       lae_decode_config = (\<lambda>_. Some ()),
       lae_encode_snapshot = enc_ledger_snapshot,
       lae_decode_snapshot = decode_all dec_ledger_snapshot \<rparr>"

definition demo_actor :: "bool \<Rightarrow> ledger_service \<Rightarrow> ledger_actor" where
  "demo_actor leader s =
     \<lparr> la_context = Some \<lparr> ctx_id = 1, ctx_instant = 0, ctx_config = [], ctx_leader = leader \<rparr>, la_ledger = s \<rparr>"

section \<open>Agreement of ledgers\<close>

lemma agree_stepI:
  assumes "ledgers_agree s t" "ls_current_time s \<le> ls_current_time s'" "ls_current_time t \<le> ls_current_time t'"
    and "live (max (ls_current_time s') (ls_current_time t')) s' = h (live (max (ls_current_time s') (ls_current_time t')) s)"
    and "live (max (ls_current_time s') (ls_current_time t')) t' = h (live (max (ls_current_time s') (ls_current_time t')) t)"
  shows "ledgers_agree s' t'"
proof -
  have "live (max (ls_current_time s') (ls_current_time t')) s = live (max (ls_current_time s') (ls_current_time t')) t"
    using assms(2,3)
    by (intro live_mono [OF assms(1) [unfolded ledgers_agree_def]]) (auto simp: le_max_iff_disj)
  then show ?thesis
    using assms(4,5) by (simp add: ledgers_agree_def)
qed

lemma ledgers_agree_refl: "ledgers_agree s s"
  by (simp add: ledgers_agree_def)

lemma ledgers_agree_evidence: "ledgers_agree s (s\<lparr>ls_evidence := e\<rparr>)"
  by (simp add: ledgers_agree_def live_def)

text \<open>A replica may move its clock on its own.\<close>

lemma ledgers_agree_advance: "ledgers_agree s t \<Longrightarrow> ledgers_agree (advance now s) t"
  by (erule agree_stepI [where h = "\<lambda>m. m"]) (auto simp: live_advance le_max_iff_disj)

lemma wrap_uniform:
  assumes "seal_uniform c"
  shows "is_ok (wrap_symmetric_key c r k pk ad) = is_ok (wrap_symmetric_key c r' k pk ad)"
proof -
  have "(hpke_single_shot_seal c r raw INFO k ad = None) = (hpke_single_shot_seal c r' raw INFO k ad = None)" for raw
    using assms unfolding seal_uniform_def by blast
  then show ?thesis
    by (simp add: wrap_symmetric_key_def result_simps del: not_None_eq)
qed

lemma rewrap_uniform:
  "seal_uniform c \<Longrightarrow> is_ok (rewrap_symmetric_key c r a b k ad pk wad) = is_ok (rewrap_symmetric_key c r' a b k ad pk wad)"
  unfolding rewrap_symmetric_key_def
  using wrap_uniform [of c r _ pk wad r'] by (simp add: result_simps)

lemma authorize_keys_uniform:
  "seal_uniform (le_crypto env) \<Longrightarrow> authorize_keys env r ev m = authorize_keys env r' ev m"
  unfolding authorize_keys_def authorize_entry_def
  using rewrap_uniform [of "le_crypto env" r _ _ _ _ _ _ r'] by (auto split: result.split option.split)

lemma live_authorize:
  assumes "bt_wf (ls_per_key_ledgers s)" "parse_timestamp (aae_event_time ev) = Ok now" "now \<le> T"
  shows "live T (fst (apply_authorize_access_event env rng s ev)) = authorize_keys env rng ev (live T s)"
proof -
  have "bt_wf (ls_per_key_ledgers (advance now s))"
    using assms(1) by (simp add: advance_def bt_wf_filter)
  then have "filter (\<lambda>e. pk_expiration (snd e) > T) (authorize_keys env rng ev (ls_per_key_ledgers (advance now s))) =
      authorize_keys env rng ev (filter (\<lambda>e. pk_expiration (snd e) > T) (ls_per_key_ledgers (advance now s)))"
    by (auto simp: authorize_keys_def filter_modify_key split: result.split option.split)
  then show ?thesis
    using live_advance [OF assms(3), of s]
    by (simp add: apply_authorize_effect [OF assms(2,1)] live_def)
qed

lemma agree_authorize:
  assumes "ledgers_agree s t" "bt_wf (ls_per_key_ledgers s)" "bt_wf (ls_per_key_ledgers t)"
    and "seal_uniform (le_crypto env)"
  shows "ledgers_agree (fst (apply_authorize_access_event env r s ev)) (fst (apply_authorize_access_event env r' t ev))"
proof (cases "parse_timestamp (aae_event_time ev)")
  case (Ok now)
  have cur: "ls_current_time (fst (apply_authorize_access_event env rng x ev)) = max now (ls_current_time x)"
    if "bt_wf (ls_per_key_ledgers x)" for rng x
    by (simp add: apply_authorize_effect [OF Ok that])
  show ?thesis
    using assms live_authorize [OF _ Ok] authorize_keys_uniform [OF assms(4), of r ev _ r']
    by (intro agree_stepI [OF assms(1), where h = "authorize_keys env r ev"])
      (auto simp: cur le_max_iff_disj)
qed (use assms parse_timestamp_not_Panic in \<open>auto simp: apply_authorize_bad_time\<close>)

lemma apply_create_fresh:
  assumes "parse_timestamp (cke_event_time ev) = Ok now"
    and "\<And>key. extract_key_from_cwt (le_crypto env) (cke_public_key ev) = Ok key \<Longrightarrow>
      bt_get (ls_per_key_ledgers (advance now s)) (ck_key_id key) = None"
  shows "fst (apply_create_key_event env s ev) = (advance now s)\<lparr>ls_per_key_ledgers :=
    created_keys env ev (\<lambda>_. True) (ls_per_key_ledgers (advance now s))\<rparr>"
  using assms
  by (cases "parse_timestamp (cke_expiration ev)";
      cases "extract_key_from_cwt (le_crypto env) (cke_public_key ev)";
      cases "kem_private_key_from_bytes (le_crypto env) (cke_private_key ev)")
    (auto simp: apply_create_key_event_def update_current_time_advance bt_contains_def created_keys_def)

lemma live_create:
  assumes "parse_timestamp (cke_event_time ev) = Ok now" "bt_wf (ls_per_key_ledgers s)" "now \<le> T"
    and "\<And>key. extract_key_from_cwt (le_crypto env) (cke_public_key ev) = Ok key \<Longrightarrow>
      bt_get (ls_per_key_ledgers (advance now s)) (ck_key_id key) = None"
  shows "live T (fst (apply_create_key_event env s ev)) = created_keys env ev (\<lambda>x. x > T) (live T s)"
proof -
  have "bt_wf (ls_per_key_ledgers (advance now s))"
    using assms(2) by (simp add: advance_def bt_wf_filter)
  then have "filter (\<lambda>e. pk_expiration (snd e) > T) (created_keys env ev (\<lambda>_. True) (ls_per_key_ledgers (advance now s))) =
      created_keys env ev (\<lambda>x. x > T) (filter (\<lambda>e. pk_expiration (snd e) > T) (ls_per_key_ledgers (advance now s)))"
    using assms(4) by (auto simp: created_keys_def filter_bt_insert split: result.split option.split)
  then show ?thesis
    using live_advance [OF assms(3), of s] by (simp add: apply_create_fresh [OF assms(1,4)] live_def)
qed

lemma agree_create:
  assumes "ledgers_agree s t" "bt_wf (ls_per_key_ledgers s)" "bt_wf (ls_per_key_ledgers t)"
    and fresh: "\<And>key now x. extract_key_from_cwt (le_crypto env) (cke_public_key ev) = Ok key \<Longrightarrow>
      parse_timestamp (cke_event_time ev) = Ok now \<Longrightarrow> x = s \<or> x = t \<Longrightarrow>
      bt_get (ls_per_key_ledgers (advance now x)) (ck_key_id key) = None"
  shows "ledgers_agree (fst (apply_create_key_event env s ev)) (fst (apply_create_key_event env t ev))"
proof (cases "parse_timestamp (cke_event_time ev)")
  case (Ok now)
  have cur: "ls_current_time (fst (apply_create_key_event env x ev)) = max now (ls_current_time x)"
    if "x = s \<or> x = t" for x
    using apply_create_fresh [OF Ok fresh [OF _ Ok that]] by simp
  show ?thesis
    using assms(2,3) live_create [OF Ok _ _ fresh [OF _ Ok]]
    by (intro agree_stepI [OF assms(1), where h = "created_keys env ev (\<lambda>x. x >
          max (ls_current_time (fst (apply_create_key_event env s ev))) (ls_current_time (fst (apply_create_key_event env t ev))))"])
      (auto simp: cur le_max_iff_disj)
qed (use assms parse_timestamp_not_Panic in \<open>auto simp: apply_create_bad_time\<close>)

lemma agree_delete:
  assumes "ledgers_agree s t" "bt_wf (ls_per_key_ledgers s)" "bt_wf (ls_per_key_ledgers t)"
  shows "ledgers_agree (fst (delete_key env s req)) (fst (delete_key env t req))"
proof (cases "extract_key_from_cwt (le_crypto env) (dkr_public_key req)")
  case (Ok key)
  show ?thesis
    using assms(2,3)
    by (intro agree_stepI [OF assms(1), where h = "bt_remove (ck_key_id key)"])
      (simp_all add: delete_key_effect [OF Ok] live_def filter_bt_remove)
qed (use assms in \<open>auto simp: delete_key_def\<close>)

lemma agree_revoke:
  assumes "ledgers_agree s t" "bt_wf (ls_per_key_ledgers s)" "bt_wf (ls_per_key_ledgers t)"
  shows "ledgers_agree (fst (revoke_access s req)) (fst (revoke_access t req))"
proof -
  have "live T (fst (revoke_access x req)) = modify_key (rar_key_id req)
      (\<lambda>e. e\<lparr>pk_budget_tracker := consume_budget (pk_budget_tracker e) (rar_blob_id req)\<rparr>) (live T x)"
    if "bt_wf (ls_per_key_ledgers x)" for x T
    using that by (simp add: revoke_access_effect live_def filter_modify_key)
  then show ?thesis
    using assms(2,3)
    by (intro agree_stepI [OF assms(1), where h = "modify_key (rar_key_id req)
          (\<lambda>e. e\<lparr>pk_budget_tracker := consume_budget (pk_budget_tracker e) (rar_blob_id req)\<rparr>)"])
      (simp_all add: revoke_access_effect)
qed

section \<open>The actor\<close>

text \<open>The change of the ledger by an event.\<close>

lemma ledger_step_effect:
  assumes "la_context s = Some ctx"
  shows "ledger_step env (c, r) s event = (case lae_decode_event env (ae_contents event) of
      Some (Some (EvAuthorizeAccess e)) \<Rightarrow>
        s\<lparr>la_ledger := fst (apply_authorize_access_event (lae_ledger env) r (la_ledger s) e)\<rparr>
    | Some (Some (EvCreateKey e)) \<Rightarrow> s\<lparr>la_ledger := fst (apply_create_key_event (lae_ledger env) (la_ledger s) e)\<rparr>
    | Some (Some (EvDeleteKey e)) \<Rightarrow> s\<lparr>la_ledger := fst (delete_key (lae_ledger env) (la_ledger s) e)\<rparr>
    | Some (Some (EvRevokeAccess e)) \<Rightarrow> s\<lparr>la_ledger := fst (revoke_access (la_ledger s) e)\<rparr>
    | _ \<Rightarrow> s)"
proof -
  have "fst (ledger_on_apply_event env r s c event) = fst (handle_event env r s c event)"
    by (simp add: ledger_on_apply_event_def split: prod.split result.split)
  then show ?thesis
    using assms
    by (auto simp: ledger_step_def handle_event_def on_ledger_def fst_try_st split: option.split ledger_event.split)
qed

lemma ledger_step_inv: "ledger_actor_inv env s \<Longrightarrow> ledger_actor_inv env (ledger_step env c s event)"
  by (cases c)
    (auto simp: ledger_actor_inv_def ledger_actor_laws_def ledger_step_effect apply_authorize_wf apply_create_wf
      delete_key_wf revoke_access_wf split: option.splits ledger_event.splits)

lemma ledger_step_agree:
  assumes "ledger_actor_inv env s" "ledger_actor_inv env t" "ledger_agree s t"
    and "no_collision env s event" "no_collision env t event"
  shows "ledger_agree (ledger_step env c s event) (ledger_step env d t event)"
proof -
  obtain cs ct where ctx: "la_context s = Some cs" "la_context t = Some ct"
    using assms(1,2) by (auto simp: ledger_actor_inv_def)
  have wf: "bt_wf (ls_per_key_ledgers (la_ledger s))" "bt_wf (ls_per_key_ledgers (la_ledger t))"
    and uniform: "seal_uniform (le_crypto (lae_ledger env))"
    using assms(1,2) by (auto simp: ledger_actor_inv_def ledger_actor_laws_def ledger_wf_bt)
  have agree: "ledgers_agree (la_ledger s) (la_ledger t)"
    using assms(3) by (simp add: ledger_agree_def)
  have create: "ledgers_agree (fst (apply_create_key_event (lae_ledger env) (la_ledger s) e))
      (fst (apply_create_key_event (lae_ledger env) (la_ledger t) e))"
    if "lae_decode_event env (ae_contents event) = Some (Some (EvCreateKey e))" for e
    using assms(4,5) that by (intro agree_create [OF agree wf]) (auto simp: no_collision_def)
  show ?thesis
    using agree create agree_authorize [OF agree wf uniform] agree_delete [OF agree wf] agree_revoke [OF agree wf]
    by (cases c; cases d)
      (auto simp: ledger_step_effect [OF ctx(1)] ledger_step_effect [OF ctx(2)] ledger_agree_def
        split: option.split ledger_event.split)
qed

lemma ledger_load_save:
  assumes "ledger_actor_inv env s" "ledger_actor_inv env t" "ledger_save env s = Some b"
  shows "\<exists>u. ledger_load env t b = Some u \<and> ledger_actor_inv env u \<and> ledger_agree s u"
proof -
  obtain snapshot where save: "save_ledger_snapshot (la_ledger s) = Ok snapshot" "b = lae_encode_snapshot env snapshot"
    using assms(3) by (auto simp: ledger_save_def ledger_on_save_snapshot_def result_simps split: result.splits option.splits)
  have "ledger_load env t b = Some (t\<lparr>la_ledger := (la_ledger s)\<lparr>ls_evidence := ls_evidence (la_ledger t)\<rparr>\<rparr>)"
    using assms(1,2) save ledger_snapshot_roundtrip [OF _ save(1)]
    by (auto simp: ledger_load_def ledger_on_load_snapshot_def ledger_actor_inv_def ledger_actor_laws_def on_ledger_def)
  then show ?thesis
    using assms(1,2) ledgers_agree_evidence
    by (auto simp: ledger_agree_def ledger_actor_inv_def ledger_wf_def)
qed

interpretation ledger_replica: replicated_actor
  "ledger_actor_inv env" ledger_agree "no_collision env" "ledger_step env" "ledger_save env" "ledger_load env"
  "\<lambda>_ _. True" for env
  by unfold_locales (auto intro: ledger_step_inv ledger_step_agree ledger_load_save)

section \<open>Witness actors\<close>

lemma codec_timestamp: "codec enc_timestamp dec_timestamp"
  unfolding enc_timestamp_def [abs_def] dec_timestamp_def by (intro codec_map codecs) simp

lemma codec_blob_budget_snapshot: "codec enc_blob_budget_snapshot dec_blob_budget_snapshot"
  unfolding enc_blob_budget_snapshot_def [abs_def] dec_blob_budget_snapshot_def by (intro codec_map codecs) simp

lemma codec_per_policy_snapshot: "codec enc_per_policy_snapshot dec_per_policy_snapshot"
  unfolding enc_per_policy_snapshot_def [abs_def] dec_per_policy_snapshot_def
  by (intro codec_map codecs codec_blob_budget_snapshot) simp

lemma codec_budget_snapshot: "codec enc_budget_snapshot dec_budget_snapshot"
  unfolding enc_budget_snapshot_def [abs_def] dec_budget_snapshot_def
  by (intro codec_map codecs codec_per_policy_snapshot) simp

lemma codec_per_key_snapshot: "codec enc_per_key_snapshot dec_per_key_snapshot"
  unfolding enc_per_key_snapshot_def [abs_def] dec_per_key_snapshot_def
  by (intro codec_map codecs codec_timestamp codec_budget_snapshot) simp

lemma codec_ledger_snapshot: "codec enc_ledger_snapshot dec_ledger_snapshot"
  unfolding enc_ledger_snapshot_def [abs_def] dec_ledger_snapshot_def
  by (intro codec_map codecs codec_timestamp codec_per_key_snapshot) simp

lemma demo_actor_laws: "ledger_actor_laws demo_actor_env"
  unfolding ledger_actor_laws_def
  by (simp add: demo_actor_env_def demo_private_key_law seal_uniform_def decode_all_encode codec_ledger_snapshot)
    (simp add: demo_env_def)

lemma demo_actor_inv: "ledger_wf demo_ledger_env s \<Longrightarrow> ledger_actor_inv demo_actor_env (demo_actor leader s)"
  by (simp add: ledger_actor_inv_def demo_actor_laws) (simp add: demo_actor_def demo_actor_env_def)

lemma process_command_state:
  assumes "ledger_on_process_command env draws rng s (Some cmd) = Some (s', r)"
  shows "\<exists>p. handle_command env draws rng s cmd = Some p \<and> fst p = s'"
proof -
  obtain p where p: "handle_command env draws rng s cmd = Some p"
    using assms by (auto simp: ledger_on_process_command_def)
  show ?thesis
    using assms p by (cases p; cases "snd p") (auto simp: ledger_on_process_command_def)
qed

text \<open>Handling a command changes at most the clock.\<close>

lemma handle_command_state:
  assumes "handle_command env draws rng s cmd = Some p"
  shows "fst p = s \<or> (\<exists>now. fst p = s\<lparr>la_ledger := advance now (la_ledger s)\<rparr>)"
proof (cases "la_context s"; cases "lae_decode_request env (ac_header cmd)")
  have state: "fst p = fst (the (handle_command env draws rng s cmd))"
    by (simp add: assms)
  fix ctx req assume ctx: "la_context s = Some ctx" and req: "lae_decode_request env (ac_header cmd) = Some req"
  show ?thesis
  proof (cases "ctx_leader ctx")
    case True
    note defs = handle_command_def ctx req True on_ledger_def
    show ?thesis
    proof (cases req)
      case (Some r)
      show ?thesis
      proof (cases r)
        case (ReqCreateKey x)
        then obtain q where q: "produce_create_key_event (lae_ledger env) draws rng (la_ledger s) x = Some q"
          using assms by (cases "produce_create_key_event (lae_ledger env) draws rng (la_ledger s) x") (simp_all add: defs Some)
        then have "fst p = s\<lparr>la_ledger := fst q\<rparr>"
          using ReqCreateKey by (simp add: state defs Some fst_try_st)
        then show ?thesis
          using q
          using produce_create_effect [of "lae_ledger env" draws rng "la_ledger s" x "fst q" "snd q"]
          by (auto split: result.splits)
      next
        case (ReqAuthorizeAccess x)
        then have "fst p = s\<lparr>la_ledger := fst (attest_and_produce_authorize_access_event (lae_ledger env) (la_ledger s) x)\<rparr>"
          by (simp add: state defs Some fst_try_st)
        then show ?thesis
          by (auto simp: produce_authorize_effect split: result.splits)
      qed (use assms in \<open>auto simp: defs Some\<close>)
    qed (use assms in \<open>auto simp: defs\<close>)
  qed (use assms ctx req in \<open>auto simp: handle_command_def\<close>)
qed (use assms in \<open>auto simp: handle_command_def split: option.splits\<close>)

section \<open>Properties\<close>

text \<open>
  Ledger replicas agree: two replicas that agree, on keys not expired at the later of their
  clocks, still agree after applying the same committed events, whoever owns the events and
  whatever randomness each replica draws, provided no applied creation event reuses a key id.
\<close>

theorem ledger_replicas_agree:
  assumes "ledger_actor_inv env s" "ledger_actor_inv env t" "ledger_agree s t" "map snd es = map snd fs"
    and "\<And>pre c e post. es = pre @ (c, e) # post \<Longrightarrow> no_collision env (fold (\<lambda>(c, e) s. ledger_step env c s e) pre s) e"
    and "\<And>pre c e post. fs = pre @ (c, e) # post \<Longrightarrow> no_collision env (fold (\<lambda>(c, e) s. ledger_step env c s e) pre t) e"
  shows "ledger_agree (fold (\<lambda>(c, e) s. ledger_step env c s e) es s) (fold (\<lambda>(c, e) s. ledger_step env c s e) fs t)"
  using assms by (rule ledger_replica.agree_run)

theorem ledger_replicas_agree_witness:
  "ledger_agree
     (ledger_step demo_actor_env (\<lparr> aec_index = 1, aec_owned = True \<rparr>, [1]) (demo_actor True (advance (Duration 20 0) demo_ledger))
       \<lparr> ae_correlation_id = 7, ae_contents = [2] \<rparr>)
     (ledger_step demo_actor_env (\<lparr> aec_index = 1, aec_owned = False \<rparr>, [2]) (demo_actor False demo_ledger)
       \<lparr> ae_correlation_id = 7, ae_contents = [2] \<rparr>)"
proof -
  have wf: "ledger_wf demo_ledger_env (advance (Duration 20 0) demo_ledger)"
    by (rule advance_wf [OF demo_ledger_wf]) (simp add: duration_wf_def)
  have no: "no_collision demo_actor_env x \<lparr> ae_correlation_id = 7, ae_contents = [2] \<rparr>" for x
    by (simp add: no_collision_def demo_actor_env_def)
  have agree: "ledger_agree (demo_actor True (advance (Duration 20 0) demo_ledger)) (demo_actor False demo_ledger)"
    by (simp add: ledger_agree_def demo_actor_def ledgers_agree_advance ledgers_agree_refl)
  show ?thesis
    using ledger_replicas_agree [OF demo_actor_inv [OF wf] demo_actor_inv [OF demo_ledger_wf] agree,
        of "[((\<lparr> aec_index = 1, aec_owned = True \<rparr>, [1]), \<lparr> ae_correlation_id = 7, ae_contents = [2] \<rparr>)]"
          "[((\<lparr> aec_index = 1, aec_owned = False \<rparr>, [2]), \<lparr> ae_correlation_id = 7, ae_contents = [2] \<rparr>)]"] no
    by (simp add: Cons_eq_append_conv)
qed

text \<open>
  Handling a command, which moves the clock of the leader before anything is committed and
  may fail afterwards, keeps the leader in agreement with every other replica.
\<close>

theorem ledger_command_keeps_agreement:
  assumes "ledger_agree s t" "ledger_on_process_command env draws rng s command = Some (s', r)"
  shows "ledger_agree s' t \<and> la_context s' = la_context s"
proof (cases command)
  case (Some cmd)
  then obtain p where p: "handle_command env draws rng s cmd = Some p" "fst p = s'"
    using assms(2) process_command_state by blast
  show ?thesis
    using handle_command_state [OF p(1)] p(2) assms(1) by (auto simp: ledger_agree_def ledgers_agree_advance)
qed (use assms in \<open>simp add: ledger_on_process_command_def\<close>)

theorem ledger_command_keeps_agreement_witness:
  "\<exists>s' r. ledger_on_process_command demo_actor_env [] [] (demo_actor True demo_ledger)
      (Some \<lparr> ac_correlation_id = 7, ac_header = [1], ac_payload = [] \<rparr>) = Some (s', r) \<and>
    ledger_agree s' (demo_actor False demo_ledger)"
proof -
  have "ledger_agree (demo_actor True demo_ledger) (demo_actor False demo_ledger)"
    by (simp add: ledger_agree_def demo_actor_def ledgers_agree_refl)
  moreover obtain s' r where "ledger_on_process_command demo_actor_env [] [] (demo_actor True demo_ledger)
      (Some \<lparr> ac_correlation_id = 7, ac_header = [1], ac_payload = [] \<rparr>) = Some (s', r)"
    by (simp add: ledger_on_process_command_def handle_command_def demo_actor_def demo_actor_env_def
        on_ledger_def demo_produce)
  ultimately show ?thesis
    using ledger_command_keeps_agreement by blast
qed

text \<open>
  Catching up: a replica that agreed with an earlier state of the leader can load the snapshot
  that the leader takes after more events, and then agrees with the leader.
\<close>

theorem ledger_snapshot_catch_up:
  assumes "ledger_actor_inv env s" "ledger_actor_inv env t" "ledger_agree s t"
    and "ledger_save env (fold (\<lambda>(c, e) s. ledger_step env c s e) es s) = Some b"
  shows "\<exists>u. ledger_load env t b = Some u \<and> ledger_actor_inv env u \<and>
    ledger_agree (fold (\<lambda>(c, e) s. ledger_step env c s e) es s) u"
  using assms by (rule ledger_replica.catch_up)

theorem ledger_snapshot_catch_up_witness:
  "\<exists>b u. ledger_save demo_actor_env (demo_actor True demo_ledger) = Some b \<and>
    ledger_load demo_actor_env (demo_actor False (ledger_create [1])) b = Some u \<and>
    ledger_agree (demo_actor True demo_ledger) u"
proof -
  define es where "es = [((\<lparr> aec_index = 1, aec_owned = True \<rparr>, [] :: bytes), \<lparr> ae_correlation_id = 7, ae_contents = [1] \<rparr>)]"
  have run: "fold (\<lambda>(c, e) s. ledger_step demo_actor_env c s e) es (demo_actor True (ledger_create [6])) = demo_actor True demo_ledger"
    by (simp add: es_def demo_actor_def ledger_step_effect) (simp add: demo_actor_env_def demo_create)
  obtain snapshot where "save_ledger_snapshot demo_ledger = Ok snapshot"
    using save_ledger_snapshot_Ok [OF demo_ledger_wf] by (auto simp: demo_ledger_def)
  then have save: "ledger_save demo_actor_env (demo_actor True demo_ledger) = Some (enc_ledger_snapshot snapshot)"
    by (simp add: ledger_save_def ledger_on_save_snapshot_def demo_actor_def demo_actor_env_def)
  have "ledger_agree (demo_actor True (ledger_create [6])) (demo_actor False (ledger_create [1]))"
    by (simp add: ledger_agree_def demo_actor_def ledgers_agree_def live_def ledger_create_def)
  from ledger_snapshot_catch_up [OF demo_actor_inv [OF ledger_wf_create] demo_actor_inv [OF ledger_wf_create] this,
      where es = es and b = "enc_ledger_snapshot snapshot"]
  show ?thesis
    using save by (auto simp: run)
qed

text \<open>
  Who answers: a replica that applies an event successfully sends exactly one response when
  it owns the event and nothing otherwise. A failed event is answered with an error by every
  replica, owner or not.
\<close>

theorem ledger_event_answers:
  "case handle_event env rng s context event of
     (s', Ok outcome) \<Rightarrow>
       ledger_on_apply_event env rng s context event = (s', Ok outcome) \<and>
       length (eo_commands outcome) = (if aec_owned context then 1 else 0)
   | (s', Err x) \<Rightarrow>
       ledger_on_apply_event env rng s context event =
         (s', Ok (EventOutcome [command_with_header (ae_correlation_id event)
            (lae_encode_response env (Some (response_with_error x)))]))
   | (s', Panic) \<Rightarrow> ledger_on_apply_event env rng s context event = (s', Panic)"
proof -
  have "length (eo_commands outcome) = (if aec_owned context then 1 else 0)"
    if "handle_event env rng s context event = (s', Ok outcome)" for s' outcome
    using that
    by (auto simp: handle_event_def result_simps event_outcome_with_none_def event_outcome_with_command_def
        split: option.splits if_splits)
  then show ?thesis
    by (auto simp: ledger_on_apply_event_def event_outcome_with_command_def split: prod.split result.split)
qed

text \<open>
  A replica that is not the leader answers every command with the error \<open>Aborted\<close> (or, if it
  cannot be parsed, \<open>InvalidArgument\<close>), proposes no event and does not change its state; a leader
  either proposes one event or sends one response, with the correlation id of the command.
\<close>

theorem ledger_command_outcome:
  assumes "la_context s = Some ctx" "ledger_on_process_command env draws rng s (Some command) = Some (s', Ok outcome)"
  shows "(\<exists>ev. outcome = outcome_with_event (event_with_bytes (ac_correlation_id command) ev) \<or>
          outcome = outcome_with_command (command_with_header (ac_correlation_id command) ev)) \<and>
    (\<not> ctx_leader ctx \<longrightarrow> s' = s \<and> co_event outcome = None \<and>
      (\<exists>x. co_commands outcome = [command_with_header (ac_correlation_id command)
          (lae_encode_response env (Some (response_with_error x)))] \<and> status_code x \<in> {Aborted, InvalidArgument}))"
proof -
  obtain p where p: "handle_command env draws rng s command = Some p"
    using assms(2) process_command_state by blast
  have ok: "\<exists>ev. o' = outcome_with_event (event_with_bytes (ac_correlation_id command) ev) \<and> ctx_leader ctx"
    if "p = (s'', Ok o')" for s'' o'
    using p assms(1) that
    by (auto simp: handle_command_def result_simps split: option.splits if_splits ledger_request.splits)
  have follower: "p = (s, Err x) \<and> status_code x \<in> {Aborted, InvalidArgument}"
    if "p = (s'', Err x)" "\<not> ctx_leader ctx" for s'' x
    using p assms(1) that by (auto simp: handle_command_def split: option.splits)
  show ?thesis
    using assms p ok follower
    by (cases p; cases "snd p") (auto simp: ledger_on_process_command_def outcome_with_command_def)
qed

theorem ledger_command_outcome_witness:
  "ledger_on_process_command demo_actor_env [] [] (demo_actor False demo_ledger)
      (Some \<lparr> ac_correlation_id = 7, ac_header = [1], ac_payload = [] \<rparr>) =
    Some (demo_actor False demo_ledger, Ok (outcome_with_command (command_with_header 7 []))) \<and>
   (\<exists>x. status_code x \<in> {Aborted, InvalidArgument} \<and>
     co_commands (outcome_with_command (command_with_header 7 [])) =
       [command_with_header 7 (lae_encode_response demo_actor_env (Some (response_with_error x)))])"
proof -
  have run: "ledger_on_process_command demo_actor_env [] [] (demo_actor False demo_ledger)
      (Some \<lparr> ac_correlation_id = 7, ac_header = [1], ac_payload = [] \<rparr>) =
    Some (demo_actor False demo_ledger, Ok (outcome_with_command (command_with_header 7 [])))"
    by (simp add: ledger_on_process_command_def handle_command_def demo_actor_def demo_actor_env_def)
  show ?thesis
    using ledger_command_outcome [OF _ run, of "\<lparr> ctx_id = 1, ctx_instant = 0, ctx_config = [], ctx_leader = False \<rparr>"] run
    by (auto simp: demo_actor_def)
qed

end
