(* ===== verification/Counter.thy ===== *)
theory Counter
  imports Actor Codec
begin

text \<open>
  Model of \<open>src/apps/atomic_counter/service/src/actor.rs\<close>: named counters with compare and
  swap, as a replicated actor. The messages are those of \<open>atomic_counter.proto\<close>, their codecs
  the parameter \<open>counter_env\<close>. The counters are a \<open>HashMap\<close>, whose iteration order is the order
  of the list; the snapshot message holds them in a \<open>BTreeMap\<close>.

  The abstract counter is the function from names to values and payloads, 0 with an empty
  payload for a name never used; compare and swap refines the operation on it.
\<close>

section \<open>Messages and state\<close>

record cas_request =
  cas_expected_value :: int
  cas_new_value :: int

record counter_request =
  creq_name :: string
  creq_op :: "cas_request option"
  creq_context :: bytes
  creq_payload :: bytes

datatype counter_status =
    CounterUnspecified | CounterSuccess | CounterRejected | CounterInvalidArgumentError | CounterInvalidOperationError

record cas_response =
  casr_old_value :: int
  casr_new_value :: int

record counter_response =
  cresp_status :: counter_status
  cresp_op :: "cas_response option"

record counter_value =
  cv_value :: int
  cv_payload :: bytes

type_synonym counter_snapshot = "(string, counter_value) btree"

record counter_env =
  ce_decode_in_message :: "bytes \<Rightarrow> counter_request option option"
  ce_encode_request :: "counter_request \<Rightarrow> bytes"
  ce_decode_request :: "bytes \<Rightarrow> counter_request option"
  ce_encode_out_message :: "counter_response option \<Rightarrow> bytes"
  ce_decode_config :: "bytes \<Rightarrow> (string, int) btree option"
  ce_encode_snapshot :: "counter_snapshot \<Rightarrow> bytes"
  ce_decode_snapshot :: "bytes \<Rightarrow> counter_snapshot option"

record counter_actor =
  ca_context :: "actor_context option"
  ca_values :: "(string, counter_value) hmap"

definition counter_new :: counter_actor where
  "counter_new = \<lparr> ca_context = None, ca_values = [] \<rparr>"

section \<open>Operations\<close>

definition apply_compare_and_swap ::
  "counter_actor \<Rightarrow> string \<Rightarrow> cas_request \<Rightarrow> bytes \<Rightarrow> counter_actor \<times> (counter_response, actor_error) result" where
  "apply_compare_and_swap self counter_name request payload =
     (case ca_context self of
        None \<Rightarrow> (self, Panic)
      | Some _ \<Rightarrow>
          (let existing = (case hm_get (ca_values self) counter_name of
                 Some v \<Rightarrow> v | None \<Rightarrow> \<lparr> cv_value = 0, cv_payload = [] \<rparr>)
           in if cv_value existing = cas_expected_value request
              then (self\<lparr>ca_values := hm_insert counter_name
                           \<lparr> cv_value = cas_new_value request, cv_payload = payload \<rparr> (ca_values self)\<rparr>,
                    Ok \<lparr> cresp_status = CounterSuccess,
                         cresp_op = Some \<lparr> casr_old_value = cv_value existing,
                                           casr_new_value = cas_new_value request \<rparr> \<rparr>)
              else (self\<lparr>ca_values := hm_insert counter_name existing (ca_values self)\<rparr>,
                    Ok \<lparr> cresp_status = CounterInvalidArgumentError,
                         cresp_op = Some \<lparr> casr_old_value = cv_value existing, casr_new_value = 0 \<rparr> \<rparr>)))"

definition counter_on_init ::
  "counter_env \<Rightarrow> counter_actor \<Rightarrow> actor_context \<Rightarrow> counter_actor \<times> (unit, actor_error) result" where
  "counter_on_init env self context =
     (let self = self\<lparr>ca_context := Some context, ca_values := []\<rparr> in
      lift_st self (ok_or ActorConfigLoading (ce_decode_config env (ctx_config context))) (\<lambda>initial_values.
        (self\<lparr>ca_values := fold (\<lambda>e. hm_insert (fst e) \<lparr> cv_value = snd e, cv_payload = [] \<rparr>)
                initial_values (ca_values self)\<rparr>, Ok ())))"

definition counter_on_save_snapshot ::
  "counter_env \<Rightarrow> counter_actor \<Rightarrow> (bytes, actor_error) result" where
  "counter_on_save_snapshot env self =
     (case ca_context self of
        None \<Rightarrow> Panic
      | Some _ \<Rightarrow> Ok (ce_encode_snapshot env (fold (\<lambda>e. bt_insert (fst e) (snd e)) (ca_values self) [])))"

definition counter_on_load_snapshot ::
  "counter_env \<Rightarrow> counter_actor \<Rightarrow> bytes \<Rightarrow> counter_actor \<times> (unit, actor_error) result" where
  "counter_on_load_snapshot env self snapshot =
     (case ca_context self of
        None \<Rightarrow> (self, Panic)
      | Some _ \<Rightarrow>
          lift_st self (ok_or ActorSnapshotLoading (ce_decode_snapshot env snapshot)) (\<lambda>values.
            (self\<lparr>ca_values := fold (\<lambda>e. hm_insert (fst e) (snd e)) values (ca_values self)\<rparr>, Ok ())))"

definition counter_on_process_command ::
  "counter_env \<Rightarrow> counter_actor \<Rightarrow> actor_command option \<Rightarrow> (command_outcome, actor_error) result" where
  "counter_on_process_command env self command =
     (case command of
        None \<Rightarrow> Ok outcome_with_none
      | Some command \<Rightarrow>
          (let respond = (\<lambda>status. Ok (outcome_with_command (command_with_header (ac_correlation_id command)
                 (ce_encode_out_message env (Some \<lparr> cresp_status = status, cresp_op = None \<rparr>))))) in
           case ce_decode_in_message env (ac_header command) of
             Some (Some request) \<Rightarrow>
               (case ca_context self of
                  None \<Rightarrow> Panic
                | Some context \<Rightarrow>
                    (if \<not> ctx_leader context then respond CounterRejected
                     else if creq_op request = None then respond CounterInvalidOperationError
                     else Ok (outcome_with_event (event_with_bytes (ac_correlation_id command)
                            (ce_encode_request env (request\<lparr>creq_context := []\<rparr>))))))
           | Some None \<Rightarrow> respond CounterInvalidOperationError
           | None \<Rightarrow> (case ca_context self of None \<Rightarrow> Panic | Some _ \<Rightarrow> respond CounterInvalidOperationError)))"

definition counter_on_apply_event ::
  "counter_env \<Rightarrow> counter_actor \<Rightarrow> actor_event_context \<Rightarrow> actor_event
   \<Rightarrow> counter_actor \<times> (event_outcome, actor_error) result" where
  "counter_on_apply_event env self context event =
     lift_st self (ok_or ActorInternal (ce_decode_request env (ae_contents event))) (\<lambda>request.
     lift_st self (unwrap (creq_op request)) (\<lambda>op.
     try_st (apply_compare_and_swap self (creq_name request) op (creq_payload request)) (\<lambda>self response.
       (self, Ok (if aec_owned context
                  then event_outcome_with_command (command_with_header (ae_correlation_id event)
                         (ce_encode_out_message env (Some response)))
                  else event_outcome_with_none)))))"

section \<open>Specification\<close>

text \<open>The abstract counters, and compare and swap on them with its response.\<close>

definition counters :: "counter_actor \<Rightarrow> string \<Rightarrow> counter_value" where
  "counters s name = (case hm_get (ca_values s) name of Some v \<Rightarrow> v | None \<Rightarrow> \<lparr> cv_value = 0, cv_payload = [] \<rparr>)"

definition spec_cas ::
  "string \<Rightarrow> cas_request \<Rightarrow> bytes \<Rightarrow> (string \<Rightarrow> counter_value) \<Rightarrow> (string \<Rightarrow> counter_value) \<times> bool \<times> int" where
  "spec_cas name request payload cs =
     (if cv_value (cs name) = cas_expected_value request
      then (cs(name := \<lparr> cv_value = cas_new_value request, cv_payload = payload \<rparr>), True, cv_value (cs name))
      else (cs, False, cv_value (cs name)))"

text \<open>
  Applying requests in order, with the success of each; and a chain of updates, each of which
  expects the value that the one before it wrote.
\<close>

fun cas_run :: "(string \<times> cas_request \<times> bytes) list \<Rightarrow> counter_actor \<Rightarrow> counter_actor \<times> bool list" where
  "cas_run [] s = (s, [])"
| "cas_run ((name, req, payload) # rs) s =
     (case apply_compare_and_swap s name req payload of
        (s', r) \<Rightarrow> (let (u, oks) = cas_run rs s' in
          (u, (case r of Ok resp \<Rightarrow> cresp_status resp = CounterSuccess | _ \<Rightarrow> False) # oks)))"

fun update_chain :: "int \<Rightarrow> cas_request list \<Rightarrow> int \<Rightarrow> bool" where
  "update_chain v [] w \<longleftrightarrow> v = w"
| "update_chain v (r # rs) w \<longleftrightarrow> cas_expected_value r = v \<and> update_chain (cas_new_value r) rs w"

definition successes :: "string \<Rightarrow> (string \<times> cas_request \<times> bytes) list \<Rightarrow> bool list \<Rightarrow> cas_request list" where
  "successes name rs oks = map (\<lambda>((_, req, _), _). req) (filter (\<lambda>((n, _, _), ok). ok \<and> n = name) (zip rs oks))"

definition counter_laws :: "counter_env \<Rightarrow> bool" where
  "counter_laws env \<longleftrightarrow> (\<forall>s. ce_decode_snapshot env (ce_encode_snapshot env s) = Some s)"

definition counter_inv :: "counter_env \<Rightarrow> counter_actor \<Rightarrow> bool" where
  "counter_inv env s \<longleftrightarrow> ca_context s \<noteq> None \<and> hm_wf (ca_values s) \<and> counter_laws env"

definition counter_agree :: "counter_actor \<Rightarrow> counter_actor \<Rightarrow> bool" where
  "counter_agree s t \<longleftrightarrow> hm_get (ca_values s) = hm_get (ca_values t)"

definition counter_lags :: "counter_actor \<Rightarrow> counter_actor \<Rightarrow> bool" where
  "counter_lags t s \<longleftrightarrow> dom (hm_get (ca_values t)) \<subseteq> dom (hm_get (ca_values s))"

definition counter_step :: "counter_env \<Rightarrow> actor_event_context \<Rightarrow> counter_actor \<Rightarrow> actor_event \<Rightarrow> counter_actor" where
  "counter_step env c s event = fst (counter_on_apply_event env s c event)"

definition counter_save :: "counter_env \<Rightarrow> counter_actor \<Rightarrow> bytes option" where
  "counter_save env s = (case counter_on_save_snapshot env s of Ok b \<Rightarrow> Some b | _ \<Rightarrow> None)"

definition counter_load :: "counter_env \<Rightarrow> counter_actor \<Rightarrow> bytes \<Rightarrow> counter_actor option" where
  "counter_load env s b = (case counter_on_load_snapshot env s b of (u, Ok _) \<Rightarrow> Some u | _ \<Rightarrow> None)"

text \<open>A concrete environment for the witnesses; the request 1 sets counter \<open>a\<close> from 0 to 5.\<close>

definition demo_counter_request :: counter_request where
  "demo_counter_request = \<lparr> creq_name = ''a'', creq_op = Some \<lparr> cas_expected_value = 0, cas_new_value = 5 \<rparr>,
     creq_context = [], creq_payload = [7] \<rparr>"

definition enc_int :: "int \<Rightarrow> bytes" where
  "enc_int i = enc_pair enc_nat enc_nat (nat i, nat (- i))"

definition dec_int :: "int parser" where
  "dec_int = dec_map (\<lambda>(p, n). int p - int n) (dec_pair dec_nat dec_nat)"

definition enc_counter_value :: "counter_value \<Rightarrow> bytes" where
  "enc_counter_value v = enc_pair enc_int enc_bytes (cv_value v, cv_payload v)"

definition dec_counter_value :: "counter_value parser" where
  "dec_counter_value = dec_map (\<lambda>(v, p). \<lparr> cv_value = v, cv_payload = p \<rparr>) (dec_pair dec_int dec_bytes)"

definition demo_counter_env :: counter_env where
  "demo_counter_env =
     \<lparr> ce_decode_in_message = (\<lambda>b. if b = [1] then Some (Some demo_counter_request) else None),
       ce_encode_request = (\<lambda>_. [1]),
       ce_decode_request = (\<lambda>b. if b = [1] then Some demo_counter_request else None),
       ce_encode_out_message = (\<lambda>_. []),
       ce_decode_config = (\<lambda>_. Some []),
       ce_encode_snapshot = enc_list (enc_pair enc_string enc_counter_value),
       ce_decode_snapshot = decode_all (dec_list (dec_pair dec_string dec_counter_value)) \<rparr>"

definition demo_counter :: counter_actor where
  "demo_counter = \<lparr> ca_context = Some \<lparr> ctx_id = 1, ctx_instant = 0, ctx_config = [], ctx_leader = True \<rparr>, ca_values = [] \<rparr>"

section \<open>Compare and swap\<close>

lemma apply_cas_values:
  assumes "ca_context s = Some ctx"
  shows "hm_get (ca_values (fst (apply_compare_and_swap s name req payload))) =
    (hm_get (ca_values s))(name \<mapsto>
      (if cv_value (counters s name) = cas_expected_value req
       then \<lparr> cv_value = cas_new_value req, cv_payload = payload \<rparr> else counters s name))"
  using assms by (auto simp: apply_compare_and_swap_def counters_def Let_def)

lemma compare_and_swap_spec:
  assumes "ca_context s \<noteq> None"
  shows "\<exists>s' r op. apply_compare_and_swap s name req payload = (s', Ok r) \<and> cresp_op r = Some op \<and>
    spec_cas name req payload (counters s) = (counters s', cresp_status r = CounterSuccess, casr_old_value op)"
  using assms
  by (auto simp: apply_compare_and_swap_def spec_cas_def counters_def fun_eq_iff Let_def split: option.split)

lemma apply_cas_context: "ca_context (fst (apply_compare_and_swap s name req payload)) = ca_context s"
  by (simp add: apply_compare_and_swap_def Let_def split: option.split)

lemma apply_cas_wf: "hm_wf (ca_values s) \<Longrightarrow> hm_wf (ca_values (fst (apply_compare_and_swap s name req payload)))"
  by (simp add: apply_compare_and_swap_def Let_def map_laws split: option.split)

lemma counters_agree: "counter_agree s t \<Longrightarrow> counters s = counters t"
  by (simp add: counter_agree_def counters_def fun_eq_iff)

lemma counter_agree_lags: "counter_agree s t \<Longrightarrow> counter_lags t s"
  by (simp add: counter_agree_def counter_lags_def)

lemma counter_step_effect:
  "counter_step env c s event = (case ce_decode_request env (ae_contents event) of
      Some r \<Rightarrow> (case creq_op r of
          Some op \<Rightarrow> fst (apply_compare_and_swap s (creq_name r) op (creq_payload r))
        | None \<Rightarrow> s)
    | None \<Rightarrow> s)"
  by (simp add: counter_step_def counter_on_apply_event_def fst_try_st split: option.split)

lemma counter_step_inv: "counter_inv env s \<Longrightarrow> counter_inv env (counter_step env c s event)"
  by (simp add: counter_inv_def counter_step_effect apply_cas_context apply_cas_wf split: option.split)

lemma counter_step_agree:
  assumes "counter_inv env s" "counter_inv env t" "counter_agree s t"
  shows "counter_agree (counter_step env c s event) (counter_step env d t event)"
  using assms counters_agree [OF assms(3)]
  by (auto simp: counter_inv_def counter_agree_def counter_step_effect apply_cas_values split: option.split)

lemma counter_lags_step:
  assumes "counter_inv env s" "counter_lags t s"
  shows "counter_lags t (counter_step env c s event)"
  using assms by (auto simp: counter_inv_def counter_lags_def counter_step_effect apply_cas_values split: option.split)

section \<open>Snapshots\<close>

lemma counter_save_def_wf:
  assumes "counter_save env s = Some b"
  shows "b = ce_encode_snapshot env (fold (\<lambda>e. bt_insert (fst e) (snd e)) (ca_values s) [])"
  using assms by (simp add: counter_save_def counter_on_save_snapshot_def split: option.splits)

lemma saved_values_get:
  assumes "hm_wf m"
  shows "bt_get (fold (\<lambda>e. bt_insert (fst e) (snd e)) m []) = hm_get m"
proof
  fix k
  have "map_of (rev m) = map_of m"
    using assms by (simp add: hm_wf_def map_of_inject_set rev_map [symmetric])
  then show "bt_get (fold (\<lambda>e. bt_insert (fst e) (snd e)) m []) k = hm_get m k"
    by (simp add: bt.put_all_get hm_get_def split: option.split)
qed

lemma loaded_values_get:
  assumes "hm_wf m" "bt_wf values"
  shows "hm_get (fold (\<lambda>e. hm_insert (fst e) (snd e)) values m) = hm_get m ++ bt_get values"
proof
  fix k
  have "map_of (rev values) = map_of values"
    using bt_wf_distinct [OF assms(2)] by (simp add: map_of_inject_set rev_map [symmetric])
  then show "hm_get (fold (\<lambda>e. hm_insert (fst e) (snd e)) values m) k = (hm_get m ++ bt_get values) k"
    by (simp add: hm.put_all_get assms(1) bt_get_def map_add_def split: option.split)
qed

lemma counter_load_save:
  assumes "counter_inv env s" "counter_inv env t" "counter_lags t s" "counter_save env s = Some b"
  shows "\<exists>u. counter_load env t b = Some u \<and> counter_inv env u \<and> counter_agree s u"
proof -
  define saved where "saved = fold (\<lambda>e. bt_insert (fst e) (snd e)) (ca_values s) []"
  define u where "u = t\<lparr>ca_values := fold (\<lambda>e. hm_insert (fst e) (snd e)) saved (ca_values t)\<rparr>"
  have wf: "hm_wf (ca_values s)" "hm_wf (ca_values t)" and ctx: "ca_context t \<noteq> None" and laws: "counter_laws env"
    using assms(1,2) by (auto simp: counter_inv_def)
  have "bt_wf saved"
    by (simp add: saved_def bt.put_all_wf)
  then have "hm_get (ca_values u) = hm_get (ca_values t) ++ hm_get (ca_values s)"
    by (simp add: u_def loaded_values_get wf) (simp add: saved_def saved_values_get wf)
  moreover have "hm_get (ca_values t) ++ hm_get (ca_values s) = hm_get (ca_values s)"
    using assms(3) by (auto simp: counter_lags_def map_add_def fun_eq_iff split: option.split)
  moreover have "counter_load env t b = Some u"
    using ctx laws counter_save_def_wf [OF assms(4)]
    by (auto simp: counter_load_def counter_on_load_snapshot_def counter_laws_def u_def saved_def)
  ultimately show ?thesis
    using ctx laws by (simp add: counter_inv_def counter_agree_def u_def hm.put_all_wf wf)
qed

interpretation counter_replica: replicated_actor
  "counter_inv env" counter_agree "\<lambda>_ _. True" "counter_step env" "counter_save env" "counter_load env"
  counter_lags for env
  by unfold_locales
    (rule counter_step_inv counter_step_agree counter_agree_lags counter_lags_step counter_load_save; assumption)+

section \<open>The witness actor\<close>

lemma codec_int: "codec enc_int dec_int"
  unfolding enc_int_def [abs_def] dec_int_def by (intro codec_map codecs) simp

lemma codec_counter_value: "codec enc_counter_value dec_counter_value"
  unfolding enc_counter_value_def [abs_def] dec_counter_value_def by (intro codec_map codecs codec_int) simp

lemma demo_counter_inv: "counter_inv demo_counter_env demo_counter"
proof -
  have "codec (enc_list (enc_pair enc_string enc_counter_value)) (dec_list (dec_pair dec_string dec_counter_value))"
    by (intro codecs codec_counter_value)
  then show ?thesis
    by (simp add: counter_inv_def counter_laws_def demo_counter_env_def decode_all_encode demo_counter_def hm_wf_def)
qed

section \<open>Properties\<close>

text \<open>
  Compare and swap refines the atomic operation on the abstract counters: on an initialized
  actor it always answers, it updates the named counter exactly when the expected value is the
  current one, the other counters keep their values, and the answer reports the old value.
\<close>

theorem compare_and_swap_refines:
  assumes "ca_context s = Some ctx"
  shows "\<exists>s' r op. apply_compare_and_swap s name req payload = (s', Ok r) \<and> cresp_op r = Some op \<and>
    spec_cas name req payload (counters s) =
      (counters s', cresp_status r = CounterSuccess, casr_old_value op)"
  using assms by (intro compare_and_swap_spec) simp

theorem compare_and_swap_refines_witness:
  "\<exists>s' r op. apply_compare_and_swap demo_counter ''a'' \<lparr> cas_expected_value = 0, cas_new_value = 5 \<rparr> [7] = (s', Ok r) \<and>
    cresp_op r = Some op \<and> cv_value (counters s' ''a'') = 5 \<and> casr_old_value op = 0"
proof -
  have "ca_context demo_counter = Some \<lparr> ctx_id = 1, ctx_instant = 0, ctx_config = [], ctx_leader = True \<rparr>"
    and zero: "counters demo_counter ''a'' = \<lparr> cv_value = 0, cv_payload = [] \<rparr>"
    by (simp_all add: demo_counter_def counters_def hm_get_def)
  from compare_and_swap_refines [OF this(1), of "''a''" "\<lparr> cas_expected_value = 0, cas_new_value = 5 \<rparr>" "[7]"]
  obtain s' r op where "apply_compare_and_swap demo_counter ''a'' \<lparr> cas_expected_value = 0, cas_new_value = 5 \<rparr> [7] = (s', Ok r)"
    "cresp_op r = Some op"
    "spec_cas ''a'' \<lparr> cas_expected_value = 0, cas_new_value = 5 \<rparr> [7] (counters demo_counter) =
      (counters s', cresp_status r = CounterSuccess, casr_old_value op)"
    by (elim exE conjE) (rule that)
  then show ?thesis
    by (auto simp: spec_cas_def zero dest: sym [where t = "counters s'"])
qed

text \<open>
  No update is lost: in any sequence of requests, on any mix of counters, the successful ones
  on a counter form a chain from its first to its last value, in which each request expects
  exactly the value its predecessor wrote.
\<close>

theorem successful_updates_chain:
  assumes "ca_context s \<noteq> None" "cas_run rs s = (s', oks)"
  shows "length oks = length rs \<and>
    update_chain (cv_value (counters s name)) (successes name rs oks) (cv_value (counters s' name))"
  using assms
proof (induction rs arbitrary: s oks)
  case (Cons x rs)
  obtain n req payload where x: "x = (n, req, payload)" by (cases x)
  obtain t r and op :: cas_response where step: "apply_compare_and_swap s n req payload = (t, Ok r)"
    and spec: "spec_cas n req payload (counters s) = (counters t, cresp_status r = CounterSuccess, casr_old_value op)"
    using compare_and_swap_spec [OF Cons.prems(1), of n req payload] by (elim exE conjE) (rule that)
  obtain oks' where run: "cas_run rs t = (s', oks')" and oks: "oks = (cresp_status r = CounterSuccess) # oks'"
    using Cons.prems(2) by (auto simp: x step split: prod.splits)
  have "ca_context t \<noteq> None"
    using Cons.prems(1) apply_cas_context [of s n req payload] by (simp add: step)
  moreover have "counters t name = (if cresp_status r = CounterSuccess \<and> n = name
        then \<lparr> cv_value = cas_new_value req, cv_payload = payload \<rparr> else counters s name)"
    and "cresp_status r = CounterSuccess \<longleftrightarrow> cas_expected_value req = cv_value (counters s n)"
    using spec by (auto simp: spec_cas_def split: if_splits dest: sym [where t = "counters t"])
  ultimately show ?case
    using Cons.IH [OF _ run] by (auto simp: oks x successes_def split: if_splits)
qed (simp add: successes_def)

theorem successful_updates_chain_witness:
  "\<exists>s'. cas_run [(''a'', \<lparr> cas_expected_value = 0, cas_new_value = 5 \<rparr>, []), (''a'', \<lparr> cas_expected_value = 0, cas_new_value = 6 \<rparr>, [])]
      demo_counter = (s', [True, False]) \<and> cv_value (counters s' ''a'') = 5"
proof -
  let ?rs = "[(''a'', \<lparr> cas_expected_value = 0, cas_new_value = 5 \<rparr>, []), (''a'', \<lparr> cas_expected_value = 0, cas_new_value = 6 \<rparr>, [])]"
  obtain s' where run: "cas_run ?rs demo_counter = (s', [True, False])"
    by (simp add: apply_compare_and_swap_def demo_counter_def Let_def hm_get_def hm_insert_def)
  then show ?thesis
    using successful_updates_chain [OF _ run, of "''a''"] by (simp add: demo_counter_def successes_def)
qed

text \<open>
  Counter replicas agree: two replicas with the same counters still have the same counters
  after applying the same committed events, whoever owns them, also when an event is undecodable
  or has no operation.
\<close>

theorem counter_replicas_agree:
  assumes "counter_inv env s" "counter_inv env t" "counter_agree s t" "map snd es = map snd fs"
  shows "counter_agree (fold (\<lambda>(c, e) s. counter_step env c s e) es s) (fold (\<lambda>(c, e) s. counter_step env c s e) fs t)"
  by (rule counter_replica.agree_run [OF assms]) simp_all

theorem counter_replicas_agree_witness:
  "counter_agree
     (counter_step demo_counter_env \<lparr> aec_index = 1, aec_owned = True \<rparr> demo_counter \<lparr> ae_correlation_id = 7, ae_contents = [1] \<rparr>)
     (counter_step demo_counter_env \<lparr> aec_index = 1, aec_owned = False \<rparr> demo_counter \<lparr> ae_correlation_id = 7, ae_contents = [1] \<rparr>)"
  using counter_replicas_agree [OF demo_counter_inv demo_counter_inv,
      of "[(\<lparr> aec_index = 1, aec_owned = True \<rparr>, \<lparr> ae_correlation_id = 7, ae_contents = [1] \<rparr>)]"
        "[(\<lparr> aec_index = 1, aec_owned = False \<rparr>, \<lparr> ae_correlation_id = 7, ae_contents = [1] \<rparr>)]"]
  by (simp add: counter_agree_def)

text \<open>
  Catching up: a replica that agreed with an earlier state of another one loads the snapshot
  that the other takes after more events, and then agrees with it, although loading does not
  clear the counters it had.
\<close>

theorem counter_snapshot_catch_up:
  assumes "counter_inv env s" "counter_inv env t" "counter_agree s t"
    and "counter_save env (fold (\<lambda>(c, e) s. counter_step env c s e) es s) = Some b"
  shows "\<exists>u. counter_load env t b = Some u \<and> counter_inv env u \<and>
    counter_agree (fold (\<lambda>(c, e) s. counter_step env c s e) es s) u"
  using assms by (rule counter_replica.catch_up)

theorem counter_snapshot_catch_up_witness:
  "\<exists>b u. counter_save demo_counter_env (counter_step demo_counter_env \<lparr> aec_index = 1, aec_owned = True \<rparr> demo_counter
      \<lparr> ae_correlation_id = 7, ae_contents = [1] \<rparr>) = Some b \<and>
    counter_load demo_counter_env demo_counter b = Some u \<and> cv_value (counters u ''a'') = 5"
proof -
  let ?s = "counter_step demo_counter_env \<lparr> aec_index = 1, aec_owned = True \<rparr> demo_counter \<lparr> ae_correlation_id = 7, ae_contents = [1] \<rparr>"
  obtain b where b: "counter_save demo_counter_env ?s = Some b"
    by (simp add: counter_save_def counter_on_save_snapshot_def counter_step_effect demo_counter_env_def
        demo_counter_request_def apply_compare_and_swap_def demo_counter_def hm_get_def)
  have five: "cv_value (counters ?s ''a'') = 5"
    by (simp add: counter_step_effect counters_def demo_counter_env_def demo_counter_request_def
        apply_compare_and_swap_def demo_counter_def hm_get_def hm_insert_def)
  obtain u where "counter_load demo_counter_env demo_counter b = Some u" "counter_agree ?s u"
    using counter_snapshot_catch_up [OF demo_counter_inv demo_counter_inv,
        of "[(\<lparr> aec_index = 1, aec_owned = True \<rparr>, \<lparr> ae_correlation_id = 7, ae_contents = [1] \<rparr>)]" b] b
    by (auto simp: counter_agree_def)
  then show ?thesis
    using b five counters_agree by metis
qed

end
