(* ===== verification/TabletStore.thy ===== *)
theory TabletStore
  imports Actor Codec
begin

text \<open>
  Model of \<open>src/apps/tablet_store/service/src/actor.rs\<close>: tables of tablets placed on a ring of
  32-bit key hashes, with transactions of tablet operations, as a replicated actor. The messages
  are those of \<open>tablet_store.proto\<close>, their codecs the parameter \<open>store_env\<close>. The branches
  \<open>todo!()\<close> of the code are \<open>Panic\<close>; the version increment wraps, as in a release build.

  The lemmas show that listing returns exactly the owners of the hashes in a range, that a
  transaction is all or nothing and increments versions, and that replicas agree.
\<close>

section \<open>Messages and state\<close>

record tablet_metadata =
  tablet_id :: u32
  tablet_version :: u32
  tablet_deleted :: bool
  blob_encryption_key :: bytes
  blob_size :: u32
  blob_hash :: bytes
  blob_uri :: string

record table_config =
  tc_table_name :: string
  tc_max_tablet_size :: u32
  tc_min_tablet_size :: u32
  tc_initial_tablet_count :: u32

datatype tablet_op_kind =
    OpListTablet u32 u32
  | OpCheckTablet u32 u32
  | OpAddTablet "tablet_metadata option"
  | OpUpdateTablet "tablet_metadata option"
  | OpRemoveTablet u32 u32

record tablet_op =
  to_table_name :: string
  to_op :: "tablet_op_kind option"

datatype tablet_op_result_kind =
    ListTabletResult u32 u32 "tablet_metadata list"
  | CheckTabletResult "tablet_metadata option"
  | AddTabletResult "tablet_metadata option"
  | UpdateTabletResult "tablet_metadata option"
  | RemoveTabletResult "tablet_metadata option"

datatype tablet_op_status = OpSucceeded | OpFailed | OpInvalid

record tablet_op_result =
  tor_table_name :: string
  tor_status :: tablet_op_status
  tor_op_result :: "tablet_op_result_kind option"

datatype tablets_request_status = RequestSucceeded | RequestFailed

record tablets_response =
  tr_status :: tablets_request_status
  tr_results :: "tablet_op_result list"

datatype execute_status = ExecuteRejected | ExecuteInvalidOperation

datatype store_out_msg = ExecuteTabletOpsResponse | ExecuteTabletOpsError execute_status string

type_synonym table_snapshot = "string \<times> tablet_metadata list"

record table_metadata =
  tm_config :: table_config
  tm_tablets :: "(u32, tablet_metadata) btree"

record store_actor =
  sa_context :: "actor_context option"
  sa_config :: "table_config list"
  sa_tables :: "(string, table_metadata) hmap"

record store_env =
  se_decode_config :: "bytes \<Rightarrow> table_config list option"
  se_decode_in_message :: "bytes \<Rightarrow> (unit option, string) result"
  se_decode_request :: "bytes \<Rightarrow> (tablet_op list, string) result"
  se_encode_response :: "tablets_response \<Rightarrow> bytes"
  se_encode_out_message :: "store_out_msg \<Rightarrow> bytes"
  se_encode_snapshot :: "table_snapshot list \<Rightarrow> bytes"
  se_decode_snapshot :: "bytes \<Rightarrow> table_snapshot list option"

definition default_tablet :: "u32 \<Rightarrow> tablet_metadata" where
  "default_tablet i = \<lparr> tablet_id = i, tablet_version = 0, tablet_deleted = False, blob_encryption_key = [],
     blob_size = 0, blob_hash = [], blob_uri = [] \<rparr>"

section \<open>Tables\<close>

text \<open>
  The configurator draws random ids until it has enough different ones; the draws are an
  argument, and \<open>None\<close> means that they ran out.
\<close>

fun draw_tablet_ids :: "nat \<Rightarrow> u32 list \<Rightarrow> u32 list \<Rightarrow> (u32 list \<times> u32 list) option" where
  "draw_tablet_ids count ids draws =
     (if length ids < count
      then (case draws of [] \<Rightarrow> None
            | d # draws' \<Rightarrow> draw_tablet_ids count (List.insert d ids) draws')
      else Some (ids, draws))"

definition generate :: "u32 \<Rightarrow> u32 list \<Rightarrow> (u32 list \<times> u32 list) option" where
  "generate initial_tablet_count draws = draw_tablet_ids (unat initial_tablet_count) [] draws"

definition table_create :: "table_config \<Rightarrow> u32 list \<Rightarrow> table_metadata" where
  "table_create config configured_tablets =
     \<lparr> tm_config = config, tm_tablets = fold (\<lambda>i. bt_insert i (default_tablet i)) configured_tablets [] \<rparr>"

definition table_load_snapshot :: "table_metadata \<Rightarrow> tablet_metadata list \<Rightarrow> table_metadata" where
  "table_load_snapshot self table_tablets =
     self\<lparr>tm_tablets := fold (\<lambda>t. bt_insert (tablet_id t) t) table_tablets []\<rparr>"

definition table_save_snapshot :: "table_metadata \<Rightarrow> table_snapshot" where
  "table_save_snapshot self = (tc_table_name (tm_config self), sort_key tablet_id (map snd (tm_tablets self)))"

text \<open>One interval of \<open>find_tablets\<close>: the walk over the tablets from its start.\<close>

fun walk_tablets :: "u32 \<Rightarrow> (u32, tablet_metadata) btree \<Rightarrow> u32 set \<times> tablet_metadata list
    \<Rightarrow> (u32 set \<times> tablet_metadata list) \<times> bool" where
  "walk_tablets key_hash_to [] acc = (acc, False)"
| "walk_tablets key_hash_to ((i, t) # rest) (seen, listed) =
     (let acc = (if i \<in> seen then (seen, listed) else (insert i seen, listed @ [t])) in
      if i \<ge> key_hash_to then (acc, True) else walk_tablets key_hash_to rest acc)"

definition find_interval :: "(u32, tablet_metadata) btree \<Rightarrow> u32 \<times> u32
    \<Rightarrow> u32 set \<times> tablet_metadata list \<Rightarrow> u32 set \<times> tablet_metadata list" where
  "find_interval tablets interval acc =
     (case walk_tablets (snd interval) (filter (\<lambda>e. fst e \<ge> fst interval) tablets) acc of
        (acc, True) \<Rightarrow> acc
      | ((seen, listed), False) \<Rightarrow>
          (case tablets of
             [] \<Rightarrow> (seen, listed)
           | (i, t) # _ \<Rightarrow> if i \<in> seen then (seen, listed) else (insert i seen, listed @ [t])))"

definition find_tablets :: "table_metadata \<Rightarrow> u32 \<Rightarrow> u32 \<Rightarrow> tablet_metadata list" where
  "find_tablets self key_hash_from key_hash_to =
     (let key_hash_intervals =
        (if key_hash_from < key_hash_to then [(key_hash_from, key_hash_to)]
         else [(key_hash_from, - 1), (0, key_hash_to)])
      in snd (fold (find_interval (tm_tablets self)) key_hash_intervals ({}, [])))"

definition table_prepare_op :: "table_metadata \<Rightarrow> string \<Rightarrow> tablet_op_kind \<Rightarrow> (tablet_op_result, actor_error) result" where
  "table_prepare_op self table_name op =
     (case op of
        OpListTablet from to \<Rightarrow>
          Ok \<lparr> tor_table_name = table_name, tor_status = OpSucceeded,
               tor_op_result = Some (ListTabletResult from to (find_tablets self from to)) \<rparr>
      | OpCheckTablet i version \<Rightarrow>
          (case bt_get (tm_tablets self) i of
             Some existing \<Rightarrow>
               if tablet_version existing = version
               then Ok \<lparr> tor_table_name = table_name, tor_status = OpSucceeded, tor_op_result = Some (CheckTabletResult None) \<rparr>
               else Ok \<lparr> tor_table_name = table_name, tor_status = OpFailed, tor_op_result = Some (CheckTabletResult (Some existing)) \<rparr>
           | None \<Rightarrow> Ok \<lparr> tor_table_name = table_name, tor_status = OpFailed, tor_op_result = Some (CheckTabletResult None) \<rparr>)
      | OpUpdateTablet tablet \<Rightarrow>
          (case tablet of
             Some updated \<Rightarrow>
               (case bt_get (tm_tablets self) (tablet_id updated) of
                  Some existing \<Rightarrow>
                    Ok \<lparr> tor_table_name = table_name,
                         tor_status = (if tablet_version updated = tablet_version existing + 1 then OpSucceeded else OpFailed),
                         tor_op_result = Some (UpdateTabletResult (Some existing)) \<rparr>
                | None \<Rightarrow> Ok \<lparr> tor_table_name = table_name, tor_status = OpFailed, tor_op_result = Some (UpdateTabletResult None) \<rparr>)
           | None \<Rightarrow> Ok \<lparr> tor_table_name = table_name, tor_status = OpFailed, tor_op_result = Some (UpdateTabletResult None) \<rparr>)
      | OpAddTablet _ \<Rightarrow> Panic
      | OpRemoveTablet _ _ \<Rightarrow> Panic)"

definition table_commit_op ::
  "table_metadata \<Rightarrow> tablet_op_kind \<Rightarrow> tablet_op_result \<Rightarrow> table_metadata \<times> (tablet_op_result, actor_error) result" where
  "table_commit_op self op prepared =
     (let finish = and_then (unwrap (tor_op_result prepared)) (\<lambda>r. Ok (prepared\<lparr>tor_op_result := Some r\<rparr>)) in
      case op of
        OpListTablet _ _ \<Rightarrow> (self, finish)
      | OpCheckTablet _ _ \<Rightarrow> (self, finish)
      | OpUpdateTablet tablet \<Rightarrow>
          lift_st self (unwrap tablet) (\<lambda>updated.
            (self\<lparr>tm_tablets := bt_insert (tablet_id updated) updated (tm_tablets self)\<rparr>, finish))
      | OpAddTablet _ \<Rightarrow> (self, Panic)
      | OpRemoveTablet _ _ \<Rightarrow> (self, Panic))"

section \<open>The actor\<close>

definition store_new :: store_actor where
  "store_new = \<lparr> sa_context = None, sa_config = [], sa_tables = [] \<rparr>"

definition store_prepare_op :: "store_actor \<Rightarrow> tablet_op \<Rightarrow> (tablet_op_result, actor_error) result" where
  "store_prepare_op self op =
     (case (hm_get (sa_tables self) (to_table_name op), to_op op) of
        (Some table, Some kind) \<Rightarrow> table_prepare_op table (to_table_name op) kind
      | _ \<Rightarrow> Ok \<lparr> tor_table_name = to_table_name op, tor_status = OpInvalid, tor_op_result = None \<rparr>)"

definition store_commit_op ::
  "store_actor \<Rightarrow> tablet_op \<Rightarrow> tablet_op_result \<Rightarrow> store_actor \<times> (tablet_op_result, actor_error) result" where
  "store_commit_op self op prepared =
     lift_st self (unwrap (hm_get (sa_tables self) (to_table_name op))) (\<lambda>table.
     lift_st self (unwrap (to_op op)) (\<lambda>kind.
       case table_commit_op table kind prepared of
         (table', r) \<Rightarrow> (self\<lparr>sa_tables := hm_insert (to_table_name op) table' (sa_tables self)\<rparr>, r)))"

fun prepare_all :: "store_actor \<Rightarrow> tablet_op list \<Rightarrow> (tablet_op_result list, actor_error) result" where
  "prepare_all self [] = Ok []"
| "prepare_all self (op # ops) =
     and_then (store_prepare_op self op) (\<lambda>r. and_then (prepare_all self ops) (\<lambda>rs. Ok (r # rs)))"

fun commit_all ::
  "(tablet_op \<times> tablet_op_result) list \<Rightarrow> store_actor \<Rightarrow> store_actor \<times> (tablet_op_result list, actor_error) result" where
  "commit_all [] self = (self, Ok [])"
| "commit_all ((op, prepared) # rest) self =
     try_st (store_commit_op self op prepared) (\<lambda>self r.
     try_st (commit_all rest self) (\<lambda>self rs. (self, Ok (r # rs))))"

definition on_apply_tablets_request ::
  "store_actor \<Rightarrow> tablet_op list \<Rightarrow> store_actor \<times> (tablets_response, actor_error) result" where
  "on_apply_tablets_request self tablet_ops =
     lift_st self (prepare_all self tablet_ops) (\<lambda>prepared.
       if list_all (\<lambda>r. tor_status r = OpSucceeded) prepared
       then try_st (commit_all (zip tablet_ops prepared) self) (\<lambda>self results.
              (self, Ok \<lparr> tr_status = RequestSucceeded, tr_results = results \<rparr>))
       else (self, Ok \<lparr> tr_status = RequestFailed, tr_results = prepared \<rparr>))"

fun create_tables ::
  "table_config list \<Rightarrow> u32 list \<Rightarrow> (string, table_metadata) hmap \<Rightarrow> (string, table_metadata) hmap option" where
  "create_tables [] draws tables = Some tables"
| "create_tables (c # cs) draws tables =
     (case generate (tc_initial_tablet_count c) draws of
        None \<Rightarrow> None
      | Some (ids, draws') \<Rightarrow> create_tables cs draws' (hm_insert (tc_table_name c) (table_create c ids) tables))"

definition store_on_init ::
  "store_env \<Rightarrow> u32 list \<Rightarrow> store_actor \<Rightarrow> actor_context \<Rightarrow> (store_actor \<times> (unit, actor_error) result) option" where
  "store_on_init env draws self context =
     (let self = self\<lparr>sa_context := Some context\<rparr> in
      case se_decode_config env (ctx_config context) of
        None \<Rightarrow> Some (self, Err ActorConfigLoading)
      | Some config \<Rightarrow>
          (case create_tables config draws (sa_tables self) of
             None \<Rightarrow> None
           | Some tables \<Rightarrow> Some (self\<lparr>sa_config := config, sa_tables := tables\<rparr>, Ok ())))"

definition store_on_save_snapshot :: "store_env \<Rightarrow> store_actor \<Rightarrow> (bytes, actor_error) result" where
  "store_on_save_snapshot env self =
     (case sa_context self of
        None \<Rightarrow> Panic
      | Some _ \<Rightarrow> Ok (se_encode_snapshot env (map (\<lambda>e. table_save_snapshot (snd e)) (sa_tables self))))"

fun load_tables :: "table_snapshot list \<Rightarrow> (string, table_metadata) hmap
    \<Rightarrow> (string, table_metadata) hmap \<times> (unit, actor_error) result" where
  "load_tables [] tables = (tables, Ok ())"
| "load_tables ((name, table_tablets) # rest) tables =
     lift_st tables (ok_or ActorSnapshotLoading (hm_get tables name)) (\<lambda>table.
       load_tables rest (hm_insert name (table_load_snapshot table table_tablets) tables))"

definition store_on_load_snapshot ::
  "store_env \<Rightarrow> store_actor \<Rightarrow> bytes \<Rightarrow> store_actor \<times> (unit, actor_error) result" where
  "store_on_load_snapshot env self snapshot =
     (case sa_context self of
        None \<Rightarrow> (self, Panic)
      | Some _ \<Rightarrow>
          lift_st self (ok_or ActorSnapshotLoading (se_decode_snapshot env snapshot)) (\<lambda>snapshots.
            case load_tables snapshots (sa_tables self) of
              (tables, r) \<Rightarrow> (self\<lparr>sa_tables := tables\<rparr>, r)))"

definition create_error_outcome ::
  "store_env \<Rightarrow> store_actor \<Rightarrow> string \<Rightarrow> nat \<Rightarrow> execute_status \<Rightarrow> (command_outcome, actor_error) result" where
  "create_error_outcome env self diagnostic_message correlation_id status =
     (case sa_context self of
        None \<Rightarrow> Panic
      | Some _ \<Rightarrow> Ok (outcome_with_command (command_with_header correlation_id
          (se_encode_out_message env (ExecuteTabletOpsError status diagnostic_message)))))"

definition create_success_outcome ::
  "store_env \<Rightarrow> bool \<Rightarrow> nat \<Rightarrow> store_out_msg \<Rightarrow> bytes \<Rightarrow> event_outcome" where
  "create_success_outcome env owned correlation_id out_header out_payload =
     event_outcome_with_commands
       (if owned then [command_with_header_and_payload correlation_id (se_encode_out_message env out_header) out_payload]
        else [])"

definition store_on_process_command ::
  "store_env \<Rightarrow> store_actor \<Rightarrow> actor_command option \<Rightarrow> (command_outcome, actor_error) result" where
  "store_on_process_command env self command =
     (case command of
        None \<Rightarrow> Ok outcome_with_none
      | Some command \<Rightarrow>
          and_then (unwrap (sa_context self)) (\<lambda>context.
            if \<not> ctx_leader context
            then create_error_outcome env self ''Rejecting command: not a leader'' (ac_correlation_id command) ExecuteRejected
            else (case se_decode_in_message env (ac_header command) of
                Panic \<Rightarrow> Panic
              | Err e \<Rightarrow> create_error_outcome env self (''Rejecting command: '' @ e) (ac_correlation_id command) ExecuteInvalidOperation
              | Ok None \<Rightarrow> create_error_outcome env self ''Rejecting command: message is not set''
                    (ac_correlation_id command) ExecuteInvalidOperation
              | Ok (Some _) \<Rightarrow>
                  (case se_decode_request env (ac_payload command) of
                     Panic \<Rightarrow> Panic
                   | Err e \<Rightarrow> create_error_outcome env self (''Rejecting command: '' @ e) (ac_correlation_id command) ExecuteInvalidOperation
                   | Ok _ \<Rightarrow> Ok (outcome_with_event (event_with_bytes (ac_correlation_id command) (ac_payload command)))))))"

definition store_on_apply_event ::
  "store_env \<Rightarrow> store_actor \<Rightarrow> actor_event_context \<Rightarrow> actor_event
   \<Rightarrow> store_actor \<times> (event_outcome, actor_error) result" where
  "store_on_apply_event env self context event =
     lift_st self (map_err (\<lambda>_. ActorInternal) (se_decode_request env (ae_contents event))) (\<lambda>tablets_request.
     try_st (on_apply_tablets_request self tablets_request) (\<lambda>self response.
       (self, Ok (create_success_outcome env (aec_owned context) (ae_correlation_id event)
                    ExecuteTabletOpsResponse (se_encode_response env response)))))"

section \<open>Specification\<close>

text \<open>
  The owner of a key hash is the first tablet at or after it on the ring, clockwise, with the
  first tablet of all after the last one. A range of hashes wraps around zero when its start is
  not below its end.
\<close>

definition ring_owner :: "(u32, tablet_metadata) btree \<Rightarrow> u32 \<Rightarrow> (u32 \<times> tablet_metadata) option" where
  "ring_owner tablets h =
     (case filter (\<lambda>e. fst e \<ge> h) tablets of
        e # _ \<Rightarrow> Some e
      | [] \<Rightarrow> (case tablets of e # _ \<Rightarrow> Some e | [] \<Rightarrow> None))"

definition ring_range :: "u32 \<Rightarrow> u32 \<Rightarrow> u32 set" where
  "ring_range from to = (if from < to then {from..to} else {from..} \<union> {..to})"

definition table_wf :: "table_metadata \<Rightarrow> bool" where
  "table_wf table \<longleftrightarrow> bt_wf (tm_tablets table) \<and> list_all (\<lambda>e. tablet_id (snd e) = fst e) (tm_tablets table)"

definition store_wf :: "store_actor \<Rightarrow> bool" where
  "store_wf s \<longleftrightarrow> hm_wf (sa_tables s) \<and>
     list_all (\<lambda>e. table_wf (snd e) \<and> tc_table_name (tm_config (snd e)) = fst e) (sa_tables s)"

definition tablet_at :: "store_actor \<Rightarrow> string \<Rightarrow> u32 \<Rightarrow> tablet_metadata option" where
  "tablet_at s name i = (case hm_get (sa_tables s) name of Some table \<Rightarrow> bt_get (tm_tablets table) i | None \<Rightarrow> None)"

text \<open>A concrete table of three tablets, an actor that holds it, and an environment, for the witnesses.\<close>

definition demo_table :: table_metadata where
  "demo_table = \<lparr> tm_config = \<lparr> tc_table_name = ''t'', tc_max_tablet_size = 0, tc_min_tablet_size = 0, tc_initial_tablet_count = 3 \<rparr>,
     tm_tablets = [(10, default_tablet 10), (20, default_tablet 20), (30, default_tablet 30)] \<rparr>"

definition demo_store :: store_actor where
  "demo_store = \<lparr> sa_context = Some \<lparr> ctx_id = 1, ctx_instant = 0, ctx_config = [], ctx_leader = True \<rparr>,
     sa_config = [tm_config demo_table], sa_tables = [(''t'', demo_table)] \<rparr>"

definition demo_ops :: "tablet_op list" where
  "demo_ops = [\<lparr> to_table_name = ''t'', to_op = Some (OpCheckTablet 10 0) \<rparr>,
     \<lparr> to_table_name = ''t'', to_op = Some (OpUpdateTablet (Some ((default_tablet 20)\<lparr>tablet_version := 1\<rparr>))) \<rparr>]"

definition enc_tablet :: "tablet_metadata \<Rightarrow> bytes" where
  "enc_tablet t = enc_pair (enc_pair enc_word enc_word) (enc_pair (enc_option enc_nat) (enc_pair enc_bytes (enc_pair enc_word (enc_pair enc_bytes enc_string))))
     ((tablet_id t, tablet_version t), (if tablet_deleted t then Some 0 else None), blob_encryption_key t, blob_size t, blob_hash t, blob_uri t)"

definition dec_tablet :: "tablet_metadata parser" where
  "dec_tablet = dec_map (\<lambda>((i, v), d, k, n, h, u). \<lparr> tablet_id = i, tablet_version = v, tablet_deleted = d \<noteq> None,
       blob_encryption_key = k, blob_size = n, blob_hash = h, blob_uri = u \<rparr>)
     (dec_pair (dec_pair dec_word dec_word) (dec_pair (dec_option dec_nat) (dec_pair dec_bytes (dec_pair dec_word (dec_pair dec_bytes dec_string)))))"

definition demo_store_env :: store_env where
  "demo_store_env =
     \<lparr> se_decode_config = (\<lambda>_. Some [tm_config demo_table]),
       se_decode_in_message = (\<lambda>_. Ok (Some ())),
       se_decode_request = (\<lambda>b. if b = [1] then Ok demo_ops else Err []),
       se_encode_response = (\<lambda>_. []),
       se_encode_out_message = (\<lambda>_. []),
       se_encode_snapshot = enc_list (enc_pair enc_string (enc_list enc_tablet)),
       se_decode_snapshot = decode_all (dec_list (dec_pair dec_string (dec_list dec_tablet))) \<rparr>"

text \<open>When an operation succeeds in a state, and the updates that a transaction makes.\<close>

definition op_ok :: "store_actor \<Rightarrow> tablet_op \<Rightarrow> bool" where
  "op_ok s op \<longleftrightarrow> hm_contains (sa_tables s) (to_table_name op) \<and>
     (case to_op op of
        Some (OpListTablet _ _) \<Rightarrow> True
      | Some (OpCheckTablet i version) \<Rightarrow>
          (case tablet_at s (to_table_name op) i of Some t \<Rightarrow> tablet_version t = version | None \<Rightarrow> False)
      | Some (OpUpdateTablet (Some u)) \<Rightarrow>
          (case tablet_at s (to_table_name op) (tablet_id u) of
             Some t \<Rightarrow> tablet_version u = tablet_version t + 1 | None \<Rightarrow> False)
      | _ \<Rightarrow> False)"

definition op_supported :: "tablet_op \<Rightarrow> bool" where
  "op_supported op \<longleftrightarrow> (case to_op op of Some (OpAddTablet _) \<Rightarrow> False | Some (OpRemoveTablet _ _) \<Rightarrow> False | _ \<Rightarrow> True)"

definition op_update :: "tablet_op \<Rightarrow> ((string \<times> u32) \<times> tablet_metadata) list" where
  "op_update op = (case to_op op of
      Some (OpUpdateTablet (Some u)) \<Rightarrow> [((to_table_name op, tablet_id u), u)] | _ \<Rightarrow> [])"

definition last_update :: "tablet_op list \<Rightarrow> string \<Rightarrow> u32 \<Rightarrow> tablet_metadata option" where
  "last_update ops name i = map_of (rev (concat (map op_update ops))) (name, i)"

text \<open>The effect of one committed operation on the tables.\<close>

definition apply_op :: "tablet_op \<Rightarrow> store_actor \<Rightarrow> store_actor" where
  "apply_op op s = (case (hm_get (sa_tables s) (to_table_name op), op_update op) of
      (Some table, [(_, u)]) \<Rightarrow> s\<lparr>sa_tables := hm_insert (to_table_name op)
           (table\<lparr>tm_tablets := bt_insert (tablet_id u) u (tm_tablets table)\<rparr>) (sa_tables s)\<rparr>
    | _ \<Rightarrow> s)"

definition store_laws :: "store_env \<Rightarrow> bool" where
  "store_laws env \<longleftrightarrow> (\<forall>s. se_decode_snapshot env (se_encode_snapshot env s) = Some s)"

definition store_inv :: "store_env \<Rightarrow> store_actor \<Rightarrow> bool" where
  "store_inv env s \<longleftrightarrow> sa_context s \<noteq> None \<and> store_wf s \<and> store_laws env"

definition store_agree :: "store_actor \<Rightarrow> store_actor \<Rightarrow> bool" where
  "store_agree s t \<longleftrightarrow> hm_get (sa_tables s) = hm_get (sa_tables t)"

definition table_configs :: "store_actor \<Rightarrow> string \<Rightarrow> table_config option" where
  "table_configs s name = map_option tm_config (hm_get (sa_tables s) name)"

definition store_lags :: "store_actor \<Rightarrow> store_actor \<Rightarrow> bool" where
  "store_lags t s \<longleftrightarrow> table_configs t = table_configs s"

definition store_step :: "store_env \<Rightarrow> actor_event_context \<Rightarrow> store_actor \<Rightarrow> actor_event \<Rightarrow> store_actor" where
  "store_step env c s event = fst (store_on_apply_event env s c event)"

definition store_save :: "store_env \<Rightarrow> store_actor \<Rightarrow> bytes option" where
  "store_save env s = (case store_on_save_snapshot env s of Ok b \<Rightarrow> Some b | _ \<Rightarrow> None)"

definition store_load :: "store_env \<Rightarrow> store_actor \<Rightarrow> bytes \<Rightarrow> store_actor option" where
  "store_load env s b = (case store_on_load_snapshot env s b of (u, Ok _) \<Rightarrow> Some u | _ \<Rightarrow> None)"

declare draw_tablet_ids.simps [simp del]

section \<open>Listing\<close>

text \<open>The entries that one interval visits, and the collection of entries not seen before.\<close>

definition visited :: "u32 \<Rightarrow> (u32, tablet_metadata) btree \<Rightarrow> (u32, tablet_metadata) btree" where
  "visited to xs = takeWhile (\<lambda>e. fst e < to) xs @ take 1 (dropWhile (\<lambda>e. fst e < to) xs)"

definition interval_entries :: "(u32, tablet_metadata) btree \<Rightarrow> u32 \<times> u32 \<Rightarrow> (u32, tablet_metadata) btree" where
  "interval_entries tablets interval =
     (let xs = filter (\<lambda>e. fst e \<ge> fst interval) tablets in
      visited (snd interval) xs @ (if list_all (\<lambda>e. fst e < snd interval) xs then take 1 tablets else []))"

definition collect_entry :: "u32 \<times> tablet_metadata \<Rightarrow> u32 set \<times> tablet_metadata list \<Rightarrow> u32 set \<times> tablet_metadata list" where
  "collect_entry e acc = (if fst e \<in> fst acc then acc else (insert (fst e) (fst acc), snd acc @ [snd e]))"

lemma walk_tablets_collect:
  "walk_tablets to xs acc = (fold collect_entry (visited to xs) acc, \<not> list_all (\<lambda>e. fst e < to) xs)"
  by (induction to xs acc rule: walk_tablets.induct) (auto simp: visited_def collect_entry_def Let_def)

lemma find_interval_collect:
  "find_interval tablets interval acc = fold collect_entry (interval_entries tablets interval) acc"
  by (auto simp: find_interval_def walk_tablets_collect interval_entries_def Let_def collect_entry_def
      split: prod.split list.split bool.split)

lemma collect_entries:
  assumes "inj_on fst (set L \<union> set es)" "distinct (map fst L)"
  shows "\<exists>L'. fold collect_entry es (fst ` set L, map snd L) = (fst ` set L', map snd L') \<and>
    set L' = set L \<union> set es \<and> distinct (map fst L')"
  using assms
proof (induction es arbitrary: L)
  case (Cons e es)
  show ?case
  proof (cases "fst e \<in> fst ` set L")
    case True
    then have "e \<in> set L"
      using Cons.prems(1) by (auto simp: inj_on_def)
    then show ?thesis
      using Cons.IH [of L] Cons.prems True by (auto simp: collect_entry_def insert_absorb)
  next
    case False
    then show ?thesis
      using Cons.IH [of "L @ [e]"] Cons.prems by (auto simp: collect_entry_def)
  qed
qed auto

lemma interval_entries_sub: "set (interval_entries tablets i) \<subseteq> set tablets"
  by (auto simp: interval_entries_def visited_def Let_def dest!: in_set_takeD set_takeWhileD set_dropWhileD split: if_splits)

lemma find_tablets_collect:
  assumes "table_wf table"
  shows "\<exists>L. find_tablets table from to = map snd L \<and> distinct (map fst L) \<and>
    set L = (\<Union>i \<in> set (if from < to then [(from, to)] else [(from, - 1), (0, to)]). set (interval_entries (tm_tablets table) i))"
proof -
  let ?is = "if from < to then [(from, to)] else [(from, - 1), (0, to)]"
  let ?es = "concat (map (interval_entries (tm_tablets table)) ?is)"
  note sub = interval_entries_sub [of "tm_tablets table"]
  have "inj_on fst (set (tm_tablets table))"
    using assms by (auto simp: table_wf_def dest: bt_wf_distinct simp: distinct_map)
  then have "inj_on fst (set [] \<union> set ?es)"
    using sub by (auto intro: inj_on_subset)
  from collect_entries [OF this] obtain L where
    L: "fold collect_entry ?es ({}, []) = (fst ` set L, map snd L)" "set L = set ?es" "distinct (map fst L)"
    by auto
  have "fold (find_interval (tm_tablets table)) is acc = fold collect_entry (concat (map (interval_entries (tm_tablets table)) is)) acc"
    for "is" acc
    by (induction "is" arbitrary: acc) (simp_all add: find_interval_collect)
  then have "find_tablets table from to = map snd L"
    using L(1) by (simp add: find_tablets_def Let_def)
  then show ?thesis
    using L(2,3) by (intro exI [of _ L]) auto
qed

lemma visited_in:
  assumes "sorted_wrt (<) (map fst xs)"
  shows "e \<in> set (visited to xs) \<longleftrightarrow> e \<in> set xs \<and> (\<forall>x \<in> set xs. fst x < fst e \<longrightarrow> fst x < to)"
  using assms
proof (induction xs)
  case (Cons x xs)
  then show ?case
    by (cases "fst x < to") (force simp: visited_def)+
qed (simp add: visited_def)

lemma bt_first:
  "bt_wf (y # ys) \<Longrightarrow> y = e \<longleftrightarrow> e \<in> set (y # ys) \<and> (\<forall>x \<in> set (y # ys). fst e \<le> fst x)"
  by (force simp: bt_wf_Cons)

lemma ring_owner_iff:
  assumes "bt_wf tablets"
  shows "ring_owner tablets h = Some e \<longleftrightarrow> e \<in> set tablets \<and>
    (if \<exists>x \<in> set tablets. h \<le> fst x then h \<le> fst e \<and> (\<forall>x \<in> set tablets. h \<le> fst x \<longrightarrow> fst e \<le> fst x)
     else \<forall>x \<in> set tablets. fst e \<le> fst x)"
proof (cases "filter (\<lambda>e. h \<le> fst e) tablets")
  case Nil
  then have "\<not> (\<exists>x \<in> set tablets. h \<le> fst x)"
    by (simp add: filter_empty_conv)
  then show ?thesis
    using Nil assms bt_first [of "hd tablets" "tl tablets" e]
    by (cases tablets) (simp_all add: ring_owner_def del: filter.simps)
next
  case (Cons y ys)
  then have set: "x \<in> set (y # ys) \<longleftrightarrow> x \<in> set tablets \<and> h \<le> fst x" for x
    unfolding Cons [symmetric] by simp
  have "bt_wf (y # ys)"
    using bt_wf_filter [OF assms, of "\<lambda>e. h \<le> fst e"] by (simp add: Cons)
  from bt_first [OF this, of e]
  have "y = e \<longleftrightarrow> (e \<in> set tablets \<and> h \<le> fst e) \<and> (\<forall>x. x \<in> set tablets \<and> h \<le> fst x \<longrightarrow> fst e \<le> fst x)"
    unfolding Ball_def set .
  moreover have "\<exists>x \<in> set tablets. h \<le> fst x"
    using set [of y] by auto
  ultimately show ?thesis
    by (simp add: ring_owner_def Cons Ball_def imp_conjL)
qed

lemma interval_owners:
  assumes "bt_wf tablets" "from \<le> to"
  shows "set (interval_entries tablets (from, to)) = {e. \<exists>h. from \<le> h \<and> h \<le> to \<and> ring_owner tablets h = Some e}"
proof -
  let ?xs = "filter (\<lambda>e. from \<le> fst e) tablets"
  have sorted: "sorted_wrt (<) (map fst ?xs)"
    using bt_wf_filter [OF assms(1)] by (simp add: bt_wf_def)
  have first: "e \<in> set (take 1 tablets) \<longleftrightarrow> e \<in> set tablets \<and> (\<forall>x \<in> set tablets. fst e \<le> fst x)" for e
    using bt_first [of "hd tablets" "tl tablets" e] assms(1) by (cases tablets) auto
  have entry: "e \<in> set (interval_entries tablets (from, to)) \<longleftrightarrow>
      (e \<in> set tablets \<and> from \<le> fst e \<and> (\<forall>x \<in> set tablets. from \<le> fst x \<and> fst x < fst e \<longrightarrow> fst x < to)) \<or>
      ((\<forall>x \<in> set tablets. from \<le> fst x \<longrightarrow> fst x < to) \<and> e \<in> set tablets \<and> (\<forall>x \<in> set tablets. fst e \<le> fst x))" for e
    by (auto simp: interval_entries_def Let_def visited_in [OF sorted] first list_all_iff simp del: One_nat_def)
  show ?thesis
  proof (intro set_eqI iffI)
    fix e assume "e \<in> set (interval_entries tablets (from, to))"
    then consider (visit) "e \<in> set tablets" "from \<le> fst e" "\<forall>x \<in> set tablets. from \<le> fst x \<and> fst x < fst e \<longrightarrow> fst x < to"
      | (wrap) "\<forall>x \<in> set tablets. from \<le> fst x \<longrightarrow> fst x < to" "e \<in> set tablets" "\<forall>x \<in> set tablets. fst e \<le> fst x"
      unfolding entry by blast
    then show "e \<in> {e. \<exists>h. from \<le> h \<and> h \<le> to \<and> ring_owner tablets h = Some e}"
    proof cases
      case visit
      define h where "h = min (fst e) to"
      have "h \<le> fst x \<Longrightarrow> fst e \<le> fst x" if "x \<in> set tablets" for x
        using visit(2,3) that assms(2) unfolding h_def by (meson min_le_iff_disj not_less order.trans)
      then have "ring_owner tablets h = Some e"
        using visit(1) by (auto simp: ring_owner_iff [OF assms(1)] h_def)
      then show ?thesis
        using visit(2) assms(2) by (intro CollectI exI [of _ h]) (simp add: h_def)
    next
      case wrap
      then have "ring_owner tablets to = Some e"
        using assms(2) by (fastforce simp: ring_owner_iff [OF assms(1)])
      then show ?thesis
        using assms(2) by auto
    qed
  next
    fix e assume "e \<in> {e. \<exists>h. from \<le> h \<and> h \<le> to \<and> ring_owner tablets h = Some e}"
    then obtain h where "from \<le> h" "h \<le> to" "ring_owner tablets h = Some e"
      by auto
    then show "e \<in> set (interval_entries tablets (from, to))"
      unfolding entry by (auto simp: ring_owner_iff [OF assms(1)] split: if_splits)
  qed
qed

lemma ring_owner_listed:
  assumes "table_wf table"
  shows "t \<in> set (find_tablets table from to) \<longleftrightarrow> (\<exists>h \<in> ring_range from to. ring_owner (tm_tablets table) h = Some (tablet_id t, t))"
proof -
  have wf: "bt_wf (tm_tablets table)" and ids: "\<And>e. e \<in> set (tm_tablets table) \<Longrightarrow> tablet_id (snd e) = fst e"
    using assms by (auto simp: table_wf_def list_all_iff)
  obtain L where L: "find_tablets table from to = map snd L"
    "set L = (\<Union>i \<in> set (if from < to then [(from, to)] else [(from, - 1), (0, to)]). set (interval_entries (tm_tablets table) i))"
    using find_tablets_collect [OF assms] by blast
  have max: "h \<le> - 1" for h :: u32
    by (rule word_n1_ge)
  have "set L = {e. \<exists>h \<in> ring_range from to. ring_owner (tm_tablets table) h = Some e}"
    by (auto simp: L(2) interval_owners [OF wf] max ring_range_def)
  moreover have "e \<in> set L \<Longrightarrow> e = (tablet_id (snd e), snd e)" for e
    using calculation ids by (auto simp: ring_owner_iff [OF wf])
  then have "t \<in> set (map snd L) \<longleftrightarrow> (tablet_id t, t) \<in> set L"
    by (auto intro: rev_image_eqI)
  ultimately show ?thesis
    by (simp add: L(1))
qed

section \<open>Transactions\<close>

lemma prepare_op_status:
  assumes "store_prepare_op s op = Ok r"
  shows "tor_status r = OpSucceeded \<longleftrightarrow> op_ok s op" "op_ok s op \<Longrightarrow> tor_op_result r \<noteq> None"
  using assms
  by (auto simp: store_prepare_op_def table_prepare_op_def op_ok_def tablet_at_def hm_contains_def
      split: option.splits tablet_op_kind.splits if_splits)

lemma prepare_op_total: "op_supported op \<Longrightarrow> \<exists>r. store_prepare_op s op = Ok r"
  by (auto simp: store_prepare_op_def table_prepare_op_def op_supported_def split: option.splits tablet_op_kind.splits)

lemma prepare_op_never_err: "store_prepare_op s op \<noteq> Err e"
  by (auto simp: store_prepare_op_def table_prepare_op_def split: option.splits tablet_op_kind.splits)

lemma prepare_all_Ok: "prepare_all s ops = Ok rs \<longleftrightarrow> list_all2 (\<lambda>op r. store_prepare_op s op = Ok r) ops rs"
  by (induction ops arbitrary: rs) (auto simp: result_simps list_all2_Cons1)

lemma prepare_all_total: "list_all op_supported ops \<Longrightarrow> \<exists>rs. prepare_all s ops = Ok rs"
  by (induction ops) (auto dest!: prepare_op_total [where s = s])

lemma commit_op_effect:
  assumes "hm_get (sa_tables s) (to_table_name op) = Some table" "op_ok t op" "tor_op_result r \<noteq> None"
  shows "store_commit_op s op r = (apply_op op s, Ok r)"
  using assms
  by (auto simp: store_commit_op_def table_commit_op_def apply_op_def op_update_def op_ok_def hm_insert_same
      split: option.splits tablet_op_kind.splits)

lemma apply_op_dom: "hm_get (sa_tables (apply_op op s)) name = None \<longleftrightarrow> hm_get (sa_tables s) name = None"
  by (auto simp: apply_op_def split: option.split list.split prod.split)

lemma commit_all_effect:
  assumes "\<And>op r. (op, r) \<in> set zs \<Longrightarrow> op_ok t op \<and> tor_op_result r \<noteq> None"
    and "\<And>op r. (op, r) \<in> set zs \<Longrightarrow> hm_get (sa_tables s) (to_table_name op) \<noteq> None"
  shows "commit_all zs s = (fold apply_op (map fst zs) s, Ok (map snd zs))"
  using assms
proof (induction zs arbitrary: s)
  case (Cons z zs)
  obtain op r where z: "z = (op, r)" by fastforce
  have "store_commit_op s op r = (apply_op op s, Ok r)"
    using Cons.prems(1) [of op r] Cons.prems(2) [of op r] by (auto simp: z intro: commit_op_effect)
  moreover have "commit_all zs (apply_op op s) = (fold apply_op (map fst zs) (apply_op op s), Ok (map snd zs))"
  proof (rule Cons.IH)
    show "hm_get (sa_tables (apply_op op s)) (to_table_name op') \<noteq> None" if "(op', r') \<in> set zs" for op' r'
      using Cons.prems(2) [of op' r'] that by (simp add: apply_op_dom)
  qed (use Cons.prems(1) in auto)
  ultimately show ?case
    by (simp add: z)
qed simp

lemma tablet_at_apply_op:
  assumes "hm_get (sa_tables s) (to_table_name op) \<noteq> None"
  shows "tablet_at (apply_op op s) name i = (case map_of (op_update op) (name, i) of Some u \<Rightarrow> Some u | None \<Rightarrow> tablet_at s name i)"
  using assms
  by (auto simp: tablet_at_def apply_op_def op_update_def split: option.splits tablet_op_kind.splits)

lemma tablet_at_apply_ops:
  assumes "\<And>op. op \<in> set ops \<Longrightarrow> hm_get (sa_tables s) (to_table_name op) \<noteq> None"
  shows "tablet_at (fold apply_op ops s) name i = (case last_update ops name i of Some u \<Rightarrow> Some u | None \<Rightarrow> tablet_at s name i)"
  using assms
proof (induction ops arbitrary: s)
  case (Cons op ops)
  have "tablet_at (fold apply_op ops (apply_op op s)) name i =
      (case last_update ops name i of Some u \<Rightarrow> Some u | None \<Rightarrow> tablet_at (apply_op op s) name i)"
    using Cons.prems by (intro Cons.IH) (auto simp: apply_op_dom)
  moreover have "map_of (rev (op_update op)) = map_of (op_update op)"
    by (simp add: op_update_def split: option.split tablet_op_kind.split)
  ultimately show ?case
    using Cons.prems [of op] by (simp add: last_update_def tablet_at_apply_op map_add_def split: option.split)
qed (simp add: last_update_def)

text \<open>The outcome of a transaction without operations that are not implemented.\<close>

lemma transaction_outcome:
  assumes "list_all op_supported ops"
  shows "\<exists>rs. length rs = length ops \<and> list_all2 (\<lambda>op r. store_prepare_op s op = Ok r) ops rs \<and> on_apply_tablets_request s ops =
    (if list_all (op_ok s) ops
     then (fold apply_op ops s, Ok \<lparr> tr_status = RequestSucceeded, tr_results = rs \<rparr>)
     else (s, Ok \<lparr> tr_status = RequestFailed, tr_results = rs \<rparr>))"
proof -
  obtain rs where rs: "prepare_all s ops = Ok rs"
    using prepare_all_total [OF assms] by blast
  then have rel: "list_all2 (\<lambda>op r. store_prepare_op s op = Ok r) ops rs"
    by (simp add: prepare_all_Ok)
  then have len: "length rs = length ops"
    by (simp add: list_all2_lengthD)
  have "list_all (\<lambda>r. tor_status r = OpSucceeded) rs \<longleftrightarrow> list_all (op_ok s) ops"
    using rel by (induction rule: list_all2_induct) (simp_all add: prepare_op_status)
  moreover have "commit_all (zip ops rs) s = (fold apply_op ops s, Ok rs)" if ok: "list_all (op_ok s) ops"
  proof -
    have "op_ok s op \<and> tor_op_result r \<noteq> None" if "(op, r) \<in> set (zip ops rs)" for op r
      using rel that ok prepare_op_status(2) [of s op r]
      by (auto simp: list_all2_iff list_all_iff dest: set_zip_leftD dest!: bspec [where x = "(op, r)"])
    moreover have "hm_get (sa_tables s) (to_table_name op) \<noteq> None" if "(op, r) \<in> set (zip ops rs)" for op r
      using calculation [OF that] by (auto simp: op_ok_def hm_contains_def)
    ultimately show ?thesis
      using commit_all_effect [of "zip ops rs" s s] by (simp add: len)
  qed
  ultimately show ?thesis
    using rs len rel by (intro exI [of _ rs]) (simp add: on_apply_tablets_request_def)
qed

lemma op_ok_update:
  assumes "list_all (op_ok s) ops" "last_update ops name i = Some u"
  shows "tablet_id u = i \<and> (\<exists>t. tablet_at s name i = Some t \<and> tablet_version u = tablet_version t + 1)"
proof -
  obtain op where "op \<in> set ops" "((name, i), u) \<in> set (op_update op)"
    using map_of_SomeD [OF assms(2) [unfolded last_update_def]] by auto
  moreover from this have "op_ok s op"
    using assms(1) by (simp add: list_all_iff)
  ultimately show ?thesis
    by (auto simp: op_update_def op_ok_def split: option.splits tablet_op_kind.splits)
qed

section \<open>Replicas\<close>

lemma store_wf_get:
  "store_wf s \<Longrightarrow> hm_get (sa_tables s) name = Some table \<Longrightarrow> table_wf table \<and> tc_table_name (tm_config table) = name"
  using hm_get_Some_in [of "sa_tables s" name table] by (auto simp: store_wf_def list_all_iff)

lemma store_wf_insert:
  assumes "store_wf s" "table_wf table" "tc_table_name (tm_config table) = name"
  shows "store_wf (s\<lparr>sa_tables := hm_insert name table (sa_tables s)\<rparr>)"
  using assms hm_insert_set [of name table "sa_tables s"] hm.wf_put [of "sa_tables s" name table]
  by (auto simp: store_wf_def list_all_iff)

lemma table_wf_insert:
  assumes "table_wf table"
  shows "table_wf (table\<lparr>tm_tablets := bt_insert (tablet_id u) u (tm_tablets table)\<rparr>)"
  using assms bt_insert_set [of "tablet_id u" u "tm_tablets table"]
  by (auto simp: table_wf_def map_laws list_all_iff)

lemma apply_op_wf: "store_wf s \<Longrightarrow> store_wf (apply_op op s)"
  using store_wf_get [of s "to_table_name op"]
  by (auto simp: apply_op_def intro!: store_wf_insert table_wf_insert split: option.split list.split)

lemma apply_op_context: "sa_context (apply_op op s) = sa_context s"
  by (simp add: apply_op_def split: option.split list.split)

lemma apply_op_configs: "table_configs (apply_op op s) = table_configs s"
  by (auto simp: apply_op_def table_configs_def fun_eq_iff split: option.split list.split)

lemma apply_op_agree: "store_agree s t \<Longrightarrow> store_agree (apply_op op s) (apply_op op t)"
  by (auto simp: apply_op_def store_agree_def fun_eq_iff split: option.split list.split)

lemma tablet_request_state:
  "fst (on_apply_tablets_request s ops) =
     (if is_ok (prepare_all s ops) \<and> list_all (op_ok s) ops then fold apply_op ops s else s)"
proof (cases "list_all op_supported ops")
  case True
  then show ?thesis
    using transaction_outcome [OF True, of s] prepare_all_total [OF True, of s] by auto
next
  case False
  then obtain op where "op \<in> set ops" "\<not> op_supported op"
    by (auto simp: list_all_iff)
  then have bad: "\<not> list_all (op_ok s) ops"
    by (auto simp: list_all_iff op_ok_def op_supported_def split: option.splits tablet_op_kind.splits intro!: bexI [of _ op])
  have "list_all (\<lambda>r. tor_status r = OpSucceeded) rs \<longleftrightarrow> list_all (op_ok s) ops" if "prepare_all s ops = Ok rs" for rs
    using that unfolding prepare_all_Ok by (induction rule: list_all2_induct) (simp_all add: prepare_op_status)
  with bad show ?thesis
    by (cases "prepare_all s ops") (auto simp: on_apply_tablets_request_def)
qed

lemma store_step_effect:
  "store_step env c s event = (case se_decode_request env (ae_contents event) of
      Ok ops \<Rightarrow> (if is_ok (prepare_all s ops) \<and> list_all (op_ok s) ops then fold apply_op ops s else s)
    | _ \<Rightarrow> s)"
  by (simp add: store_step_def store_on_apply_event_def fst_try_st tablet_request_state split: result.split)

lemma store_step_inv:
  assumes "store_inv env s"
  shows "store_inv env (store_step env c s event)"
proof -
  have "store_inv env (fold apply_op ops s)" for ops
    using assms by (induction ops arbitrary: s) (simp_all add: store_inv_def apply_op_wf apply_op_context)
  then show ?thesis
    using assms by (simp add: store_step_effect split: result.split)
qed

lemma store_step_lags:
  assumes "store_lags t s"
  shows "store_lags t (store_step env c s event)"
proof -
  have "table_configs (fold apply_op ops s) = table_configs s" for ops
    by (induction ops arbitrary: s) (simp_all add: apply_op_configs)
  then show ?thesis
    using assms by (simp add: store_lags_def store_step_effect split: result.split)
qed

lemma store_step_agree:
  assumes "store_agree s t"
  shows "store_agree (store_step env c s event) (store_step env d t event)"
proof -
  have tables: "tablet_at s = tablet_at t" "hm_contains (sa_tables s) = hm_contains (sa_tables t)"
    using assms by (simp_all add: store_agree_def tablet_at_def hm_contains_def fun_eq_iff)
  have prepare: "store_prepare_op s op = store_prepare_op t op" for op
    using assms by (simp add: store_agree_def store_prepare_op_def)
  have ok: "op_ok s = op_ok t"
    unfolding op_ok_def [abs_def] tables ..
  have "prepare_all s ops = prepare_all t ops" for ops
    by (induction ops) (simp_all add: prepare)
  moreover have "store_agree (fold apply_op ops s) (fold apply_op ops t)" for ops
    using assms by (induction ops arbitrary: s t) (simp_all add: apply_op_agree)
  ultimately show ?thesis
    using assms by (simp add: store_step_effect ok split: result.split)
qed

lemma store_agree_lags: "store_agree s t \<Longrightarrow> store_lags t s"
  by (simp add: store_agree_def store_lags_def table_configs_def fun_eq_iff)

lemma table_snapshot_roundtrip:
  assumes "table_wf table"
  shows "table_load_snapshot table' (snd (table_save_snapshot table)) = table'\<lparr>tm_tablets := tm_tablets table\<rparr>"
proof -
  have wf: "bt_wf (tm_tablets table)" and ids: "map (\<lambda>e. tablet_id (snd e)) (tm_tablets table) = map fst (tm_tablets table)"
    using assms by (auto simp: table_wf_def list_all_iff)
  have "sorted (map tablet_id (map snd (tm_tablets table)))"
    using wf by (simp add: comp_def ids bt_wf_def strict_sorted_imp_sorted)
  then have sort: "sort_key tablet_id (map snd (tm_tablets table)) = map snd (tm_tablets table)"
    by (rule sort_key_id_if_sorted)
  have "fold (\<lambda>t. bt_insert (tablet_id t) t) (map snd m) acc = fold (\<lambda>e. bt_insert (fst e) (snd e)) m acc"
    if "list_all (\<lambda>e. tablet_id (snd e) = fst e) m" for m acc
    using that by (induction m arbitrary: acc) simp_all
  from this [of "tm_tablets table" "[]"]
  have "fold (\<lambda>t. bt_insert (tablet_id t) t) (map snd (tm_tablets table)) [] = tm_tablets table"
    using assms bt.put_entries_id [OF wf] by (simp add: table_wf_def)
  then show ?thesis
    by (simp add: table_load_snapshot_def table_save_snapshot_def sort)
qed

lemma load_tables_saved:
  assumes "distinct (map fst es)" "\<And>n tb. (n, tb) \<in> set es \<Longrightarrow> table_wf tb \<and> tc_table_name (tm_config tb) = n"
    and "\<And>n tb. (n, tb) \<in> set es \<Longrightarrow> \<exists>tb'. hm_get tables n = Some tb' \<and> tm_config tb' = tm_config tb"
  shows "\<exists>tables'. load_tables (map (\<lambda>e. table_save_snapshot (snd e)) es) tables = (tables', Ok ()) \<and>
    hm_get tables' = hm_get tables ++ map_of es \<and> (hm_wf tables \<longrightarrow> hm_wf tables')"
  using assms
proof (induction es arbitrary: tables)
  case (Cons e es)
  obtain n tb where e: "e = (n, tb)" by fastforce
  obtain tb' where tb': "hm_get tables n = Some tb'" "tm_config tb' = tm_config tb"
    using Cons.prems(3) [of n tb] by (auto simp: e)
  have "table_wf tb" "tc_table_name (tm_config tb) = n"
    using Cons.prems(2) [of n tb] by (auto simp: e)
  then obtain ts where load: "table_save_snapshot tb = (n, ts)" "table_load_snapshot tb' ts = tb"
    using tb'(2) table_snapshot_roundtrip [of tb tb'] by (simp add: table_save_snapshot_def)
  have "\<exists>tables'. load_tables (map (\<lambda>e. table_save_snapshot (snd e)) es) (hm_insert n tb tables) = (tables', Ok ()) \<and>
      hm_get tables' = hm_get (hm_insert n tb tables) ++ map_of es \<and> (hm_wf (hm_insert n tb tables) \<longrightarrow> hm_wf tables')"
  proof (rule Cons.IH)
    show "\<exists>tb'. hm_get (hm_insert n tb tables) m = Some tb' \<and> tm_config tb' = tm_config tb2" if "(m, tb2) \<in> set es" for m tb2
      using Cons.prems(1) Cons.prems(3) [of m tb2] that by (force simp: e)
    show "distinct (map fst es)"
      using Cons.prems(1) by simp
    show "table_wf tb2 \<and> tc_table_name (tm_config tb2) = m" if "(m, tb2) \<in> set es" for m tb2
      using Cons.prems(2) [of m tb2] that by simp
  qed
  moreover have "map_of es n = None"
    using Cons.prems(1) by (simp add: e map_of_eq_None_iff)
  ultimately show ?case
    by (auto simp: e tb' load map_laws fun_eq_iff map_add_def split: option.split)
qed simp

lemma store_load_save:
  assumes "store_inv env s" "store_inv env t" "store_lags t s" "store_save env s = Some b"
  shows "\<exists>u. store_load env t b = Some u \<and> store_inv env u \<and> store_agree s u"
proof -
  let ?snapshots = "map (\<lambda>e. table_save_snapshot (snd e)) (sa_tables s)"
  have wf: "store_wf s" "store_wf t" and ctx: "sa_context t \<noteq> None" and laws: "store_laws env"
    using assms(1,2) by (auto simp: store_inv_def)
  have same: "map_option tm_config (hm_get (sa_tables t) n) = map_option tm_config (hm_get (sa_tables s) n)" for n
    using assms(3) by (simp add: store_lags_def table_configs_def fun_eq_iff)
  have "distinct (map fst (sa_tables s))"
    using wf(1) by (simp add: store_wf_def hm_wf_def)
  then have "\<exists>tables. load_tables ?snapshots (sa_tables t) = (tables, Ok ()) \<and>
      hm_get tables = hm_get (sa_tables t) ++ map_of (sa_tables s) \<and> (hm_wf (sa_tables t) \<longrightarrow> hm_wf tables)"
  proof (rule load_tables_saved)
    fix n tb assume in_s: "(n, tb) \<in> set (sa_tables s)"
    then show "table_wf tb \<and> tc_table_name (tm_config tb) = n"
      using wf(1) by (auto simp: store_wf_def list_all_iff)
    have "hm_get (sa_tables s) n = Some tb"
      using in_s wf(1) by (simp add: store_wf_def hm_wf_def hm_get_def)
    then show "\<exists>tb'. hm_get (sa_tables t) n = Some tb' \<and> tm_config tb' = tm_config tb"
      using same [of n] by auto
  qed
  then obtain tables where tables: "load_tables ?snapshots (sa_tables t) = (tables, Ok ())"
    "hm_get tables = hm_get (sa_tables t) ++ hm_get (sa_tables s)" "hm_wf tables"
    using wf(2) by (auto simp: store_wf_def hm_get_def [abs_def])
  have agree: "hm_get tables = hm_get (sa_tables s)"
  proof
    fix n show "hm_get tables n = hm_get (sa_tables s) n"
      using same [of n] by (cases "hm_get (sa_tables s) n") (simp_all add: tables(2) map_add_def)
  qed
  have "store_wf (t\<lparr>sa_tables := tables\<rparr>)"
  proof -
    have "table_wf tb \<and> tc_table_name (tm_config tb) = n" if "(n, tb) \<in> set tables" for n tb
    proof -
      have "hm_get tables n = Some tb"
        using that tables(3) by (simp add: hm_wf_def hm_get_def)
      then show ?thesis
        using store_wf_get [OF wf(1), of n tb] by (simp add: agree)
    qed
    then show ?thesis
      using tables(3) by (auto simp: store_wf_def list_all_iff)
  qed
  moreover have "store_load env t b = Some (t\<lparr>sa_tables := tables\<rparr>)"
    using assms(4) ctx laws tables(1)
    by (auto simp: store_load_def store_save_def store_on_load_snapshot_def store_on_save_snapshot_def store_laws_def
        split: option.splits)
  ultimately show ?thesis
    using ctx laws agree by (simp add: store_inv_def store_agree_def)
qed

interpretation store_replica: replicated_actor
  "store_inv env" store_agree "\<lambda>_ _. True" "store_step env" "store_save env" "store_load env" store_lags for env
  by unfold_locales
    (rule store_step_inv store_step_agree store_agree_lags store_step_lags store_load_save; assumption)+

section \<open>Initialization\<close>

lemma draw_tablet_ids_result:
  assumes "draw_tablet_ids count ids draws = Some (ids', draws')" "distinct ids" "length ids \<le> count"
  shows "distinct ids' \<and> length ids' = count \<and> set ids' \<subseteq> set ids \<union> set draws"
  using assms
proof (induction count ids draws rule: draw_tablet_ids.induct)
  case (1 count ids draws)
  show ?case
  proof (cases "length ids < count")
    case True
    then obtain d ds where draws: "draws = d # ds" "draw_tablet_ids count (List.insert d ids) ds = Some (ids', draws')"
      using "1.prems"(1) by (subst (asm) draw_tablet_ids.simps) (auto split: list.splits)
    moreover have "length (List.insert d ids) \<le> count" "distinct (List.insert d ids)"
      using True "1.prems"(2) by (auto simp: List.insert_def)
    ultimately show ?thesis
      using "1.IH" [OF True draws(1) draws(2)] by auto
  next
    case False
    then show ?thesis
      using "1.prems" by (subst (asm) draw_tablet_ids.simps) auto
  qed
qed

lemma draw_tablet_ids_ends:
  assumes "distinct ids" "count \<le> card (set ids \<union> set draws)"
  shows "draw_tablet_ids count ids draws \<noteq> None"
  using assms
proof (induction count ids draws rule: draw_tablet_ids.induct)
  case (1 count ids draws)
  show ?case
  proof (cases "length ids < count")
    case True
    have "draws \<noteq> []"
      using "1.prems" True by (auto simp: distinct_card)
    then obtain d ds where draws: "draws = d # ds"
      by (cases draws) auto
    have "set (List.insert d ids) \<union> set ds = set ids \<union> set draws"
      by (auto simp: draws)
    then have "draw_tablet_ids count (List.insert d ids) ds \<noteq> None"
      using "1.prems" by (intro "1.IH" [OF True draws]) simp_all
    then show ?thesis
      using True by (subst draw_tablet_ids.simps) (simp add: draws)
  qed (subst draw_tablet_ids.simps, simp)
qed

lemma table_create_wf: "table_wf (table_create config ids) \<and> (\<forall>i. bt_get (tm_tablets (table_create config ids)) i =
    (if i \<in> set ids then Some (default_tablet i) else None))"
proof -
  have "table_wf (table\<lparr>tm_tablets := fold (\<lambda>i. bt_insert i (default_tablet i)) ids m\<rparr>)
      \<and> (\<forall>i. bt_get (fold (\<lambda>i. bt_insert i (default_tablet i)) ids m) i = (if i \<in> set ids then Some (default_tablet i) else bt_get m i))"
    if "table_wf (table\<lparr>tm_tablets := m\<rparr>)" for table m
    using that
  proof (induction ids arbitrary: m)
    case (Cons i ids)
    have "table_wf (table\<lparr>tm_tablets := bt_insert i (default_tablet i) m\<rparr>)"
      using table_wf_insert [OF Cons.prems, of "default_tablet i"] by (simp add: default_tablet_def)
    from Cons.IH [OF this] show ?case
      by auto
  qed simp
  from this [of "[]" "\<lparr> tm_config = config, tm_tablets = [] \<rparr>"] show ?thesis
    by (simp add: table_create_def table_wf_def)
qed

section \<open>The witness actor\<close>

lemma codec_tablet: "codec enc_tablet dec_tablet"
  unfolding enc_tablet_def [abs_def] dec_tablet_def by (intro codec_map codecs) simp

lemma demo_table_wf: "table_wf demo_table"
  by (simp add: table_wf_def demo_table_def bt_wf_def default_tablet_def)

lemma demo_store_inv: "store_inv demo_store_env demo_store"
proof -
  have "codec (enc_list (enc_pair enc_string (enc_list enc_tablet))) (dec_list (dec_pair dec_string (dec_list dec_tablet)))"
    by (intro codecs codec_tablet)
  then have "store_laws demo_store_env"
    by (simp add: store_laws_def demo_store_env_def decode_all_encode)
  moreover have "tc_table_name (tm_config demo_table) = ''t''"
    by (simp add: demo_table_def)
  ultimately show ?thesis
    by (simp add: store_inv_def demo_store_def store_wf_def hm_wf_def demo_table_wf)
qed

lemma demo_ops_ok: "list_all (op_ok demo_store) demo_ops"
  by (simp add: demo_ops_def op_ok_def hm_contains_def tablet_at_def demo_store_def demo_table_def hm_get_def bt_get_def default_tablet_def)

section \<open>Properties\<close>



text \<open>
  C21. Transactions are all or nothing: a request of implemented operations is always answered,
  with one result per operation. It succeeds exactly when every operation is valid in the state
  before it (tables exist, checked versions match, updates carry the next version); then each
  tablet has its last update, and otherwise the store is unchanged.
\<close>

theorem tablet_transaction_atomic:
  assumes "list_all op_supported ops"
  shows "\<exists>s' resp. on_apply_tablets_request s ops = (s', Ok resp) \<and> length (tr_results resp) = length ops \<and>
    (tr_status resp = RequestSucceeded) = list_all (op_ok s) ops \<and>
    (if list_all (op_ok s) ops
     then (\<forall>name i. tablet_at s' name i = (case last_update ops name i of Some u \<Rightarrow> Some u | None \<Rightarrow> tablet_at s name i))
     else s' = s)"
proof -
  have "tablet_at (fold apply_op ops s) name i = (case last_update ops name i of Some u \<Rightarrow> Some u | None \<Rightarrow> tablet_at s name i)"
    if "list_all (op_ok s) ops" for name i
    using that by (intro tablet_at_apply_ops) (auto simp: list_all_iff op_ok_def hm_contains_def)
  then show ?thesis
    using transaction_outcome [OF assms, of s] by fastforce
qed

theorem tablet_transaction_atomic_witness:
  "\<exists>s' resp. on_apply_tablets_request demo_store demo_ops = (s', Ok resp) \<and> tr_status resp = RequestSucceeded \<and>
    tablet_at s' ''t'' 20 = Some ((default_tablet 20)\<lparr>tablet_version := 1\<rparr>)"
proof -
  have "list_all op_supported demo_ops"
    by (simp add: demo_ops_def op_supported_def)
  moreover have "last_update demo_ops ''t'' 20 = Some ((default_tablet 20)\<lparr>tablet_version := 1\<rparr>)"
    by (simp add: last_update_def demo_ops_def op_update_def default_tablet_def)
  ultimately show ?thesis
    using tablet_transaction_atomic [of demo_ops demo_store] demo_ops_ok by (fastforce simp: demo_ops_ok)
qed

text \<open>
  Versions are optimistic locks: applying a committed event keeps the set of tablets of every
  table, and a tablet either is unchanged or has exactly the next version (modulo 32 bits), also
  when the transaction updates it more than once.
\<close>

theorem tablet_version_step:
  "case tablet_at s name i of
      None \<Rightarrow> tablet_at (store_step env c s event) name i = None
    | Some t \<Rightarrow> (\<exists>u. tablet_at (store_step env c s event) name i = Some u \<and> (u = t \<or> tablet_id u = i \<and> tablet_version u = tablet_version t + 1))"
proof -
  have "case tablet_at s name i of
      None \<Rightarrow> tablet_at (fold apply_op ops s) name i = None
    | Some t \<Rightarrow> (\<exists>u. tablet_at (fold apply_op ops s) name i = Some u \<and> (u = t \<or> tablet_id u = i \<and> tablet_version u = tablet_version t + 1))"
    if ok: "list_all (op_ok s) ops" for ops
  proof -
    have "tablet_at (fold apply_op ops s) name i = (case last_update ops name i of Some u \<Rightarrow> Some u | None \<Rightarrow> tablet_at s name i)"
      using ok by (intro tablet_at_apply_ops) (auto simp: list_all_iff op_ok_def hm_contains_def)
    then show ?thesis
      using op_ok_update [OF ok, of name i] by (auto split: option.split)
  qed
  then show ?thesis
    by (auto simp: store_step_effect split: result.splits option.split)
qed

text \<open>
  Random table creation ends and is right: if the random draws contain enough different ids,
  the configurator returns, and the table made from its ids is well formed and has exactly the
  configured number of tablets, all fresh and of version 0.
\<close>

theorem generated_table:
  assumes "unat (tc_initial_tablet_count config) \<le> card (set draws)"
  shows "\<exists>ids rest. generate (tc_initial_tablet_count config) draws = Some (ids, rest) \<and>
    table_wf (table_create config ids) \<and>
    length (tm_tablets (table_create config ids)) = unat (tc_initial_tablet_count config) \<and>
    list_all (\<lambda>e. snd e = default_tablet (fst e)) (tm_tablets (table_create config ids))"
proof -
  let ?n = "unat (tc_initial_tablet_count config)"
  obtain ids rest where gen: "draw_tablet_ids ?n [] draws = Some (ids, rest)"
    using draw_tablet_ids_ends [of "[]" ?n draws] assms by auto
  then have ids: "distinct ids" "length ids = ?n"
    using draw_tablet_ids_result [OF gen] by auto
  let ?m = "tm_tablets (table_create config ids)"
  have wf: "table_wf (table_create config ids)" and get: "\<And>i. bt_get ?m i = (if i \<in> set ids then Some (default_tablet i) else None)"
    using table_create_wf [of config ids] by auto
  have bt: "bt_wf ?m"
    using wf by (simp add: table_wf_def)
  have "fst ` set ?m = set ids"
  proof (intro set_eqI iffI)
    fix i assume "i \<in> fst ` set ?m"
    then show "i \<in> set ids"
      using get [of i] bt_in_get [OF bt, of i] by (auto split: if_splits)
  next
    fix i assume "i \<in> set ids"
    then show "i \<in> fst ` set ?m"
      using get [of i] bt_get_Some_in [of ?m i] by force
  qed
  then have "length ?m = ?n"
    using distinct_card [OF bt_wf_distinct [OF bt]] distinct_card [OF ids(1)] ids(2) by simp
  moreover have "snd e = default_tablet (fst e)" if "e \<in> set ?m" for e
    using get [of "fst e"] bt_in_get [OF bt, of "fst e" "snd e"] that by (simp split: if_splits)
  then have "list_all (\<lambda>e. snd e = default_tablet (fst e)) ?m"
    by (simp add: list_all_iff)
  ultimately show ?thesis
    using gen wf by (auto simp: generate_def)
qed

theorem generated_table_witness:
  "\<exists>ids rest. generate 3 [10, 20, 10, 30] = Some (ids, rest) \<and> table_wf (table_create (tm_config demo_table) ids) \<and>
    length (tm_tablets (table_create (tm_config demo_table) ids)) = 3"
proof -
  have "card {10, 20, 30 :: u32} = 3" "tc_initial_tablet_count (tm_config demo_table) = 3"
    by (simp_all add: demo_table_def)
  then show ?thesis
    using generated_table [of "tm_config demo_table" "[10, 20, 10, 30]"] by (auto simp: insert_commute)
qed

text \<open>
  Tablet store replicas agree: two replicas with the same tables still have the same tables
  after applying the same committed events, whoever owns them, also when an event is undecodable
  or a transaction fails.
\<close>

theorem store_replicas_agree:
  assumes "store_inv env s" "store_inv env t" "store_agree s t" "map snd es = map snd fs"
  shows "store_agree (fold (\<lambda>(c, e) s. store_step env c s e) es s) (fold (\<lambda>(c, e) s. store_step env c s e) fs t)"
  by (rule store_replica.agree_run [OF assms]) simp_all

theorem store_replicas_agree_witness:
  "store_agree
     (store_step demo_store_env \<lparr> aec_index = 1, aec_owned = True \<rparr> demo_store \<lparr> ae_correlation_id = 7, ae_contents = [1] \<rparr>)
     (store_step demo_store_env \<lparr> aec_index = 1, aec_owned = False \<rparr> demo_store \<lparr> ae_correlation_id = 7, ae_contents = [1] \<rparr>)"
  using store_replicas_agree [OF demo_store_inv demo_store_inv,
      of "[(\<lparr> aec_index = 1, aec_owned = True \<rparr>, \<lparr> ae_correlation_id = 7, ae_contents = [1] \<rparr>)]"
        "[(\<lparr> aec_index = 1, aec_owned = False \<rparr>, \<lparr> ae_correlation_id = 7, ae_contents = [1] \<rparr>)]"]
  by (simp add: store_agree_def)

text \<open>
  Starting from a snapshot: replicas initialize their tables with random tablets of their own,
  and a replica with the same table configurations that loads the snapshot another replica takes
  then has the same tables.
\<close>

theorem store_snapshot_sync:
  assumes "store_inv env s" "store_inv env t" "table_configs t = table_configs s"
    and "store_on_save_snapshot env (fold (\<lambda>(c, e) s. store_step env c s e) es s) = Ok b"
  shows "\<exists>u. store_on_load_snapshot env t b = (u, Ok ()) \<and> store_inv env u \<and>
    store_agree (fold (\<lambda>(c, e) s. store_step env c s e) es s) u"
proof -
  let ?s = "fold (\<lambda>(c, e) s. store_step env c s e) es s"
  have "store_inv env ?s" "store_lags t ?s"
    using assms(1,3) store_replica.inv_run store_replica.lags_run by (auto simp: store_lags_def)
  moreover have "store_save env ?s = Some b"
    using assms(4) by (simp add: store_save_def)
  ultimately have "\<exists>u. store_load env t b = Some u \<and> store_inv env u \<and> store_agree ?s u"
    using assms(2) by (intro store_load_save)
  then show ?thesis
    by (auto simp: store_load_def split: prod.splits result.splits)
qed

theorem store_snapshot_sync_witness:
  "\<exists>b u. store_on_save_snapshot demo_store_env demo_store = Ok b \<and>
    store_on_load_snapshot demo_store_env
      (demo_store\<lparr>sa_tables := [(''t'', table_create (tm_config demo_table) [11, 12])]\<rparr>) b = (u, Ok ()) \<and>
    store_agree demo_store u"
proof -
  let ?t = "demo_store\<lparr>sa_tables := [(''t'', table_create (tm_config demo_table) [11, 12])]\<rparr>"
  obtain b where b: "store_on_save_snapshot demo_store_env demo_store = Ok b"
    by (simp add: store_on_save_snapshot_def demo_store_def)
  have "store_inv demo_store_env ?t"
    using demo_store_inv table_create_wf [of "tm_config demo_table" "[11, 12]"]
    by (simp add: store_inv_def store_wf_def hm_wf_def) (simp add: table_create_def demo_table_def)
  moreover have "table_configs ?t = table_configs demo_store"
    by (auto simp: table_configs_def fun_eq_iff demo_store_def hm_get_def table_create_def)
  ultimately show ?thesis
    using store_snapshot_sync [OF demo_store_inv, of ?t "[]" b] b by auto
qed

end
