(* ===== verification/CacheMetadata.thy ===== *)
theory CacheMetadata
  imports TabletStore
begin

text \<open>
  Model of \<open>src/apps/tablet_cache/service/src/transaction.rs\<close> (the data types),
  \<open>transaction/result.rs\<close> and \<open>transaction/metadata.rs\<close>: the cache of tablet metadata, which
  splits the hash ring of a table into regions, lists the tablets of a region from the tablet
  store when a query needs them, and maps the keys of a query to tablets.

  The pair of a \<open>ResultHandle\<close> and a \<open>ResultSource\<close> is an index into the list of result cores
  that the creating component keeps. A resolve handler, a closure of the client, is a function
  on the state of the client, which the calls thread through; \<open>Panic\<close> aborts. Word arithmetic
  wraps, as in a release build.

  The lemmas show that a query is split into one query for each region, which together have its
  keys; that the cache keeps its invariant; that a key the cache resolves goes to the owner of the key
  on the ring of the store that answered the listing; and that not every key is resolved.
\<close>

type_synonym 'a run = "('a, unit) result"

section \<open>Eventual results\<close>

record ('t, 'e) result_core =
  rco_result :: "'t option"
  rco_error :: "'e option"

type_synonym ('t, 'e) result_cores = "('t, 'e) result_core list"

definition create_eventual_result :: "('t, 'e) result_cores \<Rightarrow> ('t, 'e) result_cores \<times> nat" where
  "create_eventual_result cores = (cores @ [\<lparr> rco_result = None, rco_error = None \<rparr>], length cores)"

definition create_result_from_error :: "'e \<Rightarrow> ('t, 'e) result_cores \<Rightarrow> ('t, 'e) result_cores \<times> nat" where
  "create_result_from_error error cores = (cores @ [\<lparr> rco_result = None, rco_error = Some error \<rparr>], length cores)"

definition check_result :: "('t, 'e) result_cores \<Rightarrow> nat \<Rightarrow> ('t, 'e) result option" where
  "check_result cores handle =
     (let core = cores ! handle in
      case rco_result core of
        Some t \<Rightarrow> Some (Ok t)
      | None \<Rightarrow> (case rco_error core of Some e \<Rightarrow> Some (Err e) | None \<Rightarrow> None))"

definition set_result :: "nat \<Rightarrow> 't \<Rightarrow> ('t, 'e) result_cores \<Rightarrow> ('t, 'e) result_cores run" where
  "set_result source result cores =
     (let core = cores ! source in
      if rco_error core = None \<and> rco_result core = None
      then Ok (cores[source := core\<lparr>rco_result := Some result\<rparr>])
      else Panic)"

definition set_error :: "nat \<Rightarrow> 'e \<Rightarrow> ('t, 'e) result_cores \<Rightarrow> ('t, 'e) result_cores run" where
  "set_error source error cores =
     (let core = cores ! source in
      if rco_error core = None \<and> rco_result core = None
      then Ok (cores[source := core\<lparr>rco_error := Some error\<rparr>])
      else Panic)"

section \<open>Tablets and queries\<close>

record 't tablet =
  tb_metadata :: tablet_metadata
  tb_contents :: "'t option"
  tb_updated_contents :: "'t option"
  tb_is_dirty :: bool

definition tablet_create :: "tablet_metadata \<Rightarrow> 't tablet" where
  "tablet_create metadata = \<lparr> tb_metadata = metadata, tb_contents = None, tb_updated_contents = None, tb_is_dirty = False \<rparr>"

definition tablet_get_id :: "'t tablet \<Rightarrow> u32" where
  "tablet_get_id t = tablet_id (tb_metadata t)"

definition tablet_get_contents :: "'t tablet \<Rightarrow> 't run" where
  "tablet_get_contents t = unwrap (tb_contents t)"

definition tablet_set_contents :: "'t \<Rightarrow> 't tablet \<Rightarrow> 't tablet" where
  "tablet_set_contents contents t = t\<lparr>tb_is_dirty := True, tb_updated_contents := Some contents\<rparr>"

definition tablet_take_updated_contents :: "'t tablet \<Rightarrow> 't tablet \<times> 't option" where
  "tablet_take_updated_contents t = (t\<lparr>tb_updated_contents := None\<rparr>, tb_updated_contents t)"

record tablet_descriptor =
  td_tablet_id :: u32
  td_cache_ready :: bool

record table_query =
  tq_query_id :: nat
  tq_table_name :: string
  tq_key_hashes :: "u32 list"

definition table_query_create :: "nat \<Rightarrow> string \<Rightarrow> u32 list \<Rightarrow> table_query" where
  "table_query_create query_id table_name key_hashes =
     \<lparr> tq_query_id = query_id, tq_table_name = table_name,
       tq_key_hashes = fold (\<lambda>k s. fst (bts_insert k s)) key_hashes [] \<rparr>"

definition query_create_from :: "table_query \<Rightarrow> u32 list \<Rightarrow> table_query" where
  "query_create_from self key_hashes = table_query_create (tq_query_id self) (tq_table_name self) key_hashes"

section \<open>Regions\<close>

datatype region_state = Stale "nat list" bool | Fresh

record table_region =
  rg_state :: region_state
  rg_tablet_ids :: "u32 list"

definition region_create :: table_region where
  "region_create = \<lparr> rg_state = Stale [] False, rg_tablet_ids = [] \<rparr>"

definition maybe_prepare_list_op :: "u32 \<Rightarrow> u32 \<Rightarrow> table_region \<Rightarrow> table_region \<times> tablet_op_kind option" where
  "maybe_prepare_list_op region_from region_to region =
     (case rg_state region of
        Stale resolve_requests prepared_op \<Rightarrow>
          if \<not> prepared_op \<and> resolve_requests \<noteq> []
          then (region\<lparr>rg_state := Stale resolve_requests True\<rparr>, Some (OpListTablet region_from region_to))
          else (region, None)
      | Fresh \<Rightarrow> (region, None))"

definition maybe_fresh_tablet_ids :: "table_region \<Rightarrow> u32 list option" where
  "maybe_fresh_tablet_ids region = (case rg_state region of Stale _ _ \<Rightarrow> None | Fresh \<Rightarrow> Some (rg_tablet_ids region))"

definition mark_stale :: "table_region \<Rightarrow> table_region" where
  "mark_stale region =
     \<lparr> rg_state = Stale (case rg_state region of Stale resolve_requests _ \<Rightarrow> resolve_requests | Fresh \<Rightarrow> []) False,
       rg_tablet_ids = [] \<rparr>"

definition mark_fresh :: "u32 list \<Rightarrow> table_region \<Rightarrow> table_region \<times> nat list" where
  "mark_fresh tablet_ids region =
     (\<lparr> rg_state = Fresh, rg_tablet_ids = fold (\<lambda>k s. fst (bts_insert k s)) tablet_ids [] \<rparr>,
      case rg_state region of Stale registered _ \<Rightarrow> registered | Fresh \<Rightarrow> [])"

definition region_register_pending_query :: "nat \<Rightarrow> table_region \<Rightarrow> table_region run" where
  "region_register_pending_query resolve_request_id region =
     (case rg_state region of
        Stale ids prepared \<Rightarrow> Ok (region\<lparr>rg_state := Stale (ids @ [resolve_request_id]) prepared\<rparr>)
      | Fresh \<Rightarrow> Panic)"

section \<open>Tables\<close>

record cached_table =
  ct_table_name :: string
  ct_region_size :: u32
  ct_regions :: "(u32, table_region) hmap"
  ct_tablets :: "(u32, tablet_metadata) hmap"

text \<open>The division by a region size of zero panics here, so that no table has that size.\<close>

definition cached_table_create :: "string \<Rightarrow> u32 \<Rightarrow> cached_table run" where
  "cached_table_create table_name region_size =
     (if region_size = 0 then Panic
      else let regions_count = - 1 div region_size in
        Ok \<lparr> ct_table_name = table_name, ct_region_size = region_size,
             ct_regions = map (\<lambda>i. (word_of_nat i, region_create)) [0..<unat regions_count],
             ct_tablets = [] \<rparr>)"

definition map_table_region :: "u32 \<Rightarrow> u32 \<Rightarrow> u32" where
  "map_table_region region_size hash_value = hash_value div region_size"

definition compute_table_region_bounds :: "u32 \<Rightarrow> u32 \<Rightarrow> u32 \<times> u32" where
  "compute_table_region_bounds region_size region_idx =
     (let region_start = region_idx * region_size;
          region_end = (if region_start > - 1 - region_size then - 1 else region_start + region_size - 1)
      in (region_start, region_end))"

definition table_prepare_list_op :: "cached_table \<Rightarrow> cached_table \<times> tablet_op list" where
  "table_prepare_list_op self =
     (let prepared = map (\<lambda>e. case compute_table_region_bounds (ct_region_size self) (fst e) of
            (region_from, region_to) \<Rightarrow> (fst e, maybe_prepare_list_op region_from region_to (snd e))) (ct_regions self)
      in (self\<lparr>ct_regions := map (\<lambda>e. (fst e, fst (snd e))) prepared\<rparr>,
          concat (map (\<lambda>e. case snd (snd e) of
            Some list_op \<Rightarrow> [\<lparr> to_table_name = ct_table_name self, to_op = Some list_op \<rparr>] | None \<Rightarrow> []) prepared)))"

definition insert_latest_tablet :: "tablet_metadata \<Rightarrow> (u32, tablet_metadata) hmap \<Rightarrow> (u32, tablet_metadata) hmap" where
  "insert_latest_tablet tablet tablets =
     (case hm_get tablets (tablet_id tablet) of
        Some latest \<Rightarrow>
          if tablet_version latest < tablet_version tablet then hm_insert (tablet_id tablet) tablet tablets else tablets
      | None \<Rightarrow> hm_insert (tablet_id tablet) tablet tablets)"

definition table_update_tablet :: "tablet_metadata \<Rightarrow> bool \<Rightarrow> cached_table \<Rightarrow> cached_table" where
  "table_update_tablet tablet conflict self =
     (let self = self\<lparr>ct_tablets := insert_latest_tablet tablet (ct_tablets self)\<rparr>;
          table_region_idx = map_table_region (ct_region_size self) (tablet_id tablet)
      in case hm_get (ct_regions self) table_region_idx of
           Some region \<Rightarrow>
             if conflict then self\<lparr>ct_regions := hm_insert table_region_idx (mark_stale region) (ct_regions self)\<rparr> else self
         | None \<Rightarrow> self)"

definition update_region :: "u32 \<Rightarrow> tablet_metadata list option \<Rightarrow> cached_table \<Rightarrow> cached_table \<times> u32 \<times> nat list" where
  "update_region table_region_start tablets self =
     (let table_region_idx = map_table_region (ct_region_size self) table_region_start in
      case hm_get (ct_regions self) table_region_idx of
        None \<Rightarrow> (self, table_region_idx, [])
      | Some region \<Rightarrow>
          (case tablets of
             Some tablets \<Rightarrow>
               (case mark_fresh (map tablet_id tablets) region of
                  (region, notify) \<Rightarrow>
                    (self\<lparr>ct_tablets := fold insert_latest_tablet tablets (ct_tablets self),
                          ct_regions := hm_insert table_region_idx region (ct_regions self)\<rparr>,
                     table_region_idx, notify))
           | None \<Rightarrow>
               (self\<lparr>ct_regions := hm_insert table_region_idx (mark_stale region) (ct_regions self)\<rparr>,
                table_region_idx, [])))"

definition table_register_pending_query :: "nat \<Rightarrow> u32 \<Rightarrow> cached_table \<Rightarrow> cached_table run" where
  "table_register_pending_query resolve_request_id table_region_idx self =
     (case hm_get (ct_regions self) table_region_idx of
        Some region \<Rightarrow>
          and_then (region_register_pending_query resolve_request_id region) (\<lambda>region.
            Ok (self\<lparr>ct_regions := hm_insert table_region_idx region (ct_regions self)\<rparr>))
      | None \<Rightarrow> Ok self)"

text \<open>
  The loop of \<open>try_resolve_pending_query\<close> over the key hashes. The cyclic iterator over the
  tablet ids is the number \<open>pos\<close> of ids it has returned; the current id is the last of them.
\<close>

type_synonym resolved = "(table_query \<times> tablet_metadata) list"

definition push_resolved ::
  "cached_table \<Rightarrow> table_query \<Rightarrow> u32 \<Rightarrow> u32 list \<Rightarrow> resolved \<Rightarrow> resolved run" where
  "push_resolved self query curr_tablet_id curr_key_hashes resolve_result =
     (if curr_key_hashes = [] then Ok resolve_result
      else and_then (unwrap (hm_get (ct_tablets self) curr_tablet_id)) (\<lambda>tablet.
        Ok (resolve_result @ [(query_create_from query curr_key_hashes, tablet)])))"

fun merge_keys :: "cached_table \<Rightarrow> table_query \<Rightarrow> u32 list \<Rightarrow> u32 list \<Rightarrow> nat \<Rightarrow> u32 \<Rightarrow> u32 list \<Rightarrow> resolved \<Rightarrow> resolved run" where
  "merge_keys self query ids [] pos curr_tablet_id curr_key_hashes resolve_result =
     push_resolved self query curr_tablet_id curr_key_hashes resolve_result"
| "merge_keys self query ids (key_hash # keys) pos curr_tablet_id curr_key_hashes resolve_result =
     (if key_hash > curr_tablet_id
      then and_then (push_resolved self query curr_tablet_id curr_key_hashes resolve_result) (\<lambda>resolve_result.
             merge_keys self query ids keys (Suc pos) (ids ! (pos mod length ids)) [] resolve_result)
      else merge_keys self query ids keys pos curr_tablet_id (curr_key_hashes @ [key_hash]) resolve_result)"

definition try_resolve_pending_query :: "cached_table \<Rightarrow> u32 \<Rightarrow> table_query \<Rightarrow> resolved option run" where
  "try_resolve_pending_query self table_region_idx query =
     (case hm_get (ct_regions self) table_region_idx of
        None \<Rightarrow> Panic
      | Some region \<Rightarrow>
          (case maybe_fresh_tablet_ids region of
             None \<Rightarrow> Ok None
           | Some [] \<Rightarrow> Panic
           | Some (i # ids) \<Rightarrow>
               and_then (merge_keys self query (i # ids) (tq_key_hashes query) 1 i [] []) (\<lambda>r. Ok (Some r))))"

text \<open>
  The inner loop of \<open>split_and_map_query\<close>: the start of the region grows until its end, which is
  the greatest hash for the last region, is not below the key.
\<close>

function seek_region ::
  "u32 \<Rightarrow> table_query \<Rightarrow> u32 \<Rightarrow> u32 \<times> u32 list \<times> (table_query \<times> u32) list \<Rightarrow> u32 \<times> u32 list \<times> (table_query \<times> u32) list" where
  "seek_region region_size query key_hash (region_idx, region_key_hashes, result) =
     (if key_hash > snd (compute_table_region_bounds region_size region_idx)
      then seek_region region_size query key_hash
             (region_idx + 1, [],
              if region_key_hashes \<noteq> [] then result @ [(query_create_from query region_key_hashes, region_idx)] else result)
      else (region_idx, region_key_hashes, result))"
  by pat_completeness auto

lemma unat_max_minus: "unat (- 1 - w :: u32) = 2 ^ 32 - 1 - unat w"
  by (subst unat_sub) (simp_all add: unsigned_minus_1_eq_mask mask_eq_exp_minus_1)

lemma unat_u32: "unat (w :: u32) < 4294967296"
  using unsigned_less [of w, where ?'a = nat] by simp

lemma next_region_start:
  assumes "snd (compute_table_region_bounds region_size idx) < key"
  shows "unat ((idx + 1) * region_size) = unat (idx * region_size) + unat region_size \<and> region_size \<noteq> 0"
proof -
  let ?start = "idx * region_size"
  have ends: "\<not> ?start > - 1 - region_size" "?start + region_size - 1 < key"
    using assms by (auto simp: compute_table_region_bounds_def Let_def split: if_splits)
  have le: "unat ?start + unat region_size < 2 ^ 32"
    using ends(1) unat_u32 [of region_size] by (simp add: not_less word_le_nat_alt unat_max_minus)
  have nz: "region_size \<noteq> 0"
  proof
    assume "region_size = 0"
    then show False
      using ends(2) by simp
  qed
  have "(idx + 1) * region_size = ?start + region_size"
    by (simp add: algebra_simps)
  moreover have "unat (?start + region_size) = unat ?start + unat region_size"
    using le by (simp add: unat_word_ariths(1))
  ultimately show ?thesis
    using nz by simp
qed

termination seek_region
proof (relation "measure (\<lambda>(region_size, query, key, idx, keys, result). unat (- 1 - idx * region_size))")
  fix region_size idx key :: u32 and query :: table_query and keys :: "u32 list" and result :: "(table_query \<times> u32) list"
  assume "snd (compute_table_region_bounds region_size idx) < key"
  note step = next_region_start [OF this]
  have "unat (- 1 - (idx + 1) * region_size) < unat (- 1 - idx * region_size)"
    using step unat_u32 [of "(idx + 1) * region_size"] unat_gt_0 [of region_size]
    by (simp add: unat_max_minus)
  then show "((region_size, query, key, idx + 1, [],
        if keys \<noteq> [] then result @ [(query_create_from query keys, idx)] else result),
      region_size, query, key, idx, keys, result)
    \<in> measure (\<lambda>(region_size, query, key, idx, keys, result). unat (- 1 - idx * region_size))"
    by simp
qed simp

declare seek_region.simps [simp del]

definition split_key :: "u32 \<Rightarrow> table_query \<Rightarrow> u32 \<Rightarrow> u32 \<times> u32 list \<times> (table_query \<times> u32) list
    \<Rightarrow> u32 \<times> u32 list \<times> (table_query \<times> u32) list" where
  "split_key region_size query key_hash st =
     (case seek_region region_size query key_hash st of
        (region_idx, region_key_hashes, result) \<Rightarrow> (region_idx, region_key_hashes @ [key_hash], result))"

definition split_and_map_query :: "cached_table \<Rightarrow> table_query \<Rightarrow> (table_query \<times> u32) list \<Rightarrow> (table_query \<times> u32) list" where
  "split_and_map_query self query result =
     (case tq_key_hashes query of
        [] \<Rightarrow> result
      | first # _ \<Rightarrow>
          (case fold (split_key (ct_region_size self) query) (tq_key_hashes query)
                  (map_table_region (ct_region_size self) first, [], result) of
             (region_idx, region_key_hashes, result) \<Rightarrow>
               if region_key_hashes \<noteq> [] then result @ [(query_create_from query region_key_hashes, region_idx)]
               else result))"

section \<open>Resolve requests\<close>

record resolve_result =
  rr_table_query_id :: nat
  rr_table_name :: string
  rr_tablet_metadata :: tablet_metadata
  rr_key_hashes :: "u32 list"

definition take_resolve_result :: "resolve_result \<Rightarrow> table_query \<times> tablet_metadata" where
  "take_resolve_result r =
     (table_query_create (rr_table_query_id r) (rr_table_name r) (rr_key_hashes r), rr_tablet_metadata r)"

datatype 'c resolve_notification =
    NotifySource nat
  | NotifyHandler "(table_query \<times> tablet_descriptor) list \<Rightarrow> 'c \<Rightarrow> 'c run"

record 'c tablet_resolve =
  rv_notification :: "'c resolve_notification"
  rv_pending :: "(string \<times> u32, table_query) hmap"
  rv_results :: "(string \<times> u32, resolve_result) hmap"

text \<open>The result cores of the resolve requests and the state of the client.\<close>

type_synonym resolve_cores = "(resolved, tablets_request_status) result_cores"
type_synonym 'c world = "resolve_cores \<times> 'c"

definition append_result :: "table_query \<times> tablet_metadata \<Rightarrow> 'c tablet_resolve \<Rightarrow> 'c tablet_resolve" where
  "append_result qt self =
     (case qt of (query, tablet) \<Rightarrow>
        let key = (tq_table_name query, tablet_id tablet);
            entry = (case hm_get (rv_results self) key of
                 Some r \<Rightarrow> r
               | None \<Rightarrow> \<lparr> rr_table_query_id = tq_query_id query, rr_table_name = tq_table_name query,
                            rr_tablet_metadata = tablet, rr_key_hashes = [] \<rparr>)
        in self\<lparr>rv_results := hm_insert key (entry\<lparr>rr_key_hashes := rr_key_hashes entry @ tq_key_hashes query\<rparr>)
             (rv_results self)\<rparr>)"

definition append_results :: "resolved \<Rightarrow> 'c tablet_resolve \<Rightarrow> 'c tablet_resolve" where
  "append_results = fold append_result"

definition notify_resolved :: "'c resolve_notification \<Rightarrow> resolved \<Rightarrow> 'c world \<Rightarrow> 'c world run" where
  "notify_resolved notification results w =
     (case notification of
        NotifySource source \<Rightarrow> and_then (set_result source results (fst w)) (\<lambda>cores. Ok (cores, snd w))
      | NotifyHandler handler \<Rightarrow>
          and_then (handler (map (\<lambda>qt. (fst qt, \<lparr> td_tablet_id = tablet_id (snd qt), td_cache_ready = True \<rparr>)) results) (snd w))
            (\<lambda>c. Ok (fst w, c)))"

definition maybe_resolve_results :: "'c tablet_resolve \<Rightarrow> 'c world \<Rightarrow> ('c tablet_resolve \<times> 'c world) run" where
  "maybe_resolve_results self w =
     (if rv_pending self = []
      then and_then (notify_resolved (rv_notification self) (map (\<lambda>e. take_resolve_result (snd e)) (rv_results self)) w)
             (\<lambda>w. Ok (self\<lparr>rv_results := []\<rparr>, w))
      else Ok (self, w))"

type_synonym cached_tables = "(string, cached_table) hmap"

fun split_queries :: "cached_tables \<Rightarrow> table_query list \<Rightarrow> (table_query \<times> u32) list \<Rightarrow> (table_query \<times> u32) list run" where
  "split_queries tables [] result = Ok result"
| "split_queries tables (query # queries) result =
     and_then (unwrap (hm_get tables (tq_table_name query))) (\<lambda>table.
       split_queries tables queries (split_and_map_query table query result))"

fun resolve_split :: "nat \<Rightarrow> (table_query \<times> u32) list \<Rightarrow> 'c tablet_resolve \<Rightarrow> cached_tables
    \<Rightarrow> ('c tablet_resolve \<times> cached_tables) run" where
  "resolve_split resolve_request_id [] self tables = Ok (self, tables)"
| "resolve_split resolve_request_id ((query, table_region_idx) # rest) self tables =
     and_then (unwrap (hm_get tables (tq_table_name query))) (\<lambda>table.
     and_then (try_resolve_pending_query table table_region_idx query) (\<lambda>r.
       case r of
         Some table_query_result \<Rightarrow> resolve_split resolve_request_id rest (append_results table_query_result self) tables
       | None \<Rightarrow>
           and_then (table_register_pending_query resolve_request_id table_region_idx table) (\<lambda>table.
             resolve_split resolve_request_id rest
               (self\<lparr>rv_pending := hm_insert (tq_table_name query, table_region_idx) query (rv_pending self)\<rparr>)
               (hm_insert (tq_table_name query) table tables))))"

definition tablet_resolve_create :: "nat \<Rightarrow> table_query list \<Rightarrow> 'c resolve_notification \<Rightarrow> cached_tables \<Rightarrow> 'c world
    \<Rightarrow> ('c tablet_resolve \<times> cached_tables \<times> 'c world) run" where
  "tablet_resolve_create resolve_request_id queries notification tables w =
     and_then (split_queries tables queries []) (\<lambda>splits.
     and_then (resolve_split resolve_request_id splits
                 \<lparr> rv_notification = notification, rv_pending = [], rv_results = [] \<rparr> tables) (\<lambda>(self, tables).
     and_then (maybe_resolve_results self w) (\<lambda>(self, w). Ok (self, tables, w))))"

definition process_results_fresh :: "string \<Rightarrow> u32 \<Rightarrow> cached_table \<Rightarrow> 'c tablet_resolve \<Rightarrow> 'c world
    \<Rightarrow> ('c tablet_resolve \<times> 'c world) run" where
  "process_results_fresh table_name table_region_idx table self w =
     (case hm_get (rv_pending self) (table_name, table_region_idx) of
        Some query \<Rightarrow>
          and_then (try_resolve_pending_query table table_region_idx query) (\<lambda>r.
            case r of
              Some table_query_result \<Rightarrow>
                maybe_resolve_results (append_results table_query_result
                  (self\<lparr>rv_pending := hm_remove (table_name, table_region_idx) (rv_pending self)\<rparr>)) w
            | None \<Rightarrow> Panic)
      | None \<Rightarrow> maybe_resolve_results self w)"

section \<open>The metadata cache\<close>

datatype metadata_in_msg = ListResponse nat "tablet_op_result list"
datatype metadata_out_msg = ListRequest nat "tablet_op list"

record metadata_table_config =
  mtc_table_name :: string
  mtc_table_region_size :: u32

record 'c metadata_cache =
  mc_correlation_counter :: nat
  mc_resolve_request_counter :: nat
  mc_config :: "metadata_table_config list"
  mc_tables :: cached_tables
  mc_resolve_requests :: "(nat, 'c tablet_resolve) hmap"
  mc_out_messages :: "metadata_out_msg list"
  mc_results :: resolve_cores

definition metadata_cache_create :: "nat \<Rightarrow> 'c metadata_cache" where
  "metadata_cache_create correlation_counter =
     \<lparr> mc_correlation_counter = correlation_counter, mc_resolve_request_counter = 1, mc_config = [], mc_tables = [],
       mc_resolve_requests = [], mc_out_messages = [], mc_results = [] \<rparr>"

definition resolve_tablets_with_notification ::
  "table_query list \<Rightarrow> 'c resolve_notification \<Rightarrow> 'c metadata_cache \<Rightarrow> 'c \<Rightarrow> ('c metadata_cache \<times> 'c) run" where
  "resolve_tablets_with_notification queries notification self c =
     (let counter = mc_resolve_request_counter self + 1 in
      and_then (tablet_resolve_create counter queries notification (mc_tables self) (mc_results self, c))
        (\<lambda>(resolve_request, tables, cores, c).
          Ok (self\<lparr>mc_resolve_request_counter := counter, mc_tables := tables,
                   mc_resolve_requests := hm_insert counter resolve_request (mc_resolve_requests self),
                   mc_results := cores\<rparr>, c)))"

fun create_cached_tables :: "metadata_table_config list \<Rightarrow> cached_tables \<Rightarrow> cached_tables run" where
  "create_cached_tables [] tables = Ok tables"
| "create_cached_tables (config # configs) tables =
     and_then (cached_table_create (mtc_table_name config) (mtc_table_region_size config)) (\<lambda>table.
       create_cached_tables configs (hm_insert (mtc_table_name config) table tables))"

definition metadata_init :: "metadata_table_config list \<Rightarrow> 'c metadata_cache \<Rightarrow> 'c metadata_cache run" where
  "metadata_init config self =
     and_then (create_cached_tables config (mc_tables self)) (\<lambda>tables. Ok (self\<lparr>mc_config := config, mc_tables := tables\<rparr>))"

definition metadata_make_progress :: "'c metadata_cache \<Rightarrow> 'c metadata_cache" where
  "metadata_make_progress self =
     (let prepared = map (\<lambda>e. (fst e, table_prepare_list_op (snd e))) (mc_tables self);
          list_ops = concat (map (\<lambda>e. snd (snd e)) prepared);
          self = self\<lparr>mc_tables := map (\<lambda>e. (fst e, fst (snd e))) prepared\<rparr>
      in if list_ops \<noteq> []
         then self\<lparr>mc_correlation_counter := mc_correlation_counter self + 1,
                   mc_out_messages := mc_out_messages self @ [ListRequest (mc_correlation_counter self + 1) list_ops]\<rparr>
         else self)"

definition resolve_tablets :: "table_query list \<Rightarrow> 'c metadata_cache \<Rightarrow> 'c \<Rightarrow> ('c metadata_cache \<times> 'c \<times> nat) run" where
  "resolve_tablets queries self c =
     (case create_eventual_result (mc_results self) of
        (cores, handle) \<Rightarrow>
          and_then (resolve_tablets_with_notification queries (NotifySource handle) (self\<lparr>mc_results := cores\<rparr>) c)
            (\<lambda>(self, c). Ok (self, c, handle)))"

definition resolve_tablets_with_handler :: "table_query list \<Rightarrow> ((table_query \<times> tablet_descriptor) list \<Rightarrow> 'c \<Rightarrow> 'c run)
    \<Rightarrow> 'c metadata_cache \<Rightarrow> 'c \<Rightarrow> ('c metadata_cache \<times> 'c) run" where
  "resolve_tablets_with_handler queries handler self c =
     resolve_tablets_with_notification queries (NotifyHandler handler) self c"

definition metadata_update_tablet :: "string \<Rightarrow> tablet_metadata \<Rightarrow> bool \<Rightarrow> 'c metadata_cache \<Rightarrow> 'c metadata_cache" where
  "metadata_update_tablet table_name tablet conflict self =
     (case hm_get (mc_tables self) table_name of
        Some table \<Rightarrow> self\<lparr>mc_tables := hm_insert table_name (table_update_tablet tablet conflict table) (mc_tables self)\<rparr>
      | None \<Rightarrow> self)"

fun notify_requests :: "string \<Rightarrow> u32 \<Rightarrow> cached_table \<Rightarrow> nat list \<Rightarrow> (nat, 'c tablet_resolve) hmap \<Rightarrow> 'c world
    \<Rightarrow> ((nat, 'c tablet_resolve) hmap \<times> 'c world) run" where
  "notify_requests table_name table_region_idx table [] requests w = Ok (requests, w)"
| "notify_requests table_name table_region_idx table (resolve_request_id # rest) requests w =
     (case hm_get requests resolve_request_id of
        Some resolve_request \<Rightarrow>
          and_then (process_results_fresh table_name table_region_idx table resolve_request w) (\<lambda>(resolve_request, w).
            notify_requests table_name table_region_idx table rest
              (hm_insert resolve_request_id resolve_request requests) w)
      | None \<Rightarrow> notify_requests table_name table_region_idx table rest requests w)"

definition process_list_result :: "tablet_op_result \<Rightarrow> 'c metadata_cache \<Rightarrow> 'c \<Rightarrow> ('c metadata_cache \<times> 'c) run" where
  "process_list_result r self c =
     (case tor_op_result r of
        Some (ListTabletResult key_hash_from key_hash_to tablets) \<Rightarrow>
          (case hm_get (mc_tables self) (tor_table_name r) of
             None \<Rightarrow> Ok (self, c)
           | Some table \<Rightarrow>
               (case update_region key_hash_from (if tor_status r = OpSucceeded then Some tablets else None) table of
                  (table, table_region_idx, notify) \<Rightarrow>
                    and_then (notify_requests (tor_table_name r) table_region_idx table notify
                                (mc_resolve_requests self) (mc_results self, c)) (\<lambda>(requests, cores, c).
                      Ok (self\<lparr>mc_tables := hm_insert (tor_table_name r) table (mc_tables self),
                               mc_resolve_requests := requests, mc_results := cores\<rparr>, c))))
      | _ \<Rightarrow> Panic)"

fun process_list_results :: "tablet_op_result list \<Rightarrow> 'c metadata_cache \<Rightarrow> 'c \<Rightarrow> ('c metadata_cache \<times> 'c) run" where
  "process_list_results [] self c = Ok (self, c)"
| "process_list_results (r # rs) self c =
     and_then (process_list_result r self c) (\<lambda>(self, c). process_list_results rs self c)"

definition metadata_process_in_message :: "metadata_in_msg \<Rightarrow> 'c metadata_cache \<Rightarrow> 'c \<Rightarrow> ('c metadata_cache \<times> 'c) run" where
  "metadata_process_in_message in_message self c =
     (case in_message of ListResponse correlation_id results \<Rightarrow> process_list_results results self c)"

definition metadata_take_out_messages :: "'c metadata_cache \<Rightarrow> 'c metadata_cache \<times> metadata_out_msg list" where
  "metadata_take_out_messages self = (self\<lparr>mc_out_messages := []\<rparr>, mc_out_messages self)"

section \<open>Key sets\<close>

definition btree_set :: "u32 list \<Rightarrow> u32 list" where
  "btree_set ks = fold (\<lambda>k s. fst (bts_insert k s)) ks []"

lemma btree_set_from: "bts_wf s \<Longrightarrow>
    bts_wf (fold (\<lambda>k s. fst (bts_insert k s)) ks s) \<and> set (fold (\<lambda>k s. fst (bts_insert k s)) ks s) = set ks \<union> set s"
  by (induction ks arbitrary: s) (simp_all add: bts_wf_insert bts_insert_set)

lemma btree_set_wf [simp]: "bts_wf (btree_set ks)" and btree_set_set [simp]: "set (btree_set ks) = set ks"
  using btree_set_from [of "[]" ks] by (simp_all add: btree_set_def bts_wf_def)

lemma btree_set_id: "bts_wf ks \<Longrightarrow> btree_set ks = ks"
  by (rule bts_ext) simp_all

lemma query_fields [simp]:
  "tq_query_id (query_create_from q ks) = tq_query_id q"
  "tq_table_name (query_create_from q ks) = tq_table_name q"
  "tq_key_hashes (query_create_from q ks) = btree_set ks"
  "tq_query_id (table_query_create i name ks) = i"
  "tq_table_name (table_query_create i name ks) = name"
  "tq_key_hashes (table_query_create i name ks) = btree_set ks"
  by (simp_all add: query_create_from_def table_query_create_def btree_set_def)

section \<open>Regions of the ring\<close>

text \<open>The regions up to the one of a key start without wrapping, and the next one is reached while the key is beyond.\<close>

lemma region_start:
  fixes region_size idx key :: u32
  assumes "idx \<le> key div region_size"
  shows "unat (idx * region_size) = unat idx * unat region_size \<and> unat idx * unat region_size \<le> unat key"
proof -
  have "unat idx \<le> unat key div unat region_size"
    using assms by (simp add: word_le_nat_alt unat_div_distrib)
  then have le: "unat idx * unat region_size \<le> unat key"
    by (metis div_times_less_eq_dividend le_trans mult_le_mono1)
  then have "unat idx * unat region_size < 2 ^ 32"
    using unat_u32 [of key] by simp
  then show ?thesis
    using le by (simp add: unat_word_ariths(2))
qed

lemma region_end:
  assumes "idx \<le> key div region_size" "region_size \<noteq> 0"
  shows "snd (compute_table_region_bounds region_size idx) < key \<longleftrightarrow> idx \<noteq> key div region_size"
proof -
  note start = region_start [OF assms(1)]
  let ?s = "unat region_size" and ?i = "unat idx" and ?k = "unat key"
  have pos: "0 < ?s"
    using assms(2) by (simp add: unat_gt_0)
  have le: "?i \<le> ?k div ?s"
    using assms(1) by (simp add: word_le_nat_alt unat_div_distrib)
  have eq: "idx = key div region_size \<longleftrightarrow> \<not> (?i + 1) * ?s \<le> ?k"
    using le pos by (simp add: unat_div_distrib word_unat_eq_iff)
      (metis Suc_eq_plus1 div_times_less_eq_dividend le_antisym less_eq_div_iff_mult_less_eq mult_Suc not_less_eq_eq)
  show ?thesis
  proof (cases "idx * region_size > - 1 - region_size")
    case True
    then have "2 ^ 32 - 1 - ?s < ?i * ?s"
      using start by (simp add: word_less_nat_alt unat_max_minus)
    then have "\<not> (?i + 1) * ?s \<le> ?k"
      using unat_u32 [of key] by simp
    moreover have "\<not> - 1 < key"
      by (simp add: not_less word_n1_ge)
    ultimately show ?thesis
      using True eq by (simp add: compute_table_region_bounds_def Let_def)
  next
    case False
    then have sum: "?i * ?s + ?s < 2 ^ 32"
      using start unat_u32 [of region_size] by (simp add: not_less word_le_nat_alt unat_max_minus)
    then have "unat (idx * region_size + region_size) = ?i * ?s + ?s"
      using start by (simp add: unat_word_ariths(1))
    moreover have "idx * region_size + region_size \<noteq> 0"
      using calculation pos by (metis add_is_0 less_irrefl unat_0)
    ultimately have "unat (idx * region_size + region_size - 1) = ?i * ?s + ?s - 1"
      by (simp add: unat_minus_one)
    then have "snd (compute_table_region_bounds region_size idx) < key \<longleftrightarrow> ?i * ?s + ?s - 1 < ?k"
      using False by (simp add: compute_table_region_bounds_def Let_def word_less_nat_alt)
    then show ?thesis
      using eq pos by auto
  qed
qed

lemma region_bounds:
  assumes "region_size \<noteq> 0" "map_table_region region_size key = idx"
  shows "fst (compute_table_region_bounds region_size idx) \<le> key \<and> key \<le> snd (compute_table_region_bounds region_size idx)"
proof -
  have idx: "idx = key div region_size"
    using assms(2) by (simp add: map_table_region_def)
  have "idx * region_size \<le> key"
    using region_start [of idx key region_size] by (simp add: idx word_le_nat_alt)
  moreover have "key \<le> snd (compute_table_region_bounds region_size idx)"
    using region_end [of idx key region_size] assms(1) by (simp add: idx not_less)
  ultimately show ?thesis
    by (simp add: compute_table_region_bounds_def Let_def)
qed

lemma seek_region_result:
  assumes "idx \<le> key div region_size" "region_size \<noteq> 0"
  shows "seek_region region_size query key (idx, keys, result) =
    (if idx = key div region_size then (idx, keys, result)
     else (key div region_size, [], if keys \<noteq> [] then result @ [(query_create_from query keys, idx)] else result))"
  using assms
proof (induction region_size query key "(idx, keys, result)" arbitrary: idx keys result rule: seek_region.induct)
  case (1 region_size query key idx keys result)
  show ?case
  proof (cases "idx = key div region_size")
    case False
    then have "idx + 1 \<le> key div region_size"
      using 1(2) by (intro inc_le) simp
    moreover have "snd (compute_table_region_bounds region_size idx) < key"
      using 1(2,3) False by (simp add: region_end)
    ultimately show ?thesis
      using 1(1) 1(3) False by (subst seek_region.simps) simp
  next
    case True
    then have "\<not> snd (compute_table_region_bounds region_size idx) < key"
      using 1(2,3) by (simp add: region_end)
    then show ?thesis
      using True by (subst seek_region.simps) simp
  qed
qed

section \<open>Splitting a query\<close>

lemma region_mono: "(j :: u32) \<le> k \<Longrightarrow> j div region_size \<le> k div region_size"
  by (simp add: word_le_nat_alt unat_div_distrib div_le_mono)

definition region_piece :: "u32 \<Rightarrow> table_query \<Rightarrow> table_query \<times> u32 \<Rightarrow> bool" where
  "region_piece region_size query p \<longleftrightarrow>
     tq_query_id (fst p) = tq_query_id query \<and> tq_table_name (fst p) = tq_table_name query \<and> tq_key_hashes (fst p) \<noteq> [] \<and>
     list_all (\<lambda>k. map_table_region region_size k = snd p) (tq_key_hashes (fst p))"

definition finish_split :: "table_query \<Rightarrow> u32 \<times> u32 list \<times> (table_query \<times> u32) list \<Rightarrow> (table_query \<times> u32) list" where
  "finish_split query st = (case st of (idx, keys, result) \<Rightarrow>
     if keys \<noteq> [] then result @ [(query_create_from query keys, idx)] else result)"

lemma split_and_map_query_unfold:
  "split_and_map_query table query result =
     (case tq_key_hashes query of [] \<Rightarrow> result
      | first # _ \<Rightarrow> finish_split query (fold (split_key (ct_region_size table) query) (tq_key_hashes query)
          (map_table_region (ct_region_size table) first, [], result)))"
  by (simp add: split_and_map_query_def finish_split_def split: list.split)

lemma finish_split_pieces:
  assumes "region_size \<noteq> 0"
  shows "bts_wf (acc @ ks) \<Longrightarrow> list_all (\<lambda>k. k div region_size = idx) acc \<Longrightarrow> list_all (\<lambda>k. idx \<le> k div region_size) ks \<Longrightarrow>
    \<exists>pieces. finish_split query (fold (split_key region_size query) ks (idx, acc, result)) = result @ pieces \<and>
      concat (map (\<lambda>p. tq_key_hashes (fst p)) pieces) = acc @ ks \<and> list_all (region_piece region_size query) pieces \<and>
      sorted_wrt (<) (map snd pieces) \<and> list_all (\<lambda>p. idx \<le> snd p) pieces"
proof (induction ks arbitrary: idx acc result)
  case Nil
  let ?p = "(query_create_from query acc, idx)"
  have "region_piece region_size query ?p" if "acc \<noteq> []"
    using that Nil by (simp add: region_piece_def btree_set_id map_table_region_def)
  then show ?case
    using Nil by (intro exI [of _ "if acc = [] then [] else [?p]"]) (simp add: finish_split_def btree_set_id)
next
  case (Cons k ks)
  show ?case
  proof (cases "idx = k div region_size")
    case True
    then have "split_key region_size query k (idx, acc, result) = (idx, acc @ [k], result)"
      by (simp add: split_key_def seek_region_result assms)
    then show ?thesis
      using Cons.IH [of "acc @ [k]" idx result] Cons.prems True by simp
  next
    case False
    let ?old = "if acc \<noteq> [] then [(query_create_from query acc, idx)] else []"
    have lt: "idx < k div region_size"
      using Cons.prems(3) False by (simp add: order.strict_iff_order)
    have wf: "bts_wf acc" "bts_wf ([k] @ ks)" and less: "list_all (\<lambda>j. k < j) ks"
      using Cons.prems(1) by (auto simp: bts_wf_def sorted_wrt_append list_all_iff)
    have "split_key region_size query k (idx, acc, result) = (k div region_size, [k], result @ ?old)"
      using Cons.prems(3) False by (simp add: split_key_def seek_region_result assms)
    moreover have "list_all (\<lambda>j. k div region_size \<le> j div region_size) ks"
      using less by (auto simp: list_all_iff intro: region_mono less_imp_le)
    then obtain pieces where pieces:
      "finish_split query (fold (split_key region_size query) ks (k div region_size, [k], result @ ?old)) = (result @ ?old) @ pieces"
      "concat (map (\<lambda>p. tq_key_hashes (fst p)) pieces) = k # ks" "list_all (region_piece region_size query) pieces"
      "sorted_wrt (<) (map snd pieces)" "list_all (\<lambda>p. k div region_size \<le> snd p) pieces"
      using Cons.IH [of "[k]" "k div region_size" "result @ ?old"] wf(2) by auto
    moreover have "list_all (region_piece region_size query) ?old"
      using Cons.prems(2) wf(1) by (simp add: region_piece_def btree_set_id map_table_region_def)
    moreover have "list_all (\<lambda>p. idx < snd p) pieces"
      using pieces(5) lt by (auto simp: list_all_iff)
    ultimately show ?thesis
      using wf(1) by (intro exI [of _ "?old @ pieces"]) (auto simp: btree_set_id list_all_iff less_imp_le)
  qed
qed

lemma split_query_pieces:
  assumes "ct_region_size table \<noteq> 0" "bts_wf (tq_key_hashes query)"
  shows "\<exists>pieces. split_and_map_query table query result = result @ pieces \<and>
    concat (map (\<lambda>p. tq_key_hashes (fst p)) pieces) = tq_key_hashes query \<and>
    list_all (region_piece (ct_region_size table) query) pieces \<and> sorted_wrt (<) (map snd pieces)"
proof (cases "tq_key_hashes query")
  case (Cons k ks)
  have "list_all (\<lambda>j. k div ct_region_size table \<le> j div ct_region_size table) (k # ks)"
    using assms(2) by (auto simp: Cons bts_wf_def list_all_iff intro: region_mono order.strict_implies_order)
  then show ?thesis
    using finish_split_pieces [OF assms(1), of "[]" "k # ks" "k div ct_region_size table" query result] assms(2)
    by (auto simp: split_and_map_query_unfold Cons map_table_region_def)
qed (simp add: split_and_map_query_unfold)

section \<open>Resolving a query in a region\<close>

text \<open>The tablet at or after a key among the tablets of a region.\<close>

definition region_owner :: "u32 list \<Rightarrow> u32 \<Rightarrow> u32 \<Rightarrow> bool" where
  "region_owner ids k i \<longleftrightarrow> i \<in> set ids \<and> k \<le> i \<and> (\<forall>j \<in> set ids. k \<le> j \<longrightarrow> i \<le> j)"

text \<open>
  The position in the cycle of tablet ids: either the current tablet is in its place and the
  tablets before it are below the keys to come, or all tablets are.
\<close>

definition merge_at :: "u32 list \<Rightarrow> nat \<Rightarrow> u32 \<Rightarrow> u32 list \<Rightarrow> bool" where
  "merge_at ids pos cur ks \<longleftrightarrow> cur \<in> set ids \<and>
     ((0 < pos \<and> pos \<le> length ids \<and> cur = ids ! (pos - 1) \<and> (\<forall>j < pos - 1. \<forall>k \<in> set ks. ids ! j < k)) \<or>
      (\<forall>i \<in> set ids. \<forall>k \<in> set ks. i < k))"

lemma merge_at_keep:
  assumes "merge_at ids pos cur (k # ks)" "bts_wf ids" "k \<le> cur"
  shows "region_owner ids k cur"
proof -
  have pos: "0 < pos" "pos \<le> length ids" "cur = ids ! (pos - 1)" "\<And>j. j < pos - 1 \<Longrightarrow> ids ! j < k"
    using assms(1,3) by (auto simp: merge_at_def)
  have "cur \<le> i" if i: "i \<in> set ids" "k \<le> i" for i
  proof -
    obtain j where j: "j < length ids" "i = ids ! j"
      using i(1) by (auto simp: in_set_conv_nth)
    have "pos - 1 \<le> j"
      using pos(4) [of j] i(2) j(2) by force
    then show ?thesis
      using assms(2) pos j sorted_nth_mono [of ids "pos - 1" j] by (simp add: bts_wf_def strict_sorted_iff)
  qed
  then show ?thesis
    using assms(1,3) by (simp add: region_owner_def merge_at_def)
qed

lemma merge_at_next:
  assumes "merge_at ids pos cur (k # ks)" "bts_wf (k # ks)" "bts_wf ids" "cur < k"
  shows "merge_at ids (Suc pos) (ids ! (pos mod length ids)) ks"
proof -
  have ids: "ids \<noteq> []" and less: "\<And>j. j \<in> set ks \<Longrightarrow> k < j"
    using assms(1,2) by (auto simp: merge_at_def bts_wf_def)
  have in_ids: "ids ! (pos mod length ids) \<in> set ids"
    using ids by simp
  consider (wrapped) "\<forall>i \<in> set ids. i < k"
    | (inside) "0 < pos" "pos < length ids" "cur = ids ! (pos - 1)" "\<And>j. j < pos - 1 \<Longrightarrow> ids ! j < k"
    | (last) "0 < pos" "pos = length ids" "cur = ids ! (pos - 1)" "\<And>j. j < pos - 1 \<Longrightarrow> ids ! j < k"
    using assms(1) by (fastforce simp: merge_at_def le_less)
  then show ?thesis
  proof cases
    case wrapped
    then show ?thesis
      using in_ids less by (fastforce simp: merge_at_def)
  next
    case inside
    have "ids ! j < k" if "j < pos" for j
      using inside(4) [of j] inside(3) assms(4) that by (cases "j = pos - 1") auto
    then show ?thesis
      using inside in_ids less by (fastforce simp: merge_at_def)
  next
    case last
    have "ids ! j < k" if "j < length ids" for j
      using last(4) [of j] last(2,3) assms(4) that by (cases "j = pos - 1") auto
    then have "\<forall>i \<in> set ids. i < k"
      by (auto simp: in_set_conv_nth)
    then show ?thesis
      using in_ids less by (fastforce simp: merge_at_def)
  qed
qed

definition resolves_to_owners :: "u32 list \<Rightarrow> table_query \<Rightarrow> u32 list \<Rightarrow> table_query \<times> tablet_metadata \<Rightarrow> bool" where
  "resolves_to_owners ids query ks p \<longleftrightarrow>
     tq_query_id (fst p) = tq_query_id query \<and> tq_table_name (fst p) = tq_table_name query \<and> tq_key_hashes (fst p) \<noteq> [] \<and>
     (\<forall>k \<in> set (tq_key_hashes (fst p)). k \<in> set ks \<and> region_owner ids k (tablet_id (snd p)))"

lemma push_resolved_owners:
  assumes "\<And>i. i \<in> set ids \<Longrightarrow> \<exists>t. hm_get (ct_tablets self) i = Some t \<and> tablet_id t = i"
    and "cur \<in> set ids" "list_all (\<lambda>k. region_owner ids k cur) acc" "set acc \<subseteq> set ks"
  shows "\<exists>new. push_resolved self query cur acc out = Ok (out @ new) \<and> list_all (resolves_to_owners ids query ks) new"
proof -
  obtain t where t: "hm_get (ct_tablets self) cur = Some t" "tablet_id t = cur"
    using assms(1,2) by blast
  have "btree_set acc \<noteq> []" if "acc \<noteq> []"
    using that btree_set_set [of acc] by (metis set_empty)
  then have "acc \<noteq> [] \<Longrightarrow> resolves_to_owners ids query ks (query_create_from query acc, t)"
    using assms(3,4) t(2) by (auto simp: resolves_to_owners_def list_all_iff)
  then show ?thesis
    using t(1) by (cases "acc = []") (auto simp: push_resolved_def)
qed

lemma resolves_to_owners_mono: "set ks \<subseteq> set ls \<Longrightarrow> list_all (resolves_to_owners ids query ks) ps \<Longrightarrow>
    list_all (resolves_to_owners ids query ls) ps"
  by (fastforce simp: list_all_iff resolves_to_owners_def)

lemma merge_keys_owners:
  assumes tablets: "\<And>i. i \<in> set ids \<Longrightarrow> \<exists>t. hm_get (ct_tablets self) i = Some t \<and> tablet_id t = i" and ids: "bts_wf ids"
  shows "merge_at ids pos cur ks \<Longrightarrow> bts_wf ks \<Longrightarrow> list_all (\<lambda>k. region_owner ids k cur) acc \<Longrightarrow>
    \<exists>new. merge_keys self query ids ks pos cur acc out = Ok (out @ new) \<and> list_all (resolves_to_owners ids query (acc @ ks)) new"
proof (induction ks arbitrary: pos cur acc out)
  case Nil
  then show ?case
    using push_resolved_owners [OF tablets _ Nil(3), of acc query out] by (simp add: merge_at_def)
next
  case (Cons k ks)
  have wf: "bts_wf ks"
    using Cons.prems(2) by (simp add: bts_wf_def)
  show ?case
  proof (cases "k > cur")
    case True
    obtain old where old: "push_resolved self query cur acc out = Ok (out @ old)"
      "list_all (resolves_to_owners ids query (acc @ k # ks)) old"
      using push_resolved_owners [OF tablets _ Cons.prems(3), of "acc @ k # ks" query out] Cons.prems(1)
      by (auto simp: merge_at_def)
    obtain new where new: "merge_keys self query ids ks (Suc pos) (ids ! (pos mod length ids)) [] (out @ old) = Ok ((out @ old) @ new)"
      "list_all (resolves_to_owners ids query ks) new"
      using Cons.IH [OF merge_at_next [OF Cons.prems(1,2) ids True] wf, of "[]" "out @ old"] by auto
    have "list_all (resolves_to_owners ids query (acc @ k # ks)) new"
      using new(2) by (rule resolves_to_owners_mono [rotated]) auto
    then show ?thesis
      using True old new(1) by simp
  next
    case False
    then have "region_owner ids k cur"
      using merge_at_keep [OF Cons.prems(1) ids] by simp
    moreover have "merge_at ids pos cur ks"
      using Cons.prems(1) by (auto simp: merge_at_def)
    ultimately show ?thesis
      using Cons.IH [of pos cur "acc @ [k]" out] Cons.prems(3) wf False by simp
  qed
qed

section \<open>The invariant of a cached table\<close>

definition region_wf :: "(u32, tablet_metadata) hmap \<Rightarrow> table_region \<Rightarrow> bool" where
  "region_wf tablets region \<longleftrightarrow> bts_wf (rg_tablet_ids region) \<and> list_all (hm_contains tablets) (rg_tablet_ids region)"

definition cached_table_wf :: "cached_table \<Rightarrow> bool" where
  "cached_table_wf table \<longleftrightarrow> ct_region_size table \<noteq> 0 \<and> hm_wf (ct_regions table) \<and> hm_wf (ct_tablets table) \<and>
     list_all (\<lambda>e. tablet_id (snd e) = fst e) (ct_tablets table) \<and>
     list_all (\<lambda>e. region_wf (ct_tablets table) (snd e)) (ct_regions table)"

lemma insert_latest_tablet_effect:
  assumes "hm_wf tablets" "list_all (\<lambda>e. tablet_id (snd e) = fst e) tablets"
  shows "hm_wf (insert_latest_tablet t tablets) \<and> list_all (\<lambda>e. tablet_id (snd e) = fst e) (insert_latest_tablet t tablets) \<and>
    (\<forall>i. hm_contains (insert_latest_tablet t tablets) i \<longleftrightarrow> i = tablet_id t \<or> hm_contains tablets i)"
  using assms
  by (auto simp: insert_latest_tablet_def hm_contains_def map_laws hm_insert_all split: option.split)

lemma insert_latest_tablets_effect:
  assumes "hm_wf tablets" "list_all (\<lambda>e. tablet_id (snd e) = fst e) tablets"
  shows "hm_wf (fold insert_latest_tablet ts tablets) \<and>
    list_all (\<lambda>e. tablet_id (snd e) = fst e) (fold insert_latest_tablet ts tablets) \<and>
    (\<forall>i. hm_contains (fold insert_latest_tablet ts tablets) i \<longleftrightarrow> i \<in> tablet_id ` set ts \<or> hm_contains tablets i)"
  using assms
proof (induction ts arbitrary: tablets)
  case (Cons t ts)
  then show ?case
    using insert_latest_tablet_effect [OF Cons.prems, of t] Cons.IH [of "insert_latest_tablet t tablets"] by auto
qed simp

lemma region_wf_mono: "region_wf tablets region \<Longrightarrow> (\<And>i. hm_contains tablets i \<Longrightarrow> hm_contains tablets' i) \<Longrightarrow> region_wf tablets' region"
  by (auto simp: region_wf_def list_all_iff)

lemma cached_table_create_wf: "cached_table_create name region_size = Ok table \<Longrightarrow> cached_table_wf table"
proof -
  assume "cached_table_create name region_size = Ok table"
  then have table: "table = \<lparr> ct_table_name = name, ct_region_size = region_size,
      ct_regions = map (\<lambda>i. (word_of_nat i, region_create)) [0..<unat (- 1 div region_size)], ct_tablets = [] \<rparr>"
    and size: "region_size \<noteq> 0"
    by (auto simp: cached_table_create_def Let_def split: if_splits)
  have "inj_on (word_of_nat :: nat \<Rightarrow> u32) {0..<unat (- 1 div region_size)}"
    using unat_u32 [of "- 1 div region_size"] by (intro inj_onI) (simp add: word_of_nat_eq_iff take_bit_nat_eq_self)
  then have "hm_wf (ct_regions table)"
    by (simp add: table hm_wf_def distinct_map comp_def)
  then show ?thesis
    using size by (simp add: cached_table_wf_def table hm_wf_def region_wf_def region_create_def bts_wf_def list_all_iff)
qed

lemma cached_table_regionsI:
  assumes "cached_table_wf table" "hm_wf regions" "\<And>e. e \<in> set regions \<Longrightarrow> region_wf (ct_tablets table) (snd e)"
  shows "cached_table_wf (table\<lparr>ct_regions := regions\<rparr>)"
  using assms by (simp add: cached_table_wf_def list_all_iff)

lemma cached_table_put_region:
  assumes "cached_table_wf table" "region_wf (ct_tablets table) region"
  shows "cached_table_wf (table\<lparr>ct_regions := hm_insert i region (ct_regions table)\<rparr>)"
  using assms by (simp add: cached_table_wf_def map_laws hm_insert_all)

lemma cached_table_put_tablets:
  assumes "cached_table_wf table"
  shows "cached_table_wf (table\<lparr>ct_tablets := fold insert_latest_tablet ts (ct_tablets table)\<rparr>)"
proof -
  have tablets: "hm_wf (ct_tablets table)" "list_all (\<lambda>e. tablet_id (snd e) = fst e) (ct_tablets table)"
    using assms by (simp_all add: cached_table_wf_def)
  show ?thesis
    using assms insert_latest_tablets_effect [OF tablets, of ts]
    by (auto simp: cached_table_wf_def list_all_iff intro: region_wf_mono)
qed

lemma cached_table_region:
  "cached_table_wf table \<Longrightarrow> hm_get (ct_regions table) i = Some region \<Longrightarrow> region_wf (ct_tablets table) region"
  by (auto simp: cached_table_wf_def list_all_iff dest!: hm_get_Some_in)

lemma mark_stale_wf: "region_wf tablets (mark_stale region)"
  by (simp add: mark_stale_def region_wf_def bts_wf_def)

lemma table_prepare_list_op_wf:
  assumes "cached_table_wf table"
  shows "cached_table_wf (fst (table_prepare_list_op table))"
proof -
  have ids: "rg_tablet_ids (fst (maybe_prepare_list_op a b region)) = rg_tablet_ids region" for a b region
    by (simp add: maybe_prepare_list_op_def split: region_state.split)
  show ?thesis
    using assms
    by (auto simp: table_prepare_list_op_def Let_def cached_table_wf_def hm_wf_def comp_def list_all_iff region_wf_def ids
        split_beta)
qed

lemma table_update_tablet_wf: "cached_table_wf table \<Longrightarrow> cached_table_wf (table_update_tablet t conflict table)"
  using cached_table_put_tablets [of table "[t]"]
    cached_table_put_region [OF cached_table_put_tablets [of table "[t]"] mark_stale_wf]
  by (auto simp: table_update_tablet_def Let_def split: option.split)

lemma table_register_pending_query_wf:
  "cached_table_wf table \<Longrightarrow> table_register_pending_query i idx table = Ok table' \<Longrightarrow> cached_table_wf table'"
  using cached_table_region [of table idx]
  by (auto simp: table_register_pending_query_def region_register_pending_query_def region_wf_def result_simps
      intro!: cached_table_put_region split: option.splits region_state.splits)

lemma update_region_wf: "cached_table_wf table \<Longrightarrow> cached_table_wf (fst (update_region start tablets table))"
proof -
  assume wf: "cached_table_wf table"
  have tablets: "hm_wf (ct_tablets table)" "list_all (\<lambda>e. tablet_id (snd e) = fst e) (ct_tablets table)"
    using wf by (simp_all add: cached_table_wf_def)
  have fresh: "region_wf (fold insert_latest_tablet ts (ct_tablets table)) (fst (mark_fresh (map tablet_id ts) region))" for ts region
    using insert_latest_tablets_effect [OF tablets, of ts] by (simp add: region_wf_def mark_fresh_def list_all_iff btree_set_def [symmetric])
  show ?thesis
    using wf cached_table_put_region [OF cached_table_put_tablets [OF wf]] fresh cached_table_put_region [OF wf mark_stale_wf]
    by (simp add: update_region_def Let_def split_beta split: option.split)
qed

text \<open>With the invariant, a query of a fresh region with tablets is resolved, and every resolved key to its owner.\<close>

lemma try_resolve_owners:
  assumes "cached_table_wf table" "hm_get (ct_regions table) idx = Some region" "rg_state region = Fresh"
    and "rg_tablet_ids region \<noteq> []" "bts_wf (tq_key_hashes query)"
  shows "\<exists>r. try_resolve_pending_query table idx query = Ok (Some r) \<and>
    list_all (resolves_to_owners (rg_tablet_ids region) query (tq_key_hashes query)) r"
proof -
  obtain i ids where ids: "rg_tablet_ids region = i # ids"
    using assms(4) by (cases "rg_tablet_ids region") auto
  have wf: "bts_wf (i # ids)" "list_all (hm_contains (ct_tablets table)) (i # ids)"
    using cached_table_region [OF assms(1,2)] by (simp_all add: region_wf_def ids)
  have "\<exists>t. hm_get (ct_tablets table) j = Some t \<and> tablet_id t = j" if "j \<in> set (i # ids)" for j
    using wf(2) that assms(1) by (fastforce simp: list_all_iff hm_contains_def cached_table_wf_def dest: hm_get_Some_in)
  moreover have "merge_at (i # ids) 1 i (tq_key_hashes query)"
    by (simp add: merge_at_def)
  ultimately obtain r where "merge_keys table query (i # ids) (tq_key_hashes query) 1 i [] [] = Ok r"
    "list_all (resolves_to_owners (i # ids) query (tq_key_hashes query)) r"
    using merge_keys_owners [of "i # ids" table 1 i "tq_key_hashes query" "[]" query "[]"] wf(1) assms(5) by auto
  then show ?thesis
    using assms(2,3) by (simp add: try_resolve_pending_query_def maybe_fresh_tablet_ids_def ids)
qed

section \<open>The invariant of the cache\<close>

definition tables_wf :: "cached_tables \<Rightarrow> bool" where
  "tables_wf tables \<longleftrightarrow> hm_wf tables \<and> list_all (\<lambda>e. cached_table_wf (snd e)) tables"

definition metadata_wf :: "'c metadata_cache \<Rightarrow> bool" where
  "metadata_wf self \<longleftrightarrow> tables_wf (mc_tables self)"

lemma tables_wf_insert: "tables_wf tables \<Longrightarrow> cached_table_wf table \<Longrightarrow> tables_wf (hm_insert name table tables)"
  by (simp add: tables_wf_def map_laws hm_insert_all)

lemma tables_wf_get: "tables_wf tables \<Longrightarrow> hm_get tables name = Some table \<Longrightarrow> cached_table_wf table"
  by (auto simp: tables_wf_def list_all_iff dest!: hm_get_Some_in)

lemma create_cached_tables_wf: "tables_wf tables \<Longrightarrow> create_cached_tables configs tables = Ok tables' \<Longrightarrow> tables_wf tables'"
  by (induction configs arbitrary: tables) (auto simp: result_simps intro: tables_wf_insert cached_table_create_wf)

lemma resolve_split_wf:
  "tables_wf tables \<Longrightarrow> resolve_split i splits self tables = Ok (self', tables') \<Longrightarrow> tables_wf tables'"
proof (induction i splits self tables rule: resolve_split.induct)
  case (2 i query idx rest self tables)
  from 2(4) obtain table r where table: "hm_get tables (tq_table_name query) = Some table"
      "try_resolve_pending_query table idx query = Ok r"
    by (auto simp: result_simps)
  show ?case
  proof (cases r)
    case None
    then obtain table' where pending: "table_register_pending_query i idx table = Ok table'"
      using 2(4) table by (auto simp: result_simps)
    then have "tables_wf (hm_insert (tq_table_name query) table' tables)"
      using 2(3) table(1) by (auto intro: tables_wf_insert table_register_pending_query_wf tables_wf_get)
    then show ?thesis
      using 2 table None pending by simp
  qed (use 2 table in auto)
qed simp

lemma metadata_make_progress_wf: "metadata_wf self \<Longrightarrow> metadata_wf (metadata_make_progress self)"
  by (auto simp: metadata_wf_def tables_wf_def metadata_make_progress_def Let_def hm_wf_def comp_def list_all_iff table_prepare_list_op_wf)

lemma metadata_update_tablet_wf: "metadata_wf self \<Longrightarrow> metadata_wf (metadata_update_tablet name t conflict self)"
  by (auto simp: metadata_wf_def metadata_update_tablet_def split: option.split
      intro: tables_wf_insert table_update_tablet_wf tables_wf_get)

lemma resolve_tablets_with_notification_wf:
  "metadata_wf self \<Longrightarrow> resolve_tablets_with_notification queries n self c = Ok (self', c') \<Longrightarrow> metadata_wf self'"
  by (auto simp: resolve_tablets_with_notification_def tablet_resolve_create_def Let_def result_simps
      metadata_wf_def intro: resolve_split_wf)

lemma process_list_result_wf:
  assumes "metadata_wf self" "process_list_result r self c = Ok (self', c')"
  shows "metadata_wf self'"
proof (cases "hm_get (mc_tables self) (tor_table_name r)")
  case (Some table)
  have "tables_wf (hm_insert (tor_table_name r) (fst (update_region start tablets table)) (mc_tables self))" for start tablets
    using assms(1) Some by (auto simp: metadata_wf_def intro: tables_wf_insert update_region_wf tables_wf_get)
  then show ?thesis
    using assms(2) Some
    by (auto simp: process_list_result_def result_simps split_beta metadata_wf_def split: option.splits tablet_op_result_kind.splits)
qed (use assms in \<open>auto simp: process_list_result_def split: option.splits tablet_op_result_kind.splits\<close>)

lemma process_list_results_wf:
  "metadata_wf self \<Longrightarrow> process_list_results rs self c = Ok (self', c') \<Longrightarrow> metadata_wf self'"
  by (induction rs arbitrary: self c) (auto simp: result_simps dest: process_list_result_wf)

section \<open>Listings of the store\<close>

lemma ring_owner_total: "tablets \<noteq> [] \<Longrightarrow> ring_owner tablets h \<noteq> None"
  by (auto simp: ring_owner_def split: list.split)

lemma listed_ids:
  assumes "table_wf table"
  shows "i \<in> set (map tablet_id (find_tablets table from to)) \<longleftrightarrow>
    (\<exists>h \<in> ring_range from to. map_option fst (ring_owner (tm_tablets table) h) = Some i)"
proof -
  have wf: "bt_wf (tm_tablets table)" and ids: "\<And>e. e \<in> set (tm_tablets table) \<Longrightarrow> tablet_id (snd e) = fst e"
    using assms by (auto simp: table_wf_def list_all_iff)
  have owner: "ring_owner (tm_tablets table) h = Some e \<Longrightarrow> tablet_id (snd e) = fst e" for h e
    using ids by (simp add: ring_owner_iff [OF wf])
  have "map_option fst (ring_owner (tm_tablets table) h) = Some i \<longleftrightarrow>
      (\<exists>t. i = tablet_id t \<and> ring_owner (tm_tablets table) h = Some (tablet_id t, t))" for h
    using owner [of h] by (cases "ring_owner (tm_tablets table) h") auto
  then show ?thesis
    unfolding set_map image_iff ring_owner_listed [OF assms] Bex_def by blast
qed

text \<open>The first listed tablet at or after a key of the range owns the key.\<close>

lemma region_owner_listed:
  assumes "table_wf table" "tm_tablets table \<noteq> []" "k \<in> ring_range from to"
    and "region_owner (map tablet_id (find_tablets table from to)) k i"
  shows "map_option fst (ring_owner (tm_tablets table) k) = Some i"
proof -
  have wf: "bt_wf (tm_tablets table)"
    using assms(1) by (simp add: table_wf_def)
  obtain e where e: "ring_owner (tm_tablets table) k = Some e"
    using ring_owner_total [OF assms(2)] by blast
  have "i \<in> set (map tablet_id (find_tablets table from to))" "k \<le> i"
    using assms(4) by (simp_all add: region_owner_def)
  then obtain x where x: "x \<in> set (tm_tablets table)" "fst x = i"
    unfolding listed_ids [OF assms(1)] by (auto simp: ring_owner_iff [OF wf])
  then have le: "k \<le> fst e" "fst e \<le> i"
    using e \<open>k \<le> i\<close> by (auto simp: ring_owner_iff [OF wf] split: if_splits)
  have "fst e \<in> set (map tablet_id (find_tablets table from to))"
    unfolding listed_ids [OF assms(1)] using assms(3) e by (intro bexI [of _ k]) simp_all
  then have "i \<le> fst e"
    using assms(4) le(1) by (simp add: region_owner_def del: set_map)
  then show ?thesis
    using e le(2) by simp
qed

section \<open>Properties\<close>

text \<open>A small cached table with regions of a quarter of the ring, and a query, for the witnesses.\<close>

definition demo_cached_table :: cached_table where
  "demo_cached_table = \<lparr> ct_table_name = ''t'', ct_region_size = 0x40000000,
     ct_regions = [(0, region_create), (1, region_create), (2, region_create)], ct_tablets = [] \<rparr>"

definition demo_query :: table_query where
  "demo_query = table_query_create 7 ''t'' [25, 5, 0x40000001]"

text \<open>
  A query is split by region: the pieces have the id and the table of the query, none is empty,
  together and in order they have exactly its keys, each piece is paired with the region of all
  its keys, and the regions are different and in the order of the ring. A region contains its keys.
\<close>

theorem query_split_by_region:
  assumes "ct_region_size table \<noteq> 0"
  shows "\<exists>pieces. split_and_map_query table (table_query_create i name keys) result = result @ pieces \<and>
    concat (map (\<lambda>p. tq_key_hashes (fst p)) pieces) = tq_key_hashes (table_query_create i name keys) \<and>
    sorted_wrt (<) (map snd pieces) \<and>
    list_all (\<lambda>p. tq_query_id (fst p) = i \<and> tq_table_name (fst p) = name \<and> tq_key_hashes (fst p) \<noteq> [] \<and>
      list_all (\<lambda>k. map_table_region (ct_region_size table) k = snd p \<and>
        fst (compute_table_region_bounds (ct_region_size table) (snd p)) \<le> k \<and>
        k \<le> snd (compute_table_region_bounds (ct_region_size table) (snd p))) (tq_key_hashes (fst p))) pieces"
proof -
  obtain pieces where pieces: "split_and_map_query table (table_query_create i name keys) result = result @ pieces"
    "concat (map (\<lambda>p. tq_key_hashes (fst p)) pieces) = tq_key_hashes (table_query_create i name keys)"
    "list_all (region_piece (ct_region_size table) (table_query_create i name keys)) pieces" "sorted_wrt (<) (map snd pieces)"
    using split_query_pieces [OF assms, of "table_query_create i name keys" result] by auto
  have "list_all (\<lambda>k. map_table_region (ct_region_size table) k = snd p \<and>
        fst (compute_table_region_bounds (ct_region_size table) (snd p)) \<le> k \<and>
        k \<le> snd (compute_table_region_bounds (ct_region_size table) (snd p))) (tq_key_hashes (fst p))"
    if "p \<in> set pieces" for p
  proof -
    have "list_all (\<lambda>k. map_table_region (ct_region_size table) k = snd p) (tq_key_hashes (fst p))"
      using pieces(3) that by (simp add: list_all_iff region_piece_def)
    then show ?thesis
      using region_bounds [OF assms, of _ "snd p"] by (simp add: list_all_iff)
  qed
  then show ?thesis
    using pieces by (auto simp: list_all_iff region_piece_def)
qed

theorem query_split_by_region_witness:
  "ct_region_size demo_cached_table \<noteq> 0 \<and>
   (\<exists>pieces. split_and_map_query demo_cached_table demo_query [] = pieces \<and>
     concat (map (\<lambda>p. tq_key_hashes (fst p)) pieces) = [5, 25, 0x40000001])"
proof -
  have "ct_region_size demo_cached_table \<noteq> 0"
    by (simp add: demo_cached_table_def)
  moreover have "tq_key_hashes (table_query_create 7 ''t'' [25, 5, 0x40000001]) = [5, 25, 0x40000001]"
    by (simp add: btree_set_def bts_insert_def)
  ultimately show ?thesis
    using query_split_by_region [of demo_cached_table 7 "''t''" "[25, 5, 0x40000001]" "[]"]
    by (auto simp: demo_query_def)
qed

text \<open>
  C23. Keys go to their owners: once a region of a cached table is updated with what a store
  lists for the bounds of the region, a query whose keys are in the region is resolved, and every
  key in the result is a key of the query and is paired with the tablet that owns the key
  on the ring of the store. The invariant of the cached table holds again.
\<close>

theorem resolved_keys_owned:
  assumes "table_wf store_table" "tm_tablets store_table \<noteq> []" "cached_table_wf table"
    and "tq_key_hashes query \<noteq> []" "bts_wf (tq_key_hashes query)"
    and "list_all (\<lambda>k. map_table_region (ct_region_size table) k = idx) (tq_key_hashes query)"
    and "hm_contains (ct_regions table) idx" "compute_table_region_bounds (ct_region_size table) idx = (from, to)"
    and "update_region from (Some (find_tablets store_table from to)) table = (table', idx', notify)"
  shows "idx' = idx \<and> cached_table_wf table' \<and>
    (\<exists>r. try_resolve_pending_query table' idx query = Ok (Some r) \<and>
      (\<forall>q t k. (q, t) \<in> set r \<and> k \<in> set (tq_key_hashes q) \<longrightarrow>
        k \<in> set (tq_key_hashes query) \<and> map_option fst (ring_owner (tm_tablets store_table) k) = Some (tablet_id t)))"
proof -
  let ?size = "ct_region_size table" and ?L = "find_tablets store_table from to"
  obtain k0 where k0: "k0 \<in> set (tq_key_hashes query)" "idx = k0 div ?size"
    using assms(4,6) by (cases "tq_key_hashes query") (auto simp: map_table_region_def)
  have size: "?size \<noteq> 0"
    using assms(3) by (simp add: cached_table_wf_def)
  have "unat (idx * ?size) = unat idx * unat ?size"
    using region_start [of idx k0 ?size] k0(2) by simp
  then have "unat (idx * ?size div ?size) = unat idx"
    using size by (simp add: unat_div_distrib unat_gt_0)
  then have "idx * ?size div ?size = idx"
    by (simp only: word_unat_eq_iff)
  then have idx: "map_table_region ?size from = idx"
    using assms(8) by (simp add: map_table_region_def compute_table_region_bounds_def Let_def)
  obtain region where region: "hm_get (ct_regions table) idx = Some region"
    using assms(7) by (auto simp: hm_contains_def)
  let ?new = "\<lparr>rg_state = Fresh, rg_tablet_ids = btree_set (map tablet_id ?L)\<rparr>"
  have idx': "idx' = idx" and get: "hm_get (ct_regions table') idx = Some ?new"
    using assms(9) region idx by (auto simp: update_region_def Let_def mark_fresh_def btree_set_def)
  have wf': "cached_table_wf table'"
    using update_region_wf [OF assms(3), of "from" "Some ?L"] assms(9) by simp
  have in_range: "k \<in> ring_range from to" if "k \<in> set (tq_key_hashes query)" for k
    using region_bounds [OF size, of k idx] assms(6,8) that by (auto simp: list_all_iff ring_range_def)
  have owner: "map_option fst (ring_owner (tm_tablets store_table) k) = Some i"
    if "k \<in> set (tq_key_hashes query)" "region_owner (map tablet_id ?L) k i" for k i
    using region_owner_listed [OF assms(1,2) in_range] that by blast
  have "?L \<noteq> []"
    using ring_owner_total [OF assms(2), of k0] listed_ids [OF assms(1), of _ "from" to] in_range [OF k0(1)] by fastforce
  then have "btree_set (map tablet_id ?L) \<noteq> []"
    by (metis btree_set_set map_is_Nil_conv set_empty)
  then obtain r where r: "try_resolve_pending_query table' idx query = Ok (Some r)"
    "list_all (resolves_to_owners (btree_set (map tablet_id ?L)) query (tq_key_hashes query)) r"
    using try_resolve_owners [OF wf' get _ _ assms(5)] by auto
  have "region_owner (btree_set (map tablet_id ?L)) = region_owner (map tablet_id ?L)"
    by (intro ext) (simp add: region_owner_def del: set_map)
  then have "k \<in> set (tq_key_hashes query) \<and> map_option fst (ring_owner (tm_tablets store_table) k) = Some (tablet_id t)"
    if "(q, t) \<in> set r" "k \<in> set (tq_key_hashes q)" for q t k
    using r(2) that owner by (fastforce simp: list_all_iff resolves_to_owners_def)
  then show ?thesis
    using idx' wf' r(1) by blast
qed

theorem resolved_keys_owned_witness:
  "map_option fst (ring_owner (tm_tablets demo_table) 5) = Some 10 \<and>
   (\<exists>r. try_resolve_pending_query
      (fst (update_region 0 (Some (find_tablets demo_table 0 0x3fffffff)) demo_cached_table)) 0
      (table_query_create 7 ''t'' [25, 5]) = Ok (Some r) \<and>
      (\<forall>q t k. (q, t) \<in> set r \<and> k \<in> set (tq_key_hashes q) \<longrightarrow>
        map_option fst (ring_owner (tm_tablets demo_table) k) = Some (tablet_id t)))"
proof -
  let ?query = "table_query_create 7 ''t'' [25, 5]" and ?L = "find_tablets demo_table 0 0x3fffffff"
  have wf: "cached_table_wf demo_cached_table"
    by (simp add: cached_table_wf_def demo_cached_table_def hm_wf_def region_wf_def region_create_def bts_wf_def)
  have keys: "btree_set [25, 5] = [5, 25]"
    by (simp add: btree_set_def bts_insert_def)
  have bounds: "compute_table_region_bounds (ct_region_size demo_cached_table) 0 = (0, 0x3fffffff)"
    by (simp add: compute_table_region_bounds_def demo_cached_table_def)
  have region: "hm_contains (ct_regions demo_cached_table) 0"
    by (simp add: hm_contains_def hm_get_def demo_cached_table_def)
  have in_region: "list_all (\<lambda>k. map_table_region (ct_region_size demo_cached_table) k = 0) (tq_key_hashes ?query)"
    by (simp add: keys map_table_region_def demo_cached_table_def)
  obtain table' idx' notify where update: "update_region 0 (Some ?L) demo_cached_table = (table', idx', notify)"
    by (cases "update_region 0 (Some ?L) demo_cached_table")
  have sorted: "tq_key_hashes ?query \<noteq> []" "bts_wf (tq_key_hashes ?query)" "tm_tablets demo_table \<noteq> []"
    by (simp_all add: keys bts_wf_def demo_table_def)
  have "map_option fst (ring_owner (tm_tablets demo_table) 5) = Some 10"
    by (simp add: ring_owner_def demo_table_def)
  then show ?thesis
    using resolved_keys_owned [OF demo_table_wf sorted(3) wf sorted(1,2) in_region region bounds update]
    unfolding update fst_conv by blast
qed

text \<open>
  A query of one key in a fresh region is resolved to the first tablet of the region when
  the key is not beyond it. When it is, the result is empty: the key is dropped although the ring
  has an owner for it, a later tablet or, past the last one, the first.
\<close>

theorem single_key_resolution:
  assumes "hm_get (ct_regions table) idx = Some region" "rg_state region = Fresh" "rg_tablet_ids region = i # ids"
    and "hm_get (ct_tablets table) i = Some t" "tq_key_hashes query = [k]"
  shows "try_resolve_pending_query table idx query =
    Ok (Some (if k \<le> i then [(query_create_from query [k], t)] else []))"
  using assms by (simp add: try_resolve_pending_query_def maybe_fresh_tablet_ids_def push_resolved_def linorder_not_less)

theorem single_key_resolution_witness:
  "\<exists>owner. ring_owner (tm_tablets demo_table) 25 = Some owner \<and>
     try_resolve_pending_query
       (fst (update_region 0 (Some (find_tablets demo_table 0 0x3fffffff)) demo_cached_table)) 0
       (table_query_create 7 ''t'' [25]) = Ok (Some [])"
proof -
  let ?t = "fst (update_region 0 (Some (find_tablets demo_table 0 0x3fffffff)) demo_cached_table)"
  have listed: "find_tablets demo_table 0 0x3fffffff = [default_tablet 10, default_tablet 20, default_tablet 30]"
    by (simp add: find_tablets_def find_interval_def demo_table_def)
  have region: "hm_get (ct_regions ?t) 0 = Some \<lparr> rg_state = Fresh, rg_tablet_ids = [10, 20, 30] \<rparr>"
    "hm_get (ct_tablets ?t) 10 = Some (default_tablet 10)"
    by (simp_all add: listed update_region_def map_table_region_def demo_cached_table_def region_create_def mark_fresh_def
        bts_insert_def default_tablet_def insert_latest_tablet_def hm_get_def hm_insert_def)
  have "tq_key_hashes (table_query_create 7 ''t'' [25]) = [25]"
    by (simp add: btree_set_def bts_insert_def)
  then show ?thesis
    using single_key_resolution [OF region(1) _ _ region(2)] by (simp add: ring_owner_def demo_table_def)
qed

text \<open>The last region of the ring is missing from every table, whatever the size of the regions.\<close>

lemma last_region_missing:
  assumes "cached_table_create name region_size = Ok table"
    and "map_table_region region_size key = map_table_region region_size (- 1)"
  shows "try_resolve_pending_query table (map_table_region region_size key) query = Panic"
proof -
  let ?n = "- 1 div region_size"
  have "?n \<notin> word_of_nat ` {0..<unat ?n}"
  proof
    assume "?n \<in> word_of_nat ` {0..<unat ?n}"
    then obtain i where i: "?n = word_of_nat i" "i < unat ?n"
      by auto
    then have "unat (word_of_nat i :: u32) = i"
      using unat_u32 [of ?n] by (simp add: unsigned_of_nat take_bit_nat_eq_self)
    then show False
      using i by simp
  qed
  then have "hm_get (ct_regions table) ?n = None"
    using assms(1) by (auto simp: cached_table_create_def Let_def hm_get_def map_of_eq_None_iff image_iff split: if_splits)
  then show ?thesis
    using assms(2) by (simp add: try_resolve_pending_query_def map_table_region_def)
qed

text \<open>
  Two queries of one request that fall into one stale region register the request twice, so
  that the answer of the store sets its result twice.
\<close>

lemma same_region_queries_panic:
  assumes "resolve_tablets [table_query_create 1 ''t'' [5], table_query_create 2 ''t'' [6]]
    ((metadata_cache_create 0)\<lparr>mc_tables := [(''t'', demo_cached_table)]\<rparr>) c = Ok (self, c', handle)"
  shows "metadata_process_in_message (ListResponse 1 [\<lparr> tor_table_name = ''t'', tor_status = OpSucceeded,
      tor_op_result = Some (ListTabletResult 0 0x3fffffff [default_tablet 10]) \<rparr>]) self c' = Panic"
proof -
  have keys: "btree_set [5] = [5]" "btree_set [6] = [6]"
    by (simp_all add: btree_set_def bts_insert_def)
  have self: "self = \<lparr> mc_correlation_counter = 0, mc_resolve_request_counter = 2, mc_config = [],
      mc_tables = [(''t'', demo_cached_table\<lparr>ct_regions := [(0, \<lparr> rg_state = Stale [2, 2] False, rg_tablet_ids = [] \<rparr>),
        (1, region_create), (2, region_create)]\<rparr>)],
      mc_resolve_requests = [(2, \<lparr> rv_notification = NotifySource 0, rv_pending = [((''t'', 0), table_query_create 2 ''t'' [6])],
        rv_results = [] \<rparr>)],
      mc_out_messages = [], mc_results = [\<lparr> rco_result = None, rco_error = None \<rparr>] \<rparr>"
    using assms
    by (simp add: resolve_tablets_def create_eventual_result_def resolve_tablets_with_notification_def metadata_cache_create_def
        tablet_resolve_create_def split_and_map_query_def keys hm_get_def hm_insert_def demo_cached_table_def map_table_region_def
        split_key_def seek_region_result query_create_from_def try_resolve_pending_query_def region_create_def
        maybe_fresh_tablet_ids_def table_register_pending_query_def region_register_pending_query_def maybe_resolve_results_def)
      (auto simp: numeral_2_eq_2)
  show ?thesis
    by (simp add: self metadata_process_in_message_def process_list_result_def hm_get_def hm_insert_def update_region_def
        map_table_region_def demo_cached_table_def mark_fresh_def bts_insert_def default_tablet_def insert_latest_tablet_def
        process_results_fresh_def try_resolve_pending_query_def maybe_fresh_tablet_ids_def keys push_resolved_def
        append_results_def append_result_def hm_remove_def maybe_resolve_results_def notify_resolved_def set_result_def
        query_create_from_def Let_def)
qed

end
