(* ===== verification/CacheData.thy ===== *)
theory CacheData
  imports CacheMetadata
begin

text \<open>
  Model of \<open>src/apps/tablet_cache/service/src/transaction/data.rs\<close>: the cache of tablet contents,
  whose entries are loaded from or stored into the data storage of the untrusted host, in batches
  that report one result. Serializer, SHA-256, base64 and the eviction policy are the parameter
  \<open>data_env\<close>; the state of the policy object is part of the state of the cache.

  The lemmas show that the bookkeeping of entries, batches and pending operations stays
  consistent, so that no call panics and every answered batch reports; that a batch of tablets
  that are not in the cache reports exactly when the last of them arrives and with all of them;
  and that a batch that starts with a cached tablet reports that tablet alone.
\<close>

section \<open>Messages, entries and batches\<close>

datatype storage_status = StorageUnspecified | StorageFailed | StorageSucceeded

datatype data_in_msg = LoadResponse nat storage_status bytes | StoreResponse nat storage_status
datatype data_out_msg = LoadRequest nat string | StoreRequest nat string bytes

datatype 't entry_state = EntryLoad | EntryStore 't | EntryCache 't | EntryError

record 't cache_entry =
  en_metadata :: tablet_metadata
  en_state :: "'t entry_state"
  en_batch_ids :: "nat list"

type_synonym 't cache_entries = "(string, 't cache_entry) hmap"

datatype 't batch_state =
    BatchLoad "(tablet_metadata \<times> 't) list" nat
  | BatchStore nat
  | BatchError
  | BatchCompleted

record 't tablet_batch =
  ba_batch_id :: nat
  ba_state :: "'t batch_state"
  ba_remaining :: nat

record ('t, 'p) data_env =
  de_serialize :: "'t \<Rightarrow> bytes option"
  de_deserialize :: "string \<Rightarrow> bytes \<Rightarrow> 't option"
  de_sha256 :: "bytes \<Rightarrow> bytes"
  de_base64 :: "bytes \<Rightarrow> string"
  de_evict :: "'p \<Rightarrow> nat \<Rightarrow> nat \<Rightarrow> 't cache_entries \<Rightarrow> 'p \<times> string list"

type_synonym 't load_cores = "((tablet_metadata \<times> 't) list, storage_status) result_cores"
type_synonym store_cores = "(unit, storage_status) result_cores"
type_synonym 't data_cores = "'t load_cores \<times> store_cores"

record ('t, 'p) data_cache =
  dc_correlation_counter :: nat
  dc_batch_counter :: nat
  dc_capacity :: nat
  dc_policy :: 'p
  dc_entries :: "'t cache_entries"
  dc_batches :: "(nat, 't tablet_batch) hmap"
  dc_operations :: "(nat, string) hmap"
  dc_out_messages :: "data_out_msg list"
  dc_results :: "'t data_cores"

section \<open>Blob names\<close>

definition format_blob_uri :: "(bytes \<Rightarrow> string) \<Rightarrow> u32 \<Rightarrow> u32 \<Rightarrow> bytes \<Rightarrow> string" where
  "format_blob_uri base64 i version hash =
     decimal (unat i) @ ''_'' @ decimal (unat version) @ ''_'' @ base64 hash"

definition cache_key :: "tablet_metadata \<Rightarrow> string" where
  "cache_key metadata = blob_uri metadata"

section \<open>Entries\<close>

definition entry_with_load_state :: "nat \<Rightarrow> tablet_metadata \<Rightarrow> 't cache_entry \<times> data_out_msg" where
  "entry_with_load_state correlation_id metadata =
     (\<lparr> en_metadata = metadata, en_state = EntryLoad, en_batch_ids = [] \<rparr>,
      LoadRequest correlation_id (blob_uri metadata))"

definition entry_with_store_state :: "nat \<Rightarrow> tablet_metadata \<Rightarrow> 't \<Rightarrow> bytes \<Rightarrow> 't cache_entry \<times> data_out_msg" where
  "entry_with_store_state correlation_id metadata tablet_value tablet_contents =
     (\<lparr> en_metadata = metadata, en_state = EntryStore tablet_value, en_batch_ids = [] \<rparr>,
      StoreRequest correlation_id (blob_uri metadata) tablet_contents)"

fun entry_ready :: "'t entry_state \<Rightarrow> bool" where
  "entry_ready (EntryCache _) = True"
| "entry_ready EntryError = True"
| "entry_ready _ = False"

definition take_waiting_batches :: "'t cache_entry \<Rightarrow> 't cache_entry \<times> nat list" where
  "take_waiting_batches entry =
     (if entry_ready (en_state entry) then (entry\<lparr>en_batch_ids := []\<rparr>, en_batch_ids entry) else (entry, []))"

definition process_load_response :: "storage_status \<Rightarrow> 't option \<Rightarrow> 't cache_entry \<Rightarrow> 't cache_entry run" where
  "process_load_response status tablet_value entry =
     (case en_state entry of
        EntryLoad \<Rightarrow>
          (case status of
             StorageSucceeded \<Rightarrow>
               (case tablet_value of
                  Some v \<Rightarrow> Ok (entry\<lparr>en_state := EntryCache v\<rparr>)
                | None \<Rightarrow> Ok (entry\<lparr>en_state := EntryError\<rparr>))
           | StorageFailed \<Rightarrow> Ok (entry\<lparr>en_state := EntryError\<rparr>)
           | StorageUnspecified \<Rightarrow> Panic)
      | _ \<Rightarrow> Panic)"

definition process_store_response :: "storage_status \<Rightarrow> 't cache_entry \<Rightarrow> 't cache_entry run" where
  "process_store_response status entry =
     (case en_state entry of
        EntryStore v \<Rightarrow>
          (case status of
             StorageSucceeded \<Rightarrow> Ok (entry\<lparr>en_state := EntryCache v\<rparr>)
           | StorageFailed \<Rightarrow> Ok (entry\<lparr>en_state := EntryError\<rparr>)
           | StorageUnspecified \<Rightarrow> Panic)
      | _ \<Rightarrow> Panic)"

section \<open>Batches\<close>

definition batch_with_load_state :: "nat \<Rightarrow> 't data_cores \<Rightarrow> 't tablet_batch \<times> 't data_cores \<times> nat" where
  "batch_with_load_state batch_id cores =
     (case create_eventual_result (fst cores) of
        (loads, source) \<Rightarrow>
          (\<lparr> ba_batch_id = batch_id, ba_state = BatchLoad [] source, ba_remaining = 0 \<rparr>, (loads, snd cores), source))"

definition batch_with_store_state :: "nat \<Rightarrow> 't data_cores \<Rightarrow> 't tablet_batch \<times> 't data_cores \<times> nat" where
  "batch_with_store_state batch_id cores =
     (case create_eventual_result (snd cores) of
        (stores, source) \<Rightarrow>
          (\<lparr> ba_batch_id = batch_id, ba_state = BatchStore source, ba_remaining = 0 \<rparr>, (fst cores, stores), source))"

definition batch_is_ready :: "'t tablet_batch \<Rightarrow> bool" where
  "batch_is_ready batch \<longleftrightarrow> ba_remaining batch = 0"

text \<open>Subtracting one from a \<open>usize\<close> wraps.\<close>

definition usize_pred :: "nat \<Rightarrow> nat" where
  "usize_pred n = (if n = 0 then 2 ^ 64 - 1 else n - 1)"

definition resolve_pending_cache_entry ::
  "'t cache_entry \<Rightarrow> 't tablet_batch \<Rightarrow> 't data_cores \<Rightarrow> ('t tablet_batch \<times> 't data_cores) run" where
  "resolve_pending_cache_entry entry batch cores =
     (let batch = batch\<lparr>ba_remaining := usize_pred (ba_remaining batch)\<rparr>;
          has_completed = (ba_remaining batch = 0)
      in case (en_state entry, ba_state batch) of
           (EntryCache v, BatchLoad loaded source) \<Rightarrow>
             let loaded = loaded @ [(en_metadata entry, v)] in
             if has_completed
             then and_then (set_result source loaded (fst cores)) (\<lambda>loads.
                    Ok (batch\<lparr>ba_state := BatchCompleted\<rparr>, loads, snd cores))
             else Ok (batch\<lparr>ba_state := BatchLoad loaded source\<rparr>, cores)
         | (EntryError, BatchLoad _ source) \<Rightarrow>
             and_then (set_error source StorageFailed (fst cores)) (\<lambda>loads.
               Ok (batch\<lparr>ba_state := BatchError\<rparr>, loads, snd cores))
         | (EntryCache _, BatchStore source) \<Rightarrow>
             if has_completed
             then and_then (set_result source () (snd cores)) (\<lambda>stores.
                    Ok (batch\<lparr>ba_state := BatchCompleted\<rparr>, fst cores, stores))
             else Ok (batch, cores)
         | (EntryError, BatchStore source) \<Rightarrow>
             and_then (set_error source StorageFailed (snd cores)) (\<lambda>stores.
               Ok (batch\<lparr>ba_state := BatchError\<rparr>, fst cores, stores))
         | _ \<Rightarrow> Ok (batch, cores))"

definition add_pending_cache_entry :: "'t cache_entry \<Rightarrow> 't tablet_batch \<Rightarrow> 't data_cores
    \<Rightarrow> ('t cache_entry \<times> 't tablet_batch \<times> 't data_cores) run" where
  "add_pending_cache_entry entry batch cores =
     (let batch = batch\<lparr>ba_remaining := ba_remaining batch + 1\<rparr> in
      if entry_ready (en_state entry)
      then and_then (resolve_pending_cache_entry entry batch cores) (\<lambda>(batch, cores). Ok (entry, batch, cores))
      else Ok (entry\<lparr>en_batch_ids := en_batch_ids entry @ [ba_batch_id batch]\<rparr>, batch, cores))"

section \<open>The data cache\<close>

definition data_cache_create :: "nat \<Rightarrow> 'p \<Rightarrow> ('t, 'p) data_cache" where
  "data_cache_create correlation_counter policy =
     \<lparr> dc_correlation_counter = correlation_counter, dc_batch_counter = 0, dc_capacity = 0, dc_policy = policy,
       dc_entries = [], dc_batches = [], dc_operations = [], dc_out_messages = [], dc_results = ([], []) \<rparr>"

fun register_pending_cache_entries :: "string list \<Rightarrow> 't cache_entries \<Rightarrow> 't tablet_batch \<Rightarrow> 't data_cores
    \<Rightarrow> ('t cache_entries \<times> 't tablet_batch \<times> 't data_cores) run" where
  "register_pending_cache_entries [] entries batch cores = Ok (entries, batch, cores)"
| "register_pending_cache_entries (key # keys) entries batch cores =
     (case hm_get entries key of
        Some entry \<Rightarrow>
          and_then (add_pending_cache_entry entry batch cores) (\<lambda>(entry, batch, cores).
            register_pending_cache_entries keys (hm_insert key entry entries) batch cores)
      | None \<Rightarrow> register_pending_cache_entries keys entries batch cores)"

text \<open>The change to the metadata stays when a later tablet fails to serialize.\<close>

definition prepare_tablet_write :: "('t, 'p) data_env \<Rightarrow> tablet_metadata \<Rightarrow> 't \<Rightarrow> tablet_metadata \<times> (bytes, unit) result" where
  "prepare_tablet_write env metadata tablet_value =
     (case de_serialize env tablet_value of
        None \<Rightarrow> (metadata, Err ())
      | Some tablet_contents \<Rightarrow>
          let metadata = metadata\<lparr>tablet_version := tablet_version metadata + 1,
                blob_size := word_of_nat (length tablet_contents),
                blob_hash := de_sha256 env tablet_contents\<rparr>;
              metadata = metadata\<lparr>blob_uri := format_blob_uri (de_base64 env) (tablet_id metadata)
                (tablet_version metadata) (blob_hash metadata)\<rparr>
          in (metadata, Ok tablet_contents))"

definition prepare_tablet_read :: "('t, 'p) data_env \<Rightarrow> tablet_metadata \<Rightarrow> bytes \<Rightarrow> 't option" where
  "prepare_tablet_read env metadata tablet_contents = de_deserialize env ''todo'' tablet_contents"

definition data_init :: "nat \<Rightarrow> ('t, 'p) data_cache \<Rightarrow> ('t, 'p) data_cache" where
  "data_init capacity self = self\<lparr>dc_capacity := capacity\<rparr>"

fun notify_batches :: "'t cache_entry \<Rightarrow> nat list \<Rightarrow> (nat, 't tablet_batch) hmap \<Rightarrow> 't data_cores
    \<Rightarrow> ((nat, 't tablet_batch) hmap \<times> 't data_cores) run" where
  "notify_batches entry [] batches cores = Ok (batches, cores)"
| "notify_batches entry (batch_id # ids) batches cores =
     and_then (unwrap (hm_get batches batch_id)) (\<lambda>batch.
     and_then (resolve_pending_cache_entry entry batch cores) (\<lambda>(batch, cores).
       notify_batches entry ids (hm_insert batch_id batch batches) cores))"

fun notify_entries :: "'t cache_entries \<Rightarrow> (nat, 't tablet_batch) hmap \<Rightarrow> 't data_cores
    \<Rightarrow> ('t cache_entries \<times> (nat, 't tablet_batch) hmap \<times> 't data_cores) run" where
  "notify_entries [] batches cores = Ok ([], batches, cores)"
| "notify_entries ((key, entry) # rest) batches cores =
     (case take_waiting_batches entry of
        (entry, ids) \<Rightarrow>
          and_then (notify_batches entry ids batches cores) (\<lambda>(batches, cores).
          and_then (notify_entries rest batches cores) (\<lambda>(rest, batches, cores).
            Ok ((key, entry) # rest, batches, cores))))"

definition data_make_progress :: "('t, 'p) data_env \<Rightarrow> nat \<Rightarrow> ('t, 'p) data_cache \<Rightarrow> ('t, 'p) data_cache run" where
  "data_make_progress env instant self =
     and_then (notify_entries (dc_entries self) (dc_batches self) (dc_results self)) (\<lambda>(entries, batches, cores).
       let failed = map fst (filter (\<lambda>e. case en_state (snd e) of EntryError \<Rightarrow> True | _ \<Rightarrow> False) entries);
           batches = filter (\<lambda>e. \<not> batch_is_ready (snd e)) batches;
           entries = fold hm_remove failed entries
       in case de_evict env (dc_policy self) instant (dc_capacity self) entries of
            (policy, evicted) \<Rightarrow>
              Ok (self\<lparr>dc_entries := fold hm_remove evicted entries, dc_batches := batches, dc_policy := policy,
                       dc_results := cores\<rparr>))"

definition load_entry :: "tablet_metadata \<Rightarrow> ('t, 'p) data_cache \<Rightarrow> ('t, 'p) data_cache" where
  "load_entry metadata self =
     (if hm_contains (dc_entries self) (cache_key metadata) then self
      else let correlation_id = dc_correlation_counter self + 1 in
        case entry_with_load_state correlation_id metadata of
          (entry, request) \<Rightarrow>
            self\<lparr>dc_correlation_counter := correlation_id,
                 dc_operations := hm_insert correlation_id (cache_key metadata) (dc_operations self),
                 dc_out_messages := dc_out_messages self @ [request],
                 dc_entries := hm_insert (cache_key metadata) entry (dc_entries self)\<rparr>)"

definition finish_batch :: "string list \<Rightarrow> 't tablet_batch \<Rightarrow> 't data_cores \<Rightarrow> ('t, 'p) data_cache \<Rightarrow> ('t, 'p) data_cache run" where
  "finish_batch keys batch cores self =
     and_then (register_pending_cache_entries keys (dc_entries self) batch cores) (\<lambda>(entries, batch, cores).
       let self = self\<lparr>dc_entries := entries, dc_results := cores\<rparr> in
       Ok (if \<not> batch_is_ready batch
           then self\<lparr>dc_batches := hm_insert (dc_batch_counter self) batch (dc_batches self)\<rparr> else self))"

definition load_tablets :: "tablet_metadata list \<Rightarrow> ('t, 'p) data_cache \<Rightarrow> (('t, 'p) data_cache \<times> nat) run" where
  "load_tablets tablets self =
     (let self = fold load_entry tablets self;
          self = self\<lparr>dc_batch_counter := dc_batch_counter self + 1\<rparr>
      in case batch_with_load_state (dc_batch_counter self) (dc_results self) of
           (batch, cores, handle) \<Rightarrow>
             and_then (finish_batch (map cache_key tablets) batch cores self) (\<lambda>self. Ok (self, handle)))"

fun prepare_writes :: "('t, 'p) data_env \<Rightarrow> (tablet_metadata \<times> 't) list
    \<Rightarrow> tablet_metadata list \<times> (bytes list, unit) result" where
  "prepare_writes env [] = ([], Ok [])"
| "prepare_writes env ((metadata, tablet_value) # rest) =
     (case prepare_tablet_write env metadata tablet_value of
        (metadata, Ok contents) \<Rightarrow>
          (case prepare_writes env rest of (ms, r) \<Rightarrow> (metadata # ms, and_then r (\<lambda>cs. Ok (contents # cs))))
      | (metadata, _) \<Rightarrow> (metadata # map fst rest, Err ()))"

definition store_entry :: "tablet_metadata \<Rightarrow> 't \<Rightarrow> bytes \<Rightarrow> ('t, 'p) data_cache \<Rightarrow> ('t, 'p) data_cache run" where
  "store_entry metadata tablet_value tablet_contents self =
     (if hm_contains (dc_entries self) (cache_key metadata) then Panic
      else let correlation_id = dc_correlation_counter self + 1 in
        case entry_with_store_state correlation_id metadata tablet_value tablet_contents of
          (entry, request) \<Rightarrow>
            Ok (self\<lparr>dc_correlation_counter := correlation_id,
                 dc_operations := hm_insert correlation_id (cache_key metadata) (dc_operations self),
                 dc_out_messages := dc_out_messages self @ [request],
                 dc_entries := hm_insert (cache_key metadata) entry (dc_entries self)\<rparr>))"

fun store_entries :: "(tablet_metadata \<times> 't \<times> bytes) list \<Rightarrow> ('t, 'p) data_cache \<Rightarrow> ('t, 'p) data_cache run" where
  "store_entries [] self = Ok self"
| "store_entries ((metadata, tablet_value, tablet_contents) # rest) self =
     and_then (store_entry metadata tablet_value tablet_contents self) (\<lambda>self. store_entries rest self)"

definition store_tablets :: "('t, 'p) data_env \<Rightarrow> (tablet_metadata \<times> 't) list \<Rightarrow> ('t, 'p) data_cache
    \<Rightarrow> (('t, 'p) data_cache \<times> tablet_metadata list \<times> nat) run" where
  "store_tablets env tablets_data self =
     (case prepare_writes env tablets_data of
        (metadata, Ok contents) \<Rightarrow>
          and_then (store_entries (zip metadata (zip (map snd tablets_data) contents)) self) (\<lambda>self.
            let self = self\<lparr>dc_batch_counter := dc_batch_counter self + 1\<rparr> in
            case batch_with_store_state (dc_batch_counter self) (dc_results self) of
              (batch, cores, handle) \<Rightarrow>
                and_then (finish_batch (map cache_key metadata) batch cores self) (\<lambda>self. Ok (self, metadata, handle)))
      | (metadata, _) \<Rightarrow>
          (case create_result_from_error StorageFailed (snd (dc_results self)) of
             (stores, handle) \<Rightarrow> Ok (self\<lparr>dc_results := (fst (dc_results self), stores)\<rparr>, metadata, handle)))"

definition data_process_in_message :: "('t, 'p) data_env \<Rightarrow> data_in_msg \<Rightarrow> ('t, 'p) data_cache \<Rightarrow> ('t, 'p) data_cache run" where
  "data_process_in_message env in_message self =
     (case in_message of
        LoadResponse correlation_id status contents \<Rightarrow>
          (case hm_get (dc_operations self) correlation_id of
             None \<Rightarrow> Ok self
           | Some key \<Rightarrow>
               and_then (unwrap (hm_get (dc_entries self) key)) (\<lambda>entry.
               and_then (process_load_response status (prepare_tablet_read env (en_metadata entry) contents) entry) (\<lambda>entry.
                 Ok (self\<lparr>dc_operations := hm_remove correlation_id (dc_operations self),
                          dc_entries := hm_insert key entry (dc_entries self)\<rparr>))))
      | StoreResponse correlation_id status \<Rightarrow>
          (case hm_get (dc_operations self) correlation_id of
             None \<Rightarrow> Ok self
           | Some key \<Rightarrow>
               and_then (unwrap (hm_get (dc_entries self) key)) (\<lambda>entry.
               and_then (process_store_response status entry) (\<lambda>entry.
                 Ok (self\<lparr>dc_operations := hm_remove correlation_id (dc_operations self),
                          dc_entries := hm_insert key entry (dc_entries self)\<rparr>)))))"

definition data_take_out_messages :: "('t, 'p) data_cache \<Rightarrow> ('t, 'p) data_cache \<times> data_out_msg list" where
  "data_take_out_messages self = (self\<lparr>dc_out_messages := []\<rparr>, dc_out_messages self)"

text \<open>The two implementations of the parameters: raw bytes, and the policy that evicts nothing.\<close>

definition bytes_serialize :: "bytes \<Rightarrow> bytes option" where
  "bytes_serialize tablet_value = Some tablet_value"

definition bytes_deserialize :: "string \<Rightarrow> bytes \<Rightarrow> bytes option" where
  "bytes_deserialize table_name tablet_data = Some tablet_data"

definition default_evict :: "unit \<Rightarrow> nat \<Rightarrow> nat \<Rightarrow> 't cache_entries \<Rightarrow> unit \<times> string list" where
  "default_evict policy instant tablet_cache_size entries = (policy, [])"

section \<open>Batches report once\<close>

text \<open>The result that a batch has still to set: of a load or of a store.\<close>

fun pending_source :: "'t batch_state \<Rightarrow> (bool \<times> nat) option" where
  "pending_source (BatchLoad _ s) = Some (True, s)"
| "pending_source (BatchStore s) = Some (False, s)"
| "pending_source _ = None"

definition is_unset :: "('a, 'e) result_cores \<Rightarrow> nat \<Rightarrow> bool" where
  "is_unset cores s \<longleftrightarrow> s < length cores \<and> rco_result (cores ! s) = None \<and> rco_error (cores ! s) = None"

fun unset :: "'t data_cores \<Rightarrow> bool \<times> nat \<Rightarrow> bool" where
  "unset cores (True, s) = is_unset (fst cores) s"
| "unset cores (False, s) = is_unset (snd cores) s"

text \<open>A step keeps the results of all sources but the given one.\<close>

definition keeps_others :: "(bool \<times> nat) option \<Rightarrow> 't data_cores \<Rightarrow> 't data_cores \<Rightarrow> bool" where
  "keeps_others src cores cores' \<longleftrightarrow> (\<forall>x. src \<noteq> Some x \<longrightarrow> unset cores x \<longrightarrow> unset cores' x)"

lemma set_result_unset: "is_unset cores s \<Longrightarrow> set_result s r cores = Ok (cores[s := (cores ! s)\<lparr>rco_result := Some r\<rparr>])"
  by (simp add: set_result_def is_unset_def)

lemma set_error_unset: "is_unset cores s \<Longrightarrow> set_error s e cores = Ok (cores[s := (cores ! s)\<lparr>rco_error := Some e\<rparr>])"
  by (simp add: set_error_def is_unset_def)

lemma is_unset_update: "is_unset cores x \<Longrightarrow> x \<noteq> s \<Longrightarrow> is_unset (cores[s := c]) x"
  by (simp add: is_unset_def)

lemma keeps_others_simps [simp]:
  "keeps_others src cores cores"
  "keeps_others (Some (True, s)) (loads, stores) (loads[s := c], stores)"
  "keeps_others (Some (False, s)) (loads, stores) (loads, stores[s := d])"
  by (auto simp: keeps_others_def is_unset_update elim!: unset.elims)

text \<open>Resolving an entry for a batch whose result is not set.\<close>

definition source_ok :: "'t data_cores \<Rightarrow> 't batch_state \<Rightarrow> bool" where
  "source_ok cores st \<longleftrightarrow> (\<forall>x. pending_source st = Some x \<longrightarrow> unset cores x)"

lemma resolve_pending_effect:
  assumes "source_ok cores (ba_state batch)" "0 < ba_remaining batch" "entry_ready (en_state entry)"
  shows "\<exists>batch' cores'. resolve_pending_cache_entry entry batch cores = Ok (batch', cores') \<and>
    ba_remaining batch' = ba_remaining batch - 1 \<and> ba_batch_id batch' = ba_batch_id batch \<and> source_ok cores' (ba_state batch') \<and>
    (pending_source (ba_state batch') = None \<or> pending_source (ba_state batch') = pending_source (ba_state batch)) \<and>
    keeps_others (pending_source (ba_state batch)) cores cores'"
proof (cases "ba_state batch")
  case (BatchLoad loaded s)
  obtain loads stores where cores: "cores = (loads, stores)"
    by fastforce
  have "is_unset loads s"
    using assms(1) BatchLoad by (simp add: source_ok_def cores)
  then show ?thesis
    using assms(2,3) BatchLoad unfolding cores
    by (cases "en_state entry") (auto simp: resolve_pending_cache_entry_def Let_def usize_pred_def set_result_unset
        set_error_unset source_ok_def)
next
  case (BatchStore s)
  obtain loads stores where cores: "cores = (loads, stores)"
    by fastforce
  have "is_unset stores s"
    using assms(1) BatchStore by (simp add: source_ok_def cores)
  then show ?thesis
    using assms(2,3) BatchStore unfolding cores
    by (cases "en_state entry") (auto simp: resolve_pending_cache_entry_def Let_def usize_pred_def set_result_unset
        set_error_unset source_ok_def)
qed (use assms in \<open>cases "en_state entry"; simp add: resolve_pending_cache_entry_def usize_pred_def source_ok_def\<close>)+

section \<open>The invariant of the data cache\<close>

text \<open>
  How often the entries wait for a batch, and how many entries a batch waits for. The two agree,
  every batch waits, no two batches set the same result, and every operation belongs to an
  entry of its own that is still loading or storing.
\<close>

definition waiting :: "'t cache_entries \<Rightarrow> nat \<Rightarrow> nat" where
  "waiting entries i = sum_list (map (\<lambda>e. count_list (en_batch_ids (snd e)) i) entries)"

definition outstanding :: "(nat, 't tablet_batch) hmap \<Rightarrow> nat \<Rightarrow> nat" where
  "outstanding batches i = (case hm_get batches i of Some b \<Rightarrow> ba_remaining b | None \<Rightarrow> 0)"

definition sources_wf :: "(nat, 't tablet_batch) hmap \<Rightarrow> 't data_cores \<Rightarrow> bool" where
  "sources_wf batches cores \<longleftrightarrow>
     (\<forall>i b. hm_get batches i = Some b \<longrightarrow> source_ok cores (ba_state b)) \<and>
     (\<forall>i j b b' x. hm_get batches i = Some b \<longrightarrow> hm_get batches j = Some b' \<longrightarrow>
        pending_source (ba_state b) = Some x \<longrightarrow> pending_source (ba_state b') = Some x \<longrightarrow> i = j)"

definition idle_source :: "(nat, 't tablet_batch) hmap \<Rightarrow> bool \<times> nat \<Rightarrow> bool" where
  "idle_source batches x \<longleftrightarrow> (\<forall>i b. hm_get batches i = Some b \<longrightarrow> pending_source (ba_state b) \<noteq> Some x)"

definition operations_wf :: "nat \<Rightarrow> (nat, string) hmap \<Rightarrow> 't cache_entries \<Rightarrow> bool" where
  "operations_wf counter ops entries \<longleftrightarrow> hm_wf ops \<and> distinct (map snd ops) \<and>
     (\<forall>(c, key) \<in> set ops. c \<le> counter \<and> (\<exists>entry. hm_get entries key = Some entry \<and> \<not> entry_ready (en_state entry)))"

definition data_wf :: "('t, 'p) data_cache \<Rightarrow> bool" where
  "data_wf self \<longleftrightarrow> hm_wf (dc_entries self) \<and> hm_wf (dc_batches self) \<and>
     (\<forall>i. waiting (dc_entries self) i = outstanding (dc_batches self) i) \<and>
     (\<forall>i b. hm_get (dc_batches self) i = Some b \<longrightarrow> 0 < ba_remaining b \<and> i \<le> dc_batch_counter self) \<and>
     sources_wf (dc_batches self) (dc_results self) \<and>
     operations_wf (dc_correlation_counter self) (dc_operations self) (dc_entries self)"

text \<open>Notifying the batches that an entry has waiting.\<close>

lemma notify_batches_effect:
  assumes "entry_ready (en_state entry)"
  shows "sources_wf batches cores \<Longrightarrow> hm_wf batches \<Longrightarrow> (\<And>i. count_list ids i \<le> outstanding batches i) \<Longrightarrow>
    \<exists>batches' cores'. notify_batches entry ids batches cores = Ok (batches', cores') \<and> hm_wf batches' \<and> sources_wf batches' cores' \<and>
      (\<forall>i. outstanding batches' i = outstanding batches i - count_list ids i) \<and>
      (\<forall>i. hm_get batches' i = None \<longleftrightarrow> hm_get batches i = None) \<and>
      (\<forall>x. idle_source batches x \<longrightarrow> idle_source batches' x \<and> (unset cores x \<longrightarrow> unset cores' x))"
proof (induction ids arbitrary: batches cores)
  case (Cons j ids)
  have "0 < outstanding batches j"
    using Cons.prems(3) [of j] by simp
  then obtain b where b: "hm_get batches j = Some b" "0 < ba_remaining b"
    by (auto simp: outstanding_def split: option.splits)
  have ok: "source_ok cores (ba_state b)"
    using Cons.prems(1) b(1) by (simp add: sources_wf_def)
  obtain b' cores' where step: "resolve_pending_cache_entry entry b cores = Ok (b', cores')"
    "ba_remaining b' = ba_remaining b - 1" "source_ok cores' (ba_state b')"
    "pending_source (ba_state b') = None \<or> pending_source (ba_state b') = pending_source (ba_state b)"
    "keeps_others (pending_source (ba_state b)) cores cores'"
    using resolve_pending_effect [OF ok b(2) assms] by blast
  let ?batches = "hm_insert j b' batches"
  have "sources_wf ?batches cores'"
  proof -
    have "source_ok cores' (ba_state c)" if "hm_get batches i = Some c" "i \<noteq> j" for i c
      using Cons.prems(1) b(1) that step(5) unfolding sources_wf_def source_ok_def keeps_others_def by metis
    then show ?thesis
      using Cons.prems(1) b(1) step(3,4) unfolding sources_wf_def by (auto split: if_splits) metis+
  qed
  moreover have "count_list ids i \<le> outstanding ?batches i" for i
    using Cons.prems(3) [of i] b step(2) by (auto simp: outstanding_def split: if_splits)
  ultimately obtain batches'' cores'' where rest: "notify_batches entry ids ?batches cores' = Ok (batches'', cores'')"
    "hm_wf batches''" "sources_wf batches'' cores''" "\<forall>i. outstanding batches'' i = outstanding ?batches i - count_list ids i"
    "\<forall>i. hm_get batches'' i = None \<longleftrightarrow> hm_get ?batches i = None"
    "\<forall>x. idle_source ?batches x \<longrightarrow> idle_source batches'' x \<and> (unset cores' x \<longrightarrow> unset cores'' x)"
    using Cons.IH [of ?batches cores'] Cons.prems(2) by (auto simp: map_laws)
  have "outstanding batches'' i = outstanding batches i - count_list (j # ids) i" for i
    using rest(4) b step(2) by (auto simp: outstanding_def)
  moreover have "idle_source batches'' x \<and> (unset cores x \<longrightarrow> unset cores'' x)" if x: "idle_source batches x" for x
  proof -
    have "unset cores x \<longrightarrow> unset cores' x"
      using x b(1) step(5) unfolding idle_source_def keeps_others_def by blast
    moreover have "idle_source ?batches x"
      using x b(1) step(4) by (auto simp: idle_source_def)
    ultimately show ?thesis
      using rest(6) by blast
  qed
  ultimately show ?case
    using b(1) step(1) rest(1,2,3,5) by auto
qed (auto simp: outstanding_def)

text \<open>An entry after \<open>take_waiting_batches\<close>.\<close>

definition quiet_entry :: "'t cache_entry \<Rightarrow> 't cache_entry" where
  "quiet_entry entry = (if entry_ready (en_state entry) then entry\<lparr>en_batch_ids := []\<rparr> else entry)"

lemma quiet_fields [simp]: "en_state (quiet_entry entry) = en_state entry" "en_metadata (quiet_entry entry) = en_metadata entry"
  by (simp_all add: quiet_entry_def)

lemma waiting_Cons: "waiting (e # entries) i = count_list (en_batch_ids (snd e)) i + waiting entries i"
  by (simp add: waiting_def)

lemma notify_entries_effect:
  "sources_wf batches cores \<Longrightarrow> hm_wf batches \<Longrightarrow> (\<And>i. waiting entries i \<le> outstanding batches i) \<Longrightarrow>
    \<exists>batches' cores'. notify_entries entries batches cores = Ok (map (\<lambda>e. (fst e, quiet_entry (snd e))) entries, batches', cores') \<and>
      hm_wf batches' \<and> sources_wf batches' cores' \<and>
      (\<forall>i. outstanding batches' i + waiting entries i =
        outstanding batches i + waiting (map (\<lambda>e. (fst e, quiet_entry (snd e))) entries) i) \<and>
      (\<forall>i. hm_get batches' i = None \<longleftrightarrow> hm_get batches i = None) \<and>
      (\<forall>x. idle_source batches x \<longrightarrow> idle_source batches' x \<and> (unset cores x \<longrightarrow> unset cores' x))"
proof (induction entries arbitrary: batches cores)
  case (Cons e entries)
  obtain key entry where e: "e = (key, entry)"
    by fastforce
  show ?case
  proof (cases "entry_ready (en_state entry)")
    case True
    have "count_list (en_batch_ids entry) i \<le> outstanding batches i" for i
      using Cons.prems(3) [of i] by (simp add: waiting_Cons e)
    then obtain batches1 cores1 where step: "notify_batches (entry\<lparr>en_batch_ids := []\<rparr>) (en_batch_ids entry) batches cores = Ok (batches1, cores1)"
      "hm_wf batches1" "sources_wf batches1 cores1"
      "\<forall>i. outstanding batches1 i = outstanding batches i - count_list (en_batch_ids entry) i"
      "\<forall>i. hm_get batches1 i = None \<longleftrightarrow> hm_get batches i = None"
      "\<forall>x. idle_source batches x \<longrightarrow> idle_source batches1 x \<and> (unset cores x \<longrightarrow> unset cores1 x)"
      using notify_batches_effect [of "entry\<lparr>en_batch_ids := []\<rparr>" batches cores "en_batch_ids entry"] Cons.prems(1,2) True by auto
    have le: "count_list (en_batch_ids entry) i + waiting entries i \<le> outstanding batches i" for i
      using Cons.prems(3) [of i] by (simp add: waiting_Cons e)
    have "waiting entries i \<le> outstanding batches1 i" for i
      using le [of i] step(4) by simp
    then obtain batches2 cores2 where rest:
      "notify_entries entries batches1 cores1 = Ok (map (\<lambda>e. (fst e, quiet_entry (snd e))) entries, batches2, cores2)"
      "hm_wf batches2" "sources_wf batches2 cores2"
      "\<forall>i. outstanding batches2 i + waiting entries i = outstanding batches1 i + waiting (map (\<lambda>e. (fst e, quiet_entry (snd e))) entries) i"
      "\<forall>i. hm_get batches2 i = None \<longleftrightarrow> hm_get batches1 i = None"
      "\<forall>x. idle_source batches1 x \<longrightarrow> idle_source batches2 x \<and> (unset cores1 x \<longrightarrow> unset cores2 x)"
      using Cons.IH [OF step(3,2)] by blast
    have "outstanding batches2 i + waiting (e # entries) i =
        outstanding batches i + waiting (map (\<lambda>e. (fst e, quiet_entry (snd e))) (e # entries)) i" for i
      using rest(4) [rule_format, of i] step(4) [rule_format, of i] le [of i] True by (simp add: waiting_Cons e quiet_entry_def)
    then show ?thesis
      using step rest True by (auto simp: e take_waiting_batches_def quiet_entry_def)
  next
    case False
    have "waiting entries i \<le> outstanding batches i" for i
      using Cons.prems(3) [of i] by (simp add: waiting_Cons)
    then obtain batches2 cores2 where rest:
      "notify_entries entries batches cores = Ok (map (\<lambda>e. (fst e, quiet_entry (snd e))) entries, batches2, cores2)"
      "hm_wf batches2" "sources_wf batches2 cores2"
      "\<forall>i. outstanding batches2 i + waiting entries i = outstanding batches i + waiting (map (\<lambda>e. (fst e, quiet_entry (snd e))) entries) i"
      "\<forall>i. hm_get batches2 i = None \<longleftrightarrow> hm_get batches i = None"
      "\<forall>x. idle_source batches x \<longrightarrow> idle_source batches2 x \<and> (unset cores x \<longrightarrow> unset cores2 x)"
      using Cons.IH [OF Cons.prems(1,2)] by blast
    then show ?thesis
      using False by (auto simp: e take_waiting_batches_def quiet_entry_def waiting_Cons)
  qed
qed simp

text \<open>Removing entries that nobody waits for.\<close>

lemma waiting_remove: "hm_wf entries \<Longrightarrow> (\<And>e. hm_get entries k = Some e \<Longrightarrow> en_batch_ids e = []) \<Longrightarrow>
    waiting (hm_remove k entries) i = waiting entries i"
proof (induction entries)
  case (Cons e entries)
  show ?case
  proof (cases "fst e = k")
    case True
    then have "AList.delete k entries = entries"
      using Cons.prems(1) by (intro AList.delete_id) (auto simp: hm_wf_def)
    then show ?thesis
      using Cons.prems(2) [of "snd e"] True by (cases e) (simp add: hm_remove_def hm_get_def waiting_def AList.delete_eq)
  next
    case False
    then have "hm_get (e # entries) k = hm_get entries k"
      by (cases e) (simp add: hm_get_def)
    then show ?thesis
      using Cons False by (cases e) (simp add: hm_remove_def hm_wf_def waiting_def AList.delete_eq)
  qed
qed (simp add: hm_remove_def waiting_def)

lemma remove_entries_effect:
  "hm_wf entries \<Longrightarrow> (\<And>k e. k \<in> set ks \<Longrightarrow> hm_get entries k = Some e \<Longrightarrow> en_batch_ids e = []) \<Longrightarrow>
    hm_wf (fold hm_remove ks entries) \<and> (\<forall>i. waiting (fold hm_remove ks entries) i = waiting entries i) \<and>
    (\<forall>k. hm_get (fold hm_remove ks entries) k = (if k \<in> set ks then None else hm_get entries k))"
proof (induction ks arbitrary: entries)
  case (Cons k ks)
  let ?entries = "hm_remove k entries"
  have "hm_wf ?entries"
    using Cons.prems(1) by (simp add: map_laws)
  moreover have "en_batch_ids e = []" if "j \<in> set ks" "hm_get ?entries j = Some e" for j e
    using Cons.prems(2) [of j e] that by (auto simp: map_laws split: if_splits)
  ultimately have "hm_wf (fold hm_remove ks ?entries) \<and> (\<forall>i. waiting (fold hm_remove ks ?entries) i = waiting ?entries i) \<and>
      (\<forall>j. hm_get (fold hm_remove ks ?entries) j = (if j \<in> set ks then None else hm_get ?entries j))"
    by (rule Cons.IH)
  moreover have "waiting ?entries i = waiting entries i" for i
    using waiting_remove [OF Cons.prems(1)] Cons.prems(2) [of k] by simp
  ultimately show ?case
    by (simp add: map_laws)
qed simp

text \<open>A result that no batch will set.\<close>

definition dead :: "('t, 'p) data_cache \<Rightarrow> bool \<times> nat \<Rightarrow> bool" where
  "dead self x \<longleftrightarrow> idle_source (dc_batches self) x \<and> unset (dc_results self) x"

lemma hm_get_filter: "hm_wf m \<Longrightarrow> hm_get (filter (\<lambda>e. P (snd e)) m) k = (case hm_get m k of Some v \<Rightarrow> if P v then Some v else None | None \<Rightarrow> None)"
  by (induction m) (auto simp: hm_get_def hm_wf_def image_iff map_of_eq_None_iff split: option.splits if_splits)

lemma hm_get_map: "hm_get (map (\<lambda>e. (fst e, f (snd e))) m) k = map_option f (hm_get m k)"
  by (induction m) (auto simp: hm_get_def)

section \<open>The contract of an eviction policy\<close>

text \<open>As the trait documents it: only ready entries can be evicted.\<close>

locale eviction_policy =
  fixes env :: "('t, 'p) data_env"
  assumes evict_ready: "k \<in> set (snd (de_evict env policy instant capacity entries)) \<Longrightarrow> hm_get entries k = Some e \<Longrightarrow>
    entry_ready (en_state e)"
begin

lemma make_progress_effect:
  assumes "data_wf self"
  shows "\<exists>self'. data_make_progress env instant self = Ok self' \<and> data_wf self' \<and> (\<forall>x. dead self x \<longrightarrow> dead self' x)"
proof -
  have wf: "hm_wf (dc_entries self)" "hm_wf (dc_batches self)" "\<And>i. waiting (dc_entries self) i = outstanding (dc_batches self) i"
    "sources_wf (dc_batches self) (dc_results self)"
    "operations_wf (dc_correlation_counter self) (dc_operations self) (dc_entries self)"
    using assms by (simp_all add: data_wf_def)
  define entries where "entries = map (\<lambda>e. (fst e, quiet_entry (snd e))) (dc_entries self)"
  have "waiting (dc_entries self) i \<le> outstanding (dc_batches self) i" for i
    by (simp add: wf(3))
  from notify_entries_effect [OF wf(4,2) this]
  obtain batches cores where notify: "notify_entries (dc_entries self) (dc_batches self) (dc_results self) = Ok (entries, batches, cores)"
    "hm_wf batches" "sources_wf batches cores"
    "\<forall>i. outstanding batches i + waiting (dc_entries self) i = outstanding (dc_batches self) i + waiting entries i"
    "\<forall>i. hm_get batches i = None \<longleftrightarrow> hm_get (dc_batches self) i = None"
    "\<forall>x. idle_source (dc_batches self) x \<longrightarrow> idle_source batches x \<and> (unset (dc_results self) x \<longrightarrow> unset cores x)"
    unfolding entries_def [symmetric] by blast
  have outstanding: "outstanding batches i = waiting entries i" for i
    using notify(4) wf(3) by simp
  define failed where "failed = map fst (filter (\<lambda>e. case en_state (snd e) of EntryError \<Rightarrow> True | _ \<Rightarrow> False) entries)"
  define live where "live = filter (\<lambda>e. \<not> batch_is_ready (snd e)) batches"
  define kept where "kept = fold hm_remove failed entries"
  obtain policy evicted where evict: "de_evict env (dc_policy self) instant (dc_capacity self) kept = (policy, evicted)"
    by fastforce
  have entries: "hm_wf entries" and get: "hm_get entries k = map_option quiet_entry (hm_get (dc_entries self) k)" for k
    using wf(1) by (simp_all add: entries_def hm_wf_def comp_def hm_get_map)
  have quiet_ids: "en_batch_ids e = []" if "hm_get entries k = Some e" "entry_ready (en_state e)" for k e
    using that by (auto simp: get quiet_entry_def)
  have failed: "entry_ready (en_state e)" if k: "k \<in> set failed" "hm_get entries k = Some e" for k e
  proof -
    have "(case st of EntryError \<Rightarrow> True | _ \<Rightarrow> False) \<longleftrightarrow> st = EntryError" for st :: "'t entry_state"
      by (cases st) simp_all
    then obtain e' where "(k, e') \<in> set entries" "en_state e' = EntryError"
      using k(1) by (auto simp: failed_def)
    then show ?thesis
      using entries k(2) by (auto simp: hm_get_def hm_wf_def)
  qed
  have kept: "hm_wf kept" "\<And>i. waiting kept i = waiting entries i"
      "\<And>k. hm_get kept k = (if k \<in> set failed then None else hm_get entries k)"
    using remove_entries_effect [OF entries, of failed] quiet_ids failed unfolding kept_def by blast+
  have evicted: "entry_ready (en_state e)" if "k \<in> set evicted" "hm_get kept k = Some e" for k e
    using evict_ready [of k "dc_policy self" instant "dc_capacity self" kept e] that by (simp add: evict)
  have out: "hm_wf (fold hm_remove evicted kept)" "\<And>i. waiting (fold hm_remove evicted kept) i = waiting entries i"
      "\<And>k. hm_get (fold hm_remove evicted kept) k = (if k \<in> set evicted then None else hm_get kept k)"
    using remove_entries_effect [OF kept(1), of evicted] quiet_ids evicted kept(2,3)
    by (metis (no_types, lifting) option.distinct(1))+
  have stays: "hm_get (fold hm_remove evicted kept) k = Some e"
    if "hm_get (dc_entries self) k = Some e" "\<not> entry_ready (en_state e)" for k e
  proof -
    have e: "hm_get entries k = Some e"
      using that by (simp add: get quiet_entry_def)
    have "k \<notin> set failed"
      using failed [OF _ e] that(2) by blast
    then have kept_k: "hm_get kept k = Some e"
      by (simp add: kept(3) e)
    have "k \<notin> set evicted"
      using evicted [OF _ kept_k] that(2) by blast
    then show ?thesis
      by (simp add: out(3) kept_k)
  qed
  have live: "hm_get live i = Some b \<longleftrightarrow> hm_get batches i = Some b \<and> 0 < ba_remaining b" for i b
    using hm_get_filter [OF notify(2), of "\<lambda>b. \<not> batch_is_ready b" i]
    by (auto simp: live_def batch_is_ready_def split: option.splits if_splits)
  have "outstanding live i = outstanding batches i" for i
    using hm_get_filter [OF notify(2), of "\<lambda>b. \<not> batch_is_ready b" i]
    by (auto simp: outstanding_def live_def batch_is_ready_def split: option.splits)
  moreover have "hm_wf live"
    using notify(2) by (simp add: live_def hm_wf_def distinct_map_filter)
  moreover have "sources_wf live cores"
    using notify(3) unfolding sources_wf_def live by blast
  moreover have "i \<le> dc_batch_counter self" if "hm_get live i = Some b" for i b
    using assms that notify(5) live unfolding data_wf_def by (metis option.exhaust option.distinct(1))
  moreover have "operations_wf (dc_correlation_counter self) (dc_operations self) (fold hm_remove evicted kept)"
    using wf(5) stays unfolding operations_wf_def by fast
  ultimately have "data_wf (self\<lparr>dc_entries := fold hm_remove evicted kept, dc_batches := live, dc_policy := policy, dc_results := cores\<rparr>)"
    using out outstanding live unfolding data_wf_def by auto
  moreover have "dead self x \<Longrightarrow> idle_source live x \<and> unset cores x" for x
    using notify(6) live unfolding dead_def idle_source_def by blast
  ultimately show ?thesis
    by (simp add: data_make_progress_def notify(1) Let_def failed_def [symmetric] live_def [symmetric] kept_def [symmetric]
        evict dead_def)
qed

end

section \<open>Starting batches\<close>

lemma waiting_insert: "hm_wf entries \<Longrightarrow>
    waiting (hm_insert k e entries) i + (case hm_get entries k of Some e' \<Rightarrow> count_list (en_batch_ids e') i | None \<Rightarrow> 0) =
    waiting entries i + count_list (en_batch_ids e) i"
  by (induction entries) (auto simp: waiting_def hm_insert_def hm_get_def hm_wf_def split: option.splits)

lemma operations_wf_insert:
  assumes "operations_wf n ops entries" "hm_get entries key = Some entry"
    and "entry_ready (en_state entry') = entry_ready (en_state entry)"
  shows "operations_wf n ops (hm_insert key entry' entries)"
  using assms unfolding operations_wf_def by fastforce

lemma operations_wf_new:
  assumes "operations_wf n ops entries" "hm_get entries key = None" "\<not> entry_ready (en_state entry)"
  shows "operations_wf (n + 1) (hm_insert (n + 1) key ops) (hm_insert key entry entries)"
proof -
  have ops: "hm_wf ops" "distinct (map snd ops)" "\<And>c k. (c, k) \<in> set ops \<Longrightarrow> c \<le> n \<and> k \<noteq> key \<and>
      (\<exists>entry. hm_get entries k = Some entry \<and> \<not> entry_ready (en_state entry))"
    using assms(1,2) unfolding operations_wf_def by fastforce+
  have "n + 1 \<notin> fst ` set ops"
    using ops(3) by force
  then have "hm_insert (n + 1) key ops = ops @ [(n + 1, key)]"
    unfolding hm_insert_def by (induction ops) auto
  moreover have "key \<notin> snd ` set ops"
    using ops(3) by force
  ultimately show ?thesis
    using ops assms(3) \<open>n + 1 \<notin> fst ` set ops\<close> unfolding operations_wf_def hm_wf_def by fastforce
qed

text \<open>A new entry that waits for the storage, as \<open>load_tablets\<close> and \<open>store_tablets\<close> add it.\<close>

definition add_entry :: "string \<Rightarrow> 't cache_entry \<Rightarrow> data_out_msg \<Rightarrow> ('t, 'p) data_cache \<Rightarrow> ('t, 'p) data_cache" where
  "add_entry key entry request self =
     self\<lparr>dc_correlation_counter := dc_correlation_counter self + 1,
          dc_operations := hm_insert (dc_correlation_counter self + 1) key (dc_operations self),
          dc_out_messages := dc_out_messages self @ [request],
          dc_entries := hm_insert key entry (dc_entries self)\<rparr>"

lemma load_entry_cases:
  "load_entry m self = (if hm_contains (dc_entries self) (cache_key m) then self
     else add_entry (cache_key m) \<lparr> en_metadata = m, en_state = EntryLoad, en_batch_ids = [] \<rparr>
       (LoadRequest (dc_correlation_counter self + 1) (blob_uri m)) self)"
  by (simp add: load_entry_def add_entry_def Let_def entry_with_load_state_def)

lemma store_entry_cases:
  "store_entry m v contents self = (if hm_contains (dc_entries self) (cache_key m) then Panic
     else Ok (add_entry (cache_key m) \<lparr> en_metadata = m, en_state = EntryStore v, en_batch_ids = [] \<rparr>
       (StoreRequest (dc_correlation_counter self + 1) (blob_uri m) contents) self))"
  by (simp add: store_entry_def add_entry_def Let_def entry_with_store_state_def)

lemma add_entry_effect:
  assumes "data_wf self" "hm_get (dc_entries self) key = None" "en_batch_ids entry = []" "\<not> entry_ready (en_state entry)"
  shows "data_wf (add_entry key entry request self) \<and> dc_batches (add_entry key entry request self) = dc_batches self \<and>
    dc_results (add_entry key entry request self) = dc_results self \<and>
    dc_batch_counter (add_entry key entry request self) = dc_batch_counter self \<and>
    (\<forall>k. hm_get (dc_entries (add_entry key entry request self)) k = (if k = key then Some entry else hm_get (dc_entries self) k))"
proof -
  have "waiting (hm_insert key entry (dc_entries self)) i = waiting (dc_entries self) i" for i
    using waiting_insert [of "dc_entries self" key entry i] assms by (simp add: data_wf_def)
  moreover have "operations_wf (dc_correlation_counter self + 1) (hm_insert (dc_correlation_counter self + 1) key (dc_operations self))
      (hm_insert key entry (dc_entries self))"
    using assms by (intro operations_wf_new) (simp_all add: data_wf_def)
  ultimately show ?thesis
    using assms(1) by (simp add: data_wf_def add_entry_def map_laws)
qed

lemma load_entries_effect:
  "data_wf self \<Longrightarrow> data_wf (fold load_entry ms self) \<and> dc_batches (fold load_entry ms self) = dc_batches self \<and>
    dc_results (fold load_entry ms self) = dc_results self \<and> dc_batch_counter (fold load_entry ms self) = dc_batch_counter self \<and>
    (\<forall>k e. hm_get (dc_entries self) k = Some e \<longrightarrow> hm_get (dc_entries (fold load_entry ms self)) k = Some e) \<and>
    (\<forall>m \<in> set ms. hm_contains (dc_entries (fold load_entry ms self)) (cache_key m))"
proof (induction ms arbitrary: self)
  case (Cons m ms)
  have step: "data_wf (load_entry m self) \<and> dc_batches (load_entry m self) = dc_batches self \<and>
    dc_results (load_entry m self) = dc_results self \<and> dc_batch_counter (load_entry m self) = dc_batch_counter self \<and>
    (\<forall>k e. hm_get (dc_entries self) k = Some e \<longrightarrow> hm_get (dc_entries (load_entry m self)) k = Some e) \<and>
    hm_contains (dc_entries (load_entry m self)) (cache_key m)"
    using Cons.prems add_entry_effect [OF Cons.prems, of "cache_key m"]
    by (auto simp: load_entry_cases hm_contains_def)
  then show ?case
    using Cons.IH [of "load_entry m self"] by (auto simp: hm_contains_def)
qed simp

text \<open>Registering a new batch with its entries.\<close>

definition batch_wf :: "'t tablet_batch \<Rightarrow> 't cache_entries \<Rightarrow> (nat, 't tablet_batch) hmap \<Rightarrow> 't data_cores \<Rightarrow> bool" where
  "batch_wf batch entries batches cores \<longleftrightarrow> hm_wf entries \<and> hm_get batches (ba_batch_id batch) = None \<and>
     (\<forall>i. waiting entries i = (if i = ba_batch_id batch then ba_remaining batch else outstanding batches i)) \<and>
     sources_wf batches cores \<and> source_ok cores (ba_state batch) \<and>
     (\<forall>x. pending_source (ba_state batch) = Some x \<longrightarrow> idle_source batches x)"

lemma register_pending_effect:
  assumes "batch_wf batch entries batches cores" "operations_wf n ops entries"
  shows "\<exists>entries' batch' cores'. register_pending_cache_entries keys entries batch cores = Ok (entries', batch', cores') \<and>
    batch_wf batch' entries' batches cores' \<and> operations_wf n ops entries' \<and> ba_batch_id batch' = ba_batch_id batch \<and>
    (\<forall>x. pending_source (ba_state batch) \<noteq> Some x \<longrightarrow>
      pending_source (ba_state batch') \<noteq> Some x \<and> (unset cores x \<longrightarrow> unset cores' x))"
  using assms
proof (induction keys arbitrary: entries batch cores)
  case (Cons key keys)
  note wf = Cons.prems(1) [unfolded batch_wf_def]
  show ?case
  proof (cases "hm_get entries key")
    case (Some entry)
    show ?thesis
    proof (cases "entry_ready (en_state entry)")
      case True
      let ?batch = "batch\<lparr>ba_remaining := ba_remaining batch + 1\<rparr>"
      have "source_ok cores (ba_state ?batch)" "0 < ba_remaining ?batch"
        using wf by simp_all
      from resolve_pending_effect [OF this True]
      obtain batch' cores' where step: "resolve_pending_cache_entry entry ?batch cores = Ok (batch', cores')"
        "ba_remaining batch' = ba_remaining batch" "ba_batch_id batch' = ba_batch_id batch" "source_ok cores' (ba_state batch')"
        "pending_source (ba_state batch') = None \<or> pending_source (ba_state batch') = pending_source (ba_state batch)"
        "keeps_others (pending_source (ba_state batch)) cores cores'"
        by auto
      have "source_ok cores' (ba_state b)" if "hm_get batches i = Some b" for i b
        using wf step(6) that unfolding sources_wf_def source_ok_def keeps_others_def idle_source_def by metis
      then have "sources_wf batches cores'"
        using wf unfolding sources_wf_def by blast
      then have "batch_wf batch' entries batches cores'"
        using wf step unfolding batch_wf_def by auto
      from Cons.IH [OF this Cons.prems(2)] show ?thesis
        using step Some True unfolding keeps_others_def
        by (auto simp: add_pending_cache_entry_def hm_insert_same)
    next
      case False
      let ?entry = "entry\<lparr>en_batch_ids := en_batch_ids entry @ [ba_batch_id batch]\<rparr>"
        and ?batch = "batch\<lparr>ba_remaining := ba_remaining batch + 1\<rparr>"
      have "waiting (hm_insert key ?entry entries) i =
          (if i = ba_batch_id batch then ba_remaining batch + 1 else outstanding batches i)" for i
        using waiting_insert [of entries key ?entry i] wf Some by (auto split: if_splits)
      then have "batch_wf ?batch (hm_insert key ?entry entries) batches cores"
        using wf unfolding batch_wf_def by (simp add: map_laws)
      moreover have "operations_wf n ops (hm_insert key ?entry entries)"
        using Cons.prems(2) Some by (rule operations_wf_insert) simp
      ultimately show ?thesis
        using Cons.IH [of ?batch "hm_insert key ?entry entries" cores] Some False by (simp add: add_pending_cache_entry_def)
    qed
  qed (use Cons in simp)
qed auto

lemma finish_batch_effect:
  assumes "data_wf self" "batch_wf batch (dc_entries self) (dc_batches self) cores" "ba_batch_id batch = dc_batch_counter self"
    and "\<And>x. unset (dc_results self) x \<Longrightarrow> unset cores x \<and> pending_source (ba_state batch) \<noteq> Some x"
  shows "\<exists>self'. finish_batch keys batch cores self = Ok self' \<and> data_wf self' \<and> (\<forall>x. dead self x \<longrightarrow> dead self' x)"
proof -
  have "operations_wf (dc_correlation_counter self) (dc_operations self) (dc_entries self)"
    using assms(1) by (simp add: data_wf_def)
  from register_pending_effect [OF assms(2) this, of keys]
  obtain entries batch' cores' where reg: "register_pending_cache_entries keys (dc_entries self) batch cores = Ok (entries, batch', cores')"
    "batch_wf batch' entries (dc_batches self) cores'" "operations_wf (dc_correlation_counter self) (dc_operations self) entries"
    "ba_batch_id batch' = dc_batch_counter self"
    "\<forall>x. pending_source (ba_state batch) \<noteq> Some x \<longrightarrow>
      pending_source (ba_state batch') \<noteq> Some x \<and> (unset cores x \<longrightarrow> unset cores' x)"
    using assms(3) by auto
  let ?i = "dc_batch_counter self"
  note wf = reg(2) [unfolded batch_wf_def reg(4)]
  have old: "\<forall>i b. hm_get (dc_batches self) i = Some b \<longrightarrow> 0 < ba_remaining b \<and> i \<le> ?i" "hm_wf (dc_batches self)"
    using assms(1) by (simp_all add: data_wf_def)
  have live: "idle_source (dc_batches self) x \<and> unset (dc_results self) x \<Longrightarrow>
      pending_source (ba_state batch') \<noteq> Some x \<and> unset cores' x" for x
    using reg(5) assms(4) [of x] by blast
  show ?thesis
  proof (cases "ba_remaining batch' = 0")
    case True
    then have "waiting entries i = outstanding (dc_batches self) i" for i
      using wf by (auto simp: outstanding_def)
    then have "data_wf (self\<lparr>dc_entries := entries, dc_results := cores'\<rparr>)"
      using old wf reg(3) unfolding data_wf_def by simp
    then show ?thesis
      using live True reg(1) by (simp add: finish_batch_def Let_def batch_is_ready_def dead_def)
  next
    case False
    let ?batches = "hm_insert ?i batch' (dc_batches self)"
    have "waiting entries i = outstanding ?batches i" for i
      using wf by (simp add: outstanding_def)
    moreover have "sources_wf ?batches cores'"
      using wf unfolding sources_wf_def idle_source_def by (auto split: if_splits)
    ultimately have "data_wf (self\<lparr>dc_entries := entries, dc_results := cores', dc_batches := ?batches\<rparr>)"
      using old wf reg(3) False unfolding data_wf_def by (simp add: map_laws)
    moreover have "dead self x \<Longrightarrow> dead (self\<lparr>dc_entries := entries, dc_results := cores', dc_batches := ?batches\<rparr>) x" for x
      using live [of x] unfolding dead_def idle_source_def by simp
    ultimately show ?thesis
      using False reg(1) by (simp add: finish_batch_def Let_def batch_is_ready_def)
  qed
qed

text \<open>A new result core leaves the others as they are.\<close>

lemma is_unset_append: "is_unset cores s \<Longrightarrow> is_unset (cores @ [c]) s"
  by (simp add: is_unset_def nth_append)

lemma new_core [simp]: "is_unset (cores @ [\<lparr> rco_result = None, rco_error = None \<rparr>]) (length cores)" "\<not> is_unset cores (length cores)"
  by (simp_all add: is_unset_def)

lemma unset_append:
  "unset (loads, stores) x \<Longrightarrow> unset (loads @ [c], stores) x" "unset (loads, stores) x \<Longrightarrow> unset (loads, stores @ [d]) x"
  by (cases x; cases "fst x"; simp add: is_unset_append)+

lemma new_batch_wf:
  assumes "data_wf self" "\<forall>x. unset (dc_results self) x \<longrightarrow> unset cores x"
    and "pending_source st = Some y" "unset cores y" "\<not> unset (dc_results self) y"
  shows "batch_wf \<lparr> ba_batch_id = dc_batch_counter self + 1, ba_state = st, ba_remaining = 0 \<rparr> (dc_entries self) (dc_batches self) cores"
proof -
  note wf = assms(1) [unfolded data_wf_def]
  have none: "hm_get (dc_batches self) (dc_batch_counter self + 1) = None"
    using wf by (metis add_le_same_cancel1 not_None_eq not_one_le_zero)
  moreover have "sources_wf (dc_batches self) cores"
    using wf assms(2) unfolding sources_wf_def source_ok_def by blast
  moreover have "idle_source (dc_batches self) y"
    using wf assms(5) unfolding sources_wf_def source_ok_def idle_source_def by blast
  ultimately show ?thesis
    using wf assms(3,4) by (simp add: batch_wf_def source_ok_def outstanding_def)
qed

lemma data_wf_batch_counter: "data_wf self \<Longrightarrow> data_wf (self\<lparr>dc_batch_counter := dc_batch_counter self + 1\<rparr>)"
  by (fastforce simp: data_wf_def)

lemma start_batch_effect:
  assumes "data_wf self" "\<forall>x. unset (dc_results self) x \<longrightarrow> unset cores x"
    and "pending_source st = Some y" "unset cores y" "\<not> unset (dc_results self) y"
  shows "\<exists>self'. finish_batch keys \<lparr> ba_batch_id = dc_batch_counter self + 1, ba_state = st, ba_remaining = 0 \<rparr> cores
      (self\<lparr>dc_batch_counter := dc_batch_counter self + 1\<rparr>) = Ok self' \<and> data_wf self' \<and> (\<forall>x. dead self x \<longrightarrow> dead self' x)"
proof -
  let ?self = "self\<lparr>dc_batch_counter := dc_batch_counter self + 1\<rparr>"
    and ?batch = "\<lparr> ba_batch_id = dc_batch_counter self + 1, ba_state = st, ba_remaining = 0 \<rparr>"
  have batch: "batch_wf ?batch (dc_entries ?self) (dc_batches ?self) cores"
    using new_batch_wf [OF assms] by simp
  have "unset cores x \<and> pending_source (ba_state ?batch) \<noteq> Some x" if "unset (dc_results ?self) x" for x
    using assms(2) [rule_format, of x] assms(3,5) that by auto
  from finish_batch_effect [OF data_wf_batch_counter [OF assms(1)] batch _ this, of keys]
  show ?thesis
    by (simp add: dead_def)
qed

lemma load_tablets_run:
  assumes "self1 = fold load_entry ms self" "dc_results self1 = (loads, stores)"
  shows "load_tablets ms self = and_then (finish_batch (map cache_key ms)
      \<lparr> ba_batch_id = dc_batch_counter self1 + 1, ba_state = BatchLoad [] (length loads), ba_remaining = 0 \<rparr>
      (loads @ [\<lparr> rco_result = None, rco_error = None \<rparr>], stores) (self1\<lparr>dc_batch_counter := dc_batch_counter self1 + 1\<rparr>))
    (\<lambda>self'. Ok (self', length loads))"
  using assms(2)
  by (simp add: load_tablets_def Let_def assms(1) [symmetric] batch_with_load_state_def create_eventual_result_def)

lemma load_tablets_effect:
  assumes "data_wf self"
  shows "\<exists>self'. load_tablets ms self = Ok (self', length (fst (dc_results self))) \<and> data_wf self' \<and> (\<forall>x. dead self x \<longrightarrow> dead self' x)"
proof -
  define self1 where "self1 = fold load_entry ms self"
  obtain loads stores where cores: "dc_results self = (loads, stores)"
    by fastforce
  have self1: "data_wf self1" "dc_batches self1 = dc_batches self" "dc_results self1 = (loads, stores)"
    using load_entries_effect [OF assms, of ms] by (simp_all add: self1_def cores)
  from start_batch_effect [OF self1(1), of "(loads @ [\<lparr> rco_result = None, rco_error = None \<rparr>], stores)" "BatchLoad [] (length loads)"
      "(True, length loads)" "map cache_key ms"]
  show ?thesis
    by (auto simp: load_tablets_run [OF self1_def self1(3)] self1(2,3) cores dead_def unset_append)
qed

lemma store_entries_effect:
  "data_wf self \<Longrightarrow> store_entries xs self = Ok self' \<Longrightarrow>
    data_wf self' \<and> dc_batches self' = dc_batches self \<and> dc_results self' = dc_results self \<and> dc_batch_counter self' = dc_batch_counter self"
proof (induction xs arbitrary: self)
  case (Cons x xs)
  obtain m v contents where x: "x = (m, v, contents)"
    by (cases x)
  have none: "hm_get (dc_entries self) (cache_key m) = None"
    and rest: "store_entries xs (add_entry (cache_key m) \<lparr> en_metadata = m, en_state = EntryStore v, en_batch_ids = [] \<rparr>
       (StoreRequest (dc_correlation_counter self + 1) (blob_uri m) contents) self) = Ok self'"
    using Cons.prems(2) by (auto simp: x store_entry_cases hm_contains_def split: if_splits)
  show ?case
    using Cons.IH [OF _ rest] add_entry_effect [OF Cons.prems(1) none] by simp
qed simp

lemma store_batch_effect:
  assumes "data_wf self" "prepare_writes env writes = (metadata, Ok contents)"
    and "store_entries (zip metadata (zip (map snd writes) contents)) self = Ok self1"
  shows "\<exists>self'. store_tablets env writes self = Ok (self', metadata, length (snd (dc_results self))) \<and> data_wf self' \<and>
    (\<forall>x. dead self x \<longrightarrow> dead self' x)"
proof -
  obtain loads stores where cores: "dc_results self = (loads, stores)"
    by fastforce
  have self1: "data_wf self1" "dc_batches self1 = dc_batches self" "dc_results self1 = (loads, stores)"
    using store_entries_effect [OF assms(1,3)] by (simp_all add: cores)
  from start_batch_effect [OF self1(1), of "(loads, stores @ [\<lparr> rco_result = None, rco_error = None \<rparr>])" "BatchStore (length stores)"
      "(False, length stores)" "map cache_key metadata"]
  show ?thesis
    by (auto simp: store_tablets_def assms Let_def batch_with_store_state_def create_eventual_result_def self1(2,3)
        cores dead_def unset_append)
qed

lemma store_tablets_effect:
  assumes "data_wf self" "store_tablets env writes self = Ok (self', ms, handle)"
  shows "data_wf self' \<and> (\<forall>x. dead self x \<longrightarrow> dead self' x)"
proof -
  obtain loads stores where cores: "dc_results self = (loads, stores)"
    by fastforce
  obtain metadata r where prepared: "prepare_writes env writes = (metadata, r)"
    by fastforce
  show ?thesis
  proof (cases r)
    case (Ok contents)
    then obtain self1 where "store_entries (zip metadata (zip (map snd writes) contents)) self = Ok self1"
      using assms(2) prepared by (auto simp: store_tablets_def result_simps)
    then show ?thesis
      using store_batch_effect [OF assms(1)] prepared Ok assms(2) by fastforce
  qed (use assms prepared in \<open>auto simp: store_tablets_def create_result_from_error_def cores data_wf_def sources_wf_def source_ok_def
      dead_def unset_append\<close>)
qed

lemma operations_wf_done:
  assumes "operations_wf n ops entries" "hm_get ops c = Some key"
  shows "operations_wf n (hm_remove c ops) (hm_insert key entry entries)"
proof -
  have ops: "hm_wf ops" "distinct (map snd ops)" "\<And>c k. (c, k) \<in> set ops \<Longrightarrow> c \<le> n \<and>
      (\<exists>entry. hm_get entries k = Some entry \<and> \<not> entry_ready (en_state entry))"
    using assms(1) unfolding operations_wf_def by fastforce+
  have in_ops: "(c, key) \<in> set ops"
    using assms(2) by (rule hm_get_Some_in)
  have removed: "hm_remove c ops = filter (\<lambda>e. fst e \<noteq> c) ops"
    by (simp add: hm_remove_def AList.delete_eq case_prod_unfold eq_commute)
  have other: "k \<noteq> key" if "(c', k) \<in> set (hm_remove c ops)" for c' k
  proof
    assume "k = key"
    then have "(c', k) = (c, key)"
      using that in_ops ops(2) inj_onD [of snd "set ops" "(c', k)" "(c, key)"] by (auto simp: removed distinct_map)
    then show False
      using that by (auto simp: removed)
  qed
  have "c' \<le> n \<and> (\<exists>e. hm_get (hm_insert key entry entries) k = Some e \<and> \<not> entry_ready (en_state e))"
    if "(c', k) \<in> set (hm_remove c ops)" for c' k
    using ops(3) [of c' k] other [OF that] that by (simp add: removed)
  moreover have "distinct (map snd (hm_remove c ops))"
    using ops(2) by (simp add: removed distinct_map_filter)
  moreover have "hm_wf (hm_remove c ops)"
    using ops(1) by (simp add: map_laws)
  ultimately show ?thesis
    unfolding operations_wf_def by blast
qed

lemma data_wf_answer:
  assumes "data_wf self" "hm_get (dc_operations self) c = Some key" "hm_get (dc_entries self) key = Some entry"
    and "en_batch_ids entry' = en_batch_ids entry"
  shows "data_wf (self\<lparr>dc_operations := hm_remove c (dc_operations self), dc_entries := hm_insert key entry' (dc_entries self)\<rparr>)"
proof -
  have "waiting (hm_insert key entry' (dc_entries self)) i = waiting (dc_entries self) i" for i
    using waiting_insert [of "dc_entries self" key entry' i] assms by (simp add: data_wf_def)
  then show ?thesis
    using assms operations_wf_done unfolding data_wf_def by (auto simp: map_laws)
qed

text \<open>The answers that an entry expects: of its kind, and with a known status.\<close>

definition answers :: "('t, 'p) data_cache \<Rightarrow> data_in_msg \<Rightarrow> bool" where
  "answers self m \<longleftrightarrow> (case m of
     LoadResponse c status contents \<Rightarrow> status \<noteq> StorageUnspecified \<and>
       (\<forall>key entry. hm_get (dc_operations self) c = Some key \<and> hm_get (dc_entries self) key = Some entry \<longrightarrow> en_state entry = EntryLoad)
   | StoreResponse c status \<Rightarrow> status \<noteq> StorageUnspecified \<and>
       (\<forall>key entry. hm_get (dc_operations self) c = Some key \<and> hm_get (dc_entries self) key = Some entry \<longrightarrow> (\<exists>v. en_state entry = EntryStore v)))"

lemma pending_entry:
  assumes "data_wf self" "hm_get (dc_operations self) c = Some key"
  shows "\<exists>entry. hm_get (dc_entries self) key = Some entry \<and> \<not> entry_ready (en_state entry)"
  using assms hm_get_Some_in [OF assms(2)] unfolding data_wf_def operations_wf_def by fastforce

lemma response_effect:
  "process_load_response status v entry = Ok entry' \<Longrightarrow> en_batch_ids entry' = en_batch_ids entry"
  "process_store_response status entry = Ok entry' \<Longrightarrow> en_batch_ids entry' = en_batch_ids entry"
  by (cases "en_state entry"; cases status; auto simp: process_load_response_def process_store_response_def split: option.splits)+

lemma data_process_effect:
  assumes "data_wf self" "data_process_in_message env m self = Ok self'"
  shows "data_wf self' \<and> dc_batches self' = dc_batches self \<and> dc_results self' = dc_results self"
  using assms
  by (cases m) (auto simp: data_process_in_message_def result_simps split: option.splits
      intro!: data_wf_answer dest: response_effect)

lemma data_process_total:
  assumes "data_wf self" "answers self m"
  shows "\<exists>self'. data_process_in_message env m self = Ok self'"
proof (cases m)
  case (LoadResponse c status contents)
  show ?thesis
  proof (cases "hm_get (dc_operations self) c")
    case (Some key)
    then show ?thesis
      using pending_entry [OF assms(1) Some] assms(2) LoadResponse
      by (cases status) (auto simp: data_process_in_message_def process_load_response_def answers_def split: option.split)
  qed (simp add: LoadResponse data_process_in_message_def)
next
  case (StoreResponse c status)
  show ?thesis
  proof (cases "hm_get (dc_operations self) c")
    case (Some key)
    then show ?thesis
      using pending_entry [OF assms(1) Some] assms(2) StoreResponse
      by (cases status) (auto simp: data_process_in_message_def process_store_response_def answers_def)
  qed (simp add: StoreResponse data_process_in_message_def)
qed

section \<open>Runs of the cache\<close>

inductive data_step :: "('t, 'p) data_env \<Rightarrow> ('t, 'p) data_cache \<Rightarrow> ('t, 'p) data_cache \<Rightarrow> bool" for env where
  init: "data_step env self (data_init capacity self)"
| progress: "data_make_progress env instant self = Ok self' \<Longrightarrow> data_step env self self'"
| load: "load_tablets tablets self = Ok (self', handle) \<Longrightarrow> data_step env self self'"
| store: "store_tablets env tablets_data self = Ok (self', metadata, handle) \<Longrightarrow> data_step env self self'"
| answer: "data_process_in_message env m self = Ok self' \<Longrightarrow> data_step env self self'"
| take: "data_step env self (fst (data_take_out_messages self))"

definition bytes_env :: "(bytes \<Rightarrow> bytes) \<Rightarrow> (bytes \<Rightarrow> string) \<Rightarrow> (bytes, unit) data_env" where
  "bytes_env sha256 base64 = \<lparr> de_serialize = bytes_serialize, de_deserialize = bytes_deserialize, de_sha256 = sha256,
     de_base64 = base64, de_evict = default_evict \<rparr>"

interpretation default_policy: eviction_policy "bytes_env sha256 base64" for sha256 base64
  by unfold_locales (simp add: bytes_env_def default_evict_def)

lemma data_wf_create: "data_wf (data_cache_create n policy)"
  by (simp add: data_wf_def data_cache_create_def hm_wf_def waiting_def outstanding_def hm_get_def sources_wf_def operations_wf_def)

lemma data_wf_fields:
  "data_wf (self\<lparr>dc_capacity := c\<rparr>) = data_wf self" "data_wf (self\<lparr>dc_out_messages := ms\<rparr>) = data_wf self"
  "dead (self\<lparr>dc_capacity := c\<rparr>) = dead self" "dead (self\<lparr>dc_out_messages := ms\<rparr>) = dead self"
  by (auto simp: data_wf_def dead_def fun_eq_iff)

context eviction_policy
begin

lemma step_effect: "data_step env self self' \<Longrightarrow> data_wf self \<Longrightarrow> data_wf self' \<and> (\<forall>x. dead self x \<longrightarrow> dead self' x)"
proof (induction rule: data_step.induct)
  case (progress instant self self')
  then show ?case
    using make_progress_effect [of self instant] by auto
next
  case (load tablets self self' handle)
  then show ?case
    using load_tablets_effect [of self tablets] by auto
next
  case (store tablets_data self self' metadata handle)
  then show ?case
    using store_tablets_effect [of self env tablets_data self' metadata handle] by auto
next
  case (answer m self self')
  then show ?case
    using data_process_effect [of self env m self'] by (simp add: dead_def)
qed (simp_all add: data_init_def data_take_out_messages_def data_wf_fields)

lemma run_effect: "(data_step env)\<^sup>*\<^sup>* self self' \<Longrightarrow> data_wf self \<Longrightarrow> data_wf self' \<and> (\<forall>x. dead self x \<longrightarrow> dead self' x)"
  by (induction rule: rtranclp_induct) (use step_effect in blast)+

end

lemma store_entries_total:
  "data_wf self \<Longrightarrow> distinct (map (\<lambda>x. cache_key (fst x)) xs) \<Longrightarrow> list_all (\<lambda>x. \<not> hm_contains (dc_entries self) (cache_key (fst x))) xs \<Longrightarrow>
    \<exists>self'. store_entries xs self = Ok self'"
proof (induction xs arbitrary: self)
  case (Cons x xs)
  obtain m v contents where x: "x = (m, v, contents)"
    by (cases x)
  let ?self = "add_entry (cache_key m) \<lparr> en_metadata = m, en_state = EntryStore v, en_batch_ids = [] \<rparr>
       (StoreRequest (dc_correlation_counter self + 1) (blob_uri m) contents) self"
  have new: "data_wf ?self" "\<And>k. hm_get (dc_entries ?self) k = (if k = cache_key m then Some
      \<lparr> en_metadata = m, en_state = EntryStore v, en_batch_ids = [] \<rparr> else hm_get (dc_entries self) k)"
    using add_entry_effect [OF Cons.prems(1), of "cache_key m"] Cons.prems(3) by (simp_all add: x hm_contains_def)
  have "list_all (\<lambda>x. \<not> hm_contains (dc_entries ?self) (cache_key (fst x))) xs"
    using Cons.prems(2,3) by (auto simp: list_all_iff hm_contains_def new(2) [simplified] x image_iff)
  then have "\<exists>self'. store_entries xs ?self = Ok self'"
    using Cons.IH [OF new(1)] Cons.prems(2) by simp
  then show ?case
    using Cons.prems(3) by (simp add: x store_entry_cases hm_contains_def)
qed simp

text \<open>The first tablet of a load is in the cache: it alone is the result.\<close>

lemma check_result_set: "s < length cores \<Longrightarrow> check_result (cores[s := c\<lparr>rco_result := Some r\<rparr>]) s = Some (Ok r)"
  by (simp add: check_result_def)

lemma completed_stays:
  assumes "pending_source (ba_state batch) = None" "register_pending_cache_entries keys entries batch cores = Ok (entries', batch', cores')"
  shows "cores' = cores"
  using assms
proof (induction keys arbitrary: entries batch)
  case (Cons key keys)
  show ?case
  proof (cases "hm_get entries key")
    case (Some entry)
    have same: "resolve_pending_cache_entry entry b cores = Ok (b\<lparr>ba_remaining := usize_pred (ba_remaining b)\<rparr>, cores)"
      if "pending_source (ba_state b) = None" for b
      using that by (cases "ba_state b"; cases "en_state entry") (auto simp: resolve_pending_cache_entry_def Let_def)
    show ?thesis
      using Cons.prems Some
      by (auto simp: add_pending_cache_entry_def Let_def same split: if_splits dest!: Cons.IH [rotated])
  qed (use Cons in auto)
qed simp

lemma prepare_writes_length:
  "prepare_writes env writes = (metadata, r) \<Longrightarrow> length metadata = length writes \<and> (\<forall>cs. r = Ok cs \<longrightarrow> length cs = length writes)"
  by (induction env writes arbitrary: metadata r rule: prepare_writes.induct)
    (auto simp: result_simps split: prod.splits result.splits)

lemma load_cached_first:
  assumes "data_wf self" "hm_get (dc_entries self) (cache_key m) = Some entry" "en_state entry = EntryCache v"
  shows "\<exists>self' handle. load_tablets (m # ms) self = Ok (self', handle) \<and>
    check_result (fst (dc_results self')) handle = Some (Ok [(en_metadata entry, v)])"
proof -
  define self1 where "self1 = fold load_entry (m # ms) self"
  obtain loads stores where cores: "dc_results self = (loads, stores)"
    by fastforce
  have self1: "data_wf self1" "dc_results self1 = (loads, stores)" "hm_get (dc_entries self1) (cache_key m) = Some entry"
    using load_entries_effect [OF assms(1), of "m # ms"] assms(2) unfolding self1_def cores by blast+
  let ?done = "\<lparr> ba_batch_id = dc_batch_counter self1 + 1, ba_state = BatchCompleted, ba_remaining = 0 \<rparr>"
    and ?cores = "((loads @ [\<lparr> rco_result = None, rco_error = None \<rparr>])[length loads :=
      \<lparr> rco_result = Some [(en_metadata entry, v)], rco_error = None \<rparr>], stores)"
  obtain self' where load: "load_tablets (m # ms) self = Ok (self', length loads)"
    using load_tablets_effect [OF assms(1), of "m # ms"] by (auto simp: cores)
  then obtain entries batch where reg: "register_pending_cache_entries (map cache_key ms) (dc_entries self1) ?done ?cores =
      Ok (entries, batch, dc_results self')"
    unfolding load_tablets_run [OF self1_def self1(2)] using assms(3) self1(3)
    by (auto simp: Let_def is_unset_def finish_batch_def add_pending_cache_entry_def resolve_pending_cache_entry_def usize_pred_def set_result_unset hm_insert_same
        result_simps nth_append split: if_splits)
  have "dc_results self' = ?cores"
    using completed_stays [OF _ reg] by simp
  then show ?thesis
    using load by (auto simp: check_result_def nth_append)
qed

lemma fresh_source_idle: "data_wf self \<Longrightarrow> \<not> unset (dc_results self) x \<Longrightarrow> idle_source (dc_batches self) x"
  unfolding data_wf_def sources_wf_def source_ok_def idle_source_def by blast

section \<open>Properties\<close>


text \<open>
  A load whose first tablet is in the cache reports that tablet alone: its result is there at
  once and has one entry, whatever other tablets were asked for, in the cache or not.
\<close>

theorem cached_tablet_reports_alone:
  assumes "data_wf self" "hm_get (dc_entries self) (cache_key m) = Some entry" "en_state entry = EntryCache v"
  shows "\<exists>self' handle. load_tablets (m # ms) self = Ok (self', handle) \<and>
    check_result (fst (dc_results self')) handle = Some (Ok [(en_metadata entry, v)])"
  using assms by (rule load_cached_first)

text \<open>A cache that holds one tablet, for the witnesses.\<close>

definition demo_tablet :: tablet_metadata where
  "demo_tablet = (default_tablet 10)\<lparr>tablet_version := 1, blob_uri := ''10_1_''\<rparr>"

definition demo_cache :: "(bytes, unit) data_cache" where
  "demo_cache = (data_cache_create 0 ())\<lparr>dc_entries :=
     [(''10_1_'', \<lparr> en_metadata = demo_tablet, en_state = EntryCache [7], en_batch_ids = [] \<rparr>)]\<rparr>"

lemma demo_cache_wf: "data_wf demo_cache"
  by (simp add: data_wf_def demo_cache_def data_cache_create_def hm_wf_def waiting_def outstanding_def hm_get_def sources_wf_def
      operations_wf_def)


theorem cached_tablet_reports_alone_witness:
  "\<exists>self' handle. load_tablets [demo_tablet, default_tablet 20] demo_cache = Ok (self', handle) \<and>
    check_result (fst (dc_results self')) handle = Some (Ok [(demo_tablet, [7])])"
  using cached_tablet_reports_alone [OF demo_cache_wf, of demo_tablet _ "[7]" "[default_tablet 20]"]
  by (simp add: demo_cache_def demo_tablet_def cache_key_def hm_get_def)

text \<open>
  Storing no tablets never reports: the result of an empty \<open>store_tablets\<close>, which is what
  processing that only reads ends with, is not set by any later operation of the cache.
\<close>

theorem empty_store_never_reports:
  assumes "data_wf self" "store_tablets (bytes_env sha256 base64) [] self = Ok (self', metadata, handle)"
    and "(data_step (bytes_env sha256 base64))\<^sup>*\<^sup>* self' self''"
  shows "check_result (snd (dc_results self'')) handle = None"
proof -
  have "dead self' (False, handle)"
    using assms(2) fresh_source_idle [OF assms(1), of "(False, length (snd (dc_results self)))"]
    by (auto simp: store_tablets_def batch_with_store_state_def create_eventual_result_def finish_batch_def batch_is_ready_def
        dead_def)
  moreover have "data_wf self'"
    using store_tablets_effect [OF assms(1,2)] by blast
  ultimately have "dead self'' (False, handle)"
    using default_policy.run_effect [OF assms(3)] by blast
  then show ?thesis
    by (simp add: dead_def is_unset_def check_result_def)
qed

theorem empty_store_never_reports_witness:
  "\<exists>self' self''. store_tablets (bytes_env (\<lambda>b. b) (\<lambda>_. [])) [] demo_cache = Ok (self', [], 0) \<and>
     data_make_progress (bytes_env (\<lambda>b. b) (\<lambda>_. [])) 1 self' = Ok self'' \<and> check_result (snd (dc_results self'')) 0 = None"
proof -
  obtain self' where store: "store_tablets (bytes_env (\<lambda>b. b) (\<lambda>_. [])) [] demo_cache = Ok (self', [], 0)"
    by (simp add: store_tablets_def batch_with_store_state_def create_eventual_result_def finish_batch_def batch_is_ready_def
        demo_cache_def data_cache_create_def)
  then have "data_wf self'"
    using store_tablets_effect [OF demo_cache_wf] by blast
  then obtain self'' where progress: "data_make_progress (bytes_env (\<lambda>b. b) (\<lambda>_. [])) 1 self' = Ok self''"
    using default_policy.make_progress_effect by blast
  then have "(data_step (bytes_env (\<lambda>b. b) (\<lambda>_. [])))\<^sup>*\<^sup>* self' self''"
    by (intro r_into_rtranclp data_step.progress)
  then show ?thesis
    using empty_store_never_reports [OF demo_cache_wf store] store progress by blast
qed

text \<open>
  Tablets that were never written have no blob name and share one entry: a load of one of them
  returns the metadata of the other.
\<close>

lemma fresh_tablets_share_entry:
  assumes "data_wf self" "hm_get (dc_entries self) (cache_key (default_tablet i)) = Some entry" "en_state entry = EntryCache v"
    and "en_metadata entry = default_tablet i"
  shows "\<exists>self' handle. load_tablets [default_tablet j] self = Ok (self', handle) \<and>
    check_result (fst (dc_results self')) handle = Some (Ok [(default_tablet i, v)])"
proof -
  have "cache_key (default_tablet j) = cache_key (default_tablet i)"
    by (simp add: cache_key_def default_tablet_def)
  then show ?thesis
    using load_cached_first [OF assms(1) _ assms(3), of "default_tablet j" "[]"] assms(2,4) by simp
qed

text \<open>What the storage answers enters the cache whatever the hash in the metadata of the tablet.\<close>

lemma loaded_contents_unverified:
  assumes "hm_get (dc_operations self) c = Some key" "hm_get (dc_entries self) key = Some entry" "en_state entry = EntryLoad"
  shows "\<exists>self'. data_process_in_message (bytes_env sha256 base64) (LoadResponse c StorageSucceeded contents) self = Ok self' \<and>
    hm_get (dc_entries self') key = Some (entry\<lparr>en_state := EntryCache contents\<rparr>)"
  using assms
  by (simp add: data_process_in_message_def process_load_response_def prepare_tablet_read_def bytes_env_def bytes_deserialize_def)

end
