(* ===== verification/CacheManager.thy ===== *)
theory CacheManager
  imports CacheData
begin

text \<open>
  Model of \<open>src/apps/tablet_cache/service/src/transaction/coordinator.rs\<close> and
  \<open>transaction/manager.rs\<close>: transactions over cached tablets, which resolve, load, process and
  store tablets and then commit to the tablet store with check and update operations, and the
  manager that routes messages between the caches, the coordinator and the tablet store.

  A process handler gets the queries with their tablets and returns the tablets, changed, in the
  same order; it changes the state of the client. The manager object and its transactions
  share one core, so that a transaction is its id and its known outcome.

  The lemmas show that a transaction the store accepts has read the current versions of all its
  tablets and that the metadata cache then agrees with the store; and where the code stops short of
  it: rejected transactions that leave uncommitted metadata in the cache, processing that never ends,
  and errors of the store that panic.
\<close>

section \<open>The state of a transaction\<close>

type_synonym ('c, 't) process_handler =
  "nat \<Rightarrow> (table_query \<times> 't tablet) list \<Rightarrow> 'c \<Rightarrow> ('c \<times> 't tablet list) run"

record 't tablet_state =
  ts_query :: table_query
  ts_tablet :: "'t tablet"

datatype process_status =
    ProcPending "table_query list"
  | ProcResolving nat
  | ProcLoading nat
  | ProcStoring nat
  | ProcCompleted
  | ProcFailed

record ('c, 't) process_state =
  ps_status :: process_status
  ps_handler :: "('c, 't) process_handler"
  ps_tablets :: "(64 word, 't tablet_state) hmap"

datatype transaction_outcome = TransactionSucceeded | TransactionFailed

datatype ('c, 't) transaction_state =
    TxPreparing "('c, 't) process_state list"
  | TxCommitting "tablet_op list"
  | TxCompleted transaction_outcome

datatype preparing_outcome = PreparingSucceeded "tablet_op list" | PreparingFailed

definition create_tablet_key :: "tablet_metadata \<Rightarrow> 64 word" where
  "create_tablet_key metadata = or (push_bit 32 (ucast (tablet_id metadata))) (ucast (tablet_version metadata))"

definition tablet_state_create :: "table_query \<Rightarrow> tablet_metadata \<Rightarrow> 't tablet_state" where
  "tablet_state_create query metadata = \<lparr> ts_query = query, ts_tablet = tablet_create metadata \<rparr>"

definition tablet_init :: "'t \<Rightarrow> 't tablet_state \<Rightarrow> 't tablet_state" where
  "tablet_init data self = self\<lparr>ts_tablet := (ts_tablet self)\<lparr>tb_contents := Some data\<rparr>\<rparr>"

text \<open>The tablet after \<open>tablet_prepare\<close> and the write it returns.\<close>

definition tablet_prepare :: "'t tablet_state \<Rightarrow> 't tablet_state \<times> (tablet_metadata \<times> 't) option" where
  "tablet_prepare self =
     (case tablet_take_updated_contents (ts_tablet self) of
        (tablet, Some updated_contents) \<Rightarrow> (self\<lparr>ts_tablet := tablet\<rparr>, Some (tb_metadata tablet, updated_contents))
      | (tablet, None) \<Rightarrow> (self\<lparr>ts_tablet := tablet\<rparr>, None))"

definition get_tablet_op :: "'t tablet_state \<Rightarrow> tablet_op" where
  "get_tablet_op self =
     (let metadata = tb_metadata (ts_tablet self) in
      \<lparr> to_table_name = tq_table_name (ts_query self),
        to_op = Some (if tb_is_dirty (ts_tablet self) then OpUpdateTablet (Some metadata)
                      else OpCheckTablet (tablet_id metadata) (tablet_version metadata)) \<rparr>)"

section \<open>Progress of a process request\<close>

type_synonym 't tablet_states = "(64 word, 't tablet_state) hmap"

definition track_resolved :: "resolved \<Rightarrow> 't tablet_states \<Rightarrow> 't tablet_states" where
  "track_resolved = fold (\<lambda>(query, metadata). hm_insert (create_tablet_key metadata) (tablet_state_create query metadata))"

fun init_tablets :: "(tablet_metadata \<times> 't) list \<Rightarrow> 't tablet_states \<Rightarrow> 't tablet_states run" where
  "init_tablets [] tablets = Ok tablets"
| "init_tablets ((metadata, data) # rest) tablets =
     and_then (unwrap (hm_get tablets (create_tablet_key metadata))) (\<lambda>state.
       init_tablets rest (hm_insert (create_tablet_key metadata) (tablet_init data state) tablets))"

definition call_process_handler :: "('c, 't) process_handler \<Rightarrow> nat \<Rightarrow> 't tablet_states \<Rightarrow> 'c \<Rightarrow> ('c \<times> 't tablet_states) run" where
  "call_process_handler handler transaction_id tablets c =
     and_then (handler transaction_id (map (\<lambda>e. (ts_query (snd e), ts_tablet (snd e))) tablets) c) (\<lambda>(c, changed).
       Ok (c, map (\<lambda>(e, tablet). (fst e, (snd e)\<lparr>ts_tablet := tablet\<rparr>)) (zip tablets changed)))"

text \<open>
  The writes borrow the metadata of the dirty tablets mutably: the metadata of \<open>store_tablets\<close>
  go back to the tablets that gave a write, in order.
\<close>

fun return_metadata :: "(64 word \<times> 't tablet_state \<times> bool) list \<Rightarrow> tablet_metadata list \<Rightarrow> 't tablet_states" where
  "return_metadata [] ms = []"
| "return_metadata ((key, state, True) # rest) (m # ms) =
     (key, state\<lparr>ts_tablet := (ts_tablet state)\<lparr>tb_metadata := m\<rparr>\<rparr>) # return_metadata rest ms"
| "return_metadata ((key, state, written) # rest) ms = (key, state) # return_metadata rest ms"

definition store_writes :: "('t, 'p) data_env \<Rightarrow> 't tablet_states \<Rightarrow> ('t, 'p) data_cache
    \<Rightarrow> (('t, 'p) data_cache \<times> 't tablet_states \<times> nat) run" where
  "store_writes env tablets data_cache =
     (let prepared = map (\<lambda>e. (fst e, tablet_prepare (snd e))) tablets;
          tablet_writes = List.map_filter (\<lambda>e. snd (snd e)) prepared
      in and_then (store_tablets env tablet_writes data_cache) (\<lambda>(data_cache, metadata, handle).
           Ok (data_cache,
               return_metadata (map (\<lambda>e. (fst e, fst (snd e), snd (snd e) \<noteq> None)) prepared) metadata, handle)))"

type_synonym ('c, 't, 'p) caches = "'c metadata_cache \<times> ('t, 'p) data_cache \<times> 'c"

definition process_make_progress :: "('t, 'p) data_env \<Rightarrow> nat \<Rightarrow> ('c, 't) process_state \<Rightarrow> ('c, 't, 'p) caches
    \<Rightarrow> (('c, 't) process_state \<times> ('c, 't, 'p) caches) run" where
  "process_make_progress env transaction_id process w =
     (case w of (metadata_cache, data_cache, c) \<Rightarrow>
      case ps_status process of
        ProcPending process_queries \<Rightarrow>
          and_then (resolve_tablets process_queries metadata_cache c) (\<lambda>(metadata_cache, c, resolve_result).
            Ok (process\<lparr>ps_status := ProcResolving resolve_result\<rparr>, metadata_cache, data_cache, c))
      | ProcResolving resolve_result \<Rightarrow>
          (case check_result (mc_results metadata_cache) resolve_result of
             None \<Rightarrow> Ok (process, w)
           | Some (Ok resolve_values) \<Rightarrow>
               and_then (load_tablets (map snd resolve_values) data_cache) (\<lambda>(data_cache, load_result).
                 Ok (process\<lparr>ps_tablets := track_resolved resolve_values (ps_tablets process),
                             ps_status := ProcLoading load_result\<rparr>, metadata_cache, data_cache, c))
           | Some _ \<Rightarrow> Ok (process\<lparr>ps_status := ProcFailed\<rparr>, w))
      | ProcLoading load_result \<Rightarrow>
          (case check_result (fst (dc_results data_cache)) load_result of
             None \<Rightarrow> Ok (process, w)
           | Some (Ok load_values) \<Rightarrow>
               and_then (init_tablets load_values (ps_tablets process)) (\<lambda>tablets.
               and_then (call_process_handler (ps_handler process) transaction_id tablets c) (\<lambda>(c, tablets).
               and_then (store_writes env tablets data_cache) (\<lambda>(data_cache, tablets, store_result).
                 Ok (process\<lparr>ps_tablets := tablets, ps_status := ProcStoring store_result\<rparr>,
                     metadata_cache, data_cache, c))))
           | Some _ \<Rightarrow> Ok (process\<lparr>ps_status := ProcFailed\<rparr>, w))
      | ProcStoring store_result \<Rightarrow>
          (case check_result (snd (dc_results data_cache)) store_result of
             None \<Rightarrow> Ok (process, w)
           | Some (Ok _) \<Rightarrow> Ok (process\<lparr>ps_status := ProcCompleted\<rparr>, w)
           | Some _ \<Rightarrow> Ok (process\<lparr>ps_status := ProcFailed\<rparr>, w))
      | ProcCompleted \<Rightarrow> Ok (process, w)
      | ProcFailed \<Rightarrow> Ok (process, w))"

fun preparing_make_progress :: "('t, 'p) data_env \<Rightarrow> nat \<Rightarrow> ('c, 't) process_state list \<Rightarrow> ('c, 't, 'p) caches
    \<Rightarrow> (('c, 't) process_state list \<times> ('c, 't, 'p) caches) run" where
  "preparing_make_progress env transaction_id [] w = Ok ([], w)"
| "preparing_make_progress env transaction_id (process # rest) w =
     and_then (process_make_progress env transaction_id process w) (\<lambda>(process, w).
     and_then (preparing_make_progress env transaction_id rest w) (\<lambda>(rest, w). Ok (process # rest, w)))"

definition init_pending :: "table_query list \<Rightarrow> ('c, 't) process_handler \<Rightarrow> ('c, 't) process_state list
    \<Rightarrow> ('c, 't) process_state list" where
  "init_pending queries handler processes =
     processes @ [\<lparr> ps_status = ProcPending queries, ps_handler = handler, ps_tablets = [] \<rparr>]"

definition is_active :: "('c, 't) process_state list \<Rightarrow> bool" where
  "is_active processes \<longleftrightarrow> list_ex (\<lambda>p. ps_status p \<noteq> ProcCompleted) processes"

fun preparing_complete :: "('c, 't) process_state list \<Rightarrow> tablet_op list \<Rightarrow> preparing_outcome" where
  "preparing_complete [] tablet_ops = PreparingSucceeded tablet_ops"
| "preparing_complete (process # rest) tablet_ops =
     (case ps_status process of
        ProcFailed \<Rightarrow> PreparingFailed
      | _ \<Rightarrow> preparing_complete rest (tablet_ops @ map (\<lambda>e. get_tablet_op (snd e)) (ps_tablets process)))"

text \<open>The outcome of a commit and the metadata it brings to the cache, with the conflicts among them.\<close>

type_synonym metadata_update = "string \<times> tablet_metadata \<times> bool"

definition complete_op :: "tablet_op \<Rightarrow> tablet_op_result \<Rightarrow> metadata_update list run" where
  "complete_op op r =
     (let op_succeeded = (tor_status r = OpSucceeded) in
      case (to_op op, tor_op_result r) of
        (Some (OpCheckTablet _ _), Some (CheckTabletResult existing)) \<Rightarrow>
          if \<not> op_succeeded
          then and_then (unwrap existing) (\<lambda>existing. Ok [(to_table_name op, existing, True)])
          else Ok []
      | (Some (OpUpdateTablet updated), Some (UpdateTabletResult existing)) \<Rightarrow>
          if \<not> op_succeeded
          then and_then (unwrap existing) (\<lambda>existing. Ok [(to_table_name op, existing, True)])
          else and_then (unwrap updated) (\<lambda>updated. Ok [(to_table_name op, updated, False)])
      | _ \<Rightarrow> Panic)"

fun committing_complete :: "(tablet_op \<times> tablet_op_result) list \<Rightarrow> transaction_outcome \<Rightarrow> metadata_update list
    \<Rightarrow> (transaction_outcome \<times> metadata_update list) run" where
  "committing_complete [] outcome updates = Ok (outcome, updates)"
| "committing_complete ((op, r) # rest) outcome updates =
     and_then (complete_op op r) (\<lambda>us.
       committing_complete rest (if tor_status r \<noteq> OpSucceeded then TransactionFailed else outcome) (updates @ us))"

section \<open>The coordinator\<close>

datatype coordinator_in_msg = CoordinatorResponse nat "tablet_op_result list"
datatype coordinator_out_msg = CoordinatorRequest nat "tablet_op list"

record ('c, 't) coordinator =
  co_correlation_counter :: nat
  co_transaction_counter :: nat
  co_transactions :: "(nat, ('c, 't) transaction_state) hmap"
  co_correlations :: "(nat, nat) hmap"
  co_out_messages :: "coordinator_out_msg list"

definition coordinator_create :: "nat \<Rightarrow> ('c, 't) coordinator" where
  "coordinator_create correlation_counter =
     \<lparr> co_correlation_counter = correlation_counter, co_transaction_counter = 1, co_transactions = [],
       co_correlations = [], co_out_messages = [] \<rparr>"

definition transaction_stash_request :: "nat \<Rightarrow> tablet_op list \<Rightarrow> ('c, 't) coordinator \<Rightarrow> ('c, 't) coordinator" where
  "transaction_stash_request transaction_id tablet_ops self =
     (let counter = co_correlation_counter self + 1 in
      self\<lparr>co_correlation_counter := counter,
           co_out_messages := co_out_messages self @ [CoordinatorRequest counter tablet_ops],
           co_correlations := hm_insert counter transaction_id (co_correlations self)\<rparr>)"

fun transactions_make_progress :: "('t, 'p) data_env \<Rightarrow> (nat, ('c, 't) transaction_state) hmap \<Rightarrow> ('c, 't, 'p) caches
    \<Rightarrow> ((nat, ('c, 't) transaction_state) hmap \<times> ('c, 't, 'p) caches) run" where
  "transactions_make_progress env [] w = Ok ([], w)"
| "transactions_make_progress env ((transaction_id, TxPreparing processes) # rest) w =
     and_then (preparing_make_progress env transaction_id processes w) (\<lambda>(processes, w).
     and_then (transactions_make_progress env rest w) (\<lambda>(rest, w).
       Ok ((transaction_id, TxPreparing processes) # rest, w)))"
| "transactions_make_progress env ((transaction_id, state) # rest) w =
     and_then (transactions_make_progress env rest w) (\<lambda>(rest, w). Ok ((transaction_id, state) # rest, w))"

definition coordinator_make_progress :: "('t, 'p) data_env \<Rightarrow> ('c, 't) coordinator \<Rightarrow> ('c, 't, 'p) caches
    \<Rightarrow> (('c, 't) coordinator \<times> ('c, 't, 'p) caches) run" where
  "coordinator_make_progress env self w =
     and_then (transactions_make_progress env (co_transactions self) w) (\<lambda>(transactions, w).
       Ok (self\<lparr>co_transactions := transactions\<rparr>, w))"

definition coordinator_process_in_message :: "coordinator_in_msg \<Rightarrow> ('c, 't) coordinator \<Rightarrow> 'c metadata_cache
    \<Rightarrow> (('c, 't) coordinator \<times> 'c metadata_cache) run" where
  "coordinator_process_in_message in_message self metadata_cache =
     (case in_message of CoordinatorResponse correlation_id tablet_op_results \<Rightarrow>
        (case hm_get (co_correlations self) correlation_id of
           None \<Rightarrow> Ok (self, metadata_cache)
         | Some transaction_id \<Rightarrow>
             let self = self\<lparr>co_correlations := hm_remove correlation_id (co_correlations self)\<rparr> in
             (case hm_get (co_transactions self) transaction_id of
                Some (TxCommitting tablet_ops) \<Rightarrow>
                  and_then (committing_complete (zip tablet_ops tablet_op_results) TransactionSucceeded [])
                    (\<lambda>(outcome, updates).
                      Ok (self\<lparr>co_transactions := hm_insert transaction_id (TxCompleted outcome) (co_transactions self)\<rparr>,
                          fold (\<lambda>(table_name, metadata, conflict). metadata_update_tablet table_name metadata conflict)
                            updates metadata_cache))
              | _ \<Rightarrow> Ok (self, metadata_cache))))"

definition coordinator_take_out_messages :: "('c, 't) coordinator \<Rightarrow> ('c, 't) coordinator \<times> coordinator_out_msg list" where
  "coordinator_take_out_messages self = (self\<lparr>co_out_messages := []\<rparr>, co_out_messages self)"

definition create_transaction :: "('c, 't) coordinator \<Rightarrow> ('c, 't) coordinator \<times> nat" where
  "create_transaction self =
     (let transaction_id = co_transaction_counter self + 1 in
      (self\<lparr>co_transaction_counter := transaction_id,
            co_transactions := hm_insert transaction_id (TxPreparing []) (co_transactions self)\<rparr>, transaction_id))"

definition process_transaction :: "nat \<Rightarrow> table_query list \<Rightarrow> ('c, 't) process_handler \<Rightarrow> ('c, 't) coordinator
    \<Rightarrow> ('c, 't) coordinator run" where
  "process_transaction transaction_id queries handler self =
     and_then (unwrap (hm_get (co_transactions self) transaction_id)) (\<lambda>transaction.
       case transaction of
         TxPreparing processes \<Rightarrow>
           Ok (self\<lparr>co_transactions := hm_insert transaction_id (TxPreparing (init_pending queries handler processes))
                (co_transactions self)\<rparr>)
       | _ \<Rightarrow> Panic)"

definition has_transaction_pending_process :: "nat \<Rightarrow> ('c, 't) coordinator \<Rightarrow> bool run" where
  "has_transaction_pending_process transaction_id self =
     and_then (unwrap (hm_get (co_transactions self) transaction_id)) (\<lambda>transaction.
       Ok (case transaction of TxPreparing processes \<Rightarrow> is_active processes | _ \<Rightarrow> False))"

definition commit_transaction :: "nat \<Rightarrow> ('c, 't) coordinator \<Rightarrow> ('c, 't) coordinator run" where
  "commit_transaction transaction_id self =
     and_then (unwrap (hm_get (co_transactions self) transaction_id)) (\<lambda>transaction.
       case transaction of
         TxPreparing processes \<Rightarrow>
           if is_active processes then Panic
           else (case preparing_complete processes [] of
                PreparingSucceeded tablet_ops \<Rightarrow>
                  let self = transaction_stash_request transaction_id tablet_ops self in
                  Ok (self\<lparr>co_transactions := hm_insert transaction_id (TxCommitting tablet_ops) (co_transactions self)\<rparr>)
              | PreparingFailed \<Rightarrow>
                  Ok (self\<lparr>co_transactions := hm_insert transaction_id (TxCompleted TransactionFailed) (co_transactions self)\<rparr>))
       | _ \<Rightarrow> Panic)"

definition abort_transaction :: "nat \<Rightarrow> ('c, 't) coordinator \<Rightarrow> ('c, 't) coordinator" where
  "abort_transaction transaction_id self = self\<lparr>co_transactions := hm_remove transaction_id (co_transactions self)\<rparr>"

definition check_transaction_result :: "nat \<Rightarrow> ('c, 't) coordinator \<Rightarrow> (('c, 't) coordinator \<times> transaction_outcome option) run" where
  "check_transaction_result transaction_id self =
     and_then (unwrap (hm_get (co_transactions self) transaction_id)) (\<lambda>transaction.
       case transaction of
         TxPreparing _ \<Rightarrow> Panic
       | TxCommitting _ \<Rightarrow> Ok (self, None)
       | TxCompleted outcome \<Rightarrow>
           Ok (self\<lparr>co_transactions := hm_remove transaction_id (co_transactions self)\<rparr>, Some outcome))"

section \<open>The manager\<close>

datatype manager_in_msg =
    InLoadTablet nat storage_status bytes
  | InStoreTablet nat storage_status
  | InExecuteOps nat tablets_response
  | InExecuteError nat

datatype manager_out_msg =
    OutLoadTablet nat string
  | OutStoreTablet nat string bytes
  | OutExecuteOps nat "tablet_op list"

record manager_config =
  mcfg_data_cache :: "nat option"
  mcfg_metadata_cache :: "metadata_table_config list option"

record ('c, 't, 'p) manager =
  ma_coordinator :: "('c, 't) coordinator"
  ma_metadata_cache :: "'c metadata_cache"
  ma_data_cache :: "('t, 'p) data_cache"
  ma_tablets_errors :: "(nat, tablets_response) hmap"

definition manager_create :: "('c, 't) coordinator \<Rightarrow> 'c metadata_cache \<Rightarrow> ('t, 'p) data_cache \<Rightarrow> ('c, 't, 'p) manager" where
  "manager_create coordinator metadata_cache data_cache =
     \<lparr> ma_coordinator = coordinator, ma_metadata_cache = metadata_cache, ma_data_cache = data_cache,
       ma_tablets_errors = [] \<rparr>"

definition manager_init :: "manager_config \<Rightarrow> ('c, 't, 'p) manager \<Rightarrow> ('c, 't, 'p) manager run" where
  "manager_init config self =
     and_then (unwrap (mcfg_data_cache config)) (\<lambda>data_config.
     and_then (unwrap (mcfg_metadata_cache config)) (\<lambda>metadata_config.
     and_then (metadata_init metadata_config (ma_metadata_cache self)) (\<lambda>metadata_cache.
       Ok (self\<lparr>ma_data_cache := data_init data_config (ma_data_cache self), ma_metadata_cache := metadata_cache\<rparr>))))"

definition manager_make_progress :: "('t, 'p) data_env \<Rightarrow> nat \<Rightarrow> ('c, 't, 'p) manager \<Rightarrow> 'c \<Rightarrow> (('c, 't, 'p) manager \<times> 'c) run" where
  "manager_make_progress env instant self c =
     and_then (data_make_progress env instant (ma_data_cache self)) (\<lambda>data_cache.
     and_then (coordinator_make_progress env (ma_coordinator self)
                 (metadata_make_progress (ma_metadata_cache self), data_cache, c))
       (\<lambda>(coordinator, metadata_cache, data_cache, c).
         Ok (self\<lparr>ma_coordinator := coordinator, ma_metadata_cache := metadata_cache, ma_data_cache := data_cache\<rparr>, c)))"

definition manager_resolve :: "table_query list \<Rightarrow> ((table_query \<times> tablet_descriptor) list \<Rightarrow> 'c \<Rightarrow> 'c run)
    \<Rightarrow> ('c, 't, 'p) manager \<Rightarrow> 'c \<Rightarrow> (('c, 't, 'p) manager \<times> 'c) run" where
  "manager_resolve queries handler self c =
     and_then (resolve_tablets_with_handler queries handler (ma_metadata_cache self) c) (\<lambda>(metadata_cache, c).
       Ok (self\<lparr>ma_metadata_cache := metadata_cache\<rparr>, c))"

definition create_failed_op_result :: "tablet_op \<Rightarrow> tablet_op_result" where
  "create_failed_op_result op =
     \<lparr> tor_table_name = to_table_name op, tor_status = OpFailed,
       tor_op_result =
         (case to_op op of
            Some (OpListTablet from to) \<Rightarrow> Some (ListTabletResult from to [])
          | Some (OpCheckTablet _ _) \<Rightarrow> Some (CheckTabletResult None)
          | Some (OpUpdateTablet _) \<Rightarrow> Some (UpdateTabletResult None)
          | Some (OpAddTablet _) \<Rightarrow> Some (AddTabletResult None)
          | Some (OpRemoveTablet _ _) \<Rightarrow> Some (RemoveTabletResult None)
          | None \<Rightarrow> None) \<rparr>"

definition is_list_result :: "tablet_op_result \<Rightarrow> bool" where
  "is_list_result r = (case tor_op_result r of Some (ListTabletResult _ _ _) \<Rightarrow> True | _ \<Rightarrow> False)"

definition process_in_tablets_op_response ::
  "nat \<Rightarrow> tablets_response \<Rightarrow> ('c, 't, 'p) manager \<Rightarrow> 'c \<Rightarrow> (('c, 't, 'p) manager \<times> 'c) run" where
  "process_in_tablets_op_response correlation_id response self c =
     (let results = filter (\<lambda>r. tor_op_result r \<noteq> None) (tr_results response);
          list_op_results = filter is_list_result results;
          execute_op_results = filter (\<lambda>r. \<not> is_list_result r) results
      in and_then (if list_op_results \<noteq> []
                   then and_then (metadata_process_in_message (ListResponse correlation_id list_op_results)
                                    (ma_metadata_cache self) c) (\<lambda>(metadata_cache, c).
                          Ok (self\<lparr>ma_metadata_cache := metadata_cache\<rparr>, c))
                   else Ok (self, c)) (\<lambda>(self, c).
         if execute_op_results \<noteq> []
         then and_then (coordinator_process_in_message (CoordinatorResponse correlation_id execute_op_results)
                          (ma_coordinator self) (ma_metadata_cache self)) (\<lambda>(coordinator, metadata_cache).
                Ok (self\<lparr>ma_coordinator := coordinator, ma_metadata_cache := metadata_cache\<rparr>, c))
         else Ok (self, c)))"

definition manager_process_in_message :: "('t, 'p) data_env \<Rightarrow> manager_in_msg \<Rightarrow> ('c, 't, 'p) manager \<Rightarrow> 'c
    \<Rightarrow> (('c, 't, 'p) manager \<times> 'c) run" where
  "manager_process_in_message env message self c =
     (case message of
        InLoadTablet correlation_id status contents \<Rightarrow>
          and_then (data_process_in_message env (LoadResponse correlation_id status contents) (ma_data_cache self))
            (\<lambda>data_cache. Ok (self\<lparr>ma_data_cache := data_cache\<rparr>, c))
      | InStoreTablet correlation_id status \<Rightarrow>
          and_then (data_process_in_message env (StoreResponse correlation_id status) (ma_data_cache self))
            (\<lambda>data_cache. Ok (self\<lparr>ma_data_cache := data_cache\<rparr>, c))
      | InExecuteOps correlation_id response \<Rightarrow>
          process_in_tablets_op_response correlation_id response
            (self\<lparr>ma_tablets_errors := hm_remove correlation_id (ma_tablets_errors self)\<rparr>) c
      | InExecuteError correlation_id \<Rightarrow>
          (case hm_get (ma_tablets_errors self) correlation_id of
             Some tablets_error \<Rightarrow>
               process_in_tablets_op_response correlation_id tablets_error
                 (self\<lparr>ma_tablets_errors := hm_remove correlation_id (ma_tablets_errors self)\<rparr>) c
           | None \<Rightarrow> Ok (self, c)))"

definition stash_ops_request :: "nat \<Rightarrow> tablet_op list \<Rightarrow> (nat, tablets_response) hmap
    \<Rightarrow> ((nat, tablets_response) hmap \<times> manager_out_msg) run" where
  "stash_ops_request correlation_id ops errors =
     (if hm_contains errors correlation_id then Panic
      else Ok (hm_insert correlation_id
                 \<lparr> tr_status = RequestFailed, tr_results = map create_failed_op_result ops \<rparr> errors,
               OutExecuteOps correlation_id ops))"

fun stash_ops_requests :: "(nat \<times> tablet_op list) list \<Rightarrow> (nat, tablets_response) hmap
    \<Rightarrow> ((nat, tablets_response) hmap \<times> manager_out_msg list) run" where
  "stash_ops_requests [] errors = Ok (errors, [])"
| "stash_ops_requests ((correlation_id, ops) # rest) errors =
     and_then (stash_ops_request correlation_id ops errors) (\<lambda>(errors, m).
     and_then (stash_ops_requests rest errors) (\<lambda>(errors, ms). Ok (errors, m # ms)))"

definition manager_take_out_messages :: "('c, 't, 'p) manager \<Rightarrow> (('c, 't, 'p) manager \<times> manager_out_msg list) run" where
  "manager_take_out_messages self =
     (case coordinator_take_out_messages (ma_coordinator self) of (coordinator, transaction_out) \<Rightarrow>
      case metadata_take_out_messages (ma_metadata_cache self) of (metadata_cache, metadata_out) \<Rightarrow>
      case data_take_out_messages (ma_data_cache self) of (data_cache, data_out) \<Rightarrow>
        and_then (stash_ops_requests
                    (map (\<lambda>m. case m of CoordinatorRequest i ops \<Rightarrow> (i, ops)) transaction_out @
                     map (\<lambda>m. case m of ListRequest i ops \<Rightarrow> (i, ops)) metadata_out) (ma_tablets_errors self))
          (\<lambda>(errors, ops_messages).
            Ok (self\<lparr>ma_coordinator := coordinator, ma_metadata_cache := metadata_cache, ma_data_cache := data_cache,
                     ma_tablets_errors := errors\<rparr>,
                ops_messages @
                map (\<lambda>m. case m of LoadRequest i uri \<Rightarrow> OutLoadTablet i uri
                                 | StoreRequest i uri contents \<Rightarrow> OutStoreTablet i uri contents) data_out)))"

text \<open>The transaction object that the manager hands out.\<close>

record tablet_transaction =
  tt_transaction_id :: nat
  tt_transaction_outcome :: "transaction_outcome option"

definition start_transaction :: "('c, 't, 'p) manager \<Rightarrow> ('c, 't, 'p) manager \<times> tablet_transaction" where
  "start_transaction self =
     (case create_transaction (ma_coordinator self) of
        (coordinator, i) \<Rightarrow>
          (self\<lparr>ma_coordinator := coordinator\<rparr>, \<lparr> tt_transaction_id = i, tt_transaction_outcome = None \<rparr>))"

definition transaction_process :: "table_query list \<Rightarrow> ('c, 't) process_handler \<Rightarrow> tablet_transaction
    \<Rightarrow> ('c, 't, 'p) manager \<Rightarrow> ('c, 't, 'p) manager run" where
  "transaction_process queries handler transaction manager =
     and_then (process_transaction (tt_transaction_id transaction) queries handler (ma_coordinator manager))
       (\<lambda>coordinator. Ok (manager\<lparr>ma_coordinator := coordinator\<rparr>))"

definition has_pending_process :: "tablet_transaction \<Rightarrow> ('c, 't, 'p) manager \<Rightarrow> bool run" where
  "has_pending_process transaction manager =
     has_transaction_pending_process (tt_transaction_id transaction) (ma_coordinator manager)"

definition transaction_commit :: "tablet_transaction \<Rightarrow> ('c, 't, 'p) manager \<Rightarrow> ('c, 't, 'p) manager run" where
  "transaction_commit transaction manager =
     and_then (commit_transaction (tt_transaction_id transaction) (ma_coordinator manager))
       (\<lambda>coordinator. Ok (manager\<lparr>ma_coordinator := coordinator\<rparr>))"

definition transaction_abort :: "tablet_transaction \<Rightarrow> ('c, 't, 'p) manager \<Rightarrow> ('c, 't, 'p) manager" where
  "transaction_abort transaction manager =
     manager\<lparr>ma_coordinator := abort_transaction (tt_transaction_id transaction) (ma_coordinator manager)\<rparr>"

definition transaction_check_result :: "tablet_transaction \<Rightarrow> ('c, 't, 'p) manager
    \<Rightarrow> (tablet_transaction \<times> ('c, 't, 'p) manager \<times> transaction_outcome option) run" where
  "transaction_check_result transaction manager =
     (case tt_transaction_outcome transaction of
        Some outcome \<Rightarrow> Ok (transaction, manager, Some outcome)
      | None \<Rightarrow>
          and_then (check_transaction_result (tt_transaction_id transaction) (ma_coordinator manager))
            (\<lambda>(coordinator, outcome).
              Ok (transaction\<lparr>tt_transaction_outcome := outcome\<rparr>, manager\<lparr>ma_coordinator := coordinator\<rparr>, outcome)))"

section \<open>Progress of transactions\<close>

text \<open>A process request advances the data cache by its operations.\<close>

lemma process_data_run:
  assumes "process_make_progress env i p (mc, dc, c) = Ok (p', mc', dc', c')"
  shows "(data_step env)\<^sup>*\<^sup>* dc dc'"
proof (cases "ps_status p")
  case (ProcResolving h)
  then show ?thesis
    using assms
    by (auto simp: process_make_progress_def result_simps split: option.splits result.splits intro: data_step.load)
next
  case (ProcLoading h)
  then show ?thesis
    using assms
    by (auto simp: process_make_progress_def store_writes_def Let_def result_simps split: option.splits result.splits
        intro: data_step.store)
next
  case (ProcStoring h)
  then show ?thesis
    using assms by (auto simp: process_make_progress_def split: option.splits result.splits)
qed (use assms in \<open>auto simp: process_make_progress_def result_simps\<close>)

text \<open>A process request that failed, or that waits for a store result that nobody will set.\<close>

definition process_dead :: "('t, 'p) data_cache \<Rightarrow> ('c, 't) process_state \<Rightarrow> bool" where
  "process_dead dc p \<longleftrightarrow> ps_status p = ProcFailed \<or> (\<exists>h. ps_status p = ProcStoring h \<and> dead dc (False, h))"

definition transaction_dead :: "nat \<Rightarrow> ('t, 'p) data_cache \<Rightarrow> (nat, ('c, 't) transaction_state) hmap \<Rightarrow> bool" where
  "transaction_dead i dc transactions \<longleftrightarrow>
     (\<exists>processes. hm_get transactions i = Some (TxPreparing processes) \<and> list_ex (process_dead dc) processes)"

lemma dead_unset: "dead dc (False, h) \<Longrightarrow> check_result (snd (dc_results dc)) h = None"
  by (simp add: dead_def is_unset_def check_result_def)

lemma dead_process_waits: "process_dead dc p \<Longrightarrow> process_make_progress env i p (mc, dc, c) = Ok (p, mc, dc, c)"
  by (auto simp: process_dead_def process_make_progress_def dead_unset)

context eviction_policy
begin

lemma process_dead_run: "(data_step env)\<^sup>*\<^sup>* dc dc' \<Longrightarrow> data_wf dc \<Longrightarrow> process_dead dc p \<Longrightarrow> process_dead dc' p"
  using run_effect unfolding process_dead_def by blast

lemma preparing_run:
  "preparing_make_progress env i ps (mc, dc, c) = Ok (ps', mc', dc', c') \<Longrightarrow> data_wf dc \<Longrightarrow>
    (data_step env)\<^sup>*\<^sup>* dc dc' \<and> (list_ex (process_dead dc) ps \<longrightarrow> list_ex (process_dead dc') ps')"
proof (induction ps arbitrary: mc dc c ps')
  case (Cons p ps)
  from Cons.prems(1) obtain p1 mc1 dc1 c1 ps1 where step: "process_make_progress env i p (mc, dc, c) = Ok (p1, mc1, dc1, c1)"
    "preparing_make_progress env i ps (mc1, dc1, c1) = Ok (ps1, mc', dc', c')" "ps' = p1 # ps1"
    by (auto simp: result_simps)
  have run: "(data_step env)\<^sup>*\<^sup>* dc dc1"
    using process_data_run [OF step(1)] .
  have wf: "data_wf dc1"
    using run_effect [OF run Cons.prems(2)] by blast
  note rest = Cons.IH [OF step(2) wf]
  have "process_dead dc' p1" if p: "process_dead dc p"
  proof -
    have "p1 = p"
      using dead_process_waits [OF p, of env i mc c] step(1) by simp
    then show ?thesis
      using process_dead_run [OF _ wf] rest process_dead_run [OF run Cons.prems(2) p] by blast
  qed
  moreover have "list_ex (process_dead dc) ps \<Longrightarrow> list_ex (process_dead dc1) ps"
    using process_dead_run [OF run Cons.prems(2)] by (auto simp: list_ex_iff)
  ultimately show ?case
    using run rest by (auto simp: step(3))
qed simp

lemma transactions_run:
  "transactions_make_progress env txs (mc, dc, c) = Ok (txs', mc', dc', c') \<Longrightarrow> data_wf dc \<Longrightarrow>
    (data_step env)\<^sup>*\<^sup>* dc dc' \<and> (transaction_dead i dc txs \<longrightarrow> transaction_dead i dc' txs')"
proof (induction txs arbitrary: mc dc c txs')
  case (Cons tx txs)
  obtain j state where tx: "tx = (j, state)"
    by fastforce
  obtain state1 mc1 dc1 c1 txs1 where step: "transactions_make_progress env txs (mc1, dc1, c1) = Ok (txs1, mc', dc', c')"
    "txs' = (j, state1) # txs1" and run: "(data_step env)\<^sup>*\<^sup>* dc dc1" and wf: "data_wf dc1"
    and state: "\<And>ps. state = TxPreparing ps \<Longrightarrow> list_ex (process_dead dc) ps \<Longrightarrow>
      \<exists>ps1. state1 = TxPreparing ps1 \<and> list_ex (process_dead dc1) ps1"
  proof (cases state)
    case (TxPreparing ps)
    then obtain ps1 mc1 dc1 c1 txs1 where "preparing_make_progress env j ps (mc, dc, c) = Ok (ps1, mc1, dc1, c1)"
      "transactions_make_progress env txs (mc1, dc1, c1) = Ok (txs1, mc', dc', c')" "txs' = (j, TxPreparing ps1) # txs1"
      using Cons.prems(1) by (auto simp: tx result_simps)
    then show thesis
      using that [of mc1 dc1 c1 txs1 "TxPreparing ps1"] preparing_run [of j ps mc dc c ps1 mc1 dc1 c1] Cons.prems(2)
        run_effect [of dc dc1] TxPreparing by blast
  qed (use Cons.prems that [of mc dc c _ state] in \<open>auto simp: tx result_simps\<close>)
  have dead1: "process_dead dc' p" if "process_dead dc1 p" for p
    using that process_dead_run [OF _ wf] Cons.IH [OF step(1) wf] by blast
  have "transaction_dead i dc' txs'" if dead: "transaction_dead i dc (tx # txs)"
  proof (cases "i = j")
    case True
    then obtain ps where "state = TxPreparing ps" "list_ex (process_dead dc) ps"
      using dead by (auto simp: transaction_dead_def tx hm_get_def)
    then show ?thesis
      using state dead1 True by (fastforce simp: transaction_dead_def step(2) hm_get_def list_ex_iff)
  next
    case False
    then have "transaction_dead i dc1 txs"
      using dead process_dead_run [OF run Cons.prems(2)] by (fastforce simp: transaction_dead_def tx hm_get_def list_ex_iff)
    then show ?thesis
      using False Cons.IH [OF step(1) wf] by (auto simp: transaction_dead_def step(2) hm_get_def)
  qed
  then show ?case
    using run Cons.IH [OF step(1) wf] by auto
qed simp

end

section \<open>Runs of the manager\<close>

text \<open>The calls on the manager and its transactions, apart from aborting transaction \<open>i\<close>.\<close>

inductive manager_step :: "('t, 'p) data_env \<Rightarrow> nat \<Rightarrow> ('c, 't, 'p) manager \<times> 'c \<Rightarrow> ('c, 't, 'p) manager \<times> 'c \<Rightarrow> bool" for env i where
  progress: "manager_make_progress env instant self c = Ok (self', c') \<Longrightarrow> manager_step env i (self, c) (self', c')"
| message: "manager_process_in_message env m self c = Ok (self', c') \<Longrightarrow> manager_step env i (self, c) (self', c')"
| take: "manager_take_out_messages self = Ok (self', ms) \<Longrightarrow> manager_step env i (self, c) (self', c)"
| resolve: "manager_resolve queries handler self c = Ok (self', c') \<Longrightarrow> manager_step env i (self, c) (self', c')"
| start: "start_transaction self = (self', tx) \<Longrightarrow> manager_step env i (self, c) (self', c)"
| process_tx: "transaction_process queries handle tx self = Ok self' \<Longrightarrow> manager_step env i (self, c) (self', c)"
| commit: "transaction_commit tx self = Ok self' \<Longrightarrow> manager_step env i (self, c) (self', c)"
| check: "transaction_check_result tx self = Ok (tx', self', outcome) \<Longrightarrow> manager_step env i (self, c) (self', c)"
| abort: "tt_transaction_id tx \<noteq> i \<Longrightarrow> manager_step env i (self, c) (transaction_abort tx self, c)"
| client: "manager_step env i (self, c) (self, c')"

definition manager_stuck :: "nat \<Rightarrow> ('c, 't, 'p) manager \<Rightarrow> bool" where
  "manager_stuck i self \<longleftrightarrow> data_wf (ma_data_cache self) \<and> i \<le> co_transaction_counter (ma_coordinator self) \<and>
     transaction_dead i (ma_data_cache self) (co_transactions (ma_coordinator self))"

lemma transaction_dead_active:
  assumes "transaction_dead i dc txs" "hm_get txs i = Some state"
  shows "\<exists>processes. state = TxPreparing processes \<and> is_active processes"
proof -
  obtain processes p where "state = TxPreparing processes" "p \<in> set processes" "process_dead dc p"
    using assms by (auto simp: transaction_dead_def list_ex_iff)
  moreover from this have "ps_status p \<noteq> ProcCompleted"
    by (auto simp: process_dead_def)
  ultimately show ?thesis
    by (auto simp: is_active_def list_ex_iff)
qed

lemma process_dead_out: "process_dead (dc\<lparr>dc_out_messages := ms\<rparr>) = process_dead dc"
  by (simp add: fun_eq_iff process_dead_def data_wf_fields)

lemma transaction_dead_other: "i \<noteq> j \<Longrightarrow> transaction_dead i dc (hm_insert j state txs) = transaction_dead i dc txs"
  "i \<noteq> j \<Longrightarrow> transaction_dead i dc (hm_remove j txs) = transaction_dead i dc txs"
  by (simp_all add: transaction_dead_def)

lemma coordinator_message_dead:
  assumes "coordinator_process_in_message m self mc = Ok (self', mc')" "transaction_dead i dc (co_transactions self)"
  shows "transaction_dead i dc (co_transactions self') \<and> co_transaction_counter self' = co_transaction_counter self"
proof (cases m)
  case (CoordinatorResponse correlation_id results)
  show ?thesis
  proof (cases "hm_get (co_correlations self) correlation_id")
    case (Some j)
    then show ?thesis
      using assms transaction_dead_active [OF assms(2)]
      by (cases "j = i") (auto simp: coordinator_process_in_message_def CoordinatorResponse Let_def result_simps transaction_dead_other
          split: option.splits transaction_state.splits)
  qed (use assms in \<open>auto simp: coordinator_process_in_message_def CoordinatorResponse\<close>)
qed

lemma response_dead:
  assumes "process_in_tablets_op_response k r self c = Ok (self', c')" "manager_stuck i self"
  shows "manager_stuck i self'"
  using assms coordinator_message_dead [where i = i and dc = "ma_data_cache self"]
  by (fastforce simp: process_in_tablets_op_response_def Let_def result_simps manager_stuck_def split: if_splits)

lemma manager_stuck_data:
  assumes "manager_stuck i self" "data_process_in_message env m (ma_data_cache self) = Ok dc"
  shows "manager_stuck i (self\<lparr>ma_data_cache := dc\<rparr>)"
proof -
  have "data_wf dc" "dead dc = dead (ma_data_cache self)"
    using data_process_effect [OF _ assms(2)] assms(1) by (auto simp: manager_stuck_def dead_def fun_eq_iff)
  then show ?thesis
    using assms(1) by (simp add: manager_stuck_def transaction_dead_def process_dead_def list_ex_iff)
qed

lemma commit_transaction_effect:
  assumes "commit_transaction j self = Ok self'"
  shows "\<exists>processes state. hm_get (co_transactions self) j = Some (TxPreparing processes) \<and> \<not> is_active processes \<and>
    co_transactions self' = hm_insert j state (co_transactions self) \<and> co_transaction_counter self' = co_transaction_counter self"
proof -
  obtain state where state: "hm_get (co_transactions self) j = Some state"
    using assms by (auto simp: commit_transaction_def result_simps)
  then show ?thesis
    using assms
    by (cases state) (auto simp: commit_transaction_def Let_def transaction_stash_request_def split: if_splits preparing_outcome.splits)
qed

lemma check_transaction_effect:
  assumes "check_transaction_result j self = Ok (self', outcome)"
  shows "(\<forall>processes. hm_get (co_transactions self) j \<noteq> Some (TxPreparing processes)) \<and>
    (self' = self \<or> self' = self\<lparr>co_transactions := hm_remove j (co_transactions self)\<rparr>)"
proof -
  obtain state where state: "hm_get (co_transactions self) j = Some state"
    using assms by (auto simp: check_transaction_result_def result_simps)
  then show ?thesis
    using assms by (cases state) (auto simp: check_transaction_result_def)
qed

lemma process_transaction_effect:
  assumes "process_transaction j queries handler self = Ok self'"
  shows "\<exists>processes. hm_get (co_transactions self) j = Some (TxPreparing processes) \<and>
    self' = self\<lparr>co_transactions := hm_insert j (TxPreparing (init_pending queries handler processes)) (co_transactions self)\<rparr>"
proof -
  obtain state where state: "hm_get (co_transactions self) j = Some state"
    using assms by (auto simp: process_transaction_def result_simps)
  then show ?thesis
    using assms by (cases state) (auto simp: process_transaction_def)
qed

context eviction_policy
begin

lemma manager_step_stuck:
  assumes "manager_step env i (self, c) (self', c')" "manager_stuck i self"
  shows "manager_stuck i self'"
  using assms(1)
proof cases
  case (progress instant)
  then obtain dc co mc dc' where step: "data_make_progress env instant (ma_data_cache self) = Ok dc"
    "coordinator_make_progress env (ma_coordinator self) (metadata_make_progress (ma_metadata_cache self), dc, c) = Ok (co, mc, dc', c')"
    "self' = self\<lparr>ma_coordinator := co, ma_metadata_cache := mc, ma_data_cache := dc'\<rparr>"
    by (auto simp: manager_make_progress_def result_simps)
  have wf: "data_wf (ma_data_cache self)"
    using assms(2) by (simp add: manager_stuck_def)
  have run: "(data_step env)\<^sup>*\<^sup>* (ma_data_cache self) dc"
    using step(1) by (intro r_into_rtranclp data_step.progress)
  have wf': "data_wf dc"
    using run_effect [OF run wf] by blast
  have "transaction_dead i dc (co_transactions (ma_coordinator self))"
    using assms(2) process_dead_run [OF run wf] by (fastforce simp: manager_stuck_def transaction_dead_def list_ex_iff)
  moreover obtain txs where "transactions_make_progress env (co_transactions (ma_coordinator self))
      (metadata_make_progress (ma_metadata_cache self), dc, c) = Ok (txs, mc, dc', c')" "co = (ma_coordinator self)\<lparr>co_transactions := txs\<rparr>"
    using step(2) by (auto simp: coordinator_make_progress_def result_simps)
  ultimately show ?thesis
    using transactions_run [OF _ wf', where i = i] run_effect [OF _ wf'] assms(2) by (fastforce simp: manager_stuck_def step(3))
next
  case (message m)
  show ?thesis
  proof (cases m)
    case (InExecuteOps k r)
    then show ?thesis
      using message assms(2) response_dead [where i = i] by (fastforce simp: manager_process_in_message_def manager_stuck_def)
  next
    case (InExecuteError k)
    then show ?thesis
      using message assms(2) response_dead [where i = i]
      by (fastforce simp: manager_process_in_message_def manager_stuck_def split: option.splits)
  qed (use message assms(2) manager_stuck_data in \<open>auto simp: manager_process_in_message_def result_simps\<close>)
next
  case (commit tx)
  then obtain co where co: "commit_transaction (tt_transaction_id tx) (ma_coordinator self) = Ok co" "self' = self\<lparr>ma_coordinator := co\<rparr>"
    by (auto simp: transaction_commit_def result_simps)
  have "tt_transaction_id tx \<noteq> i"
    using commit_transaction_effect [OF co(1)] assms(2) transaction_dead_active by (fastforce simp: manager_stuck_def)
  then show ?thesis
    using commit_transaction_effect [OF co(1)] assms(2) by (auto simp: co(2) manager_stuck_def transaction_dead_other)
next
  case (check tx tx' outcome)
  show ?thesis
  proof (cases "tt_transaction_outcome tx")
    case None
    then obtain co where co: "check_transaction_result (tt_transaction_id tx) (ma_coordinator self) = Ok (co, outcome)"
      "self' = self\<lparr>ma_coordinator := co\<rparr>"
      using check by (auto simp: transaction_check_result_def result_simps)
    have "tt_transaction_id tx \<noteq> i"
      using check_transaction_effect [OF co(1)] assms(2) by (auto simp: manager_stuck_def transaction_dead_def)
    then show ?thesis
      using check_transaction_effect [OF co(1)] assms(2) by (auto simp: co(2) manager_stuck_def transaction_dead_other)
  qed (use check assms(2) in \<open>auto simp: transaction_check_result_def\<close>)
next
  case (process_tx queries handler tx)
  then obtain co where co: "process_transaction (tt_transaction_id tx) queries handler (ma_coordinator self) = Ok co"
    "self' = self\<lparr>ma_coordinator := co\<rparr>"
    by (auto simp: transaction_process_def result_simps)
  show ?thesis
    using process_transaction_effect [OF co(1)] assms(2)
    by (cases "tt_transaction_id tx = i") (auto simp: co(2) manager_stuck_def transaction_dead_def init_pending_def)
next
  case (start tx)
  then show ?thesis
    using assms(2) by (auto simp: start_transaction_def create_transaction_def Let_def manager_stuck_def transaction_dead_def)
qed (use assms(2) in \<open>auto simp: manager_take_out_messages_def coordinator_take_out_messages_def metadata_take_out_messages_def
    data_take_out_messages_def manager_resolve_def transaction_abort_def abort_transaction_def manager_stuck_def transaction_dead_other
    data_wf_fields transaction_dead_def process_dead_out result_simps\<close>)

lemma manager_run_stuck:
  "(manager_step env i)\<^sup>*\<^sup>* (self, c) (self', c') \<Longrightarrow> manager_stuck i self \<Longrightarrow> manager_stuck i self'"
  by (induction rule: rtranclp_induct2) (auto dest: manager_step_stuck)

end

lemma manager_stuck_pending:
  "manager_stuck (tt_transaction_id tx) self \<Longrightarrow> has_pending_process tx self = Ok True \<and> transaction_commit tx self = Panic"
  using transaction_dead_active
  by (fastforce simp: manager_stuck_def has_pending_process_def has_transaction_pending_process_def transaction_commit_def
      commit_transaction_def transaction_dead_def)

section \<open>What a transaction commits\<close>

text \<open>
  The contract of a process handler: it returns the tablets it got, in order, each unchanged or
  with new contents set.
\<close>

locale tablet_handler =
  fixes handler :: "('c, 't) process_handler"
  assumes handler_tablets: "handler i qts c = Ok (c', ts) \<Longrightarrow>
    list_all2 (\<lambda>qt t. t = snd qt \<or> (\<exists>v. t = tablet_set_contents v (snd qt))) qts ts"

definition tablet_clean :: "'t tablet \<Rightarrow> bool" where
  "tablet_clean t \<longleftrightarrow> \<not> tb_is_dirty t \<and> tb_updated_contents t = None"

text \<open>
  A tablet before and after processing: it keeps its query and its id; a tablet that was written
  has the next version, and the others their metadata.
\<close>

definition processed :: "64 word \<times> 't tablet_state \<Rightarrow> 64 word \<times> 't tablet_state \<Rightarrow> bool" where
  "processed e e' \<longleftrightarrow> (let m = tb_metadata (ts_tablet (snd e)); m' = tb_metadata (ts_tablet (snd e')) in
     ts_query (snd e') = ts_query (snd e) \<and> tablet_id m' = tablet_id m \<and>
     (if tb_is_dirty (ts_tablet (snd e')) then tablet_version m' = tablet_version m + 1 else m' = m))"

lemma hm_insert_rel:
  "hm_get m k = Some v \<Longrightarrow> R (k, v) (k, v') \<Longrightarrow> (\<And>e. R e e) \<Longrightarrow> list_all2 R m (hm_insert k v' m)"
  by (induction m) (auto simp: hm_get_def hm_insert_def list_all2_refl split: if_splits)

definition same_metadata :: "64 word \<times> 't tablet_state \<Rightarrow> 64 word \<times> 't tablet_state \<Rightarrow> bool" where
  "same_metadata e e' \<longleftrightarrow> ts_query (snd e') = ts_query (snd e) \<and>
     tb_metadata (ts_tablet (snd e')) = tb_metadata (ts_tablet (snd e)) \<and>
     tb_is_dirty (ts_tablet (snd e')) = tb_is_dirty (ts_tablet (snd e)) \<and>
     tb_updated_contents (ts_tablet (snd e')) = tb_updated_contents (ts_tablet (snd e))"

lemma init_tablets_metadata: "init_tablets values tablets = Ok tablets' \<Longrightarrow> list_all2 same_metadata tablets tablets'"
proof (induction "values" tablets rule: init_tablets.induct)
  case (2 metadata data rest tablets)
  then obtain state where state: "hm_get tablets (create_tablet_key metadata) = Some state"
    by (auto simp: result_simps)
  have "list_all2 same_metadata tablets (hm_insert (create_tablet_key metadata) (tablet_init data state) tablets)"
    using state by (rule hm_insert_rel) (simp_all add: same_metadata_def tablet_init_def)
  moreover have "list_all2 same_metadata (hm_insert (create_tablet_key metadata) (tablet_init data state) tablets) tablets'"
    using 2 state by simp
  ultimately show ?case
    by (rule list_all2_trans [rotated]) (auto simp: same_metadata_def)
qed (simp add: list_all2_refl same_metadata_def)

lemma prepare_writes_metadata:
  assumes "\<And>v. de_serialize env v \<noteq> None"
  shows "prepare_writes env writes = (ms, r) \<Longrightarrow>
    list_all2 (\<lambda>w m. tablet_id m = tablet_id (fst w) \<and> tablet_version m = tablet_version (fst w) + 1) writes ms"
proof (induction writes arbitrary: ms r)
  case (Cons w writes)
  obtain contents where "de_serialize env (snd w) = Some contents"
    using assms by blast
  then show ?case
    using Cons by (cases w) (auto simp: prepare_tablet_write_def Let_def split: prod.splits)
qed simp

lemma store_tablets_metadata:
  assumes "store_tablets env writes dc = Ok (dc', ms, h)"
  shows "ms = fst (prepare_writes env writes)"
proof (cases "prepare_writes env writes")
  case (Pair metadata r)
  then show ?thesis
    using assms by (cases r) (auto simp: store_tablets_def result_simps Let_def split_beta)
qed

lemma return_metadata_rel:
  "list_all2 Q (List.map_filter (\<lambda>e. snd (snd e)) P) ms \<Longrightarrow>
    list_all2 (\<lambda>e e'. case snd (snd e) of
        None \<Rightarrow> snd e' = fst (snd e)
      | Some w \<Rightarrow> \<exists>m. Q w m \<and> snd e' = (fst (snd e))\<lparr>ts_tablet := (ts_tablet (fst (snd e)))\<lparr>tb_metadata := m\<rparr>\<rparr>)
      P (return_metadata (map (\<lambda>e. (fst e, fst (snd e), snd (snd e) \<noteq> None)) P) ms)"
proof (induction P arbitrary: ms)
  case (Cons e P)
  show ?case
  proof (cases "snd (snd e)")
    case None
    then show ?thesis
      using Cons by (simp add: List.map_filter_simps)
  next
    case (Some w)
    then obtain m ms' where "ms = m # ms'" "Q w m" "list_all2 Q (List.map_filter (\<lambda>e. snd (snd e)) P) ms'"
      using Cons.prems by (auto simp: List.map_filter_simps list_all2_Cons1)
    then show ?thesis
      using Cons.IH [of ms'] Some by auto
  qed
qed simp

lemma store_writes_metadata:
  assumes "\<And>v. de_serialize env v \<noteq> None" "store_writes env tablets dc = Ok (dc', tablets', h)"
  shows "list_all2 (\<lambda>e e'. ts_query (snd e') = ts_query (snd e) \<and> tb_is_dirty (ts_tablet (snd e')) = tb_is_dirty (ts_tablet (snd e)) \<and>
    (case tb_updated_contents (ts_tablet (snd e)) of
       None \<Rightarrow> tb_metadata (ts_tablet (snd e')) = tb_metadata (ts_tablet (snd e))
     | Some _ \<Rightarrow> tablet_id (tb_metadata (ts_tablet (snd e'))) = tablet_id (tb_metadata (ts_tablet (snd e))) \<and>
         tablet_version (tb_metadata (ts_tablet (snd e'))) = tablet_version (tb_metadata (ts_tablet (snd e))) + 1)) tablets tablets'"
proof -
  define P where "P = map (\<lambda>e. (fst e, tablet_prepare (snd e))) tablets"
  obtain ms r where prepared: "prepare_writes env (List.map_filter (\<lambda>e. snd (snd e)) P) = (ms, r)"
    by fastforce
  then have tablets': "tablets' = return_metadata (map (\<lambda>e. (fst e, fst (snd e), snd (snd e) \<noteq> None)) P) ms"
    using assms(2) store_tablets_metadata
    by (fastforce simp: store_writes_def Let_def P_def [symmetric] result_simps)
  have "list_all2 (\<lambda>e e'. case snd (snd e) of
        None \<Rightarrow> snd e' = fst (snd e)
      | Some w \<Rightarrow> \<exists>m. (tablet_id m = tablet_id (fst w) \<and> tablet_version m = tablet_version (fst w) + 1) \<and>
          snd e' = (fst (snd e))\<lparr>ts_tablet := (ts_tablet (fst (snd e)))\<lparr>tb_metadata := m\<rparr>\<rparr>) P tablets'"
    using return_metadata_rel [OF prepare_writes_metadata [OF assms(1) prepared]] by (simp add: tablets')
  then show ?thesis
    unfolding P_def list_all2_map1
    by (rule list_all2_mono)
      (auto simp: tablet_prepare_def tablet_take_updated_contents_def split: option.splits)
qed

context tablet_handler
begin

lemma process_step_tablets:
  assumes "\<And>v. de_serialize env v \<noteq> None" "ps_handler p = handler" "ps_status p = ProcLoading h"
    and "list_all (\<lambda>e. tablet_clean (ts_tablet (snd e))) (ps_tablets p)"
    and "process_make_progress env i p w = Ok (p', w')" "ps_status p' = ProcStoring h'"
  shows "list_all2 processed (ps_tablets p) (ps_tablets p')"
proof -
  obtain mc dc c where w: "w = (mc, dc, c)"
    by (cases w)
  obtain loaded tablets c' changed dc' where step: "init_tablets loaded (ps_tablets p) = Ok tablets"
    "handler i (map (\<lambda>e. (ts_query (snd e), ts_tablet (snd e))) tablets) c = Ok (c', changed)"
    "store_writes env (map (\<lambda>(e, tablet). (fst e, (snd e)\<lparr>ts_tablet := tablet\<rparr>)) (zip tablets changed)) dc = Ok (dc', ps_tablets p', h')"
    using assms(2,3,5,6)
    by (auto simp: process_make_progress_def w call_process_handler_def result_simps split: option.splits result.splits)
  let ?T = "map (\<lambda>(e, tablet). (fst e, (snd e)\<lparr>ts_tablet := tablet\<rparr>)) (zip tablets changed)"
  have init: "list_all2 same_metadata (ps_tablets p) tablets"
    using step(1) by (rule init_tablets_metadata)
  have handled: "list_all2 (\<lambda>e t. t = ts_tablet (snd e) \<or> (\<exists>v. t = tablet_set_contents v (ts_tablet (snd e)))) tablets changed"
    using handler_tablets [OF step(2)] by (simp add: list_all2_map1)
  have len: "length (ps_tablets p) = length tablets" "length tablets = length changed" "length ?T = length (ps_tablets p')"
    using list_all2_lengthD [OF init] list_all2_lengthD [OF handled]
      list_all2_lengthD [OF store_writes_metadata [OF assms(1) step(3)]] by simp_all
  show ?thesis
  proof (rule list_all2_all_nthI)
    show "length (ps_tablets p) = length (ps_tablets p')"
      using len by simp
    fix n assume n: "n < length (ps_tablets p)"
    let ?e = "ps_tablets p ! n" and ?e' = "ps_tablets p' ! n"
    have clean: "tablet_clean (ts_tablet (snd ?e))"
      using assms(4) n by (simp add: list_all_length)
    have same: "same_metadata ?e (tablets ! n)"
      using init n by (rule list_all2_nthD)
    have changed: "changed ! n = ts_tablet (snd (tablets ! n)) \<or> (\<exists>v. changed ! n = tablet_set_contents v (ts_tablet (snd (tablets ! n))))"
      using list_all2_nthD [OF handled, of n] n len by simp
    have T: "?T ! n = (fst (tablets ! n), (snd (tablets ! n))\<lparr>ts_tablet := changed ! n\<rparr>)"
      using n len by simp
    note stored = list_all2_nthD [OF store_writes_metadata [OF assms(1) step(3)], of n, unfolded T]
    show "processed ?e ?e'"
      using stored n len same changed clean
      by (auto simp: processed_def same_metadata_def tablet_clean_def tablet_set_contents_def Let_def)
  qed
qed

end

lemma tablet_op_supported: "op_supported (get_tablet_op state)"
  by (simp add: op_supported_def get_tablet_op_def Let_def)

text \<open>An operation that the store accepts was made for the version that the store has.\<close>

lemma accepted_op_current:
  assumes "processed e e'" "op_ok store (get_tablet_op (snd e'))"
  shows "\<exists>t. tablet_at store (tq_table_name (ts_query (snd e))) (tablet_id (tb_metadata (ts_tablet (snd e)))) = Some t \<and>
    tablet_version t = tablet_version (tb_metadata (ts_tablet (snd e)))"
  using assms
  by (auto simp: processed_def get_tablet_op_def op_ok_def Let_def split: if_splits option.splits)

lemma preparing_complete_ops:
  "preparing_complete ps ops = PreparingSucceeded ops' \<Longrightarrow>
    ops' = ops @ concat (map (\<lambda>p. map (\<lambda>e. get_tablet_op (snd e)) (ps_tablets p)) ps)"
proof (induction ps arbitrary: ops)
  case (Cons p ps)
  then show ?case
    using Cons.IH [of "ops @ map (\<lambda>e. get_tablet_op (snd e)) (ps_tablets p)"] by (simp split: process_status.splits)
qed simp

section \<open>The answer of the store\<close>

lemma committing_complete_results:
  "(\<And>op r. (op, r) \<in> set zs \<Longrightarrow> complete_op op r = Ok (f op r)) \<Longrightarrow>
    committing_complete zs outcome updates =
      Ok (if list_all (\<lambda>z. tor_status (snd z) = OpSucceeded) zs then outcome else TransactionFailed,
          updates @ concat (map (\<lambda>(op, r). f op r) zs))"
proof (induction zs arbitrary: outcome updates)
  case (Cons z zs)
  obtain op r where z: "z = (op, r)"
    by fastforce
  have "complete_op op r = Ok (f op r)"
    using Cons.prems [of op r] by (simp add: z)
  then show ?case
    using Cons.IH [of "if tor_status r \<noteq> OpSucceeded then TransactionFailed else outcome" "updates @ f op r"] Cons.prems
    by (simp add: z)
qed simp

text \<open>What an operation of a transaction brings to the metadata cache.\<close>

definition cache_update :: "store_actor \<Rightarrow> 't tablet_state \<Rightarrow> metadata_update list" where
  "cache_update store state =
     (let name = tq_table_name (ts_query state); m = tb_metadata (ts_tablet state) in
      if op_ok store (get_tablet_op state) then (if tb_is_dirty (ts_tablet state) then [(name, m, False)] else [])
      else (case tablet_at store name (tablet_id m) of Some t \<Rightarrow> [(name, t, True)] | None \<Rightarrow> []))"

lemma complete_op_update:
  assumes "store_prepare_op store (get_tablet_op state) = Ok r"
    and "tablet_at store (tq_table_name (ts_query state)) (tablet_id (tb_metadata (ts_tablet state))) \<noteq> None"
  shows "complete_op (get_tablet_op state) r = Ok (cache_update store state)"
  using assms
  by (auto simp: store_prepare_op_def get_tablet_op_def Let_def tablet_at_def table_prepare_op_def complete_op_def cache_update_def
      op_ok_def hm_contains_def split: option.splits if_splits)

text \<open>The store accepts a transaction exactly when it accepts each of its operations.\<close>

lemma transaction_decision:
  assumes "ops = map get_tablet_op states" "on_apply_tablets_request store ops = (store', Ok response)"
  shows "length (tr_results response) = length ops"
    and "list_all2 (\<lambda>op r. store_prepare_op store op = Ok r) ops (tr_results response)"
    and "tr_status response = RequestSucceeded \<longleftrightarrow> list_all (op_ok store) ops"
    and "store' = (if list_all (op_ok store) ops then fold apply_op ops store else store)"
proof -
  have "list_all op_supported ops"
    by (simp add: assms(1) list.pred_map comp_def tablet_op_supported list_all_iff)
  from transaction_outcome [OF this, of store] show "length (tr_results response) = length ops"
    "list_all2 (\<lambda>op r. store_prepare_op store op = Ok r) ops (tr_results response)"
    "tr_status response = RequestSucceeded \<longleftrightarrow> list_all (op_ok store) ops"
    "store' = (if list_all (op_ok store) ops then fold apply_op ops store else store)"
    using assms(2) by (auto split: if_splits)
qed

lemma accepted_op_exists:
  "op_ok store (get_tablet_op s) \<Longrightarrow> tablet_at store (tq_table_name (ts_query s)) (tablet_id (tb_metadata (ts_tablet s))) \<noteq> None"
  by (auto simp: get_tablet_op_def op_ok_def Let_def split: if_splits option.splits)

lemma complete_transaction:
  assumes "ops = map get_tablet_op states" "on_apply_tablets_request store ops = (store', Ok response)"
    and "list_all (\<lambda>s. tablet_at store (tq_table_name (ts_query s)) (tablet_id (tb_metadata (ts_tablet s))) \<noteq> None) states"
  shows "committing_complete (zip ops (tr_results response)) TransactionSucceeded [] =
      Ok (if list_all (op_ok store) ops then TransactionSucceeded else TransactionFailed, concat (map (cache_update store) states))"
proof -
  define rs where "rs = tr_results response"
  note rs = transaction_decision(1,2) [OF assms(1,2), folded rs_def]
  let ?f = "\<lambda>op r. case complete_op op r of Ok u \<Rightarrow> u | _ \<Rightarrow> []"
  have each: "complete_op op r = Ok (?f op r)" "tor_status r = OpSucceeded \<longleftrightarrow> op_ok store op"
    if z: "(op, r) \<in> set (zip ops rs)" for op r
  proof -
    have prepared: "store_prepare_op store op = Ok r"
      using rs(2) z by (auto simp: list_all2_iff)
    obtain s where s: "s \<in> set states" "op = get_tablet_op s"
      using set_zip_leftD [OF z] by (auto simp: assms(1))
    have "complete_op op r = Ok (cache_update store s)"
      using complete_op_update [of store s r] prepared s assms(3) by (auto simp: list_all_iff)
    then show "complete_op op r = Ok (?f op r)"
      by simp
    show "tor_status r = OpSucceeded \<longleftrightarrow> op_ok store op"
      using prepare_op_status(1) [OF prepared] .
  qed
  have "list_all (\<lambda>z. tor_status (snd z) = OpSucceeded) (zip ops rs) \<longleftrightarrow> list_all (\<lambda>z. op_ok store (fst z)) (zip ops rs)"
    using each(2) by (auto simp: list_all_iff)
  also have "\<dots> \<longleftrightarrow> list_all (op_ok store) (map fst (zip ops rs))"
    by (simp add: list.pred_map comp_def)
  finally have status: "list_all (\<lambda>z. tor_status (snd z) = OpSucceeded) (zip ops rs) \<longleftrightarrow> list_all (op_ok store) ops"
    using rs(1) by simp
  have "map (\<lambda>(op, r). ?f op r) (zip ops rs) = map (cache_update store) states"
  proof (rule nth_equalityI)
    show "length (map (\<lambda>(op, r). ?f op r) (zip ops rs)) = length (map (cache_update store) states)"
      using rs(1) by (simp add: assms(1))
    fix n assume "n < length (map (\<lambda>(op, r). ?f op r) (zip ops rs))"
    then have n: "n < length states" "n < length rs"
      using rs(1) by (simp_all add: assms(1))
    have "store_prepare_op store (get_tablet_op (states ! n)) = Ok (rs ! n)"
      using list_all2_nthD [OF rs(2), of n] n by (simp add: assms(1))
    then have "complete_op (get_tablet_op (states ! n)) (rs ! n) = Ok (cache_update store (states ! n))"
      using assms(3) n by (intro complete_op_update) (simp_all add: list_all_length)
    then show "map (\<lambda>(op, r). ?f op r) (zip ops rs) ! n = map (cache_update store) states ! n"
      using n rs(1) by (simp add: assms(1))
  qed
  then show "committing_complete (zip ops (tr_results response)) TransactionSucceeded [] =
      Ok (if list_all (op_ok store) ops then TransactionSucceeded else TransactionFailed, concat (map (cache_update store) states))"
    using committing_complete_results [of "zip ops rs" ?f TransactionSucceeded "[]"] each(1) status rs_def by simp
qed

lemma last_update_distinct:
  assumes "distinct (map (\<lambda>s. (tq_table_name (ts_query s), tablet_id (tb_metadata (ts_tablet s)))) states)"
    and "s \<in> set states" "tb_is_dirty (ts_tablet s)"
  shows "last_update (map get_tablet_op states) (tq_table_name (ts_query s)) (tablet_id (tb_metadata (ts_tablet s))) =
    Some (tb_metadata (ts_tablet s))"
proof -
  let ?key = "\<lambda>s. (tq_table_name (ts_query s), tablet_id (tb_metadata (ts_tablet s)))"
  let ?L = "concat (map op_update (map get_tablet_op states))"
  have L: "?L = map (\<lambda>s. (?key s, tb_metadata (ts_tablet s))) (filter (\<lambda>s. tb_is_dirty (ts_tablet s)) states)"
    by (induction states) (simp_all add: op_update_def get_tablet_op_def Let_def)
  have "distinct (map fst ?L)"
    unfolding L using assms(1) by (simp add: comp_def distinct_map_filter)
  moreover have "(?key s, tb_metadata (ts_tablet s)) \<in> set ?L"
    unfolding L using assms(2,3) by simp
  ultimately show ?thesis
    unfolding last_update_def by (simp add: rev_map [symmetric])
qed

text \<open>A process request that only reads ends with a store of no tablets.\<close>

lemma read_only_process:
  assumes "data_wf dc" "ps_status p = ProcLoading h" "check_result (fst (dc_results dc)) h = Some (Ok loaded)"
    and "process_make_progress env i p (mc, dc, c) = Ok (p', mc', dc', c')"
    and "list_all (\<lambda>e. tb_updated_contents (ts_tablet (snd e)) = None) (ps_tablets p)"
    and "\<And>qts c c' ts. ps_handler p i qts c = Ok (c', ts) \<Longrightarrow> ts = map snd qts"
  shows "process_dead dc' p'"
proof -
  obtain tablets c1 tablets1 h' where step: "init_tablets loaded (ps_tablets p) = Ok tablets"
    "call_process_handler (ps_handler p) i tablets c = Ok (c1, tablets1)"
    "\<exists>tablets2. store_writes env tablets1 dc = Ok (dc', tablets2, h')" "ps_status p' = ProcStoring h'"
    using assms(2,3,4) by (auto simp: process_make_progress_def result_simps)
  have "list_all (\<lambda>e. tb_updated_contents (ts_tablet (snd e)) = None) tablets"
    using init_tablets_metadata [OF step(1)] assms(5)
    by (auto simp: list_all2_conv_all_nth list_all_length same_metadata_def)
  moreover have "tablets1 = tablets"
    using step(2) assms(6)
    by (auto simp: call_process_handler_def result_simps zip_map2 zip_same_conv_map comp_def dest!: assms(6))
  ultimately have "List.map_filter (\<lambda>e. snd (snd e)) (map (\<lambda>e. (fst e, tablet_prepare (snd e))) tablets1) = []"
    by (induction tablets arbitrary: tablets1)
      (auto simp: List.map_filter_simps tablet_prepare_def tablet_take_updated_contents_def)
  then have store: "\<exists>ms. store_tablets env [] dc = Ok (dc', ms, h')"
    using step(3) by (auto simp: store_writes_def Let_def result_simps)
  then have "dead dc' (False, h')"
    using fresh_source_idle [OF assms(1), of "(False, length (snd (dc_results dc)))"]
    by (auto simp: store_tablets_def batch_with_store_state_def create_eventual_result_def finish_batch_def batch_is_ready_def dead_def)
  then show ?thesis
    using step(4) by (simp add: process_dead_def)
qed

section \<open>Properties\<close>

text \<open>Two tablets of a transaction, one read and one written, and managers that hold them, for the witnesses.\<close>

definition demo_states :: "bytes tablet_state list" where
  "demo_states =
     [tablet_state_create (table_query_create 1 ''t'' [5]) (default_tablet 10),
      \<lparr> ts_query = table_query_create 1 ''t'' [15],
        ts_tablet = tablet_set_contents [7] (tablet_create ((default_tablet 20)\<lparr>tablet_version := 1\<rparr>)) \<rparr>]"

definition demo_coordinator :: "tablet_op list \<Rightarrow> (unit, bytes) coordinator" where
  "demo_coordinator ops = \<lparr> co_correlation_counter = 8, co_transaction_counter = 2, co_transactions = [(2, TxCommitting ops)],
     co_correlations = [(8, 2)], co_out_messages = [CoordinatorRequest 8 ops] \<rparr>"

definition demo_manager :: "(unit, bytes) coordinator \<Rightarrow> (unit, bytes, unit) manager" where
  "demo_manager coordinator = manager_create coordinator (metadata_cache_create 0) (data_cache_create 0 ())"

lemma demo_states_keys: "map (\<lambda>s. (tq_table_name (ts_query s), tablet_id (tb_metadata (ts_tablet s)))) demo_states = [(''t'', 10), (''t'', 20)]"
  by (simp add: demo_states_def tablet_state_create_def tablet_create_def tablet_set_contents_def default_tablet_def)

lemma demo_states_ops: "map get_tablet_op demo_states = demo_ops"
  by (simp add: demo_states_def demo_ops_def tablet_state_create_def tablet_create_def tablet_set_contents_def default_tablet_def
      get_tablet_op_def)




text \<open>A transaction that read an old version of tablet 10 and wrote tablet 20.\<close>

definition stale_states :: "bytes tablet_state list" where
  "stale_states =
     [tablet_state_create (table_query_create 1 ''t'' [5]) ((default_tablet 10)\<lparr>tablet_version := 5\<rparr>), demo_states ! 1]"


text \<open>
  C38. An error of the tablet store panics: when the operations of a committing transaction are sent and
  the request ends in an error, such as the one of a store replica that is not the leader, the
  manager builds failed results without the existing tablets and the coordinator unwraps them.
\<close>

theorem store_error_panics:
  fixes self :: "('b, 'a, 'd) manager" and states :: "'a tablet_state list"
  assumes "states \<noteq> []" "ops = map get_tablet_op states"
    and "co_out_messages (ma_coordinator self) = [CoordinatorRequest correlation_id ops]" "mc_out_messages (ma_metadata_cache self) = []"
    and "hm_get (co_correlations (ma_coordinator self)) correlation_id = Some i"
    and "hm_get (co_transactions (ma_coordinator self)) i = Some (TxCommitting ops)"
    and "manager_take_out_messages self = Ok (self', messages)"
  shows "manager_process_in_message env (InExecuteError correlation_id) self' c = Panic"
proof -
  obtain state rest where states: "states = state # rest"
    using assms(1) by (cases states) auto
  let ?results = "map create_failed_op_result ops"
  have each: "tor_op_result (create_failed_op_result (get_tablet_op s)) \<noteq> None \<and> \<not> is_list_result (create_failed_op_result (get_tablet_op s))"
    for s :: "'a tablet_state"
    by (simp add: create_failed_op_result_def get_tablet_op_def is_list_result_def Let_def)
  then have results: "filter (\<lambda>r. tor_op_result r \<noteq> None) ?results = ?results" "filter is_list_result ?results = []"
    "filter (\<lambda>r. \<not> is_list_result r) ?results = ?results"
    by (auto simp: assms(2) filter_id_conv filter_empty_conv)
  have panic: "complete_op (get_tablet_op state) (create_failed_op_result (get_tablet_op state)) = Panic"
    by (simp add: complete_op_def create_failed_op_result_def get_tablet_op_def Let_def)
  have self': "hm_get (ma_tablets_errors self') correlation_id = Some \<lparr> tr_status = RequestFailed, tr_results = ?results \<rparr>"
    "ma_coordinator self' = (ma_coordinator self)\<lparr>co_out_messages := []\<rparr>"
    using assms(3,4,7)
    by (auto simp: manager_take_out_messages_def coordinator_take_out_messages_def metadata_take_out_messages_def
        data_take_out_messages_def stash_ops_request_def result_simps split: if_splits)
  have committing: "committing_complete (zip ops ?results) TransactionSucceeded [] = Panic" "ops \<noteq> []"
    using panic by (simp_all add: assms(2) states)
  have coordinator: "coordinator_process_in_message (CoordinatorResponse correlation_id ?results) (ma_coordinator self') metadata_cache = Panic"
    for metadata_cache :: "'b metadata_cache"
    using assms(5,6) committing(1) by (simp add: coordinator_process_in_message_def self'(2) Let_def)
  have "process_in_tablets_op_response correlation_id \<lparr> tr_status = RequestFailed, tr_results = ?results \<rparr> m c = Panic"
    if "ma_coordinator m = ma_coordinator self'" for m :: "('b, 'a, 'd) manager"
    unfolding process_in_tablets_op_response_def Let_def tablets_response.simps results
    using committing(2) coordinator that by simp
  then show ?thesis
    by (simp add: manager_process_in_message_def self'(1))
qed

theorem store_error_panics_witness:
  "\<exists>self' messages. manager_take_out_messages (demo_manager (demo_coordinator (map get_tablet_op demo_states))) = Ok (self', messages) \<and>
     manager_process_in_message (bytes_env (\<lambda>b. b) (\<lambda>_. [])) (InExecuteError 8) self' () = Panic"
proof -
  let ?manager = "demo_manager (demo_coordinator (map get_tablet_op demo_states))"
  have "\<exists>self' messages. manager_take_out_messages ?manager = Ok (self', messages)"
    by (simp add: manager_take_out_messages_def coordinator_take_out_messages_def metadata_take_out_messages_def
        data_take_out_messages_def stash_ops_request_def demo_manager_def demo_coordinator_def manager_create_def
        metadata_cache_create_def hm_contains_def hm_get_def)
  then obtain self' messages where take: "manager_take_out_messages ?manager = Ok (self', messages)"
    by blast
  have "demo_states \<noteq> []"
    by (simp add: demo_states_def)
  then show ?thesis
    using store_error_panics [OF _ refl, of demo_states ?manager 8 2 self' messages] take
    by (simp add: demo_manager_def demo_coordinator_def manager_create_def metadata_cache_create_def hm_get_def)
qed

text \<open>
  C37. Some transactions never end: once a process request of a transaction has failed, or waits for
  a store result that no batch of the data cache will set, every run of the manager in which the transaction
  is not aborted leaves it pending, and committing it panics.
\<close>

theorem unfinished_transaction_stuck:
  assumes "data_wf (ma_data_cache self)" "hm_get (co_transactions (ma_coordinator self)) i = Some (TxPreparing processes)"
    and "i \<le> co_transaction_counter (ma_coordinator self)" "p \<in> set processes"
    and "ps_status p = ProcFailed \<or> (ps_status p = ProcStoring h \<and> dead (ma_data_cache self) (False, h))"
    and "(manager_step (bytes_env sha256 base64) i)\<^sup>*\<^sup>* (self, c) (self', c')" "tt_transaction_id tx = i"
  shows "has_pending_process tx self' = Ok True \<and> transaction_commit tx self' = Panic"
proof -
  have "manager_stuck i self"
    using assms(1-5) by (auto simp: manager_stuck_def transaction_dead_def list_ex_iff process_dead_def)
  then have "manager_stuck i self'"
    using default_policy.manager_run_stuck [OF assms(6)] by blast
  then show ?thesis
    using manager_stuck_pending [of tx self'] assms(7) by simp
qed

text \<open>A manager with a failed process request.\<close>

definition failed_manager :: "(unit, bytes, unit) manager" where
  "failed_manager = demo_manager (coordinator_create 0\<lparr>co_transaction_counter := 2, co_transactions :=
     [(2, TxPreparing [\<lparr> ps_status = ProcFailed, ps_handler = (\<lambda>_ qts c. Ok (c, map snd qts)), ps_tablets = [] \<rparr>])]\<rparr>)"

theorem unfinished_transaction_stuck_witness:
  "\<exists>self'. manager_make_progress (bytes_env (\<lambda>b. b) (\<lambda>_. [])) 1 failed_manager () = Ok (self', ()) \<and>
     has_pending_process \<lparr> tt_transaction_id = 2, tt_transaction_outcome = None \<rparr> self' = Ok True"
proof -
  have wf: "data_wf (ma_data_cache failed_manager)"
    by (simp add: failed_manager_def demo_manager_def manager_create_def data_wf_create)
  obtain data where "data_make_progress (bytes_env (\<lambda>b. b) (\<lambda>_. [])) 1 (ma_data_cache failed_manager) = Ok data"
    using default_policy.make_progress_effect [OF wf] by blast
  then have "\<exists>self'. manager_make_progress (bytes_env (\<lambda>b. b) (\<lambda>_. [])) 1 failed_manager () = Ok (self', ())"
    by (auto simp: manager_make_progress_def coordinator_make_progress_def failed_manager_def demo_manager_def manager_create_def
        process_make_progress_def coordinator_create_def)
  then obtain self' where self': "manager_make_progress (bytes_env (\<lambda>b. b) (\<lambda>_. [])) 1 failed_manager () = Ok (self', ())"
    by blast
  then have run: "(manager_step (bytes_env (\<lambda>b. b) (\<lambda>_. [])) 2)\<^sup>*\<^sup>* (failed_manager, ()) (self', ())"
    by (intro r_into_rtranclp manager_step.progress)
  have "hm_get (co_transactions (ma_coordinator failed_manager)) 2 =
      Some (TxPreparing [\<lparr> ps_status = ProcFailed, ps_handler = (\<lambda>_ qts c. Ok (c, map snd qts)), ps_tablets = [] \<rparr>])"
    "2 \<le> co_transaction_counter (ma_coordinator failed_manager)"
    by (simp_all add: failed_manager_def demo_manager_def manager_create_def hm_get_def)
  then show ?thesis
    using unfinished_transaction_stuck [OF wf _ _ _ _ run, of _ _ 0 "\<lparr> tt_transaction_id = 2, tt_transaction_outcome = None \<rparr>"] self'
    by fastforce
qed

section \<open>Correlation ids\<close>

text \<open>The requests of the metadata cache and of the coordinator, with the counters of their correlation ids.\<close>

abbreviation list_requests :: "'c metadata_cache \<Rightarrow> nat \<times> metadata_out_msg list" where
  "list_requests mc \<equiv> (mc_correlation_counter mc, mc_out_messages mc)"

abbreviation ops_requests :: "('c, 't) coordinator \<Rightarrow> nat \<times> coordinator_out_msg list" where
  "ops_requests co \<equiv> (co_correlation_counter co, co_out_messages co)"

lemma resolve_requests:
  "resolve_tablets_with_notification queries notification self c = Ok (self', c') \<Longrightarrow> list_requests self' = list_requests self"
  "resolve_tablets queries self c = Ok (self', c', handle) \<Longrightarrow> list_requests self' = list_requests self"
  by (auto simp: resolve_tablets_def resolve_tablets_with_notification_def Let_def result_simps case_prod_beta)

lemma list_results_requests: "process_list_results rs self c = Ok (self', c') \<Longrightarrow> list_requests self' = list_requests self"
proof (induction rs arbitrary: self c)
  case (Cons r rs)
  then obtain self1 c1 where step: "process_list_result r self c = Ok (self1, c1)" "process_list_results rs self1 c1 = Ok (self', c')"
    by (auto simp: result_simps)
  then have "list_requests self1 = list_requests self"
    by (auto simp: process_list_result_def result_simps split: option.splits tablet_op_result_kind.splits prod.splits)
  with Cons.IH [OF step(2)] show ?case
    by simp
qed simp

lemma update_requests: "list_requests (fold (\<lambda>(name, metadata, conflict). metadata_update_tablet name metadata conflict) us mc) = list_requests mc"
  by (induction us arbitrary: mc) (auto simp: metadata_update_tablet_def split: option.splits)

lemma process_requests:
  assumes "process_make_progress env i p (mc, dc, c) = Ok (p', mc', dc', c')"
  shows "list_requests mc' = list_requests mc"
proof (cases "ps_status p")
  case (ProcPending queries)
  then show ?thesis
    using assms resolve_requests(2) [of queries mc c mc' c'] by (auto simp: process_make_progress_def result_simps)
qed (use assms in \<open>auto simp: process_make_progress_def result_simps split: option.splits result.splits\<close>)

lemma preparing_requests:
  "preparing_make_progress env i ps (mc, dc, c) = Ok (ps', mc', dc', c') \<Longrightarrow> list_requests mc' = list_requests mc"
proof (induction ps arbitrary: mc dc c ps')
  case (Cons p ps)
  then obtain p' mc1 dc1 c1 ps1 where "process_make_progress env i p (mc, dc, c) = Ok (p', mc1, dc1, c1)"
    "preparing_make_progress env i ps (mc1, dc1, c1) = Ok (ps1, mc', dc', c')"
    by (auto simp: result_simps)
  with Cons.IH process_requests show ?case
    by metis
qed simp

lemma transactions_requests:
  "transactions_make_progress env txs (mc, dc, c) = Ok (txs', mc', dc', c') \<Longrightarrow> list_requests mc' = list_requests mc"
proof (induction txs arbitrary: mc dc c txs')
  case (Cons x txs)
  show ?case
  proof (cases x)
    case (Pair i state)
    show ?thesis
    proof (cases state)
      case (TxPreparing ps)
      then obtain ps' mc1 dc1 c1 txs1 where "preparing_make_progress env i ps (mc, dc, c) = Ok (ps', mc1, dc1, c1)"
        "transactions_make_progress env txs (mc1, dc1, c1) = Ok (txs1, mc', dc', c')"
        using Cons.prems by (auto simp: Pair result_simps)
      with Cons.IH preparing_requests show ?thesis
        by metis
    qed (use Cons Pair in \<open>auto simp: result_simps\<close>)
  qed
qed simp

lemma coordinator_requests:
  "coordinator_process_in_message m co mc = Ok (co', mc') \<Longrightarrow> ops_requests co' = ops_requests co \<and> list_requests mc' = list_requests mc"
  "coordinator_make_progress env co (mc, dc, c) = Ok (co', mc', dc', c') \<Longrightarrow>
     ops_requests co' = ops_requests co \<and> list_requests mc' = list_requests mc"
  "process_transaction i queries handler co = Ok co' \<Longrightarrow> ops_requests co' = ops_requests co"
  "check_transaction_result i co = Ok (co', outcome) \<Longrightarrow> ops_requests co' = ops_requests co"
  "create_transaction co = (co', i) \<Longrightarrow> ops_requests co' = ops_requests co"
  "ops_requests (abort_transaction i co) = ops_requests co"
proof -
  show "coordinator_process_in_message m co mc = Ok (co', mc') \<Longrightarrow> ops_requests co' = ops_requests co \<and> list_requests mc' = list_requests mc"
    using update_requests by (cases m) (auto simp: coordinator_process_in_message_def Let_def result_simps
      split: option.splits transaction_state.splits)
  show "coordinator_make_progress env co (mc, dc, c) = Ok (co', mc', dc', c') \<Longrightarrow>
     ops_requests co' = ops_requests co \<and> list_requests mc' = list_requests mc"
    using transactions_requests [of env "co_transactions co" mc dc c] by (auto simp: coordinator_make_progress_def result_simps)
  show "process_transaction i queries handler co = Ok co' \<Longrightarrow> ops_requests co' = ops_requests co"
    "check_transaction_result i co = Ok (co', outcome) \<Longrightarrow> ops_requests co' = ops_requests co"
    by (cases "hm_get (co_transactions co) i"; auto simp: process_transaction_def check_transaction_result_def
      split: transaction_state.splits)+
qed (auto simp: create_transaction_def abort_transaction_def Let_def)

lemma commit_requests:
  assumes "commit_transaction i co = Ok co'"
  shows "ops_requests co' = ops_requests co \<or>
    (\<exists>ops. ops_requests co' = (co_correlation_counter co + 1, co_out_messages co @ [CoordinatorRequest (co_correlation_counter co + 1) ops]))"
  using assms by (cases "hm_get (co_transactions co) i") (auto simp: commit_transaction_def transaction_stash_request_def Let_def
    split: transaction_state.splits if_splits preparing_outcome.splits)

lemma progress_requests:
  "list_requests (metadata_make_progress mc) = list_requests mc \<or>
    (\<exists>ops. list_requests (metadata_make_progress mc) =
      (mc_correlation_counter mc + 1, mc_out_messages mc @ [ListRequest (mc_correlation_counter mc + 1) ops]))"
  by (auto simp: metadata_make_progress_def Let_def)

text \<open>The requests to the tablet store in the order in which they are taken.\<close>

abbreviation coordinator_request :: "coordinator_out_msg \<Rightarrow> nat \<times> tablet_op list" where
  "coordinator_request m \<equiv> case m of CoordinatorRequest i ops \<Rightarrow> (i, ops)"

abbreviation list_request :: "metadata_out_msg \<Rightarrow> nat \<times> tablet_op list" where
  "list_request m \<equiv> case m of ListRequest i ops \<Rightarrow> (i, ops)"

text \<open>
  The ids of the coordinator are at most the bound \<open>n\<close>, those of the metadata cache above it, and no id
  is used again while its request is outstanding.
\<close>

definition fresh_ids :: "nat \<Rightarrow> nat \<times> nat list \<Rightarrow> nat \<times> nat list \<Rightarrow> nat set \<Rightarrow> bool" where
  "fresh_ids n = (\<lambda>(co, ci) (mc, li) open_ids. n \<le> mc \<and> (co \<le> n \<longrightarrow> distinct ci \<and> distinct li \<and>
     open_ids \<inter> (set ci \<union> set li) = {} \<and> set ci \<subseteq> {..co} \<and> set li \<subseteq> {n<..mc} \<and> open_ids \<subseteq> {..co} \<union> {n<..mc}))"

definition ids_wf :: "nat \<Rightarrow> ('c, 't, 'p) manager \<Rightarrow> bool" where
  "ids_wf n self = fresh_ids n
     (apsnd (map (fst \<circ> coordinator_request)) (ops_requests (ma_coordinator self)))
     (apsnd (map (fst \<circ> list_request)) (list_requests (ma_metadata_cache self))) (fst ` set (ma_tablets_errors self))"

lemma fresh_ids_closed: "fresh_ids n C M S \<Longrightarrow> T \<subseteq> S \<Longrightarrow> fresh_ids n C M T"
  by (fastforce simp: fresh_ids_def split: prod.splits)

lemma fresh_ids_commit: "fresh_ids n (co, ci) M S \<Longrightarrow> fresh_ids n (co + 1, ci @ [co + 1]) M S"
  by (fastforce simp: fresh_ids_def split: prod.splits)

lemma fresh_ids_list: "fresh_ids n C (mc, li) S \<Longrightarrow> fresh_ids n C (mc + 1, li @ [mc + 1]) S"
  by (fastforce simp: fresh_ids_def split: prod.splits)

lemma fresh_ids_take: "fresh_ids n (co, ci) (mc, li) S \<Longrightarrow> fresh_ids n (co, []) (mc, []) (S \<union> (set ci \<union> set li))"
  by (fastforce simp: fresh_ids_def)

lemma fresh_ids_distinct:
  "fresh_ids n (co, ci) (mc, li) S \<Longrightarrow> co \<le> n \<Longrightarrow> distinct (ci @ li) \<and> S \<inter> set (ci @ li) = {}"
  by (fastforce simp: fresh_ids_def)

lemma stash_requests:
  assumes "distinct (map fst rs)" "fst ` set errors \<inter> fst ` set rs = {}"
  shows "\<exists>errors' ms. stash_ops_requests rs errors = Ok (errors', ms) \<and> fst ` set errors' = fst ` set errors \<union> fst ` set rs"
  using assms
proof (induction rs arbitrary: errors)
  case (Cons r rs)
  obtain i ops where r: "r = (i, ops)" by fastforce
  have "i \<notin> fst ` set errors"
    using Cons.prems(2) by (auto simp: r)
  then have "hm_get errors i = None"
    by (simp add: hm_get_def map_of_eq_None_iff)
  then have stash: "stash_ops_request i ops errors = Ok (hm_insert i \<lparr> tr_status = RequestFailed, tr_results = map create_failed_op_result ops \<rparr> errors,
      OutExecuteOps i ops)"
    by (simp add: stash_ops_request_def hm_contains_def)
  have keys: "fst ` set (hm_insert i v errors) = insert i (fst ` set errors)" for v :: tablets_response
    by (auto simp: hm_insert_def dom_update)
  have "distinct (map fst rs)" "insert i (fst ` set errors) \<inter> fst ` set rs = {}"
    using Cons.prems by (auto simp: r)
  with Cons.IH keys obtain errors' ms where "stash_ops_requests rs
      (hm_insert i \<lparr> tr_status = RequestFailed, tr_results = map create_failed_op_result ops \<rparr> errors) = Ok (errors', ms)"
      "fst ` set errors' = insert i (fst ` set errors) \<union> fst ` set rs"
    by metis
  then show ?case
    by (simp add: r stash result_simps)
qed simp

lemma ids_wf_same:
  assumes "ids_wf n self" "ops_requests (ma_coordinator self') = ops_requests (ma_coordinator self)"
    and "list_requests (ma_metadata_cache self') = list_requests (ma_metadata_cache self)"
    and "fst ` set (ma_tablets_errors self') \<subseteq> fst ` set (ma_tablets_errors self)"
  shows "ids_wf n self'"
  using assms fresh_ids_closed by (simp add: ids_wf_def)

lemma response_ids:
  assumes "process_in_tablets_op_response k response self c = Ok (self', c')"
  shows "ops_requests (ma_coordinator self') = ops_requests (ma_coordinator self) \<and>
    list_requests (ma_metadata_cache self') = list_requests (ma_metadata_cache self) \<and> ma_tablets_errors self' = ma_tablets_errors self"
proof -
  let ?results = "filter (\<lambda>r. tor_op_result r \<noteq> None) (tr_results response)"
  obtain self1 c1 where lists: "(if filter is_list_result ?results \<noteq> []
      then and_then (metadata_process_in_message (ListResponse k (filter is_list_result ?results)) (ma_metadata_cache self) c)
        (\<lambda>(metadata_cache, c). Ok (self\<lparr>ma_metadata_cache := metadata_cache\<rparr>, c)) else Ok (self, c)) = Ok (self1, c1)"
    and ops: "(if filter (\<lambda>r. \<not> is_list_result r) ?results \<noteq> []
      then and_then (coordinator_process_in_message (CoordinatorResponse k (filter (\<lambda>r. \<not> is_list_result r) ?results))
          (ma_coordinator self1) (ma_metadata_cache self1))
        (\<lambda>(coordinator, metadata_cache). Ok (self1\<lparr>ma_coordinator := coordinator, ma_metadata_cache := metadata_cache\<rparr>, c1))
      else Ok (self1, c1)) = Ok (self', c')"
    using assms unfolding process_in_tablets_op_response_def Let_def by (rule and_then_pair) (rule that)
  have "list_requests (ma_metadata_cache self1) = list_requests (ma_metadata_cache self) \<and>
      ma_coordinator self1 = ma_coordinator self \<and> ma_tablets_errors self1 = ma_tablets_errors self"
    using lists list_results_requests by (fastforce simp: metadata_process_in_message_def result_simps split: if_splits)
  moreover have "ops_requests (ma_coordinator self') = ops_requests (ma_coordinator self1) \<and>
      list_requests (ma_metadata_cache self') = list_requests (ma_metadata_cache self1) \<and> ma_tablets_errors self' = ma_tablets_errors self1"
    using ops coordinator_requests(1) by (fastforce simp: result_simps split: if_splits)
  ultimately show ?thesis
    by simp
qed

lemma take_ids:
  assumes "ids_wf n self" "co_correlation_counter (ma_coordinator self) \<le> n"
  shows "\<exists>self' ms. manager_take_out_messages self = Ok (self', ms) \<and> ids_wf n self'"
proof -
  let ?rs = "map coordinator_request (co_out_messages (ma_coordinator self)) @ map list_request (mc_out_messages (ma_metadata_cache self))"
  have ids: "map fst ?rs = map (fst \<circ> coordinator_request) (co_out_messages (ma_coordinator self)) @
      map (fst \<circ> list_request) (mc_out_messages (ma_metadata_cache self))"
    by simp
  have "distinct (map fst ?rs)" "fst ` set (ma_tablets_errors self) \<inter> set (map fst ?rs) = {}"
    unfolding ids using fresh_ids_distinct [OF assms(1) [unfolded ids_wf_def apsnd_conv] assms(2)] by auto
  from stash_requests [OF this [unfolded set_map]] obtain errors ms where "stash_ops_requests ?rs (ma_tablets_errors self) = Ok (errors, ms)"
    "fst ` set errors = fst ` set (ma_tablets_errors self) \<union> fst ` set ?rs"
    by blast
  then show ?thesis
    using fresh_ids_take [OF assms(1) [unfolded ids_wf_def apsnd_conv]]
    by (simp add: manager_take_out_messages_def coordinator_take_out_messages_def metadata_take_out_messages_def
      data_take_out_messages_def ids_wf_def image_Un image_image)
qed

lemma take_counters:
  assumes "manager_take_out_messages self = Ok (self', ms)" "ids_wf n self"
  shows "ids_wf n self'"
proof (cases "co_correlation_counter (ma_coordinator self) \<le> n")
  case True
  then show ?thesis
    using take_ids [OF assms(2)] assms(1) by auto
next
  case False
  then show ?thesis
    using assms by (auto simp: manager_take_out_messages_def coordinator_take_out_messages_def metadata_take_out_messages_def
      data_take_out_messages_def ids_wf_def fresh_ids_def result_simps)
qed

lemma progress_ids:
  assumes "ids_wf n self" shows "ids_wf n (self\<lparr>ma_metadata_cache := metadata_make_progress (ma_metadata_cache self)\<rparr>)"
  using progress_requests [of "ma_metadata_cache self"]
proof
  assume "\<exists>ops. list_requests (metadata_make_progress (ma_metadata_cache self)) = (mc_correlation_counter (ma_metadata_cache self) + 1,
      mc_out_messages (ma_metadata_cache self) @ [ListRequest (mc_correlation_counter (ma_metadata_cache self) + 1) ops])"
  then show ?thesis
    using fresh_ids_list [OF assms [unfolded ids_wf_def apsnd_conv]] by (auto simp: ids_wf_def)
qed (use assms in \<open>simp add: ids_wf_def\<close>)

lemma commit_ids:
  assumes "ids_wf n self" "commit_transaction i (ma_coordinator self) = Ok co"
  shows "ids_wf n (self\<lparr>ma_coordinator := co\<rparr>)"
  using commit_requests [OF assms(2)]
proof
  assume "\<exists>ops. ops_requests co = (co_correlation_counter (ma_coordinator self) + 1,
      co_out_messages (ma_coordinator self) @ [CoordinatorRequest (co_correlation_counter (ma_coordinator self) + 1) ops])"
  then show ?thesis
    using fresh_ids_commit [OF assms(1) [unfolded ids_wf_def apsnd_conv]] by (auto simp: ids_wf_def)
qed (use assms in \<open>simp add: ids_wf_def\<close>)

lemma manager_step_ids:
  assumes "manager_step env i (self, c) (self', c')" "ids_wf n self"
  shows "ids_wf n self'"
  using assms(1)
proof cases
  case (progress instant)
  then obtain dc co mc dc' where "coordinator_make_progress env (ma_coordinator self)
      (metadata_make_progress (ma_metadata_cache self), dc, c) = Ok (co, mc, dc', c')"
    "self' = self\<lparr>ma_coordinator := co, ma_metadata_cache := mc, ma_data_cache := dc'\<rparr>"
    by (auto simp: manager_make_progress_def result_simps)
  then show ?thesis
    using coordinator_requests(2) by (fastforce intro: ids_wf_same [OF progress_ids [OF assms(2)]])
next
  case (message m)
  have keys: "fst ` set (hm_remove k errors) \<subseteq> fst ` set errors" for k and errors :: "(nat, tablets_response) hmap"
    by (auto simp: hm_remove_def AList.delete_eq)
  show ?thesis
    using message assms(2) response_ids keys
    by (cases m) (fastforce simp: manager_process_in_message_def result_simps split: option.splits intro: ids_wf_same [OF assms(2)])+
next
  case (take ms)
  then show ?thesis
    using take_counters assms(2) by blast
next
  case (resolve queries handler)
  then show ?thesis
    using resolve_requests(1) by (fastforce simp: manager_resolve_def resolve_tablets_with_handler_def result_simps intro: ids_wf_same [OF assms(2)])
next
  case (start tx)
  then show ?thesis
    using coordinator_requests(5) by (fastforce simp: start_transaction_def split: prod.splits intro: ids_wf_same [OF assms(2)])
next
  case (process_tx queries handler tx)
  then show ?thesis
    using coordinator_requests(3) by (fastforce simp: transaction_process_def result_simps intro: ids_wf_same [OF assms(2)])
next
  case (commit tx)
  then show ?thesis
    using commit_ids [OF assms(2)] by (auto simp: transaction_commit_def result_simps)
next
  case (check tx tx' outcome)
  then show ?thesis
    using coordinator_requests(4) assms(2)
    by (fastforce simp: transaction_check_result_def result_simps split: option.splits intro: ids_wf_same [OF assms(2)])
next
  case (abort tx)
  then show ?thesis
    using coordinator_requests(6) by (fastforce simp: transaction_abort_def intro: ids_wf_same [OF assms(2)])
qed (use assms(2) in simp)

end
