(* ===== verification/KeyValueStore.thy ===== *)
theory KeyValueStore
  imports CacheManager Actor
begin

text \<open>
  Model of \<open>src/apps/tablet_cache/service/src/store.rs\<close>, the key value store on top of the
  transaction manager, and of \<open>src/apps/tablet_cache/service/src/actor.rs\<close>, the actor that joins
  the two. The key hash and the codecs of the messages and tablet contents are the parameters
  \<open>kv_env\<close> and \<open>cache_env\<close>.

  The core of the store is shared, through a \<open>RefCell\<close>, with the handlers that it gives to the
  manager: the cell is the core with the flag that it is mutably borrowed, and a handler
  that runs while the flag is set panics.

  The lemmas show how requests are processed against the contents of a tablet and that they come
  back as responses only after a commit; and that the actor as written never answers.
\<close>

section \<open>Requests\<close>

datatype kv_request = KvPut nat string bytes | KvGet nat string
datatype kv_response = KvPutResponse nat bool | KvGetResponse nat bool bytes

type_synonym tablet_contents = "(string, bytes) hmap"

record kv_env =
  ke_hash :: "string \<Rightarrow> u32"
  ke_decode_contents :: "bytes \<Rightarrow> tablet_contents option"
  ke_encode_contents :: "tablet_contents \<Rightarrow> bytes"

record store_config =
  sc_table_name :: string
  sc_min_pending_before_resolve :: u32
  sc_min_pending_before_process :: u32

record table_accessor =
  tac_table_name :: string
  tac_query_counter :: nat

definition get_next_id :: "table_accessor \<Rightarrow> table_accessor \<times> nat" where
  "get_next_id self = (self\<lparr>tac_query_counter := tac_query_counter self + 1\<rparr>, tac_query_counter self + 1)"

fun request_key :: "kv_request \<Rightarrow> string" where
  "request_key (KvPut _ key _) = key"
| "request_key (KvGet _ key) = key"

definition create_table_query :: "kv_env \<Rightarrow> table_accessor \<Rightarrow> kv_request list \<Rightarrow> table_accessor \<times> table_query" where
  "create_table_query env accessor requests =
     (case get_next_id accessor of
        (accessor, i) \<Rightarrow>
          (accessor, table_query_create i (tac_table_name accessor) (map (\<lambda>r. ke_hash env (request_key r)) requests)))"

section \<open>Trackers\<close>

record request_tracker =
  rt_min_pending :: nat
  rt_pending :: "kv_request list"
  rt_waiting :: "(nat, kv_request list) hmap"

definition append_pending_request :: "kv_request \<Rightarrow> request_tracker \<Rightarrow> request_tracker" where
  "append_pending_request request self = self\<lparr>rt_pending := rt_pending self @ [request]\<rparr>"

definition collect_resolve_queries :: "kv_env \<Rightarrow> table_accessor \<Rightarrow> request_tracker
    \<Rightarrow> request_tracker \<times> table_accessor \<times> table_query list" where
  "collect_resolve_queries env accessor self =
     (if length (rt_pending self) \<ge> rt_min_pending self
      then (case create_table_query env accessor (rt_pending self) of
          (accessor, query) \<Rightarrow>
            (self\<lparr>rt_waiting := hm_insert (tq_query_id query) (rt_pending self) (rt_waiting self), rt_pending := []\<rparr>,
             accessor, [query]))
      else (self, accessor, []))"

definition take_resolved_requests :: "nat \<Rightarrow> request_tracker \<Rightarrow> request_tracker \<times> kv_request list" where
  "take_resolved_requests table_query_id self =
     (self\<lparr>rt_waiting := hm_remove table_query_id (rt_waiting self)\<rparr>,
      case hm_get (rt_waiting self) table_query_id of Some requests \<Rightarrow> requests | None \<Rightarrow> [])"

record tablet_tracker =
  tk_min_pending :: nat
  tk_has_transaction :: bool
  tk_pending :: "kv_request list"
  tk_waiting :: "(nat, kv_request list) hmap"

definition tablet_tracker_create :: "nat \<Rightarrow> tablet_tracker" where
  "tablet_tracker_create min_pending =
     \<lparr> tk_min_pending = min_pending, tk_has_transaction = False, tk_pending = [], tk_waiting = [] \<rparr>"

definition append_pending_requests :: "kv_request list \<Rightarrow> tablet_tracker \<Rightarrow> tablet_tracker" where
  "append_pending_requests requests self = self\<lparr>tk_pending := tk_pending self @ requests\<rparr>"

definition collect_process_queries :: "kv_env \<Rightarrow> table_accessor \<Rightarrow> tablet_tracker
    \<Rightarrow> tablet_tracker \<times> table_accessor \<times> table_query option" where
  "collect_process_queries env accessor self =
     (if length (tk_pending self) \<ge> tk_min_pending self \<and> \<not> tk_has_transaction self
      then (case create_table_query env accessor (tk_pending self) of
          (accessor, query) \<Rightarrow>
            (self\<lparr>tk_has_transaction := True,
                  tk_waiting := hm_insert (tq_query_id query) (tk_pending self) (tk_waiting self), tk_pending := []\<rparr>,
             accessor, Some query))
      else (self, accessor, None))"

definition process_put_request :: "kv_env \<Rightarrow> nat \<Rightarrow> string \<Rightarrow> bytes \<Rightarrow> table_query \<Rightarrow> tablet_contents
    \<Rightarrow> tablet_contents \<times> kv_response option" where
  "process_put_request env correlation_id key v query contents =
     (if ke_hash env key \<in> set (tq_key_hashes query)
      then (hm_insert key v contents, Some (KvPutResponse correlation_id (hm_get contents key \<noteq> None)))
      else (contents, None))"

definition process_get_request :: "kv_env \<Rightarrow> nat \<Rightarrow> string \<Rightarrow> table_query \<Rightarrow> tablet_contents \<Rightarrow> kv_response option" where
  "process_get_request env correlation_id key query contents =
     (if ke_hash env key \<in> set (tq_key_hashes query)
      then Some (case hm_get contents key of
             Some v \<Rightarrow> KvGetResponse correlation_id True v | None \<Rightarrow> KvGetResponse correlation_id False [])
      else None)"

text \<open>One request: the contents, whether they were updated, and the response.\<close>

definition process_kv_request :: "kv_env \<Rightarrow> table_query \<Rightarrow> kv_request \<Rightarrow> tablet_contents
    \<Rightarrow> tablet_contents \<times> bool \<times> kv_response option" where
  "process_kv_request env query request contents =
     (case request of
        KvPut correlation_id key v \<Rightarrow>
          (case process_put_request env correlation_id key v query contents of
             (contents, response) \<Rightarrow> (contents, response \<noteq> None, response))
      | KvGet correlation_id key \<Rightarrow> (contents, False, process_get_request env correlation_id key query contents))"

fun process_kv_requests :: "kv_env \<Rightarrow> table_query \<Rightarrow> kv_request list \<Rightarrow> tablet_contents
    \<Rightarrow> tablet_contents \<times> bool \<times> (kv_request \<times> kv_response) list \<times> kv_request list" where
  "process_kv_requests env query [] contents = (contents, False, [], [])"
| "process_kv_requests env query (request # rest) contents =
     (case process_kv_request env query request contents of (contents, update, response) \<Rightarrow>
      case process_kv_requests env query rest contents of (contents, updates, results, left) \<Rightarrow>
        (case response of
           Some response \<Rightarrow> (contents, update \<or> updates, (request, response) # results, left)
         | None \<Rightarrow> (contents, update \<or> updates, results, request # left)))"

definition process_table_query :: "kv_env \<Rightarrow> table_query \<Rightarrow> bytes tablet \<Rightarrow> tablet_tracker
    \<Rightarrow> (tablet_tracker \<times> bytes tablet \<times> (kv_request \<times> kv_response) list) run" where
  "process_table_query env query tablet self =
     and_then (tablet_get_contents tablet) (\<lambda>contents.
     and_then (unwrap (ke_decode_contents env contents)) (\<lambda>contents.
       case hm_get (tk_waiting self) (tq_query_id query) of
         None \<Rightarrow> Ok (self, tablet, [])
       | Some requests \<Rightarrow>
           (case process_kv_requests env query requests contents of
              (contents, tablet_updated, results, left) \<Rightarrow>
                Ok (self\<lparr>tk_waiting := hm_insert (tq_query_id query) left (tk_waiting self)\<rparr>,
                    if tablet_updated then tablet_set_contents (ke_encode_contents env contents) tablet else tablet,
                    results))))"

record transaction_tracker =
  xt_tablet_ids :: "u32 list"
  xt_requests :: "kv_request list"
  xt_responses :: "kv_response list"
  xt_transaction :: "tablet_transaction option"
  xt_waiting_commit :: "tablet_transaction option"

definition transaction_tracker_create :: "u32 list \<Rightarrow> tablet_transaction \<Rightarrow> transaction_tracker" where
  "transaction_tracker_create tablet_ids transaction =
     \<lparr> xt_tablet_ids = tablet_ids, xt_requests = [], xt_responses = [], xt_transaction = Some transaction,
       xt_waiting_commit = None \<rparr>"

definition append_process_results :: "(kv_request \<times> kv_response) list \<Rightarrow> transaction_tracker \<Rightarrow> transaction_tracker" where
  "append_process_results results self =
     self\<lparr>xt_requests := xt_requests self @ map fst results, xt_responses := xt_responses self @ map snd results\<rparr>"

section \<open>The core of the store\<close>

record kv_core =
  kc_accessor :: table_accessor
  kc_requests :: request_tracker
  kc_tablets :: "(u32, tablet_tracker) hmap"
  kc_transactions :: "(nat, transaction_tracker) hmap"
  kc_responses :: "kv_response list"
  kc_config :: store_config

record kv_cell =
  cell_borrowed :: bool
  cell_core :: kv_core

type_synonym 'p kv_manager = "(kv_cell, bytes, 'p) manager"

definition kv_core_new :: kv_core where
  "kv_core_new =
     \<lparr> kc_accessor = \<lparr> tac_table_name = [], tac_query_counter = 0 \<rparr>,
       kc_requests = \<lparr> rt_min_pending = 0, rt_pending = [], rt_waiting = [] \<rparr>,
       kc_tablets = [], kc_transactions = [], kc_responses = [],
       kc_config = \<lparr> sc_table_name = [], sc_min_pending_before_resolve = 0, sc_min_pending_before_process = 0 \<rparr> \<rparr>"

definition kv_create :: kv_cell where
  "kv_create = \<lparr> cell_borrowed = False, cell_core = kv_core_new \<rparr>"

definition kv_core_init :: "store_config \<Rightarrow> kv_core \<Rightarrow> kv_core" where
  "kv_core_init config self =
     self\<lparr>kc_accessor := \<lparr> tac_table_name = sc_table_name config, tac_query_counter = 0 \<rparr>,
          kc_requests := \<lparr> rt_min_pending = unat (sc_min_pending_before_resolve config), rt_pending = [], rt_waiting = [] \<rparr>\<rparr>"

definition resolve_one :: "table_query \<times> tablet_descriptor \<Rightarrow> kv_core \<Rightarrow> kv_core" where
  "resolve_one result self =
     (let i = td_tablet_id (snd result);
          tracker = (case hm_get (kc_tablets self) i of
              Some tracker \<Rightarrow> tracker
            | None \<Rightarrow> tablet_tracker_create (unat (sc_min_pending_before_process (kc_config self))))
      in case take_resolved_requests (tq_query_id (fst result)) (kc_requests self) of
           (request_tracker, requests) \<Rightarrow>
             self\<lparr>kc_requests := request_tracker,
                  kc_tablets := hm_insert i (append_pending_requests requests tracker) (kc_tablets self)\<rparr>)"

definition handle_query_resolve :: "(table_query \<times> tablet_descriptor) list \<Rightarrow> kv_core \<Rightarrow> kv_core" where
  "handle_query_resolve = fold resolve_one"

fun process_tablets :: "kv_env \<Rightarrow> (table_query \<times> bytes tablet) list \<Rightarrow> transaction_tracker \<Rightarrow> (u32, tablet_tracker) hmap
    \<Rightarrow> (transaction_tracker \<times> (u32, tablet_tracker) hmap \<times> bytes tablet list) run" where
  "process_tablets env [] tracker tablets = Ok (tracker, tablets, [])"
| "process_tablets env ((query, tablet) # rest) tracker tablets =
     (case hm_get tablets (tablet_get_id tablet) of
        Some tablet_tracker \<Rightarrow>
          and_then (process_table_query env query tablet tablet_tracker) (\<lambda>(tablet_tracker, changed, results).
          and_then (process_tablets env rest (append_process_results results tracker)
                      (hm_insert (tablet_get_id tablet) tablet_tracker tablets)) (\<lambda>(tracker, tablets, ts).
            Ok (tracker, tablets, changed # ts)))
      | None \<Rightarrow>
          and_then (process_tablets env rest tracker tablets) (\<lambda>(tracker, tablets, ts).
            Ok (tracker, tablets, tablet # ts)))"

definition handle_query_process :: "kv_env \<Rightarrow> nat \<Rightarrow> (table_query \<times> bytes tablet) list \<Rightarrow> kv_core
    \<Rightarrow> (kv_core \<times> bytes tablet list) run" where
  "handle_query_process env transaction_id results self =
     (case hm_get (kc_transactions self) transaction_id of
        None \<Rightarrow> Ok (self, map snd results)
      | Some tracker \<Rightarrow>
          and_then (process_tablets env results tracker (kc_tablets self)) (\<lambda>(tracker, tablets, ts).
            Ok (self\<lparr>kc_transactions := hm_insert transaction_id tracker (kc_transactions self), kc_tablets := tablets\<rparr>, ts)))"

text \<open>The two closures of \<open>make_progress\<close>: they borrow the core themselves.\<close>

definition resolve_handler :: "(table_query \<times> tablet_descriptor) list \<Rightarrow> kv_cell \<Rightarrow> kv_cell run" where
  "resolve_handler results cell =
     (if cell_borrowed cell then Panic else Ok (cell\<lparr>cell_core := handle_query_resolve results (cell_core cell)\<rparr>))"

definition process_handler :: "kv_env \<Rightarrow> (kv_cell, bytes) process_handler" where
  "process_handler env transaction_id results cell =
     (if cell_borrowed cell then Panic
      else and_then (handle_query_process env transaction_id results (cell_core cell)) (\<lambda>(core, ts).
             Ok (cell\<lparr>cell_core := core\<rparr>, ts)))"

definition maybe_resolve_tablets :: "kv_env \<Rightarrow> kv_cell \<Rightarrow> 'p kv_manager \<Rightarrow> (kv_cell \<times> 'p kv_manager) run" where
  "maybe_resolve_tablets env cell manager =
     (case collect_resolve_queries env (kc_accessor (cell_core cell)) (kc_requests (cell_core cell)) of
        (requests, accessor, queries) \<Rightarrow>
          let cell = cell\<lparr>cell_core := (cell_core cell)\<lparr>kc_requests := requests, kc_accessor := accessor\<rparr>\<rparr> in
          if queries \<noteq> []
          then and_then (manager_resolve queries resolve_handler manager cell) (\<lambda>(manager, cell). Ok (cell, manager))
          else Ok (cell, manager))"

fun collect_queries :: "kv_env \<Rightarrow> table_accessor \<Rightarrow> (u32, tablet_tracker) hmap
    \<Rightarrow> (u32, tablet_tracker) hmap \<times> table_accessor \<times> table_query list \<times> u32 list" where
  "collect_queries env accessor [] = ([], accessor, [], [])"
| "collect_queries env accessor ((i, tracker) # rest) =
     (case collect_process_queries env accessor tracker of (tracker, accessor, query) \<Rightarrow>
      case collect_queries env accessor rest of (rest, accessor, queries, ids) \<Rightarrow>
        (case query of
           Some query \<Rightarrow> ((i, tracker) # rest, accessor, query # queries, i # ids)
         | None \<Rightarrow> ((i, tracker) # rest, accessor, queries, ids)))"

definition maybe_start_transaction :: "kv_env \<Rightarrow> kv_cell \<Rightarrow> 'p kv_manager \<Rightarrow> (kv_cell \<times> 'p kv_manager) run" where
  "maybe_start_transaction env cell manager =
     (let core = cell_core cell in
      case collect_queries env (kc_accessor core) (kc_tablets core) of
        (tablets, accessor, queries, tablet_ids) \<Rightarrow>
          let core = core\<lparr>kc_tablets := tablets, kc_accessor := accessor\<rparr> in
          if queries \<noteq> []
          then (case start_transaction manager of
              (manager, transaction) \<Rightarrow>
                and_then (transaction_process queries (process_handler env) transaction manager) (\<lambda>manager.
                  Ok (cell\<lparr>cell_core := core\<lparr>kc_transactions := hm_insert (tt_transaction_id transaction)
                        (transaction_tracker_create tablet_ids transaction) (kc_transactions core)\<rparr>\<rparr>, manager)))
          else Ok (cell\<lparr>cell_core := core\<rparr>, manager))"

definition maybe_commit_transaction :: "transaction_tracker \<Rightarrow> 'p kv_manager \<Rightarrow> (transaction_tracker \<times> 'p kv_manager) run" where
  "maybe_commit_transaction self manager =
     (case (xt_waiting_commit self, xt_transaction self) of
        (None, Some transaction) \<Rightarrow>
          and_then (has_pending_process transaction manager) (\<lambda>pending.
            if pending then Ok (self, manager)
            else and_then (transaction_commit transaction manager) (\<lambda>manager.
                   Ok (self\<lparr>xt_transaction := None, xt_waiting_commit := Some transaction\<rparr>, manager)))
      | _ \<Rightarrow> Ok (self, manager))"

fun maybe_commit_transactions :: "(nat, transaction_tracker) hmap \<Rightarrow> 'p kv_manager
    \<Rightarrow> ((nat, transaction_tracker) hmap \<times> 'p kv_manager) run" where
  "maybe_commit_transactions [] manager = Ok ([], manager)"
| "maybe_commit_transactions ((i, tracker) # rest) manager =
     and_then (maybe_commit_transaction tracker manager) (\<lambda>(tracker, manager).
     and_then (maybe_commit_transactions rest manager) (\<lambda>(rest, manager). Ok ((i, tracker) # rest, manager)))"

text \<open>The collections of the loop over the transactions: affected tablets, failed requests, responses.\<close>

type_synonym finalized = "u32 list \<times> kv_request list \<times> kv_response list"

definition maybe_finalize_transaction :: "transaction_tracker \<Rightarrow> 'p kv_manager \<Rightarrow> finalized
    \<Rightarrow> (transaction_tracker \<times> 'p kv_manager \<times> finalized \<times> bool) run" where
  "maybe_finalize_transaction self manager acc =
     (case xt_waiting_commit self of
        None \<Rightarrow> Ok (self, manager, acc, False)
      | Some commit \<Rightarrow>
          and_then (transaction_check_result commit manager) (\<lambda>(commit, manager, outcome).
            let self = self\<lparr>xt_waiting_commit := Some commit\<rparr> in
            case (outcome, acc) of
              (None, _) \<Rightarrow> Ok (self, manager, acc, False)
            | (Some TransactionSucceeded, affected, failed, responses) \<Rightarrow>
                Ok (self\<lparr>xt_responses := [], xt_tablet_ids := []\<rparr>, manager,
                    (affected @ xt_tablet_ids self, failed, responses @ xt_responses self), True)
            | (Some TransactionFailed, affected, failed, responses) \<Rightarrow>
                Ok (self\<lparr>xt_requests := [], xt_tablet_ids := []\<rparr>, manager,
                    (affected @ xt_tablet_ids self, failed @ xt_requests self, responses), True)))"

fun finalize_transactions :: "(nat, transaction_tracker) hmap \<Rightarrow> 'p kv_manager \<Rightarrow> finalized
    \<Rightarrow> ((nat, transaction_tracker) hmap \<times> 'p kv_manager \<times> finalized \<times> nat list) run" where
  "finalize_transactions [] manager acc = Ok ([], manager, acc, [])"
| "finalize_transactions ((i, tracker) # rest) manager acc =
     and_then (maybe_finalize_transaction tracker manager acc) (\<lambda>(tracker, manager, acc, completed).
     and_then (finalize_transactions rest manager acc) (\<lambda>(rest, manager, acc, is).
       Ok ((i, tracker) # rest, manager, acc, if completed then i # is else is)))"

definition complete_tablet :: "u32 \<Rightarrow> (u32, tablet_tracker) hmap \<Rightarrow> (u32, tablet_tracker) hmap" where
  "complete_tablet i tablets =
     (case hm_get tablets i of
        Some tracker \<Rightarrow> hm_insert i (tracker\<lparr>tk_has_transaction := False\<rparr>) tablets
      | None \<Rightarrow> tablets)"

text \<open>The failed requests are collected and then dropped, as in the code.\<close>

definition maybe_finalize_or_retry_transactions :: "kv_core \<Rightarrow> 'p kv_manager \<Rightarrow> (kv_core \<times> 'p kv_manager) run" where
  "maybe_finalize_or_retry_transactions self manager =
     and_then (finalize_transactions (kc_transactions self) manager ([], [], kc_responses self))
       (\<lambda>(transactions, manager, (affected, failed, responses), completed).
         Ok (self\<lparr>kc_transactions := fold hm_remove completed transactions,
                  kc_tablets := fold complete_tablet affected (kc_tablets self),
                  kc_responses := responses\<rparr>, manager))"

section \<open>The interface of the store\<close>

definition kv_init :: "store_config \<Rightarrow> kv_cell \<Rightarrow> kv_cell run" where
  "kv_init config cell =
     (if cell_borrowed cell then Panic else Ok (cell\<lparr>cell_core := kv_core_init config (cell_core cell)\<rparr>))"

definition kv_make_progress :: "kv_env \<Rightarrow> kv_cell \<Rightarrow> 'p kv_manager \<Rightarrow> (kv_cell \<times> 'p kv_manager) run" where
  "kv_make_progress env cell manager =
     (if cell_borrowed cell then Panic
      else and_then (maybe_resolve_tablets env (cell\<lparr>cell_borrowed := True\<rparr>) manager) (\<lambda>(cell, manager).
           and_then (maybe_start_transaction env cell manager) (\<lambda>(cell, manager).
           and_then (maybe_commit_transactions (kc_transactions (cell_core cell)) manager) (\<lambda>(transactions, manager).
           and_then (maybe_finalize_or_retry_transactions ((cell_core cell)\<lparr>kc_transactions := transactions\<rparr>) manager)
             (\<lambda>(core, manager). Ok (\<lparr> cell_borrowed = False, cell_core = core \<rparr>, manager))))))"

definition kv_process_request :: "kv_request \<Rightarrow> kv_cell \<Rightarrow> kv_cell run" where
  "kv_process_request request cell =
     (if cell_borrowed cell then Panic
      else Ok (cell\<lparr>cell_core := (cell_core cell)\<lparr>kc_requests := append_pending_request request (kc_requests (cell_core cell))\<rparr>\<rparr>))"

definition kv_take_responses :: "kv_cell \<Rightarrow> (kv_cell \<times> kv_response list) run" where
  "kv_take_responses cell =
     (if cell_borrowed cell then Panic
      else Ok (cell\<lparr>cell_core := (cell_core cell)\<lparr>kc_responses := []\<rparr>\<rparr>, kc_responses (cell_core cell)))"

section \<open>The actor\<close>

datatype cache_in_msg =
    CacheInPutKey string bytes
  | CacheInGetKey string
  | CacheInLoadTablet storage_status
  | CacheInStoreTablet storage_status
  | CacheInExecuteOps
  | CacheInExecuteError execute_status string

datatype cache_out_msg =
    CacheOutPutKey bool
  | CacheOutGetKey bool bytes
  | CacheOutLoadTablet string
  | CacheOutStoreTablet string
  | CacheOutExecuteOps

record cache_config =
  cfg_transaction_manager :: "manager_config option"
  cfg_store :: "store_config option"

record 'p cache_env =
  cen_kv :: kv_env
  cen_data :: "(bytes, 'p) data_env"
  cen_decode_config :: "bytes \<Rightarrow> cache_config option"
  cen_decode_in_message :: "bytes \<Rightarrow> cache_in_msg option option"
  cen_decode_response :: "bytes \<Rightarrow> tablets_response option"
  cen_encode_out_message :: "cache_out_msg \<Rightarrow> bytes"
  cen_encode_request :: "tablet_op list \<Rightarrow> bytes"

record 'p cache_actor =
  cac_manager :: "'p kv_manager"
  cac_store :: kv_cell
  cac_context :: "actor_context option"

definition cache_actor_new :: "'p kv_manager \<Rightarrow> kv_cell \<Rightarrow> 'p cache_actor" where
  "cache_actor_new manager store = \<lparr> cac_manager = manager, cac_store = store, cac_context = None \<rparr>"

definition cache_command :: "'p cache_env \<Rightarrow> nat \<Rightarrow> cache_out_msg \<Rightarrow> bytes \<Rightarrow> actor_command" where
  "cache_command env correlation_id out_header out_payload =
     command_with_header_and_payload correlation_id (cen_encode_out_message env out_header) out_payload"

definition cache_on_init :: "'p cache_env \<Rightarrow> 'p cache_actor \<Rightarrow> actor_context \<Rightarrow> 'p cache_actor \<times> (unit, actor_error) result" where
  "cache_on_init env self context =
     (let self = self\<lparr>cac_context := Some context\<rparr> in
      case cen_decode_config env (ctx_config context) of
        None \<Rightarrow> (self, Err ActorConfigLoading)
      | Some config \<Rightarrow>
          (case and_then (unwrap (cfg_store config)) (\<lambda>store_config. kv_init store_config (cac_store self)) of
             Ok store \<Rightarrow>
               (case and_then (unwrap (cfg_transaction_manager config)) (\<lambda>c. manager_init c (cac_manager self)) of
                  Ok manager \<Rightarrow> (self\<lparr>cac_store := store, cac_manager := manager\<rparr>, Ok ())
                | _ \<Rightarrow> (self\<lparr>cac_store := store\<rparr>, Panic))
           | _ \<Rightarrow> (self, Panic)))"

definition cache_on_save_snapshot :: "'p cache_actor \<Rightarrow> (bytes, actor_error) result" where
  "cache_on_save_snapshot self = Ok []"

definition cache_on_load_snapshot :: "'p cache_actor \<Rightarrow> bytes \<Rightarrow> 'p cache_actor \<times> (unit, actor_error) result" where
  "cache_on_load_snapshot self snapshot = (self, Ok ())"

definition cache_process_in_message :: "'p cache_env \<Rightarrow> actor_command \<Rightarrow> cache_in_msg \<Rightarrow> 'p cache_actor \<Rightarrow> 'p cache_actor run" where
  "cache_process_in_message env command message self =
     (let to_store = (\<lambda>request. and_then (kv_process_request request (cac_store self)) (\<lambda>store. Ok (self\<lparr>cac_store := store\<rparr>)));
          to_manager = (\<lambda>m. and_then (manager_process_in_message (cen_data env) m (cac_manager self) (cac_store self))
             (\<lambda>(manager, store). Ok (self\<lparr>cac_manager := manager, cac_store := store\<rparr>)))
      in case message of
           CacheInPutKey key v \<Rightarrow> to_store (KvPut (ac_correlation_id command) key v)
         | CacheInGetKey key \<Rightarrow> to_store (KvGet (ac_correlation_id command) key)
         | CacheInLoadTablet status \<Rightarrow> to_manager (InLoadTablet (ac_correlation_id command) status (ac_payload command))
         | CacheInStoreTablet status \<Rightarrow> to_manager (InStoreTablet (ac_correlation_id command) status)
         | CacheInExecuteOps \<Rightarrow>
             and_then (unwrap (cen_decode_response env (ac_payload command))) (\<lambda>response.
               to_manager (InExecuteOps (ac_correlation_id command) response))
         | CacheInExecuteError _ _ \<Rightarrow> to_manager (InExecuteError (ac_correlation_id command)))"

definition manager_command :: "'p cache_env \<Rightarrow> manager_out_msg \<Rightarrow> actor_command" where
  "manager_command env m =
     (case m of
        OutLoadTablet i uri \<Rightarrow> cache_command env i (CacheOutLoadTablet uri) []
      | OutStoreTablet i uri contents \<Rightarrow> cache_command env i (CacheOutStoreTablet uri) contents
      | OutExecuteOps i ops \<Rightarrow> cache_command env i CacheOutExecuteOps (cen_encode_request env ops))"

definition response_command :: "'p cache_env \<Rightarrow> kv_response \<Rightarrow> actor_command" where
  "response_command env r =
     (case r of
        KvPutResponse i existed \<Rightarrow> cache_command env i (CacheOutPutKey existed) []
      | KvGetResponse i existed v \<Rightarrow> cache_command env i (CacheOutGetKey existed v) [])"

text \<open>The part of \<open>on_process_command\<close> after the message: the store makes progress, the manager does not.\<close>

definition cache_progress :: "'p cache_env \<Rightarrow> 'p cache_actor \<Rightarrow> ('p cache_actor \<times> command_outcome) run" where
  "cache_progress env self =
     and_then (unwrap (cac_context self)) (\<lambda>context.
     and_then (kv_make_progress (cen_kv env) (cac_store self) (cac_manager self)) (\<lambda>(store, manager).
     and_then (manager_take_out_messages manager) (\<lambda>(manager, out_messages).
     and_then (kv_take_responses store) (\<lambda>(store, responses).
       Ok (self\<lparr>cac_manager := manager, cac_store := store\<rparr>,
           outcome_with_commands (map (manager_command env) out_messages @ map (response_command env) responses))))))"

definition cache_on_process_command :: "'p cache_env \<Rightarrow> 'p cache_actor \<Rightarrow> actor_command option
    \<Rightarrow> 'p cache_actor \<times> (command_outcome, actor_error) result" where
  "cache_on_process_command env self command =
     (let finish = (\<lambda>r. case r of
          Ok self \<Rightarrow> (case cache_progress env self of Ok (self, outcome) \<Rightarrow> (self, Ok outcome) | _ \<Rightarrow> (self, Panic))
        | _ \<Rightarrow> (self, Panic))
      in case command of
           None \<Rightarrow> finish (Ok self)
         | Some command \<Rightarrow>
             (case cen_decode_in_message env (ac_header command) of
                None \<Rightarrow> (self, Err ActorInternal)
              | Some None \<Rightarrow> (self, Err ActorInternal)
              | Some (Some message) \<Rightarrow> finish (cache_process_in_message env command message self)))"

definition cache_on_apply_event :: "'p cache_actor \<Rightarrow> actor_event_context \<Rightarrow> actor_event
    \<Rightarrow> 'p cache_actor \<times> (event_outcome, actor_error) result" where
  "cache_on_apply_event self context event = (self, Ok event_outcome_with_none)"

section \<open>Requests against a tablet\<close>

text \<open>What a sequence of requests means for a map of keys to values.\<close>

fun kv_semantics :: "kv_request list \<Rightarrow> (string \<Rightarrow> bytes option) \<Rightarrow> (string \<Rightarrow> bytes option) \<times> kv_response list" where
  "kv_semantics [] m = (m, [])"
| "kv_semantics (KvPut i key v # rs) m =
     (case kv_semantics rs (m(key \<mapsto> v)) of (m', out) \<Rightarrow> (m', KvPutResponse i (m key \<noteq> None) # out))"
| "kv_semantics (KvGet i key # rs) m =
     (case kv_semantics rs m of (m', out) \<Rightarrow>
       (m', (case m key of Some v \<Rightarrow> KvGetResponse i True v | None \<Rightarrow> KvGetResponse i False []) # out))"

definition served :: "kv_env \<Rightarrow> table_query \<Rightarrow> kv_request \<Rightarrow> bool" where
  "served env query request \<longleftrightarrow> ke_hash env (request_key request) \<in> set (tq_key_hashes query)"

definition is_put :: "kv_request \<Rightarrow> bool" where
  "is_put request = (case request of KvPut _ _ _ \<Rightarrow> True | KvGet _ _ \<Rightarrow> False)"

lemma hm_get_insert_fun: "hm_get (hm_insert k v m) = (hm_get m)(k \<mapsto> v)"
  by (rule ext) simp

lemma process_kv_requests_semantics:
  "process_kv_requests env query requests contents = (contents', updated, results, left) \<Longrightarrow>
    map fst results = filter (served env query) requests \<and> left = filter (\<lambda>r. \<not> served env query r) requests \<and>
    (hm_get contents', map snd results) = kv_semantics (filter (served env query) requests) (hm_get contents) \<and>
    updated = list_ex is_put (filter (served env query) requests)"
proof (induction requests arbitrary: contents contents' updated results left)
  case (Cons request requests)
  obtain c u r where one: "process_kv_request env query request contents = (c, u, r)"
    by (cases "process_kv_request env query request contents")
  obtain c' u' rs ls where rest: "process_kv_requests env query requests c = (c', u', rs, ls)"
    by (cases "process_kv_requests env query requests c")
  note IH = Cons.IH [OF rest]
  show ?case
    using Cons.prems one rest IH
    by (cases request)
      (auto simp: process_kv_request_def process_put_request_def process_get_request_def served_def is_put_def hm_get_insert_fun
        split: prod.splits if_splits option.splits)
qed simp

lemma kv_semantics_gets: "\<not> list_ex is_put rs \<Longrightarrow> fst (kv_semantics rs m) = m"
  by (induction rs m rule: kv_semantics.induct) (auto simp: is_put_def split: prod.splits)

lemma process_table_query_tablet:
  assumes "process_table_query env query tablet tracker = Ok (tracker', tablet', results)"
  shows "tablet' = tablet \<or> (\<exists>v. tablet' = tablet_set_contents v tablet)"
  using assms by (auto simp: process_table_query_def result_simps split_beta split: option.splits if_splits)

lemma process_tablets_tablets:
  "process_tablets env qts tracker tablets = Ok (tracker', tablets', ts) \<Longrightarrow>
    list_all2 (\<lambda>qt t. t = snd qt \<or> (\<exists>v. t = tablet_set_contents v (snd qt))) qts ts"
proof (induction qts arbitrary: tracker tablets ts)
  case (Cons qt rest)
  obtain query tablet where qt: "qt = (query, tablet)"
    by (cases qt)
  show ?case
  proof (cases "hm_get tablets (tablet_get_id tablet)")
    case None
    then show ?thesis
      using Cons qt by (auto simp: result_simps)
  next
    case (Some tk)
    then obtain tk' changed results ts' where step: "process_table_query env query tablet tk = Ok (tk', changed, results)"
      "process_tablets env rest (append_process_results results tracker) (hm_insert (tablet_get_id tablet) tk' tablets) =
         Ok (tracker', tablets', ts')" "ts = changed # ts'"
      using Cons.prems qt by (auto simp: result_simps)
    then show ?thesis
      using process_table_query_tablet [OF step(1)] Cons.IH [OF step(2)] qt by simp
  qed
qed simp

interpretation kv_handler: tablet_handler "process_handler env" for env
  by unfold_locales
    (auto simp: process_handler_def handle_query_process_def result_simps list_all2_map2 list_all2_same
      split: if_splits option.splits dest: process_tablets_tablets)

text \<open>
  C18. Requests are served in order: of the requests that wait for a query, those with a key hash of the
  query are answered as a sequence of reads and writes of a map, starting from the contents of the
  tablet, the others keep waiting, and the tablet is written exactly when one of them is a put, with
  contents that decode to the final map.
\<close>

theorem requests_served_in_order:
  assumes "tb_contents tablet = Some b" "ke_decode_contents env b = Some contents"
    and "hm_get (tk_waiting tracker) (tq_query_id query) = Some requests"
    and "\<And>m. \<exists>m'. ke_decode_contents env (ke_encode_contents env m) = Some m' \<and> hm_get m' = hm_get m"
    and "mine = filter (\<lambda>r. ke_hash env (request_key r) \<in> set (tq_key_hashes query)) requests"
  shows "\<exists>tracker' tablet' results. process_table_query env query tablet tracker = Ok (tracker', tablet', results) \<and>
    map fst results = mine \<and> map snd results = snd (kv_semantics mine (hm_get contents)) \<and>
    hm_get (tk_waiting tracker') (tq_query_id query) =
      Some (filter (\<lambda>r. ke_hash env (request_key r) \<notin> set (tq_key_hashes query)) requests) \<and>
    tb_metadata tablet' = tb_metadata tablet \<and> (tb_is_dirty tablet' \<longleftrightarrow> tb_is_dirty tablet \<or> list_ex is_put mine) \<and>
    (if list_ex is_put mine
     then \<exists>b' m. tb_updated_contents tablet' = Some b' \<and> ke_decode_contents env b' = Some m \<and>
       hm_get m = fst (kv_semantics mine (hm_get contents))
     else tablet' = tablet \<and> fst (kv_semantics mine (hm_get contents)) = hm_get contents)"
proof -
  obtain contents' updated results left where run: "process_kv_requests env query requests contents = (contents', updated, results, left)"
    by (cases "process_kv_requests env query requests contents")
  have mine: "filter (served env query) requests = mine"
    using assms(5) by (simp add: served_def [abs_def])
  have sem: "map fst results = mine" "left = filter (\<lambda>r. \<not> served env query r) requests"
    "hm_get contents' = fst (kv_semantics mine (hm_get contents))" "map snd results = snd (kv_semantics mine (hm_get contents))"
    "updated = list_ex is_put mine"
    using process_kv_requests_semantics [OF run] unfolding mine by (auto simp: prod_eq_iff)
  obtain m where m: "ke_decode_contents env (ke_encode_contents env contents') = Some m" "hm_get m = hm_get contents'"
    using assms(4) by blast
  show ?thesis
    using assms(1-3) run sem m kv_semantics_gets [of mine "hm_get contents"]
    by (simp add: process_table_query_def tablet_get_contents_def tablet_set_contents_def served_def)
qed

text \<open>Hashes by length, and a codec of tablet contents.\<close>

definition demo_kv_env :: kv_env where
  "demo_kv_env = \<lparr> ke_hash = (\<lambda>key. word_of_nat (length key)),
     ke_decode_contents = (\<lambda>b. if b = [] then Some [] else decode_all (dec_list (dec_pair dec_string dec_bytes)) b),
     ke_encode_contents = enc_list (enc_pair enc_string enc_bytes) \<rparr>"

lemma demo_kv_codec: "ke_decode_contents demo_kv_env (ke_encode_contents demo_kv_env m) = Some m"
proof -
  have "codec (enc_list (enc_pair enc_string enc_bytes)) (dec_list (dec_pair dec_string dec_bytes))"
    by (intro codecs)
  then have "decode_all (dec_list (dec_pair dec_string dec_bytes)) (enc_list (enc_pair enc_string enc_bytes) m) = Some m"
    by (rule decode_all_encode)
  moreover have "enc_list (enc_pair enc_string enc_bytes) m \<noteq> []"
    by (simp add: enc_list_def enc_nat_def)
  ultimately show ?thesis
    by (simp add: demo_kv_env_def)
qed

lemma demo_kv_roundtrip: "\<exists>m'. ke_decode_contents demo_kv_env (ke_encode_contents demo_kv_env m) = Some m' \<and> hm_get m' = hm_get m"
  by (simp add: demo_kv_codec)

definition demo_tablet_tracker :: tablet_tracker where
  "demo_tablet_tracker = \<lparr> tk_min_pending = 0, tk_has_transaction = True, tk_pending = [],
     tk_waiting = [(1, [KvGet 7 ''abcde'', KvPut 8 ''abcde'' [1], KvGet 9 ''abcde'', KvGet 10 ''x''])] \<rparr>"

theorem requests_served_in_order_witness:
  "\<exists>tracker' tablet' results.
     process_table_query demo_kv_env (table_query_create 1 ''t'' [5]) ((tablet_create (default_tablet 10))\<lparr>tb_contents := Some []\<rparr>)
       demo_tablet_tracker = Ok (tracker', tablet', results) \<and>
     map snd results = [KvGetResponse 7 False [], KvPutResponse 8 False, KvGetResponse 9 True [1]] \<and>
     hm_get (tk_waiting tracker') 1 = Some [KvGet 10 ''x''] \<and> tb_is_dirty tablet'"
proof -
  let ?tablet = "(tablet_create (default_tablet 10))\<lparr>tb_contents := Some []\<rparr>"
  let ?requests = "[KvGet 7 ''abcde'', KvPut 8 ''abcde'' [1], KvGet 9 ''abcde'', KvGet 10 ''x'']"
  let ?mine = "[KvGet 7 ''abcde'', KvPut 8 ''abcde'' [1], KvGet 9 ''abcde'']"
  have query: "tq_query_id (table_query_create 1 ''t'' [5]) = 1" "set (tq_key_hashes (table_query_create 1 ''t'' [5])) = {5}"
    by (simp_all add: table_query_create_def bts_insert_def)
  have "tb_contents ?tablet = Some []" "ke_decode_contents demo_kv_env [] = Some []"
    "hm_get (tk_waiting demo_tablet_tracker) (tq_query_id (table_query_create 1 ''t'' [5])) = Some ?requests"
    "?mine = filter (\<lambda>r. ke_hash demo_kv_env (request_key r) \<in> set (tq_key_hashes (table_query_create 1 ''t'' [5]))) ?requests"
    "filter (\<lambda>r. ke_hash demo_kv_env (request_key r) \<notin> set (tq_key_hashes (table_query_create 1 ''t'' [5]))) ?requests = [KvGet 10 ''x'']"
    "snd (kv_semantics ?mine (hm_get [])) = [KvGetResponse 7 False [], KvPutResponse 8 False, KvGetResponse 9 True [1]]"
    "list_ex is_put ?mine"
    by (simp_all add: query demo_kv_env_def demo_tablet_tracker_def hm_get_def is_put_def)
  then show ?thesis
    using requests_served_in_order [OF _ _ _ demo_kv_roundtrip, of ?tablet "[]" "[]" demo_tablet_tracker "table_query_create 1 ''t'' [5]" ?requests ?mine]
    unfolding query(1) by fastforce
qed

section \<open>What a committed transaction has read\<close>

lemma track_resolved_clean:
  "list_all (\<lambda>e. tablet_clean (ts_tablet (snd e))) tablets \<Longrightarrow>
    list_all (\<lambda>e. tablet_clean (ts_tablet (snd e))) (track_resolved vs tablets)"
  unfolding track_resolved_def
proof (induction vs arbitrary: tablets)
  case (Cons v vs)
  then show ?case
    by (cases v) (simp add: hm_insert_all tablet_state_create_def tablet_create_def tablet_clean_def)
qed simp

lemma resolving_step_clean:
  assumes "ps_status p = ProcResolving r" "ps_tablets p = []" "process_make_progress env i p w = Ok (p', w')"
  shows "list_all (\<lambda>e. tablet_clean (ts_tablet (snd e))) (ps_tablets p') \<and> ps_handler p' = ps_handler p"
  using assms track_resolved_clean [of "[]"]
  by (auto simp: process_make_progress_def result_simps split: prod.splits option.splits result.splits)

text \<open>
  C17. A committed transaction of the key value store worked on current tablets: when a process request
  resolves its tablets, then processes their loaded contents, and the operations of the
  transaction with this request are accepted by the tablet store, the store still had, for each tablet that was
  processed, the version that was resolved, whether the tablet was written or only read.
\<close>

theorem committed_tablets_current:
  assumes "ps_handler p0 = process_handler env" "ps_status p0 = ProcResolving r" "ps_tablets p0 = []"
    and "process_make_progress (bytes_env sha256 base64) i p0 w0 = Ok (p, w1)" "ps_status p = ProcLoading h"
    and "process_make_progress (bytes_env sha256 base64) i p w2 = Ok (p', w3)" "ps_status p' = ProcStoring h'"
    and "p'\<lparr>ps_status := ProcCompleted\<rparr> \<in> set processes" "preparing_complete processes [] = PreparingSucceeded ops"
    and "on_apply_tablets_request store ops = (store', Ok response)" "tr_status response = RequestSucceeded"
  shows "list_all (\<lambda>e. \<exists>t. tablet_at store (tq_table_name (ts_query (snd e))) (tablet_id (tb_metadata (ts_tablet (snd e)))) = Some t \<and>
    tablet_version t = tablet_version (tb_metadata (ts_tablet (snd e)))) (ps_tablets p)"
proof -
  let ?states = "concat (map (\<lambda>p. map snd (ps_tablets p)) processes)"
  have clean: "list_all (\<lambda>e. tablet_clean (ts_tablet (snd e))) (ps_tablets p)" "ps_handler p = process_handler env"
    using resolving_step_clean [OF assms(2,3,4)] assms(1) by auto
  have total: "de_serialize (bytes_env sha256 base64) v \<noteq> None" for v
    by (simp add: bytes_env_def bytes_serialize_def)
  have steps: "list_all2 processed (ps_tablets p) (ps_tablets p')"
    by (rule kv_handler.process_step_tablets [OF total clean(2) assms(5) clean(1) assms(6,7)])
  have ops: "ops = map get_tablet_op ?states"
    using preparing_complete_ops [OF assms(9)] by (simp add: map_concat comp_def)
  then have ok: "list_all (op_ok store) ops"
    using transaction_decision(3) [OF ops assms(10)] assms(11) by simp
  have each: "op_ok store (get_tablet_op (snd e'))" if "e' \<in> set (ps_tablets p')" for e'
    using ok assms(8) that unfolding ops by (force simp: list_all_iff)
  show ?thesis
    unfolding list_all_length
  proof (intro allI impI)
    fix n assume n: "n < length (ps_tablets p)"
    then have "op_ok store (get_tablet_op (snd (ps_tablets p' ! n)))"
      using list_all2_lengthD [OF steps] by (intro each) simp
    then show "\<exists>t. tablet_at store (tq_table_name (ts_query (snd (ps_tablets p ! n))))
        (tablet_id (tb_metadata (ts_tablet (snd (ps_tablets p ! n))))) = Some t \<and>
      tablet_version t = tablet_version (tb_metadata (ts_tablet (snd (ps_tablets p ! n))))"
      by (rule accepted_op_current [OF list_all2_nthD [OF steps n]])
  qed
qed

text \<open>A process request that resolved tablet 10, in the cell of a store with a put for it.\<close>

definition demo_kv_query :: table_query where
  "demo_kv_query = table_query_create 1 ''t'' [5]"

definition demo_cell :: kv_cell where
  "demo_cell = kv_create\<lparr>cell_core := kv_core_new\<lparr>kc_tablets := [(10, demo_tablet_tracker)],
     kc_transactions := [(2, transaction_tracker_create [10] \<lparr> tt_transaction_id = 2, tt_transaction_outcome = None \<rparr>)]\<rparr>\<rparr>"

definition demo_process :: "(kv_cell, bytes) process_state" where
  "demo_process = \<lparr> ps_status = ProcResolving 0, ps_handler = process_handler demo_kv_env, ps_tablets = [] \<rparr>"

definition demo_metadata_cache :: "kv_cell metadata_cache" where
  "demo_metadata_cache = metadata_cache_create 0\<lparr>mc_results :=
     [\<lparr> rco_result = Some [(demo_kv_query, default_tablet 10)], rco_error = None \<rparr>]\<rparr>"

definition demo_loaded :: "(bytes, unit) data_cache" where
  "demo_loaded = data_cache_create 0 ()\<lparr>dc_results := ([\<lparr> rco_result = Some [(default_tablet 10, [])], rco_error = None \<rparr>], [])\<rparr>"

lemma demo_resolved: "\<exists>w. process_make_progress (bytes_env (\<lambda>b. b) (\<lambda>_. [])) 2 demo_process (demo_metadata_cache, data_cache_create 0 (), demo_cell) =
    Ok (demo_process\<lparr>ps_tablets := [(create_tablet_key (default_tablet 10), tablet_state_create demo_kv_query (default_tablet 10))],
      ps_status := ProcLoading 0\<rparr>, w)"
proof -
  obtain dc where "load_tablets [default_tablet 10] (data_cache_create 0 () :: (bytes, unit) data_cache) = Ok (dc, 0)"
    using load_tablets_effect [OF data_wf_create, of "[default_tablet 10]" 0 "()"] by (auto simp: data_cache_create_def)
  then show ?thesis
    by (simp add: process_make_progress_def demo_process_def demo_metadata_cache_def check_result_def track_resolved_def hm_insert_def)
qed

lemma demo_processed:
  "\<exists>w p. process_make_progress (bytes_env (\<lambda>b. b) (\<lambda>_. [])) 2
      (demo_process\<lparr>ps_tablets := [(create_tablet_key (default_tablet 10), tablet_state_create demo_kv_query (default_tablet 10))],
        ps_status := ProcLoading 0\<rparr>) (demo_metadata_cache, demo_loaded, demo_cell) = Ok (p, w) \<and> ps_status p = ProcStoring 0 \<and>
     list_all (op_ok demo_store) (map (\<lambda>e. get_tablet_op (snd e)) (ps_tablets p)) \<and> ps_tablets p \<noteq> []"
  by (simp add: process_make_progress_def demo_process_def demo_loaded_def check_result_def hm_get_def hm_insert_def demo_cell_def
      kv_create_def kv_core_new_def call_process_handler_def tablet_state_create_def tablet_init_def demo_kv_query_def
      table_query_create_def bts_insert_def process_handler_def handle_query_process_def demo_tablet_tracker_def tablet_get_id_def
      tablet_create_def default_tablet_def process_table_query_def tablet_get_contents_def demo_kv_env_def process_kv_request_def
      process_put_request_def process_get_request_def tablet_set_contents_def store_writes_def tablet_prepare_def
      tablet_take_updated_contents_def List.map_filter_def store_tablets_def prepare_tablet_write_def bytes_env_def bytes_serialize_def
      format_blob_uri_def data_cache_create_def store_entry_def cache_key_def hm_contains_def entry_with_store_state_def
      batch_with_store_state_def create_eventual_result_def finish_batch_def add_pending_cache_entry_def batch_is_ready_def Let_def
      get_tablet_op_def op_ok_def demo_store_def demo_table_def tablet_at_def bt_get_def)

theorem committed_tablets_current_witness:
  "\<exists>p w store' response.
     process_make_progress (bytes_env (\<lambda>b. b) (\<lambda>_. [])) 2
       (demo_process\<lparr>ps_tablets := [(create_tablet_key (default_tablet 10), tablet_state_create demo_kv_query (default_tablet 10))],
         ps_status := ProcLoading 0\<rparr>) (demo_metadata_cache, demo_loaded, demo_cell) = Ok (p, w) \<and>
     on_apply_tablets_request demo_store (map (\<lambda>e. get_tablet_op (snd e)) (ps_tablets p)) = (store', Ok response) \<and>
     tr_status response = RequestSucceeded \<and>
     (\<exists>t. tablet_at demo_store ''t'' 10 = Some t \<and> tablet_version t = 0)"
proof -
  obtain w p where step: "process_make_progress (bytes_env (\<lambda>b. b) (\<lambda>_. [])) 2
      (demo_process\<lparr>ps_tablets := [(create_tablet_key (default_tablet 10), tablet_state_create demo_kv_query (default_tablet 10))],
        ps_status := ProcLoading 0\<rparr>) (demo_metadata_cache, demo_loaded, demo_cell) = Ok (p, w)" "ps_status p = ProcStoring 0"
    "list_all (op_ok demo_store) (map (\<lambda>e. get_tablet_op (snd e)) (ps_tablets p))"
    using demo_processed by blast
  obtain w' where first: "process_make_progress (bytes_env (\<lambda>b. b) (\<lambda>_. [])) 2 demo_process (demo_metadata_cache, data_cache_create 0 (), demo_cell) =
      Ok (demo_process\<lparr>ps_tablets := [(create_tablet_key (default_tablet 10), tablet_state_create demo_kv_query (default_tablet 10))],
        ps_status := ProcLoading 0\<rparr>, w')"
    using demo_resolved by blast
  let ?processes = "[p\<lparr>ps_status := ProcCompleted\<rparr>]" and ?ops = "map (\<lambda>e. get_tablet_op (snd e)) (ps_tablets p)"
  have "list_all op_supported ?ops"
    by (simp add: list_all_iff tablet_op_supported)
  from transaction_outcome [OF this, of demo_store] obtain store' response where
    store: "on_apply_tablets_request demo_store ?ops = (store', Ok response)" "tr_status response = RequestSucceeded"
    using step(3) by auto
  have start: "ps_handler demo_process = process_handler demo_kv_env" "ps_status demo_process = ProcResolving 0" "ps_tablets demo_process = []"
    by (simp_all add: demo_process_def)
  have "preparing_complete ?processes [] = PreparingSucceeded ?ops"
    by simp
  from committed_tablets_current [OF start first _ step(1,2) _ this store]
  have "\<exists>t. tablet_at demo_store ''t'' 10 = Some t \<and> tablet_version t = 0"
    by (simp add: tablet_state_create_def tablet_create_def demo_kv_query_def default_tablet_def)
  then show ?thesis
    using step(1) store by blast
qed

section \<open>Responses\<close>

text \<open>A transaction that the coordinator of the manager has completed with success.\<close>

definition commit_succeeded :: "'p kv_manager \<Rightarrow> tablet_transaction \<Rightarrow> bool" where
  "commit_succeeded manager transaction \<longleftrightarrow>
     tt_transaction_outcome transaction = Some TransactionSucceeded \<or>
     (tt_transaction_outcome transaction = None \<and>
      hm_get (co_transactions (ma_coordinator manager)) (tt_transaction_id transaction) = Some (TxCompleted TransactionSucceeded))"

definition answered :: "'p kv_manager \<Rightarrow> transaction_tracker \<Rightarrow> kv_response \<Rightarrow> bool" where
  "answered manager tracker r \<longleftrightarrow>
     r \<in> set (xt_responses tracker) \<and> (\<exists>tx. xt_waiting_commit tracker = Some tx \<and> commit_succeeded manager tx)"

lemma check_result_effect:
  assumes "transaction_check_result tx manager = Ok (tx', manager', outcome)"
  shows "(outcome = Some TransactionSucceeded \<longrightarrow> commit_succeeded manager tx) \<and>
    (commit_succeeded manager' t \<longrightarrow> commit_succeeded manager t)"
proof (cases "tt_transaction_outcome tx")
  case None
  then obtain state where state: "hm_get (co_transactions (ma_coordinator manager)) (tt_transaction_id tx) = Some state"
    using assms by (auto simp: transaction_check_result_def check_transaction_result_def result_simps)
  then show ?thesis
    using assms None
    by (cases state) (auto simp: transaction_check_result_def check_transaction_result_def commit_succeeded_def split: if_splits)
next
  case (Some outcome')
  then show ?thesis
    using assms by (auto simp: transaction_check_result_def commit_succeeded_def)
qed

lemma maybe_finalize_effect:
  assumes "maybe_finalize_transaction tracker manager (affected, failed, responses) =
    Ok (tracker', manager', (affected', failed', responses'), completed)"
  shows "(commit_succeeded manager' t \<longrightarrow> commit_succeeded manager t) \<and>
    (r \<in> set responses' \<longrightarrow> r \<in> set responses \<or> answered manager tracker r) \<and> xt_transaction tracker' = xt_transaction tracker"
proof (cases "xt_waiting_commit tracker")
  case None
  then show ?thesis
    using assms by (simp add: maybe_finalize_transaction_def)
next
  case (Some commit)
  then obtain commit' manager1 outcome where check: "transaction_check_result commit manager = Ok (commit', manager1, outcome)"
    using assms by (auto simp: maybe_finalize_transaction_def result_simps)
  consider "outcome = None" | "outcome = Some TransactionSucceeded" | "outcome = Some TransactionFailed"
    by (cases outcome) (use transaction_outcome.exhaust in auto)
  then show ?thesis
    using assms Some check check_result_effect [OF check, of t]
    by cases (auto simp: maybe_finalize_transaction_def answered_def Let_def)
qed

lemma finalize_transactions_responses:
  "finalize_transactions transactions manager (affected, failed, responses) = Ok (transactions', manager', (affected', failed', responses'), is) \<Longrightarrow>
    r \<in> set responses' \<Longrightarrow> r \<notin> set responses \<Longrightarrow> \<exists>e\<in>set transactions. answered manager (snd e) r"
proof (induction transactions arbitrary: manager affected failed responses transactions' "is")
  case (Cons e transactions)
  obtain i tracker where e: "e = (i, tracker)"
    by (cases e)
  obtain tracker1 manager1 affected1 failed1 responses1 completed ts js where
    one: "maybe_finalize_transaction tracker manager (affected, failed, responses) = Ok (tracker1, manager1, (affected1, failed1, responses1), completed)"
    and rest: "finalize_transactions transactions manager1 (affected1, failed1, responses1) =
      Ok (ts, manager', (affected', failed', responses'), js)"
    using Cons.prems(1) by (auto simp: e result_simps)
  note effect = maybe_finalize_effect [OF one]
  show ?case
  proof (cases "r \<in> set responses1")
    case True
    then show ?thesis
      using effect Cons.prems(3) by (auto simp: e)
  next
    case False
    then show ?thesis
      using Cons.IH [OF rest Cons.prems(2)] effect by (auto simp: answered_def)
  qed
qed simp

lemma start_transaction_commits:
  assumes "start_transaction manager = (manager', tx)" "transaction_process queries handler tx manager' = Ok manager''"
    and "commit_succeeded manager'' t"
  shows "commit_succeeded manager t"
  using assms
  by (auto simp: start_transaction_def create_transaction_def transaction_process_def process_transaction_def commit_succeeded_def
      result_simps Let_def split: if_splits)

text \<open>A transaction that is not committed yet has no outcome.\<close>

definition trackers_wf :: "(nat, transaction_tracker) hmap \<Rightarrow> bool" where
  "trackers_wf transactions \<longleftrightarrow>
     list_all (\<lambda>e. case xt_transaction (snd e) of Some tx \<Rightarrow> tt_transaction_outcome tx = None | None \<Rightarrow> True) transactions"

lemma transaction_commit_effect:
  assumes "transaction_commit tx manager = Ok manager'"
  shows "(commit_succeeded manager' t \<longrightarrow> commit_succeeded manager t) \<and>
    (tt_transaction_outcome tx = None \<longrightarrow> \<not> commit_succeeded manager' tx)"
proof -
  obtain state where state: "hm_get (co_transactions (ma_coordinator manager)) (tt_transaction_id tx) = Some state"
    using assms by (auto simp: transaction_commit_def commit_transaction_def result_simps)
  then show ?thesis
    using assms
    by (cases state) (auto simp: transaction_commit_def commit_transaction_def commit_succeeded_def transaction_stash_request_def
        result_simps Let_def split: if_splits preparing_outcome.splits)
qed

lemma maybe_commit_effect:
  assumes "maybe_commit_transaction tracker manager = Ok (tracker', manager')"
    and "\<And>tx. xt_transaction tracker = Some tx \<Longrightarrow> tt_transaction_outcome tx = None"
  shows "(commit_succeeded manager' t \<longrightarrow> commit_succeeded manager t) \<and>
    (\<forall>m. (\<forall>t. commit_succeeded m t \<longrightarrow> commit_succeeded manager' t) \<longrightarrow> answered m tracker' r \<longrightarrow> answered manager tracker r) \<and>
    (\<forall>tx. xt_transaction tracker' = Some tx \<longrightarrow> tt_transaction_outcome tx = None)"
proof (cases "xt_waiting_commit tracker = None \<and> xt_transaction tracker \<noteq> None")
  case True
  then obtain tx where tx: "xt_waiting_commit tracker = None" "xt_transaction tracker = Some tx"
    by auto
  then obtain pending where pending: "has_pending_process tx manager = Ok pending"
    using assms(1) by (auto simp: maybe_commit_transaction_def result_simps)
  show ?thesis
  proof (cases pending)
    case True
    then show ?thesis
      using assms tx pending by (auto simp: maybe_commit_transaction_def answered_def)
  next
    case False
    then have commit: "transaction_commit tx manager = Ok manager'" "tracker' = tracker\<lparr>xt_transaction := None, xt_waiting_commit := Some tx\<rparr>"
      using assms(1) tx pending by (auto simp: maybe_commit_transaction_def result_simps)
    then show ?thesis
      using transaction_commit_effect [OF commit(1)] assms(2) tx by (auto simp: answered_def)
  qed
next
  case False
  then have "tracker' = tracker" "manager' = manager"
    using assms(1) by (auto simp: maybe_commit_transaction_def split: option.splits)
  then show ?thesis
    using assms(2) by (auto simp: answered_def)
qed

lemma commit_transactions_effect:
  "maybe_commit_transactions transactions manager = Ok (transactions', manager') \<Longrightarrow> trackers_wf transactions \<Longrightarrow>
    (commit_succeeded manager' t \<longrightarrow> commit_succeeded manager t) \<and> trackers_wf transactions' \<and>
    (\<forall>e'\<in>set transactions'. answered manager' (snd e') r \<longrightarrow> (\<exists>e\<in>set transactions. answered manager (snd e) r))"
proof (induction transactions arbitrary: manager transactions' t)
  case (Cons e transactions)
  obtain i tracker where e: "e = (i, tracker)"
    by (cases e)
  obtain tracker' manager1 rest where one: "maybe_commit_transaction tracker manager = Ok (tracker', manager1)"
    and rest: "maybe_commit_transactions transactions manager1 = Ok (rest, manager')" and out: "transactions' = (i, tracker') # rest"
    using Cons.prems(1) by (auto simp: e result_simps)
  have wf: "trackers_wf transactions" "\<And>tx. xt_transaction tracker = Some tx \<Longrightarrow> tt_transaction_outcome tx = None"
    using Cons.prems(2) by (auto simp: trackers_wf_def e)
  note first = maybe_commit_effect [OF one wf(2)] and IH = Cons.IH [OF rest wf(1)]
  have "answered manager' tracker' r \<Longrightarrow> answered manager tracker r"
    using first IH by blast
  moreover have "answered manager1 x r \<Longrightarrow> answered manager x r" for x
    using first by (auto simp: answered_def)
  moreover have "trackers_wf transactions'"
    using first IH by (auto simp: out trackers_wf_def split: option.splits)
  ultimately show ?case
    using first IH by (fastforce simp: out e)
qed (simp add: trackers_wf_def)

text \<open>The caches reach the client only through the handlers of the resolve requests.\<close>

lemma append_results_notification: "rv_notification (append_results rs rv) = rv_notification rv"
  unfolding append_results_def
  by (induction rs arbitrary: rv) (simp_all add: append_result_def Let_def split_beta)

lemma resolve_split_notification:
  "resolve_split n splits rv tables = Ok (rv', tables') \<Longrightarrow> rv_notification rv' = rv_notification rv"
proof (induction splits arbitrary: rv tables)
  case (Cons split splits)
  obtain query idx where split: "split = (query, idx)"
    by (cases split)
  obtain table r where step: "hm_get tables (tq_table_name query) = Some table" "try_resolve_pending_query table idx query = Ok r"
    using Cons.prems by (auto simp: split result_simps)
  show ?case
  proof (cases r)
    case None
    then obtain table' where "table_register_pending_query n idx table = Ok table'"
      using Cons.prems step by (auto simp: split result_simps)
    then show ?thesis
      using Cons.prems step None Cons.IH [of "rv\<lparr>rv_pending := hm_insert (tq_table_name query, idx) query (rv_pending rv)\<rparr>"]
      by (simp add: split)
  next
    case (Some rs)
    then show ?thesis
      using Cons.prems step Cons.IH [of "append_results rs rv" tables] by (simp add: split append_results_notification)
  qed
qed simp

text \<open>What a handler may do to the client: nothing, or one call.\<close>

definition called :: "((table_query \<times> tablet_descriptor) list \<Rightarrow> 'c \<Rightarrow> 'c run) \<Rightarrow> 'c \<Rightarrow> 'c \<Rightarrow> bool" where
  "called h c c' \<longleftrightarrow> c' = c \<or> (\<exists>rs. h rs c = Ok c')"

lemma maybe_resolve_results_called:
  assumes "maybe_resolve_results rv (cores, c) = Ok (rv', cores', c')" "rv_notification rv = NotifyHandler h"
  shows "called h c c' \<and> rv_notification rv' = NotifyHandler h"
  using assms by (auto simp: maybe_resolve_results_def notify_resolved_def called_def result_simps split: if_splits)

lemma resolve_with_handler_called:
  assumes "resolve_tablets_with_handler queries h self c = Ok (self', c')"
  shows "called h c c' \<and> mc_out_messages self' = mc_out_messages self \<and>
    (list_all (\<lambda>e. rv_notification (snd e) = NotifyHandler h) (mc_resolve_requests self) \<longrightarrow>
     list_all (\<lambda>e. rv_notification (snd e) = NotifyHandler h) (mc_resolve_requests self'))"
proof -
  let ?n = "mc_resolve_request_counter self + 1"
  obtain splits rv tables rv' cores' where steps:
    "resolve_split ?n splits \<lparr> rv_notification = NotifyHandler h, rv_pending = [], rv_results = [] \<rparr> (mc_tables self) = Ok (rv, tables)"
    "maybe_resolve_results rv (mc_results self, c) = Ok (rv', cores', c')"
    "self' = self\<lparr>mc_resolve_request_counter := ?n, mc_tables := tables,
       mc_resolve_requests := hm_insert ?n rv' (mc_resolve_requests self), mc_results := cores'\<rparr>"
    using assms
    by (auto simp: resolve_tablets_with_handler_def resolve_tablets_with_notification_def tablet_resolve_create_def result_simps Let_def)
  have "rv_notification rv = NotifyHandler h"
    using resolve_split_notification [OF steps(1)] by simp
  then show ?thesis
    using maybe_resolve_results_called [OF steps(2)] by (simp add: steps(3) hm_insert_all)
qed

lemma borrowed_resolve:
  assumes "cell_borrowed cell" "maybe_resolve_tablets env cell manager = Ok (cell', manager')"
  shows "ma_coordinator manager' = ma_coordinator manager \<and> ma_data_cache manager' = ma_data_cache manager \<and>
    ma_tablets_errors manager' = ma_tablets_errors manager \<and>
    mc_out_messages (ma_metadata_cache manager') = mc_out_messages (ma_metadata_cache manager) \<and>
    (list_all (\<lambda>e. rv_notification (snd e) = NotifyHandler resolve_handler) (mc_resolve_requests (ma_metadata_cache manager)) \<longrightarrow>
     list_all (\<lambda>e. rv_notification (snd e) = NotifyHandler resolve_handler) (mc_resolve_requests (ma_metadata_cache manager'))) \<and>
    cell_borrowed cell' \<and> kc_tablets (cell_core cell') = kc_tablets (cell_core cell) \<and>
    kc_transactions (cell_core cell') = kc_transactions (cell_core cell) \<and> kc_responses (cell_core cell') = kc_responses (cell_core cell)"
proof -
  obtain requests accessor queries where
    collect: "collect_resolve_queries env (kc_accessor (cell_core cell)) (kc_requests (cell_core cell)) = (requests, accessor, queries)"
    by (cases "collect_resolve_queries env (kc_accessor (cell_core cell)) (kc_requests (cell_core cell))")
  define cell1 where "cell1 = cell\<lparr>cell_core := (cell_core cell)\<lparr>kc_requests := requests, kc_accessor := accessor\<rparr>\<rparr>"
  show ?thesis
  proof (cases "queries = []")
    case True
    then show ?thesis
      using assms collect by (auto simp: maybe_resolve_tablets_def)
  next
    case False
    then obtain metadata where resolve: "resolve_tablets_with_handler queries resolve_handler (ma_metadata_cache manager) cell1 = Ok (metadata, cell')"
      and manager': "manager' = manager\<lparr>ma_metadata_cache := metadata\<rparr>"
      using assms(2) collect by (auto simp: maybe_resolve_tablets_def manager_resolve_def cell1_def [symmetric] result_simps Let_def)
    have "\<not> (\<exists>rs. resolve_handler rs cell1 = Ok cell')"
      using assms(1) by (simp add: resolve_handler_def cell1_def)
    then show ?thesis
      using resolve_with_handler_called [OF resolve] assms(1) by (auto simp: manager' called_def cell1_def)
  qed
qed

lemma start_transactions_effect:
  assumes "maybe_start_transaction env cell manager = Ok (cell', manager')" "trackers_wf (kc_transactions (cell_core cell))"
  shows "trackers_wf (kc_transactions (cell_core cell')) \<and> kc_responses (cell_core cell') = kc_responses (cell_core cell) \<and>
    (commit_succeeded manager' t \<longrightarrow> commit_succeeded manager t) \<and>
    (\<forall>e'\<in>set (kc_transactions (cell_core cell')). e' \<in> set (kc_transactions (cell_core cell)) \<or> xt_responses (snd e') = [])"
proof -
  obtain tablets accessor queries ids where
    collect: "collect_queries env (kc_accessor (cell_core cell)) (kc_tablets (cell_core cell)) = (tablets, accessor, queries, ids)"
    by (cases "collect_queries env (kc_accessor (cell_core cell)) (kc_tablets (cell_core cell))")
  obtain manager1 tx where start: "start_transaction manager = (manager1, tx)"
    by (cases "start_transaction manager")
  have tx: "tt_transaction_outcome tx = None"
    using start by (auto simp: start_transaction_def create_transaction_def Let_def)
  show ?thesis
  proof (cases "queries = []")
    case True
    then show ?thesis
      using assms collect by (auto simp: maybe_start_transaction_def Let_def)
  next
    case False
    then have step: "transaction_process queries (process_handler env) tx manager1 = Ok manager'"
      "cell_core cell' = (cell_core cell)\<lparr>kc_tablets := tablets, kc_accessor := accessor, kc_transactions :=
         hm_insert (tt_transaction_id tx) (transaction_tracker_create ids tx) (kc_transactions (cell_core cell))\<rparr>"
      using assms(1) collect start by (auto simp: maybe_start_transaction_def Let_def result_simps)
    have "set (kc_transactions (cell_core cell')) \<subseteq>
        insert (tt_transaction_id tx, transaction_tracker_create ids tx) (set (kc_transactions (cell_core cell)))"
      using hm_insert_set by (simp add: step(2))
    moreover have "trackers_wf (kc_transactions (cell_core cell'))"
      using assms(2) tx by (simp add: trackers_wf_def step(2) hm_insert_all transaction_tracker_create_def)
    ultimately show ?thesis
      using start_transaction_commits [OF start step(1)] by (auto simp: step(2) transaction_tracker_create_def)
  qed
qed

lemma finalize_trackers_wf:
  "finalize_transactions transactions manager acc = Ok (transactions', manager', acc', is) \<Longrightarrow> trackers_wf transactions \<Longrightarrow>
    trackers_wf transactions'"
proof (induction transactions arbitrary: manager acc transactions' "is")
  case (Cons e transactions)
  obtain i tracker where e: "e = (i, tracker)"
    by (cases e)
  obtain tracker1 manager1 acc1 completed ts js where
    one: "maybe_finalize_transaction tracker manager acc = Ok (tracker1, manager1, acc1, completed)"
    and rest: "finalize_transactions transactions manager1 acc1 = Ok (ts, manager', acc', js)" "transactions' = (i, tracker1) # ts"
    using Cons.prems(1) by (auto simp: e result_simps)
  have "xt_transaction tracker1 = xt_transaction tracker"
    using maybe_finalize_effect one by (cases acc, cases acc1) blast
  then show ?case
    using Cons.IH [OF rest(1)] Cons.prems(2) by (simp add: trackers_wf_def rest(2) e)
qed simp

lemma fold_remove_set: "set (fold hm_remove ks m) \<subseteq> set m"
proof (induction ks arbitrary: m)
  case (Cons k ks)
  have "set (hm_remove k m) \<subseteq> set m"
    by (auto simp: hm_remove_def AList.delete_eq)
  then show ?case
    using Cons by fastforce
qed simp

text \<open>
  C19. Clients see only committed results: a response that \<open>make_progress\<close> of the key value store
  makes available, and that was not there before, is a response of a transaction that waits for its
  commit and that the coordinator has completed with success, provided that no transaction has an
  outcome before its commit, which \<open>make_progress\<close> keeps.
\<close>

theorem responses_after_commit:
  assumes "kv_make_progress env cell manager = Ok (cell', manager')" "trackers_wf (kc_transactions (cell_core cell))"
  shows "trackers_wf (kc_transactions (cell_core cell')) \<and>
    set (kc_responses (cell_core cell')) \<subseteq> set (kc_responses (cell_core cell)) \<union>
      {r. \<exists>e\<in>set (kc_transactions (cell_core cell)). \<exists>tx. r \<in> set (xt_responses (snd e)) \<and> xt_waiting_commit (snd e) = Some tx \<and>
        commit_succeeded manager tx}"
proof -
  obtain cell1 manager1 cell2 manager2 transactions manager3 transactions' affected failed responses completed where steps:
    "maybe_resolve_tablets env (cell\<lparr>cell_borrowed := True\<rparr>) manager = Ok (cell1, manager1)"
    "maybe_start_transaction env cell1 manager1 = Ok (cell2, manager2)"
    "maybe_commit_transactions (kc_transactions (cell_core cell2)) manager2 = Ok (transactions, manager3)"
    "finalize_transactions transactions manager3 ([], [], kc_responses (cell_core cell2)) =
       Ok (transactions', manager', (affected, failed, responses), completed)"
    "cell_core cell' = (cell_core cell2)\<lparr>kc_transactions := fold hm_remove completed transactions',
       kc_tablets := fold complete_tablet affected (kc_tablets (cell_core cell2)), kc_responses := responses\<rparr>"
    using assms(1)
    by (auto simp: kv_make_progress_def maybe_finalize_or_retry_transactions_def result_simps split: if_splits)
  have resolve: "ma_coordinator manager1 = ma_coordinator manager" "kc_transactions (cell_core cell1) = kc_transactions (cell_core cell)"
    "kc_responses (cell_core cell1) = kc_responses (cell_core cell)"
    using borrowed_resolve [OF _ steps(1)] by simp_all
  note start = start_transactions_effect [OF steps(2), unfolded resolve, OF assms(2)]
  note commit = commit_transactions_effect [OF steps(3) start [THEN conjunct1]]
  have "trackers_wf transactions'"
    using finalize_trackers_wf [OF steps(4)] commit by blast
  then have wf: "trackers_wf (kc_transactions (cell_core cell'))"
    using fold_remove_set unfolding trackers_wf_def list_all_iff steps(5) by fastforce
  have "\<exists>e\<in>set (kc_transactions (cell_core cell)). answered manager (snd e) r"
    if r: "r \<in> set responses" "r \<notin> set (kc_responses (cell_core cell))" for r
  proof -
    obtain e where "e \<in> set transactions" "answered manager3 (snd e) r"
      using finalize_transactions_responses [OF steps(4) r(1)] r(2) start by auto
    then obtain e where e: "e \<in> set (kc_transactions (cell_core cell2))" "answered manager2 (snd e) r"
      using commit by blast
    then have "xt_responses (snd e) \<noteq> []"
      by (auto simp: answered_def)
    then have "e \<in> set (kc_transactions (cell_core cell))"
      using start e(1) by blast
    moreover have "answered manager (snd e) r"
      using e(2) start by (auto simp: answered_def commit_succeeded_def resolve(1))
    ultimately show ?thesis
      by blast
  qed
  then show ?thesis
    using wf by (fastforce simp: steps(5) answered_def)
qed

text \<open>A store with a transaction that waits for its commit, and a manager that has committed it.\<close>

definition waiting_cell :: kv_cell where
  "waiting_cell = \<lparr> cell_borrowed = False, cell_core =
     (kv_core_init \<lparr> sc_table_name = ''t'', sc_min_pending_before_resolve = 1, sc_min_pending_before_process = 1 \<rparr> kv_core_new)
       \<lparr>kc_transactions := [(2, \<lparr> xt_tablet_ids = [10], xt_requests = [KvPut 8 ''k'' [1]], xt_responses = [KvPutResponse 8 False],
          xt_transaction = None, xt_waiting_commit = Some \<lparr> tt_transaction_id = 2, tt_transaction_outcome = None \<rparr> \<rparr>)]\<rparr> \<rparr>"

definition committed_manager :: "unit kv_manager" where
  "committed_manager = manager_create (coordinator_create 0\<lparr>co_transactions := [(2, TxCompleted TransactionSucceeded)]\<rparr>)
     (metadata_cache_create 0) (data_cache_create 0 ())"

theorem responses_after_commit_witness:
  "\<exists>cell' manager'. kv_make_progress demo_kv_env waiting_cell committed_manager = Ok (cell', manager') \<and>
     kc_responses (cell_core cell') = [KvPutResponse 8 False] \<and> trackers_wf (kc_transactions (cell_core cell')) \<and>
     (\<exists>tx. commit_succeeded committed_manager tx)"
proof -
  have wf: "trackers_wf (kc_transactions (cell_core waiting_cell))"
    by (simp add: trackers_wf_def waiting_cell_def)
  have "\<exists>cell' manager'. kv_make_progress demo_kv_env waiting_cell committed_manager = Ok (cell', manager') \<and>
      kc_responses (cell_core cell') = [KvPutResponse 8 False]"
    by (simp add: kv_make_progress_def waiting_cell_def committed_manager_def maybe_resolve_tablets_def collect_resolve_queries_def
        kv_core_init_def kv_core_new_def maybe_start_transaction_def Let_def maybe_commit_transaction_def
        maybe_finalize_or_retry_transactions_def maybe_finalize_transaction_def transaction_check_result_def check_transaction_result_def
        manager_create_def hm_get_def)
  then obtain cell' manager' where step: "kv_make_progress demo_kv_env waiting_cell committed_manager = Ok (cell', manager')"
    "kc_responses (cell_core cell') = [KvPutResponse 8 False]"
    by blast
  have "kc_responses (cell_core waiting_cell) = []"
    by (simp add: waiting_cell_def kv_core_init_def kv_core_new_def)
  then show ?thesis
    using responses_after_commit [OF step(1) wf] step by auto
qed

section \<open>The actor makes no progress\<close>

abbreviation store_requests_only :: "kv_cell metadata_cache \<Rightarrow> bool" where
  "store_requests_only metadata_cache \<equiv>
     list_all (\<lambda>e. rv_notification (snd e) = NotifyHandler resolve_handler) (mc_resolve_requests metadata_cache)"

text \<open>A cell without responses, in which no transaction waits for a commit.\<close>

definition quiet_cell :: "kv_cell \<Rightarrow> bool" where
  "quiet_cell cell \<longleftrightarrow> kc_responses (cell_core cell) = [] \<and>
     list_all (\<lambda>e. xt_waiting_commit (snd e) = None) (kc_transactions (cell_core cell))"

text \<open>A coordinator whose transactions all have a process request that was never started.\<close>

definition unstarted :: "(kv_cell, bytes) transaction_state \<Rightarrow> bool" where
  "unstarted state \<longleftrightarrow> (case state of TxPreparing processes \<Rightarrow> is_active processes | _ \<Rightarrow> False)"

definition quiet_coordinator :: "(kv_cell, bytes) coordinator \<Rightarrow> bool" where
  "quiet_coordinator coordinator \<longleftrightarrow> co_out_messages coordinator = [] \<and> co_correlations coordinator = [] \<and>
     list_all (\<lambda>e. unstarted (snd e)) (co_transactions coordinator)"

definition quiet_manager :: "'p kv_manager \<Rightarrow> bool" where
  "quiet_manager manager \<longleftrightarrow> quiet_coordinator (ma_coordinator manager) \<and>
     store_requests_only (ma_metadata_cache manager) \<and> mc_out_messages (ma_metadata_cache manager) = [] \<and>
     dc_operations (ma_data_cache manager) = [] \<and> dc_out_messages (ma_data_cache manager) = [] \<and> ma_tablets_errors manager = []"

lemma handler_quiet: "called resolve_handler cell cell' \<Longrightarrow> quiet_cell cell \<Longrightarrow> quiet_cell cell'"
proof -
  have "kc_responses (handle_query_resolve rs core) = kc_responses core \<and> kc_transactions (handle_query_resolve rs core) = kc_transactions core"
    for rs core
    unfolding handle_query_resolve_def
    by (induction rs arbitrary: core) (simp_all add: resolve_one_def Let_def split_beta)
  then show "called resolve_handler cell cell' \<Longrightarrow> quiet_cell cell \<Longrightarrow> quiet_cell cell'"
    by (auto simp: called_def resolve_handler_def quiet_cell_def split: if_splits)
qed

lemma handler_unborrowed: "called resolve_handler cell cell' \<Longrightarrow> cell_borrowed cell' = cell_borrowed cell"
  by (auto simp: called_def resolve_handler_def split: if_splits)

lemma results_fresh_called:
  assumes "process_results_fresh name idx table rv (cores, c) = Ok (rv', cores', c')" "rv_notification rv = NotifyHandler h"
  shows "called h c c' \<and> rv_notification rv' = NotifyHandler h"
proof (cases "hm_get (rv_pending rv) (name, idx)")
  case None
  then show ?thesis
    using assms maybe_resolve_results_called [of rv cores c rv' cores' c' h] by (simp add: process_results_fresh_def)
next
  case (Some query)
  then obtain rs where "try_resolve_pending_query table idx query = Ok (Some rs)"
    "maybe_resolve_results (append_results rs (rv\<lparr>rv_pending := hm_remove (name, idx) (rv_pending rv)\<rparr>)) (cores, c) = Ok (rv', cores', c')"
    using assms(1) by (auto simp: process_results_fresh_def result_simps split: option.splits)
  then show ?thesis
    using maybe_resolve_results_called assms(2) by (fastforce simp: append_results_notification)
qed

lemma notify_requests_quiet:
  "notify_requests name idx table ids requests (cores, cell) = Ok (requests', cores', cell') \<Longrightarrow>
    list_all (\<lambda>e. rv_notification (snd e) = NotifyHandler resolve_handler) requests \<Longrightarrow> quiet_cell cell \<Longrightarrow>
    list_all (\<lambda>e. rv_notification (snd e) = NotifyHandler resolve_handler) requests' \<and> quiet_cell cell' \<and>
      cell_borrowed cell' = cell_borrowed cell"
proof (induction ids arbitrary: requests cores cell)
  case (Cons i ids)
  show ?case
  proof (cases "hm_get requests i")
    case None
    then show ?thesis
      using Cons by simp
  next
    case (Some rv)
    then obtain rv1 cores1 cell1 where one: "process_results_fresh name idx table rv (cores, cell) = Ok (rv1, cores1, cell1)"
      and rest: "notify_requests name idx table ids (hm_insert i rv1 requests) (cores1, cell1) = Ok (requests', cores', cell')"
      using Cons.prems(1) by (auto simp: result_simps)
    have "rv_notification rv = NotifyHandler resolve_handler"
      using Cons.prems(2) hm_get_Some_in [OF Some] by (auto simp: list_all_iff)
    note called = results_fresh_called [OF one this]
    show ?thesis
      using Cons.IH [OF rest] called Cons.prems(2,3) handler_quiet handler_unborrowed by (auto simp: hm_insert_all)
  qed
qed simp

lemma list_results_quiet:
  "process_list_results rs metadata cell = Ok (metadata', cell') \<Longrightarrow> store_requests_only metadata \<Longrightarrow> quiet_cell cell \<Longrightarrow>
    store_requests_only metadata' \<and> mc_out_messages metadata' = mc_out_messages metadata \<and> quiet_cell cell' \<and>
      cell_borrowed cell' = cell_borrowed cell"
proof (induction rs arbitrary: metadata cell)
  case (Cons r rs)
  obtain metadata1 cell1 where one: "process_list_result r metadata cell = Ok (metadata1, cell1)"
    and rest: "process_list_results rs metadata1 cell1 = Ok (metadata', cell')"
    using Cons.prems(1) by (auto simp: result_simps)
  have "store_requests_only metadata1 \<and> mc_out_messages metadata1 = mc_out_messages metadata \<and> quiet_cell cell1 \<and>
      cell_borrowed cell1 = cell_borrowed cell"
    using one Cons.prems(2,3) notify_requests_quiet
    by (fastforce simp: process_list_result_def result_simps split: option.splits tablet_op_result_kind.splits prod.splits)
  then show ?case
    using Cons.IH [OF rest] by auto
qed simp

lemma manager_message_quiet:
  assumes "manager_process_in_message env m manager cell = Ok (manager', cell')" "quiet_manager manager" "quiet_cell cell"
  shows "quiet_manager manager' \<and> quiet_cell cell' \<and> cell_borrowed cell' = cell_borrowed cell"
proof -
  have coordinator: "coordinator_process_in_message x (ma_coordinator manager) mc = Ok (ma_coordinator manager, mc)" for x mc
    using assms(2) by (simp add: quiet_manager_def quiet_coordinator_def coordinator_process_in_message_def split: coordinator_in_msg.split)
  have data: "data_process_in_message env x (ma_data_cache manager) = Ok (ma_data_cache manager)" for x
    using assms(2) by (simp add: quiet_manager_def data_process_in_message_def split: data_in_msg.split)
  show ?thesis
  proof (cases m)
    case (InExecuteOps i response)
    let ?results = "filter is_list_result (filter (\<lambda>r. tor_op_result r \<noteq> None) (tr_results response))"
    have "process_list_results ?results (ma_metadata_cache manager) cell = Ok (ma_metadata_cache manager', cell') \<and>
        ma_coordinator manager' = ma_coordinator manager \<and> ma_data_cache manager' = ma_data_cache manager \<and> ma_tablets_errors manager' = []"
      using assms(1,2) InExecuteOps coordinator
      by (cases "?results = []")
        (auto simp: manager_process_in_message_def process_in_tablets_op_response_def metadata_process_in_message_def Let_def
          quiet_manager_def hm_remove_def result_simps simp del: filter_filter split: if_splits)
    then show ?thesis
      using list_results_quiet [of ?results "ma_metadata_cache manager" cell "ma_metadata_cache manager'" cell'] assms(2,3)
      by (simp add: quiet_manager_def)
  qed (use assms data in \<open>auto simp: manager_process_in_message_def quiet_manager_def\<close>)
qed

lemma collect_start_quiet:
  assumes "maybe_start_transaction env cell manager = Ok (cell', manager')" "quiet_manager manager" "quiet_cell cell"
  shows "quiet_manager manager' \<and> quiet_cell cell'"
proof -
  obtain tablets accessor queries ids where
    collect: "collect_queries env (kc_accessor (cell_core cell)) (kc_tablets (cell_core cell)) = (tablets, accessor, queries, ids)"
    by (cases "collect_queries env (kc_accessor (cell_core cell)) (kc_tablets (cell_core cell))")
  show ?thesis
    using assms collect
    by (cases "queries = []")
      (auto simp: maybe_start_transaction_def start_transaction_def create_transaction_def transaction_process_def process_transaction_def
        init_pending_def quiet_manager_def quiet_coordinator_def quiet_cell_def Let_def result_simps hm_insert_all unstarted_def is_active_def
        transaction_tracker_create_def hm_insert_twice)
qed

lemma commit_quiet:
  "maybe_commit_transactions transactions manager = Ok (transactions', manager') \<Longrightarrow> quiet_manager manager \<Longrightarrow>
    list_all (\<lambda>e. xt_waiting_commit (snd e) = None) transactions \<Longrightarrow> transactions' = transactions \<and> manager' = manager"
proof (induction transactions arbitrary: transactions')
  case (Cons e transactions)
  obtain i tracker where e: "e = (i, tracker)"
    by (cases e)
  obtain tracker' manager1 rest where one: "maybe_commit_transaction tracker manager = Ok (tracker', manager1)"
    and rest: "maybe_commit_transactions transactions manager1 = Ok (rest, manager')" and out: "transactions' = (i, tracker') # rest"
    using Cons.prems(1) by (auto simp: e result_simps)
  have pending: "pending" if check: "has_pending_process tx manager = Ok pending" for tx pending
  proof -
    obtain state where state: "hm_get (co_transactions (ma_coordinator manager)) (tt_transaction_id tx) = Some state"
      using check by (auto simp: has_pending_process_def has_transaction_pending_process_def result_simps)
    have "unstarted state"
      using Cons.prems(2) hm_get_Some_in [OF state] by (auto simp: quiet_manager_def quiet_coordinator_def list_all_iff)
    then show ?thesis
      using check state by (cases state) (auto simp: has_pending_process_def has_transaction_pending_process_def unstarted_def)
  qed
  have "tracker' = tracker \<and> manager1 = manager"
    using one Cons.prems(3) pending
    by (auto simp: maybe_commit_transaction_def result_simps e split: option.splits if_splits)
  then show ?case
    using Cons.IH [of rest] rest out Cons.prems(2,3) by (simp add: e)
qed simp

lemma finalize_quiet:
  "list_all (\<lambda>e. xt_waiting_commit (snd e) = None) transactions \<Longrightarrow>
    finalize_transactions transactions manager acc = Ok (transactions, manager, acc, [])"
  by (induction transactions) (auto simp: maybe_finalize_transaction_def)

lemma kv_progress_quiet:
  assumes "kv_make_progress env cell manager = Ok (cell', manager')" "quiet_manager manager" "quiet_cell cell"
  shows "quiet_manager manager' \<and> quiet_cell cell'"
proof -
  obtain cell1 manager1 cell2 manager2 transactions manager3 core where steps:
    "maybe_resolve_tablets env (cell\<lparr>cell_borrowed := True\<rparr>) manager = Ok (cell1, manager1)"
    "maybe_start_transaction env cell1 manager1 = Ok (cell2, manager2)"
    "maybe_commit_transactions (kc_transactions (cell_core cell2)) manager2 = Ok (transactions, manager3)"
    "maybe_finalize_or_retry_transactions ((cell_core cell2)\<lparr>kc_transactions := transactions\<rparr>) manager3 = Ok (core, manager')"
    "cell_core cell' = core"
    using assms(1) by (auto simp: kv_make_progress_def result_simps split: if_splits)
  have "quiet_manager manager1" "quiet_cell cell1"
    using borrowed_resolve [OF _ steps(1)] assms(2,3) by (simp_all add: quiet_manager_def quiet_cell_def)
  then have quiet: "quiet_manager manager2" "quiet_cell cell2"
    using collect_start_quiet [OF steps(2)] by auto
  then have "transactions = kc_transactions (cell_core cell2)" "manager3 = manager2"
    using commit_quiet [OF steps(3)] by (auto simp: quiet_cell_def)
  then have "manager' = manager2 \<and> kc_responses core = [] \<and> kc_transactions core = kc_transactions (cell_core cell2)"
    using steps(4) quiet(2) finalize_quiet [of "kc_transactions (cell_core cell2)" manager2 "([], [], [])"]
    by (auto simp: maybe_finalize_or_retry_transactions_def quiet_cell_def)
  then show ?thesis
    using steps(5) quiet by (simp add: quiet_cell_def)
qed

section \<open>Runs of the actor\<close>

inductive cache_step :: "'p cache_env \<Rightarrow> 'p cache_actor \<Rightarrow> 'p cache_actor \<Rightarrow> bool" for env where
  "cache_on_process_command env self command = (self', Ok outcome) \<Longrightarrow> cache_step env self self'"
| "cache_on_load_snapshot self snapshot = (self', Ok ()) \<Longrightarrow> cache_step env self self'"

definition quiet_actor :: "'p cache_actor \<Rightarrow> bool" where
  "quiet_actor self \<longleftrightarrow> quiet_manager (cac_manager self) \<and> quiet_cell (cac_store self)"

lemma init_quiet:
  assumes "cache_on_init env (cache_actor_new (manager_create (coordinator_create n) (metadata_cache_create m) (data_cache_create d policy))
    kv_create) context = (self, Ok ())"
  shows "quiet_actor self"
  using assms
  by (auto simp: cache_on_init_def cache_actor_new_def manager_init_def metadata_init_def data_init_def kv_init_def kv_core_init_def
      quiet_actor_def quiet_manager_def quiet_coordinator_def quiet_cell_def manager_create_def coordinator_create_def metadata_cache_create_def
      data_cache_create_def kv_create_def kv_core_new_def Let_def result_simps split: option.splits result.splits)

lemma cache_message_quiet:
  assumes "cache_process_in_message env command message self = Ok self'" "quiet_actor self"
  shows "quiet_actor self'"
proof -
  have store: "quiet_actor (self\<lparr>cac_store := c\<rparr>)" if "kv_process_request r (cac_store self) = Ok c" for r c
    using that assms(2) by (auto simp: kv_process_request_def quiet_actor_def quiet_cell_def split: if_splits)
  have manager: "quiet_actor (self\<lparr>cac_manager := manager, cac_store := c\<rparr>)"
    if "manager_process_in_message (cen_data env) m (cac_manager self) (cac_store self) = Ok (manager, c)" for m manager c
    using manager_message_quiet [OF that] assms(2) by (simp add: quiet_actor_def)
  show ?thesis
    using assms(1) by (cases message) (auto simp: cache_process_in_message_def Let_def result_simps intro: store manager)
qed

lemma cache_progress_quiet:
  assumes "cache_progress env self = Ok (self', outcome)" "quiet_actor self"
  shows "quiet_actor self' \<and> outcome = outcome_with_commands []"
proof -
  obtain store manager where progress: "kv_make_progress (cen_kv env) (cac_store self) (cac_manager self) = Ok (store, manager)"
    using assms(1) by (auto simp: cache_progress_def result_simps)
  then have quiet: "quiet_manager manager" "quiet_cell store"
    using kv_progress_quiet [OF progress] assms(2) by (simp_all add: quiet_actor_def)
  then have "manager_take_out_messages manager = Ok (manager, [])" "coordinator_take_out_messages (ma_coordinator manager) = (ma_coordinator manager, [])"
    by (simp_all add: quiet_manager_def quiet_coordinator_def manager_take_out_messages_def coordinator_take_out_messages_def
        metadata_take_out_messages_def data_take_out_messages_def)
  then show ?thesis
    using assms progress quiet
    by (auto simp: cache_progress_def result_simps kv_take_responses_def quiet_actor_def quiet_cell_def split: if_splits)
qed

lemma cache_command_quiet:
  assumes "cache_on_process_command env self command = (self', Ok outcome)" "quiet_actor self"
  shows "quiet_actor self' \<and> outcome = outcome_with_commands []"
proof -
  obtain self1 where "quiet_actor self1" "cache_progress env self1 = Ok (self', outcome)"
    using assms cache_message_quiet
    by (fastforce simp: cache_on_process_command_def Let_def split: option.splits result.splits prod.splits)
  then show ?thesis
    using cache_progress_quiet by blast
qed

text \<open>
  C36. The cache actor never answers: after its initialisation, whatever commands it gets, in
  any order and number, and whatever the tablet store and the blob storage report to it, no command that it
  processes without an error has an outcome with a message or an event, since it never
  lets the transaction manager make progress.
\<close>

theorem cache_actor_silent:
  assumes "cache_on_init env (cache_actor_new (manager_create (coordinator_create n) (metadata_cache_create m) (data_cache_create d policy))
      kv_create) context = (self, Ok ())"
    and "(cache_step env)\<^sup>*\<^sup>* self self'" "cache_on_process_command env self' command = (self'', Ok outcome)"
  shows "co_commands outcome = [] \<and> co_event outcome = None"
proof -
  have "quiet_actor self'"
    using assms(2)
  proof (induction rule: rtranclp_induct)
    case base
    then show ?case
      using init_quiet [OF assms(1)] .
  next
    case (step a b)
    then show ?case
      using cache_command_quiet by (fastforce elim: cache_step.cases simp: cache_on_load_snapshot_def)
  qed
  then show ?thesis
    using cache_command_quiet [OF assms(3)] by (simp add: outcome_with_commands_def)
qed

text \<open>An actor for one table of two regions, which gets a put request.\<close>

definition demo_cache_env :: "unit cache_env" where
  "demo_cache_env = \<lparr> cen_kv = demo_kv_env, cen_data = bytes_env (\<lambda>b. b) (\<lambda>_. []),
     cen_decode_config = (\<lambda>_. Some \<lparr> cfg_transaction_manager = Some \<lparr> mcfg_data_cache = Some 10,
         mcfg_metadata_cache = Some [\<lparr> mtc_table_name = ''t'', mtc_table_region_size = 0x80000000 \<rparr>] \<rparr>,
       cfg_store = Some \<lparr> sc_table_name = ''t'', sc_min_pending_before_resolve = 1, sc_min_pending_before_process = 1 \<rparr> \<rparr>),
     cen_decode_in_message = (\<lambda>_. Some (Some (CacheInPutKey ''abcde'' [1]))), cen_decode_response = (\<lambda>_. None),
     cen_encode_out_message = (\<lambda>_. []), cen_encode_request = (\<lambda>_. []) \<rparr>"

definition demo_cache_actor :: "unit cache_actor" where
  "demo_cache_actor = cache_actor_new (manager_create (coordinator_create 0) (metadata_cache_create 0) (data_cache_create 0 ())) kv_create"

definition demo_context :: actor_context where
  "demo_context = \<lparr> ctx_id = 1, ctx_instant = 0, ctx_config = [], ctx_leader = True \<rparr>"

lemma demo_cache_actor_runs:
  "\<exists>self self' outcome. cache_on_init demo_cache_env demo_cache_actor demo_context = (self, Ok ()) \<and>
     cache_on_process_command demo_cache_env self (Some (command_with_header_and_payload 5 [] [])) = (self', Ok outcome)"
  by (simp add: cache_on_init_def demo_cache_env_def demo_cache_actor_def cache_actor_new_def demo_context_def kv_init_def kv_create_def
      kv_core_init_def kv_core_new_def manager_init_def manager_create_def metadata_init_def metadata_cache_create_def cached_table_create_def
      Let_def data_init_def data_cache_create_def coordinator_create_def cache_on_process_command_def cache_process_in_message_def
      kv_process_request_def append_pending_request_def cache_progress_def kv_make_progress_def maybe_resolve_tablets_def
      collect_resolve_queries_def create_table_query_def get_next_id_def manager_resolve_def resolve_tablets_with_handler_def
      resolve_tablets_with_notification_def tablet_resolve_create_def table_query_create_def bts_insert_def hm_insert_def hm_get_def
      split_and_map_query_def split_key_def seek_region.simps compute_table_region_bounds_def map_table_region_def demo_kv_env_def
      try_resolve_pending_query_def maybe_fresh_tablet_ids_def region_create_def table_register_pending_query_def
      region_register_pending_query_def maybe_resolve_results_def maybe_start_transaction_def maybe_finalize_or_retry_transactions_def
      manager_take_out_messages_def coordinator_take_out_messages_def metadata_take_out_messages_def data_take_out_messages_def
      kv_take_responses_def query_create_from_def)

theorem cache_actor_silent_witness:
  "\<exists>self self' outcome. cache_on_init demo_cache_env demo_cache_actor demo_context = (self, Ok ()) \<and>
     cache_on_process_command demo_cache_env self (Some (command_with_header_and_payload 5 [] [])) = (self', Ok outcome) \<and>
     co_commands outcome = []"
proof -
  obtain self self' outcome where init: "cache_on_init demo_cache_env demo_cache_actor demo_context = (self, Ok ())"
    and step: "cache_on_process_command demo_cache_env self (Some (command_with_header_and_payload 5 [] [])) = (self', Ok outcome)"
    using demo_cache_actor_runs by blast
  then show ?thesis
    using cache_actor_silent [OF init [unfolded demo_cache_actor_def] rtranclp.rtrancl_refl step] by blast
qed

text \<open>
  A query that needs no listing is resolved while the core is still borrowed, so that its handler panics: so
  does, for a threshold of zero, the empty query of the first \<open>make_progress\<close> without requests.
\<close>

lemma resolve_while_borrowed_panics:
  assumes "\<not> cell_borrowed cell" "rt_min_pending (kc_requests (cell_core cell)) = 0" "rt_pending (kc_requests (cell_core cell)) = []"
    and "hm_get (mc_tables (ma_metadata_cache manager)) (tac_table_name (kc_accessor (cell_core cell))) \<noteq> None"
  shows "kv_make_progress env cell manager = Panic"
  using assms
  by (auto simp: kv_make_progress_def maybe_resolve_tablets_def collect_resolve_queries_def create_table_query_def get_next_id_def
      manager_resolve_def resolve_tablets_with_handler_def resolve_tablets_with_notification_def tablet_resolve_create_def
      table_query_create_def split_and_map_query_def maybe_resolve_results_def notify_resolved_def resolve_handler_def Let_def)

end
