(* ===== verification/Endpoint.thy ===== *)
theory Endpoint
  imports Prelude
begin

text \<open>
  The messages between the untrusted launcher, the replicas and the application, as declared in
  \<open>src/proto/src/endpoint.proto\<close>. Messages of the Oak libraries are opaque: they are represented by
  their serialized form. Replica ids, terms and delivery ids are natural numbers.
\<close>

section \<open>Replicas and clusters\<close>

record snapshot_config =
  sc_snapshot_count :: nat
  sc_chunk_size :: nat
  sc_max_pending_chunks :: nat

record raft_config =
  rc_tick_period :: nat
  rc_election_tick :: nat
  rc_heartbeat_tick :: nat
  rc_max_size_per_msg :: nat
  rc_snapshot_config :: "snapshot_config option"
  rc_handshake_retry_tick :: nat

record start_replica_request =
  sr_is_leader :: bool
  sr_replica_id_hint :: nat
  sr_raft_config :: "raft_config option"
  sr_app_config :: bytes
  sr_reference_values :: "bytes option option"
  sr_is_ephemeral :: bool

datatype change_cluster_type = ChangeTypeUnspecified | ChangeTypeAddReplica | ChangeTypeRemoveReplica

datatype change_cluster_status = ChangeStatusUnspecified | ChangeStatusPending | ChangeStatusRejected

record change_cluster_request =
  cr_change_id :: nat
  cr_replica_id :: nat
  cr_change_type :: "change_cluster_type option"

record check_cluster_response =
  cc_leader_replica_id :: nat
  cc_leader_term :: nat
  cc_cluster_replica_ids :: "nat list"
  cc_has_pending_changes :: bool

section \<open>Deliveries\<close>

record deliver_system_message =
  dm_recipient_replica_id :: nat
  dm_sender_replica_id :: nat
  dm_message_contents :: bytes

record deliver_snapshot_request =
  dsr_recipient_replica_id :: nat
  dsr_sender_replica_id :: nat
  dsr_delivery_id :: nat
  dsr_payload_contents :: bytes

datatype snapshot_payload_it =
    PayloadHeader (ph_snapshot_size: nat) (ph_snapshot_metadata: bytes) (ph_chunk_contents: bytes)
  | PayloadChunk (pc_chunk_index: nat) (pc_chunk_contents: bytes)

record snapshot_payload =
  sp_snapshot_id :: nat
  sp_it :: "snapshot_payload_it option"

record deliver_snapshot_response =
  dsp_recipient_replica_id :: nat
  dsp_sender_replica_id :: nat
  dsp_delivery_id :: nat
  dsp_payload_contents :: bytes

datatype deliver_snapshot_status =
    SnapshotStatusUnspecified | SnapshotStatusAccepted | SnapshotStatusRejected | SnapshotStatusCorrupted

record snapshot_response_payload =
  rp_snapshot_id :: nat
  rp_chunk_index :: nat
  rp_status :: deliver_snapshot_status

record deliver_snapshot_failure =
  dsf_sender_replica_id :: nat
  dsf_delivery_id :: nat

datatype initiator_request = AttestRequest bytes | HandshakeRequest bytes

datatype recipient_response = AttestResponse bytes | HandshakeResponse bytes

datatype noise_message =
    InitiatorRequest "initiator_request option"
  | RecipientResponse "recipient_response option"

record secure_channel_handshake =
  sch_recipient_replica_id :: nat
  sch_sender_replica_id :: nat
  sch_encryption :: "noise_message option option"

record deliver_app_message =
  da_correlation_id :: nat
  da_message_header :: bytes
  da_message_payload :: bytes

datatype log_severity = SeverityUnspecified | SeverityInfo | SeverityWarning | SeverityError | SeverityCritical
  | SeverityDebug | SeverityTrace

record log_message =
  lm_severity :: log_severity
  lm_message :: string

section \<open>Envelopes\<close>

datatype in_message =
    InStartReplica start_replica_request
  | InStopReplica
  | InChangeCluster change_cluster_request
  | InCheckCluster
  | InDeliverSystemMessage deliver_system_message
  | InDeliverSnapshotRequest deliver_snapshot_request
  | InDeliverSnapshotResponse deliver_snapshot_response
  | InDeliverSnapshotFailure deliver_snapshot_failure
  | InGetReplicaState
  | InSecureChannelHandshake secure_channel_handshake
  | InDeliverAppMessage deliver_app_message

datatype out_message =
    OutStartReplica nat
  | OutStopReplica
  | OutLog log_message
  | OutChangeCluster nat change_cluster_status
  | OutCheckCluster check_cluster_response
  | OutDeliverSystemMessage deliver_system_message
  | OutDeliverSnapshotRequest deliver_snapshot_request
  | OutDeliverSnapshotResponse deliver_snapshot_response
  | OutGetReplicaState nat nat
  | OutSecureChannelHandshake secure_channel_handshake
  | OutDeliverAppMessage deliver_app_message

end
