(* ===== verification/RaftStorage.thy ===== *)
theory RaftStorage
  imports Prelude
begin

text \<open>
  Model of \<open>src/runtime/src/storage.rs\<close>, the in-memory storage behind the Raft library, and of the
  constructors of \<open>src/runtime/src/util.rs\<close>. The data types are those of the Raft library's
  protobuf messages. Indices and terms are natural numbers; every \<open>panic!\<close>, \<open>unwrap\<close> and slice out
  of range is \<open>Panic\<close>. The \<open>RefCell\<close> around the core is left out.

  The lemmas show that the stored log is contiguous and adjoins its snapshot, that appending and
  compaction refine operations on an abstract log (a partial function from indices to entries),
  and that pending snapshot requests are kept exactly until they are satisfied.
\<close>

section \<open>Data\<close>

datatype raft_error =
    RaftCompacted | RaftUnavailable | RaftSnapshotOutOfDate | RaftSnapshotTemporarilyUnavailable
  | RaftProposalDropped | RaftOtherError

datatype entry_type = EntryNormal | EntryConfChange | EntryConfChangeV2

record raft_entry =
  re_entry_type :: entry_type
  re_term :: nat
  re_index :: nat
  re_data :: bytes
  re_context :: bytes

record config_state =
  cs_voters :: "nat list"
  cs_learners :: "nat list"
  cs_voters_outgoing :: "nat list"
  cs_learners_next :: "nat list"
  cs_auto_leave :: bool

record snapshot_metadata =
  sm_conf_state :: "config_state option"
  sm_index :: nat
  sm_term :: nat

record raft_snapshot =
  rs_data :: bytes
  rs_metadata :: "snapshot_metadata option"

record hard_state =
  hs_term :: nat
  hs_vote :: nat
  hs_commit :: nat

datatype config_change_type = AddNode | RemoveNode | AddLearnerNode

record config_change =
  cc_change_type :: config_change_type
  cc_node_id :: nat
  cc_context :: bytes
  cc_id :: nat

record entry_id =
  ei_replica_id :: nat
  ei_entry_id :: nat

record wrapped_entry =
  we_entry_id :: "entry_id option"
  we_entry_contents :: bytes

section \<open>Utilities\<close>

definition create_raft_config_change :: "nat \<Rightarrow> config_change_type \<Rightarrow> config_change" where
  "create_raft_config_change node_id change_type =
     \<lparr> cc_change_type = change_type, cc_node_id = node_id, cc_context = [], cc_id = 0 \<rparr>"

definition get_metadata :: "raft_snapshot \<Rightarrow> (snapshot_metadata, raft_error) result" where
  "get_metadata snapshot = unwrap (rs_metadata snapshot)"

definition get_config_state :: "raft_snapshot \<Rightarrow> (config_state, raft_error) result" where
  "get_config_state snapshot = and_then (get_metadata snapshot) (\<lambda>m. unwrap (sm_conf_state m))"

definition create_raft_snapshot :: "snapshot_metadata \<Rightarrow> bytes \<Rightarrow> raft_snapshot" where
  "create_raft_snapshot metadata data = \<lparr> rs_data = data, rs_metadata = Some metadata \<rparr>"

definition create_raft_snapshot_metadata :: "nat \<Rightarrow> nat \<Rightarrow> config_state \<Rightarrow> snapshot_metadata" where
  "create_raft_snapshot_metadata index trm config_state =
     \<lparr> sm_conf_state = Some config_state, sm_index = index, sm_term = trm \<rparr>"

definition create_raft_config_state :: "nat list \<Rightarrow> config_state" where
  "create_raft_config_state voters =
     \<lparr> cs_voters = voters, cs_learners = [], cs_voters_outgoing = [], cs_learners_next = [], cs_auto_leave = False \<rparr>"

definition create_raft_entry :: "nat \<Rightarrow> nat \<Rightarrow> entry_type \<Rightarrow> bytes \<Rightarrow> raft_entry" where
  "create_raft_entry index trm entry_type data =
     \<lparr> re_entry_type = entry_type, re_term = trm, re_index = index, re_data = data, re_context = [] \<rparr>"

definition create_empty_raft_entry :: "nat \<Rightarrow> nat \<Rightarrow> raft_entry" where
  "create_empty_raft_entry index trm = create_raft_entry index trm EntryNormal []"

definition create_entry_id :: "nat \<Rightarrow> nat \<Rightarrow> entry_id" where
  "create_entry_id node_id i = \<lparr> ei_replica_id = node_id, ei_entry_id = i \<rparr>"

definition create_entry :: "entry_id \<Rightarrow> bytes \<Rightarrow> wrapped_entry" where
  "create_entry i contents = \<lparr> we_entry_id = Some i, we_entry_contents = contents \<rparr>"

definition config_state_contains_node :: "config_state \<Rightarrow> nat \<Rightarrow> bool" where
  "config_state_contains_node config_state node_id =
     list_ex (\<lambda>i. i = node_id) (cs_voters config_state @ cs_learners config_state @ cs_voters_outgoing config_state)"

section \<open>Storage\<close>

definition satisfies_snapshot_request :: "nat \<Rightarrow> config_state \<Rightarrow> nat \<Rightarrow> nat \<Rightarrow> bool" where
  "satisfies_snapshot_request snapshot_index snapshot_config_state peer_id request_index \<longleftrightarrow>
     snapshot_index \<ge> request_index \<and> config_state_contains_node snapshot_config_state peer_id"

record storage_core =
  mc_state :: hard_state
  mc_entries :: "raft_entry list"
  mc_max_snapshot_diff :: nat
  mc_snapshot :: raft_snapshot
  mc_requests :: "(nat, nat) hmap"

definition storage_new :: "nat \<Rightarrow> storage_core" where
  "storage_new max_snapshot_diff =
     \<lparr> mc_state = \<lparr> hs_term = 0, hs_vote = 0, hs_commit = 0 \<rparr>, mc_entries = [], mc_max_snapshot_diff = max_snapshot_diff,
       mc_snapshot = create_raft_snapshot (create_raft_snapshot_metadata 0 0 (create_raft_config_state [])) [],
       mc_requests = [] \<rparr>"

definition snapshot_index :: "storage_core \<Rightarrow> (nat, raft_error) result" where
  "snapshot_index s = and_then (get_metadata (mc_snapshot s)) (\<lambda>m. Ok (sm_index m))"

definition snapshot_term :: "storage_core \<Rightarrow> (nat, raft_error) result" where
  "snapshot_term s = and_then (get_metadata (mc_snapshot s)) (\<lambda>m. Ok (sm_term m))"

definition storage_config_state :: "storage_core \<Rightarrow> (config_state, raft_error) result" where
  "storage_config_state s = get_config_state (mc_snapshot s)"

definition first_entry_index :: "storage_core \<Rightarrow> (nat, raft_error) result" where
  "first_entry_index s = (case mc_entries s of
      e # _ \<Rightarrow> Ok (re_index e)
    | [] \<Rightarrow> and_then (snapshot_index s) (\<lambda>i. Ok (i + 1)))"

definition last_entry_index :: "storage_core \<Rightarrow> (nat, raft_error) result" where
  "last_entry_index s = (case mc_entries s of
      [] \<Rightarrow> snapshot_index s
    | es \<Rightarrow> Ok (re_index (last es)))"

definition set_hard_state :: "storage_core \<Rightarrow> hard_state \<Rightarrow> storage_core" where
  "set_hard_state s state = s\<lparr>mc_state := state\<rparr>"

definition append_entries :: "storage_core \<Rightarrow> raft_entry list \<Rightarrow> storage_core \<times> (unit, raft_error) result" where
  "append_entries s entries =
     (case entries of
        [] \<Rightarrow> (s, Ok ())
      | e # _ \<Rightarrow>
          lift_st s (first_entry_index s) (\<lambda>first_index.
          if first_index > re_index e then (s, Panic)
          else lift_st s (last_entry_index s) (\<lambda>last_index.
          if last_index + 1 < re_index e then (s, Panic)
          else (let overwritten = re_index e - first_index in
            if overwritten > length (mc_entries s) then (s, Panic)
            else (s\<lparr>mc_entries := take overwritten (mc_entries s) @ entries\<rparr>, Ok ())))))"

definition compact_entries :: "storage_core \<Rightarrow> nat \<Rightarrow> storage_core \<times> (unit, raft_error) result" where
  "compact_entries s compact_index =
     lift_st s (first_entry_index s) (\<lambda>first_index.
     if compact_index \<le> first_index then (s, Ok ())
     else lift_st s (last_entry_index s) (\<lambda>last_index.
     if compact_index > last_index + 1 then (s, Panic)
     else (case mc_entries s of
        [] \<Rightarrow> (s, Ok ())
      | e # _ \<Rightarrow> (let offset = compact_index - re_index e in
          if offset > length (mc_entries s) then (s, Panic)
          else (s\<lparr>mc_entries := drop offset (mc_entries s)\<rparr>, Ok ())))))"

definition set_snapshot :: "storage_core \<Rightarrow> raft_snapshot \<Rightarrow> storage_core \<times> (unit, raft_error) result" where
  "set_snapshot s snapshot =
     (let s = s\<lparr>mc_snapshot := snapshot\<rparr> in
      lift_st s (snapshot_index s) (\<lambda>index.
      lift_st s (storage_config_state s) (\<lambda>config_state.
        (s\<lparr>mc_requests := filter (\<lambda>r. \<not> satisfies_snapshot_request index config_state (fst r) (snd r)) (mc_requests s)\<rparr>,
         Ok ()))))"

definition apply_snapshot :: "storage_core \<Rightarrow> raft_snapshot \<Rightarrow> storage_core \<times> (unit, raft_error) result" where
  "apply_snapshot s snapshot =
     lift_st s (get_metadata snapshot) (\<lambda>m.
     lift_st s (first_entry_index s) (\<lambda>first_index.
     if first_index > sm_index m then (s, Err RaftSnapshotOutOfDate)
     else set_snapshot
       (s\<lparr>mc_state := (mc_state s)\<lparr>hs_commit := sm_index m, hs_term := max (hs_term (mc_state s)) (sm_term m)\<rparr>,
          mc_entries := []\<rparr>) snapshot))"

definition entry_term :: "storage_core \<Rightarrow> nat \<Rightarrow> (nat, raft_error) result" where
  "entry_term s index =
     and_then (snapshot_index s) (\<lambda>snapshot_index.
     if index = snapshot_index then snapshot_term s
     else and_then (first_entry_index s) (\<lambda>offset.
     if index < offset then Err RaftCompacted
     else and_then (last_entry_index s) (\<lambda>last_index.
     if index > last_index then Err RaftUnavailable
     else if index - offset < length (mc_entries s) then Ok (re_term (mc_entries s ! (index - offset)))
     else Panic)))"

definition create_snapshot ::
  "storage_core \<Rightarrow> nat \<Rightarrow> config_state \<Rightarrow> bytes \<Rightarrow> storage_core \<times> (unit, raft_error) result" where
  "create_snapshot s applied_index config_state snapshot_data =
     lift_st s (last_entry_index s) (\<lambda>last_index.
     if applied_index > last_index then (s, Panic)
     else lift_st s (first_entry_index s) (\<lambda>first_index.
     if first_index > applied_index then (s, Err RaftSnapshotOutOfDate)
     else lift_st s (entry_term s applied_index) (\<lambda>trm.
     try_st (set_snapshot s (create_raft_snapshot
         (create_raft_snapshot_metadata applied_index trm config_state) snapshot_data)) (\<lambda>s _.
       compact_entries s applied_index))))"

definition try_satisfy_request ::
  "storage_core \<Rightarrow> nat \<Rightarrow> nat \<Rightarrow> storage_core \<times> (raft_snapshot option, raft_error) result" where
  "try_satisfy_request s peer_id request_index =
     lift_st s (snapshot_index s) (\<lambda>index.
     lift_st s (storage_config_state s) (\<lambda>config_state.
     if satisfies_snapshot_request index config_state peer_id request_index
     then (s, Ok (Some (mc_snapshot s)))
     else (s\<lparr>mc_requests := hm_insert peer_id request_index (mc_requests s)\<rparr>, Ok None)))"

definition should_snapshot :: "storage_core \<Rightarrow> nat \<Rightarrow> config_state \<Rightarrow> (bool, raft_error) result" where
  "should_snapshot s applied_index config_state =
     and_then (snapshot_index s) (\<lambda>index.
     if index + mc_max_snapshot_diff s < applied_index then Ok True
     else Ok (list_ex (\<lambda>r. satisfies_snapshot_request applied_index config_state (fst r) (snd r)) (mc_requests s)))"

definition initial_state :: "storage_core \<Rightarrow> (hard_state \<times> config_state, raft_error) result" where
  "initial_state s = and_then (storage_config_state s) (\<lambda>config_state. Ok (mc_state s, config_state))"

text \<open>The library function that limits a list of entries by size is the parameter \<open>limit_size\<close>.\<close>

definition storage_entries :: "(raft_entry list \<Rightarrow> nat option \<Rightarrow> raft_entry list) \<Rightarrow> storage_core \<Rightarrow> nat \<Rightarrow> nat \<Rightarrow> nat option
    \<Rightarrow> (raft_entry list, raft_error) result" where
  "storage_entries limit_size s low_index high_index entries_max_size =
     (if mc_entries s = [] then Err RaftUnavailable
      else and_then (first_entry_index s) (\<lambda>offset.
      if low_index < offset then Err RaftCompacted
      else and_then (last_entry_index s) (\<lambda>last_index.
      if high_index > last_index + 1 then Panic
      else if high_index < low_index \<or> high_index - offset > length (mc_entries s) then Panic
      else Ok (limit_size (drop (low_index - offset) (take (high_index - offset) (mc_entries s))) entries_max_size))))"

definition storage_snapshot :: "storage_core \<Rightarrow> nat \<Rightarrow> nat \<Rightarrow> storage_core \<times> (raft_snapshot, raft_error) result" where
  "storage_snapshot s request_index peer_id =
     try_st (try_satisfy_request s peer_id request_index) (\<lambda>s r.
       (s, ok_or RaftSnapshotTemporarilyUnavailable r))"

definition latest_snapshot_size :: "storage_core \<Rightarrow> nat" where
  "latest_snapshot_size s = length (rs_data (mc_snapshot s))"

section \<open>Specification\<close>

text \<open>
  Entries with consecutive indices, the indices of a well-formed storage, and the abstract log.
\<close>

fun consecutive :: "nat \<Rightarrow> raft_entry list \<Rightarrow> bool" where
  "consecutive i [] \<longleftrightarrow> True"
| "consecutive i (e # es) \<longleftrightarrow> re_index e = i \<and> consecutive (Suc i) es"

definition snap_metadata :: "storage_core \<Rightarrow> snapshot_metadata" where
  "snap_metadata s = the (rs_metadata (mc_snapshot s))"

definition first_idx :: "storage_core \<Rightarrow> nat" where
  "first_idx s = (if mc_entries s = [] then sm_index (snap_metadata s) + 1 else re_index (hd (mc_entries s)))"

definition next_idx :: "storage_core \<Rightarrow> nat" where
  "next_idx s = first_idx s + length (mc_entries s)"

definition log_at :: "storage_core \<Rightarrow> nat \<Rightarrow> raft_entry option" where
  "log_at s i = (if first_idx s \<le> i \<and> i < next_idx s then Some (mc_entries s ! (i - first_idx s)) else None)"

definition complete_snapshot :: "raft_snapshot \<Rightarrow> bool" where
  "complete_snapshot snapshot \<longleftrightarrow> (case rs_metadata snapshot of None \<Rightarrow> False | Some m \<Rightarrow> sm_conf_state m \<noteq> None)"

definition unsatisfied :: "storage_core \<Rightarrow> nat \<times> nat \<Rightarrow> bool" where
  "unsatisfied s r \<longleftrightarrow>
     \<not> satisfies_snapshot_request (sm_index (snap_metadata s)) (the (sm_conf_state (snap_metadata s))) (fst r) (snd r)"

definition storage_wf :: "storage_core \<Rightarrow> bool" where
  "storage_wf s \<longleftrightarrow> complete_snapshot (mc_snapshot s) \<and> consecutive (first_idx s) (mc_entries s) \<and>
     sm_index (snap_metadata s) \<le> first_idx s \<and> first_idx s \<le> sm_index (snap_metadata s) + 1 \<and>
     hm_wf (mc_requests s) \<and> list_all (unsatisfied s) (mc_requests s)"

text \<open>
  The states that the Raft library can bring the storage into: entries are appended with
  consecutive indices, and installed snapshots have their metadata.
\<close>

inductive storage_reachable :: "storage_core \<Rightarrow> bool" where
  start: "storage_reachable (storage_new d)"
| hard_state: "storage_reachable s \<Longrightarrow> storage_reachable (set_hard_state s h)"
| append: "storage_reachable s \<Longrightarrow> consecutive i es \<Longrightarrow> append_entries s es = (t, Ok ()) \<Longrightarrow> storage_reachable t"
| install: "storage_reachable s \<Longrightarrow> complete_snapshot snapshot \<Longrightarrow> apply_snapshot s snapshot = (t, r) \<Longrightarrow> storage_reachable t"
| snapshot: "storage_reachable s \<Longrightarrow> create_snapshot s i config_state data = (t, r) \<Longrightarrow> storage_reachable t"
| request: "storage_reachable s \<Longrightarrow> storage_snapshot s i peer = (t, r) \<Longrightarrow> storage_reachable t"

text \<open>A concrete storage for the witnesses: snapshot at 3, entries 4, 5 and 6.\<close>

definition demo_storage :: storage_core where
  "demo_storage = (storage_new 10)\<lparr>
     mc_snapshot := create_raft_snapshot (create_raft_snapshot_metadata 3 1 (create_raft_config_state [1, 2])) [9],
     mc_entries := [create_empty_raft_entry 4 1, create_empty_raft_entry 5 1, create_empty_raft_entry 6 2],
     mc_requests := [(2, 5)]\<rparr>"

section \<open>Indices\<close>

lemma consecutive_nth: "consecutive i es \<Longrightarrow> k < length es \<Longrightarrow> re_index (es ! k) = i + k"
  by (induction es arbitrary: i k) (auto simp: nth_Cons split: nat.split)

lemma consecutive_append: "consecutive i (es @ fs) \<longleftrightarrow> consecutive i es \<and> consecutive (i + length es) fs"
  by (induction es arbitrary: i) auto

lemma consecutive_take_drop: "consecutive i es \<Longrightarrow> consecutive i (take n es) \<and> consecutive (i + min n (length es)) (drop n es)"
  using consecutive_append [of i "take n es" "drop n es"] by (simp add: min.commute)

lemma wf_metadata:
  assumes "storage_wf s"
  shows "get_metadata (mc_snapshot s) = Ok (snap_metadata s)"
    and "snapshot_index s = Ok (sm_index (snap_metadata s))"
    and "snapshot_term s = Ok (sm_term (snap_metadata s))"
    and "storage_config_state s = Ok (the (sm_conf_state (snap_metadata s)))"
  using assms
  by (auto simp: storage_wf_def complete_snapshot_def snap_metadata_def get_metadata_def snapshot_index_def snapshot_term_def
      storage_config_state_def get_config_state_def split: option.splits)

lemma wf_first: "storage_wf s \<Longrightarrow> first_entry_index s = Ok (first_idx s)"
  by (simp add: first_entry_index_def first_idx_def wf_metadata split: list.split)

lemma wf_last: "storage_wf s \<Longrightarrow> last_entry_index s = Ok (next_idx s - 1)"
proof (cases "mc_entries s = []")
  case False
  assume "storage_wf s"
  then have "re_index (last (mc_entries s)) = next_idx s - 1"
    using False consecutive_nth [of "first_idx s" "mc_entries s" "length (mc_entries s) - 1"]
    by (cases "length (mc_entries s)") (simp_all add: storage_wf_def last_conv_nth next_idx_def)
  then show ?thesis
    using False by (cases "mc_entries s") (simp_all add: last_entry_index_def)
qed (simp add: last_entry_index_def wf_metadata next_idx_def first_idx_def)

lemmas wf_reads = wf_metadata wf_first wf_last

lemma next_idx_pos: "storage_wf s \<Longrightarrow> sm_index (snap_metadata s) < next_idx s"
  by (cases "mc_entries s") (auto simp: storage_wf_def next_idx_def first_idx_def)

lemma storage_new_wf: "storage_wf (storage_new d)"
  by (simp add: storage_wf_def storage_new_def complete_snapshot_def create_raft_snapshot_def create_raft_snapshot_metadata_def
      first_idx_def snap_metadata_def hm_wf_def)

lemma wf_entry_term:
  assumes "storage_wf s"
  shows "entry_term s i =
    (if i = sm_index (snap_metadata s) then Ok (sm_term (snap_metadata s))
     else if i < first_idx s then Err RaftCompacted
     else case log_at s i of Some e \<Rightarrow> Ok (re_term e) | None \<Rightarrow> Err RaftUnavailable)"
  using assms next_idx_pos [OF assms] by (auto simp: entry_term_def wf_reads log_at_def next_idx_def)

section \<open>Updates\<close>

lemma set_hard_state_wf: "storage_wf s \<Longrightarrow> storage_wf (set_hard_state s h)"
proof -
  have "first_idx (s\<lparr>mc_state := h\<rparr>) = first_idx s" "snap_metadata (s\<lparr>mc_state := h\<rparr>) = snap_metadata s"
    "unsatisfied (s\<lparr>mc_state := h\<rparr>) = unsatisfied s"
    by (simp_all add: first_idx_def snap_metadata_def unsatisfied_def fun_eq_iff)
  then show "storage_wf s \<Longrightarrow> storage_wf (set_hard_state s h)"
    by (simp add: storage_wf_def set_hard_state_def)
qed

lemma append_entries_effect:
  assumes "storage_wf s" "consecutive i es" "es \<noteq> []"
  shows "append_entries s es =
    (if first_idx s \<le> i \<and> i \<le> next_idx s
     then (s\<lparr>mc_entries := take (i - first_idx s) (mc_entries s) @ es\<rparr>, Ok ()) else (s, Panic))"
proof -
  obtain e es' where es: "es = e # es'" "re_index e = i"
    using assms(2,3) by (cases es) auto
  then show ?thesis
    using next_idx_pos [OF assms(1)] by (auto simp: append_entries_def wf_reads assms(1) next_idx_def Let_def)
qed

lemma append_entries_log:
  assumes "storage_wf s" "consecutive i es" "es \<noteq> []" "first_idx s \<le> i" "i \<le> next_idx s"
    and t: "t = s\<lparr>mc_entries := take (i - first_idx s) (mc_entries s) @ es\<rparr>"
  shows "storage_wf t" "first_idx t = first_idx s" "next_idx t = i + length es"
    "log_at t k = (if k < i then log_at s k else if k < i + length es then Some (es ! (k - i)) else None)"
proof -
  have len: "min (length (mc_entries s)) (i - first_idx s) = i - first_idx s"
    using assms(5) by (simp add: next_idx_def)
  have entries_t: "mc_entries t = take (i - first_idx s) (mc_entries s) @ es"
    by (simp add: t)
  show first: "first_idx t = first_idx s"
  proof (cases "i = first_idx s")
    case True
    then show ?thesis
      using assms(2,3) by (cases es) (simp_all add: first_idx_def t)
  next
    case False
    then have "mc_entries s \<noteq> []" "i - first_idx s > 0"
      using assms(4,5) by (auto simp: next_idx_def)
    then show ?thesis
      by (simp add: first_idx_def t hd_append)
  qed
  show next_t: "next_idx t = i + length es"
    using len assms(4) by (simp add: next_idx_def first entries_t)
  have snap: "snap_metadata t = snap_metadata s" "unsatisfied t = unsatisfied s"
    by (simp_all add: t snap_metadata_def unsatisfied_def fun_eq_iff)
  have "consecutive (first_idx s) (mc_entries t)"
    using assms(1,2,4) len consecutive_take_drop [of "first_idx s" "mc_entries s"]
    by (simp add: entries_t consecutive_append storage_wf_def)
  then show "storage_wf t"
    using assms(1) by (simp add: storage_wf_def first snap) (simp add: t)
  show "log_at t k = (if k < i then log_at s k else if k < i + length es then Some (es ! (k - i)) else None)"
    using assms(4,5) by (auto simp: log_at_def first next_t entries_t nth_append len next_idx_def)
qed

lemma set_snapshot_effect:
  assumes "rs_metadata snapshot = Some m" "sm_conf_state m = Some cs"
  shows "set_snapshot s snapshot = (s\<lparr>mc_snapshot := snapshot,
      mc_requests := filter (\<lambda>r. \<not> satisfies_snapshot_request (sm_index m) cs (fst r) (snd r)) (mc_requests s)\<rparr>, Ok ())"
  using assms by (simp add: set_snapshot_def snapshot_index_def storage_config_state_def get_config_state_def get_metadata_def)

lemma hm_wf_filter: "hm_wf m \<Longrightarrow> hm_wf (filter P m)"
  by (simp add: hm_wf_def distinct_map_filter)

lemma apply_snapshot_effect:
  assumes "storage_wf s" "rs_metadata snapshot = Some m" "sm_conf_state m = Some cs"
  shows "apply_snapshot s snapshot =
    (if sm_index m < first_idx s then (s, Err RaftSnapshotOutOfDate)
     else (s\<lparr>mc_state := (mc_state s)\<lparr>hs_commit := sm_index m, hs_term := max (hs_term (mc_state s)) (sm_term m)\<rparr>,
         mc_entries := [], mc_snapshot := snapshot,
         mc_requests := filter (\<lambda>r. \<not> satisfies_snapshot_request (sm_index m) cs (fst r) (snd r)) (mc_requests s)\<rparr>, Ok ()))"
  by (simp add: apply_snapshot_def wf_first [OF assms(1)] set_snapshot_effect [OF assms(2,3)] get_metadata_def assms(2))

lemma apply_snapshot_wf:
  assumes "storage_wf s" "complete_snapshot snapshot" "apply_snapshot s snapshot = (t, r)"
  shows "storage_wf t"
proof -
  obtain m cs where "rs_metadata snapshot = Some m" "sm_conf_state m = Some cs"
    using assms(2) by (auto simp: complete_snapshot_def split: option.splits)
  then show ?thesis
    using assms apply_snapshot_effect [OF assms(1), of snapshot m cs]
    by (auto simp: storage_wf_def first_idx_def snap_metadata_def unsatisfied_def hm_wf_filter list_all_iff split: if_splits)
qed

text \<open>Taking a snapshot compacts the log up to, and not including, the entry of the snapshot.\<close>

lemma create_snapshot_effect:
  assumes "storage_wf s" "first_idx s \<le> i" "i < next_idx s"
    and t: "t = s\<lparr>mc_entries := drop (i - first_idx s) (mc_entries s),
         mc_snapshot := create_raft_snapshot (create_raft_snapshot_metadata i
           (if i = sm_index (snap_metadata s) then sm_term (snap_metadata s) else re_term (the (log_at s i))) config_state) data,
         mc_requests := filter (\<lambda>r. \<not> satisfies_snapshot_request i config_state (fst r) (snd r)) (mc_requests s)\<rparr>"
  shows "create_snapshot s i config_state data = (t, Ok ())"
proof -
  have entries: "mc_entries s \<noteq> []"
    using assms(2,3) by (auto simp: next_idx_def)
  let ?trm = "if i = sm_index (snap_metadata s) then sm_term (snap_metadata s) else re_term (the (log_at s i))"
  have trm: "entry_term s i = Ok ?trm"
    using assms(2,3) by (simp add: wf_entry_term [OF assms(1)] log_at_def)
  define u where "u = t\<lparr>mc_entries := mc_entries s\<rparr>"
  have set: "set_snapshot s (create_raft_snapshot (create_raft_snapshot_metadata i ?trm config_state) data) = (u, Ok ())"
    by (subst set_snapshot_effect [where m = "create_raft_snapshot_metadata i ?trm config_state" and cs = config_state])
      (simp_all add: create_raft_snapshot_def create_raft_snapshot_metadata_def u_def t)
  have idx: "first_entry_index u = Ok (first_idx s)" "last_entry_index u = Ok (next_idx s - 1)"
    using entries wf_first [OF assms(1)] wf_last [OF assms(1)]
    by (cases "mc_entries s"; simp add: first_entry_index_def last_entry_index_def u_def)+
  have first: "re_index (hd (mc_entries s)) = first_idx s"
    using entries by (simp add: first_idx_def)
  have u: "mc_entries u = mc_entries s" and t_u: "t = u\<lparr>mc_entries := drop (i - first_idx s) (mc_entries u)\<rparr>"
    by (simp_all add: u_def t)
  have "compact_entries u i = (t, Ok ())"
    unfolding t_u using entries first assms(2,3)
    by (cases "mc_entries u") (auto simp: compact_entries_def idx next_idx_def u Let_def)
  then show ?thesis
    using assms(2,3) set trm by (simp add: create_snapshot_def wf_reads [OF assms(1)])
qed

lemma create_snapshot_log:
  assumes "storage_wf s" "first_idx s \<le> i" "i < next_idx s" "create_snapshot s i config_state data = (t, r)"
  shows "storage_wf t" "first_idx t = i" "next_idx t = next_idx s" "log_at t k = (if i \<le> k then log_at s k else None)"
proof -
  have t: "t = s\<lparr>mc_entries := drop (i - first_idx s) (mc_entries s),
         mc_snapshot := create_raft_snapshot (create_raft_snapshot_metadata i
           (if i = sm_index (snap_metadata s) then sm_term (snap_metadata s) else re_term (the (log_at s i))) config_state) data,
         mc_requests := filter (\<lambda>r. \<not> satisfies_snapshot_request i config_state (fst r) (snd r)) (mc_requests s)\<rparr>"
    using create_snapshot_effect [OF assms(1-3) refl, of config_state data] assms(4) by simp
  have entries_t: "mc_entries t = drop (i - first_idx s) (mc_entries s)"
    by (simp add: t)
  have snap: "snap_metadata t = create_raft_snapshot_metadata i
      (if i = sm_index (snap_metadata s) then sm_term (snap_metadata s) else re_term (the (log_at s i))) config_state"
    by (simp add: t snap_metadata_def create_raft_snapshot_def)
  have cons: "consecutive i (mc_entries t)"
    using assms(1-3) consecutive_take_drop [of "first_idx s" "mc_entries s" "i - first_idx s"]
    by (simp add: t storage_wf_def next_idx_def)
  have "mc_entries t \<noteq> []"
    using assms(2,3) by (simp add: t next_idx_def)
  then show first: "first_idx t = i"
    using cons by (cases "mc_entries t") (simp_all add: first_idx_def)
  show next_t: "next_idx t = next_idx s"
    using assms(2,3) by (simp add: next_idx_def first entries_t)
  show "log_at t k = (if i \<le> k then log_at s k else None)"
    using assms(2,3) by (auto simp: log_at_def first next_t entries_t next_idx_def)
  show "storage_wf t"
    using assms(1) cons
    by (simp add: storage_wf_def first snap create_raft_snapshot_metadata_def)
      (simp add: t complete_snapshot_def create_raft_snapshot_def create_raft_snapshot_metadata_def hm_wf_filter list_all_iff
        unsatisfied_def snap_metadata_def)
qed

lemma create_snapshot_wf:
  assumes "storage_wf s" "create_snapshot s i config_state data = (t, r)"
  shows "storage_wf t"
proof (cases "first_idx s \<le> i \<and> i < next_idx s")
  case True
  then show ?thesis
    using create_snapshot_log(1) assms by blast
next
  case False
  then have "t = s"
    using assms next_idx_pos [OF assms(1)] by (auto simp: create_snapshot_def wf_reads split: if_splits)
  then show ?thesis
    using assms(1) by simp
qed

lemma storage_snapshot_effect:
  assumes "storage_wf s"
  shows "storage_snapshot s i peer =
    (if unsatisfied s (peer, i)
     then (s\<lparr>mc_requests := hm_insert peer i (mc_requests s)\<rparr>, Err RaftSnapshotTemporarilyUnavailable)
     else (s, Ok (mc_snapshot s)))"
  by (simp add: storage_snapshot_def try_satisfy_request_def wf_metadata [OF assms] unsatisfied_def)

lemma request_wf:
  assumes "storage_wf s" "unsatisfied s (peer, i)"
  shows "storage_wf (s\<lparr>mc_requests := hm_insert peer i (mc_requests s)\<rparr>)"
proof -
  let ?t = "s\<lparr>mc_requests := hm_insert peer i (mc_requests s)\<rparr>"
  have same: "first_idx ?t = first_idx s" "snap_metadata ?t = snap_metadata s" "unsatisfied ?t = unsatisfied s"
    by (simp_all add: first_idx_def snap_metadata_def unsatisfied_def fun_eq_iff)
  have "set (hm_insert peer i (mc_requests s)) \<subseteq> insert (peer, i) (set (mc_requests s))"
    by (rule hm_insert_set)
  then have "list_all (unsatisfied s) (hm_insert peer i (mc_requests s))"
    using assms by (auto simp: storage_wf_def list_all_iff)
  then show ?thesis
    using assms(1) hm.wf_put [of "mc_requests s"] by (simp add: storage_wf_def same)
qed

lemma storage_reachable_wf: "storage_reachable s \<Longrightarrow> storage_wf s"
proof (induction rule: storage_reachable.induct)
  case (append s i es t)
  show ?case
  proof (cases "es = []")
    case False
    then show ?thesis
      using append append_entries_effect [of s i es] append_entries_log(1) [of s i es t] by (auto split: if_splits)
  qed (use append in \<open>simp add: append_entries_def\<close>)
next
  case (request s i peer t r)
  then show ?case
    using request_wf [of s peer i] by (auto simp: storage_snapshot_effect split: if_splits)
qed (auto intro: storage_new_wf set_hard_state_wf apply_snapshot_wf create_snapshot_wf)

lemma wf_entries_slice:
  assumes "storage_wf s" "first_idx s \<le> lo" "lo < hi" "hi \<le> next_idx s"
  shows "storage_entries limit_size s lo hi max_size = Ok (limit_size (map (\<lambda>i. the (log_at s i)) [lo..<hi]) max_size)"
proof -
  have entries: "mc_entries s \<noteq> []" and hi: "hi - first_idx s \<le> length (mc_entries s)"
    using assms(2-4) by (auto simp: next_idx_def)
  have "drop (lo - first_idx s) (take (hi - first_idx s) (mc_entries s)) = map (\<lambda>i. the (log_at s i)) [lo..<hi]"
    using assms(2-4) hi by (intro nth_equalityI) (auto simp: log_at_def)
  then show ?thesis
    using assms entries hi by (simp add: storage_entries_def wf_reads not_less)
qed

lemma demo_storage_wf: "storage_wf demo_storage"
  by (simp add: storage_wf_def demo_storage_def storage_new_def complete_snapshot_def create_raft_snapshot_def
      create_raft_snapshot_metadata_def first_idx_def snap_metadata_def hm_wf_def create_empty_raft_entry_def
      create_raft_entry_def unsatisfied_def satisfies_snapshot_request_def)

lemma demo_storage_idx: "first_idx demo_storage = 4" "next_idx demo_storage = 7" "sm_index (snap_metadata demo_storage) = 3"
  by (simp_all add: next_idx_def first_idx_def demo_storage_def create_empty_raft_entry_def create_raft_entry_def
      snap_metadata_def create_raft_snapshot_def create_raft_snapshot_metadata_def)

section \<open>Properties\<close>

text \<open>
  C30. Appending refines the abstract log: entries with consecutive indices that start inside the
  log or right behind it replace everything from their first index on, and the storage stays well
  formed; entries that would overwrite compacted ones or leave a gap make the call panic.
\<close>

theorem append_entries_refines:
  assumes "storage_wf s" "consecutive i es" "es \<noteq> []"
  shows "if first_idx s \<le> i \<and> i \<le> next_idx s
    then \<exists>t. append_entries s es = (t, Ok ()) \<and> storage_wf t \<and> snap_metadata t = snap_metadata s \<and>
      log_at t = (\<lambda>k. if k < i then log_at s k else if k < i + length es then Some (es ! (k - i)) else None)
    else append_entries s es = (s, Panic)"
  using append_entries_effect [OF assms] append_entries_log [OF assms _ _ refl]
  by (auto simp: fun_eq_iff snap_metadata_def)

theorem append_entries_refines_witness:
  "\<exists>t. append_entries demo_storage [create_empty_raft_entry 5 3] = (t, Ok ()) \<and> storage_wf t \<and>
    map_option re_term (log_at t 5) = Some 3 \<and> log_at t 6 = None"
proof -
  have "consecutive 5 [create_empty_raft_entry 5 3]"
    by (simp add: create_empty_raft_entry_def create_raft_entry_def)
  from append_entries_refines [OF demo_storage_wf this] show ?thesis
    by (auto simp: demo_storage_idx) (simp add: create_empty_raft_entry_def create_raft_entry_def)
qed

text \<open>
  Taking a snapshot at an index of the log succeeds, keeps the log from that index on and
  drops the rest, records the term of the entry, and answers every pending request that the new
  snapshot satisfies; the other requests stay pending.
\<close>

theorem create_snapshot_compacts:
  assumes "storage_wf s" "first_idx s \<le> i" "i < next_idx s"
  shows "\<exists>t. create_snapshot s i config_state data = (t, Ok ()) \<and> storage_wf t \<and>
    rs_data (mc_snapshot t) = data \<and> sm_index (snap_metadata t) = i \<and> sm_conf_state (snap_metadata t) = Some config_state \<and>
    entry_term t i = entry_term s i \<and>
    log_at t = (\<lambda>k. if i \<le> k then log_at s k else None) \<and>
    mc_requests t = filter (unsatisfied t) (mc_requests s)"
proof -
  obtain t where t: "create_snapshot s i config_state data = (t, Ok ())"
    using create_snapshot_effect [OF assms refl] by blast
  note log = create_snapshot_log [OF assms t]
  have eq: "t = s\<lparr>mc_entries := drop (i - first_idx s) (mc_entries s),
         mc_snapshot := create_raft_snapshot (create_raft_snapshot_metadata i
           (if i = sm_index (snap_metadata s) then sm_term (snap_metadata s) else re_term (the (log_at s i))) config_state) data,
         mc_requests := filter (\<lambda>r. \<not> satisfies_snapshot_request i config_state (fst r) (snd r)) (mc_requests s)\<rparr>"
    using create_snapshot_effect [OF assms refl, of config_state data] t by simp
  have snap: "snap_metadata t = create_raft_snapshot_metadata i
      (if i = sm_index (snap_metadata s) then sm_term (snap_metadata s) else re_term (the (log_at s i))) config_state"
    by (simp add: eq snap_metadata_def create_raft_snapshot_def)
  have "entry_term t i = entry_term s i"
    using assms(2,3) by (simp add: wf_entry_term log(1) assms(1) snap create_raft_snapshot_metadata_def log_at_def)
  moreover have "mc_requests t = filter (unsatisfied t) (mc_requests s)"
    by (simp add: unsatisfied_def [abs_def] snap create_raft_snapshot_metadata_def) (simp add: eq)
  moreover have "rs_data (mc_snapshot t) = data"
    by (simp add: eq create_raft_snapshot_def)
  ultimately show ?thesis
    using t log by (simp add: snap create_raft_snapshot_metadata_def fun_eq_iff)
qed

theorem create_snapshot_compacts_witness:
  "\<exists>t. create_snapshot demo_storage 5 (create_raft_config_state [1, 2]) [8] = (t, Ok ()) \<and>
    entry_term t 5 = entry_term demo_storage 5 \<and> log_at t 4 = None \<and> mc_requests t = []"
proof -
  obtain t where t: "create_snapshot demo_storage 5 (create_raft_config_state [1, 2]) [8] = (t, Ok ())"
    "entry_term t 5 = entry_term demo_storage 5" "log_at t = (\<lambda>k. if 5 \<le> k then log_at demo_storage k else None)"
    "mc_requests t = filter (unsatisfied t) (mc_requests demo_storage)" "sm_index (snap_metadata t) = 5"
    "sm_conf_state (snap_metadata t) = Some (create_raft_config_state [1, 2])"
    using create_snapshot_compacts [OF demo_storage_wf, of 5 "create_raft_config_state [1, 2]" "[8]"]
    by (auto simp: demo_storage_idx)
  have "\<not> unsatisfied t (2, 5)"
    by (simp add: unsatisfied_def t(5,6) satisfies_snapshot_request_def config_state_contains_node_def create_raft_config_state_def)
  then show ?thesis
    using t by (auto simp: demo_storage_def)
qed

text \<open>
  C29. The contract with the Raft library holds in every reachable state: the log adjoins the
  snapshot, the term of exactly the indices from the snapshot to the last entry is known, reading
  a range of the log returns the entries of these indices, and every pending snapshot request is
  one the current snapshot does not satisfy.
\<close>

theorem storage_contract:
  assumes "storage_reachable s"
  shows "\<exists>snap first_index last_index. snapshot_index s = Ok snap \<and> first_entry_index s = Ok first_index \<and>
    last_entry_index s = Ok last_index \<and>
    snap \<le> first_index \<and> first_index \<le> snap + 1 \<and> snap \<le> last_index \<and>
    (\<forall>i. is_ok (entry_term s i) = (snap \<le> i \<and> i \<le> last_index)) \<and>
    (\<forall>lo hi. first_index \<le> lo \<and> lo < hi \<and> hi \<le> last_index + 1 \<longrightarrow>
      (\<exists>es. storage_entries (\<lambda>es _. es) s lo hi None = Ok es \<and> map re_index es = [lo..<hi])) \<and>
    list_all (unsatisfied s) (mc_requests s)"
proof -
  have wf: "storage_wf s"
    using assms by (rule storage_reachable_wf)
  have bounds: "sm_index (snap_metadata s) \<le> first_idx s" "first_idx s \<le> sm_index (snap_metadata s) + 1"
    "sm_index (snap_metadata s) < next_idx s"
    using wf next_idx_pos [OF wf] by (auto simp: storage_wf_def)
  have terms: "is_ok (entry_term s i) = (sm_index (snap_metadata s) \<le> i \<and> i \<le> next_idx s - 1)" for i
    using bounds by (auto simp: wf_entry_term [OF wf] log_at_def)
  have "\<exists>es. storage_entries (\<lambda>es _. es) s lo hi None = Ok es \<and> map re_index es = [lo..<hi]"
    if "first_idx s \<le> lo" "lo < hi" "hi \<le> next_idx s" for lo hi
  proof -
    have "re_index (the (log_at s i)) = i" if "lo \<le> i" "i < hi" for i
      using that \<open>first_idx s \<le> lo\<close> \<open>hi \<le> next_idx s\<close> wf consecutive_nth [of "first_idx s" "mc_entries s" "i - first_idx s"]
      by (simp add: log_at_def storage_wf_def next_idx_def less_diff_conv2)
    then have "map (\<lambda>i. re_index (the (log_at s i))) [lo..<hi] = [lo..<hi]"
      by (intro map_idI) simp
    then show ?thesis
      using wf_entries_slice [OF wf that, of "\<lambda>es _. es" None] by (simp add: comp_def)
  qed
  then show ?thesis
    using wf bounds terms by (intro exI [of _ "sm_index (snap_metadata s)"] exI [of _ "first_idx s"] exI [of _ "next_idx s - 1"])
      (simp add: wf_reads, simp add: storage_wf_def)
qed

theorem storage_contract_witness:
  "\<exists>s. storage_reachable s \<and> last_entry_index s = Ok 1 \<and> is_ok (entry_term s 1) \<and> \<not> is_ok (entry_term s 2)"
proof -
  obtain s where app: "append_entries (storage_new 5) [create_empty_raft_entry 1 1] = (s, Ok ())"
    and last: "last_entry_index s = Ok 1"
    by (simp add: append_entries_def first_entry_index_def last_entry_index_def snapshot_index_def get_metadata_def
        storage_new_def create_empty_raft_entry_def create_raft_entry_def create_raft_snapshot_def create_raft_snapshot_metadata_def)
  have "consecutive 1 [create_empty_raft_entry 1 1]"
    by (simp add: create_empty_raft_entry_def create_raft_entry_def)
  then have "storage_reachable s"
    using app storage_reachable.intros(1,3) by blast
  then show ?thesis
    using storage_contract [of s] last by (auto simp: last intro!: exI [of _ s])
qed

end
