(* ===== verification/Snapshot.thy ===== *)
theory Snapshot
  imports Endpoint RaftStorage Codec
begin

text \<open>
  Model of \<open>src/runtime/src/snapshot.rs\<close>: transfer of a Raft snapshot in chunks from the leader to
  its followers. The protobuf codecs are the parameter \<open>snapshot_env\<close>; sizes, ids and indices are
  natural numbers, the progress of a transfer is an exact fraction where the code divides doubles.
  A \<open>HashMap\<close> is iterated in the order of its list.

  The lemmas show that a snapshot sent in chunks and received in any order arrives unchanged, what
  a receiver can assemble from arbitrary requests, how many chunks a sender has in flight, and
  which role the processor plays.
\<close>

section \<open>Environment\<close>

record snapshot_env =
  ne_encode_request :: "snapshot_payload \<Rightarrow> bytes"
  ne_decode_request :: "bytes \<Rightarrow> snapshot_payload option"
  ne_encode_response :: "snapshot_response_payload \<Rightarrow> bytes"
  ne_decode_response :: "bytes \<Rightarrow> snapshot_response_payload option"
  ne_encode_metadata :: "snapshot_metadata \<Rightarrow> bytes"
  ne_decode_metadata :: "bytes \<Rightarrow> snapshot_metadata option"

datatype snapshot_error = FailedDelivery | Corrupted

datatype snapshot_status = Finish | Failure

section \<open>Sending\<close>

definition chunk_count :: "nat \<Rightarrow> nat \<Rightarrow> (nat, unit) result" where
  "chunk_count snapshot_size chunk_size =
     (if snapshot_size > 0 then (if chunk_size = 0 then Panic else Ok ((snapshot_size - 1) div chunk_size + 1))
      else Ok 1)"

record sender_state =
  ss_snapshot_id :: nat
  ss_snapshot_metadata :: snapshot_metadata
  ss_snapshot_data :: bytes
  ss_chunk_size :: nat
  ss_chunk_count :: nat
  ss_next_chunk_index :: nat
  ss_sent_chunk_count :: nat
  ss_pending_chunks :: "(nat, nat) hmap"
  ss_status :: "snapshot_status option"

definition sender_state_new :: "nat \<Rightarrow> raft_snapshot \<Rightarrow> nat \<Rightarrow> (sender_state, unit) result" where
  "sender_state_new snapshot_id snapshot chunk_size =
     and_then (unwrap (rs_metadata snapshot)) (\<lambda>snapshot_metadata.
     and_then (chunk_count (length (rs_data snapshot)) chunk_size) (\<lambda>count.
       Ok \<lparr> ss_snapshot_id = snapshot_id, ss_snapshot_metadata = snapshot_metadata,
            ss_snapshot_data = rs_data snapshot, ss_chunk_size = chunk_size, ss_chunk_count = count,
            ss_next_chunk_index = 0, ss_sent_chunk_count = 0, ss_pending_chunks = [], ss_status = None \<rparr>))"

definition progress :: "sender_state \<Rightarrow> rat" where
  "progress s = (if ss_status s \<noteq> None then 1
     else (of_nat (ss_sent_chunk_count s) + of_nat (length (ss_pending_chunks s))) / of_nat (ss_chunk_count s))"

definition next_chunk :: "snapshot_env \<Rightarrow> sender_state \<Rightarrow> nat \<Rightarrow> sender_state \<times> (bytes option, unit) result" where
  "next_chunk env s delivery_id =
     (if ss_status s \<noteq> None then (s, Ok None)
      else
        (let s = s\<lparr>ss_pending_chunks := hm_insert delivery_id (ss_next_chunk_index s) (ss_pending_chunks s)\<rparr>;
             start = ss_next_chunk_index s * ss_chunk_size s;
             stop = min (length (ss_snapshot_data s)) (start + ss_chunk_size s) in
         if start > stop then (s, Panic)
         else
           (let contents = drop start (take stop (ss_snapshot_data s));
                it = (if ss_next_chunk_index s = 0
                      then PayloadHeader (length (ss_snapshot_data s)) (ne_encode_metadata env (ss_snapshot_metadata s)) contents
                      else PayloadChunk (ss_next_chunk_index s) contents) in
            (s\<lparr>ss_next_chunk_index := ss_next_chunk_index s + 1\<rparr>,
             Ok (Some (ne_encode_request env \<lparr> sp_snapshot_id = ss_snapshot_id s, sp_it = Some it \<rparr>))))))"

definition state_process_response ::
  "snapshot_env \<Rightarrow> sender_state \<Rightarrow> nat \<Rightarrow> (deliver_snapshot_response, snapshot_error) result \<Rightarrow> sender_state" where
  "state_process_response env s delivery_id response =
     (let (s, success) =
        (case response of
           Ok response \<Rightarrow>
             (case ne_decode_response env (dsp_payload_contents response) of
                None \<Rightarrow> (s, False)
              | Some payload \<Rightarrow>
                  if ss_snapshot_id s \<noteq> rp_snapshot_id payload then (s, True)
                  else if ss_chunk_count s \<le> rp_chunk_index payload then (s, False)
                  else
                    (let removed = hm_get (ss_pending_chunks s) delivery_id;
                         s = s\<lparr>ss_pending_chunks := hm_remove delivery_id (ss_pending_chunks s)\<rparr> in
                     if removed \<noteq> Some (rp_chunk_index payload) then (s, False)
                     else if rp_status payload = SnapshotStatusAccepted
                     then (s\<lparr>ss_sent_chunk_count := ss_sent_chunk_count s + 1\<rparr>, True)
                     else (s, False)))
         | _ \<Rightarrow> (s, False))
      in if success then s else s\<lparr>ss_status := Some Failure\<rparr>)"

definition complete_with :: "sender_state \<Rightarrow> snapshot_status \<Rightarrow> sender_state" where
  "complete_with s status = s\<lparr>ss_status := Some status, ss_snapshot_data := []\<rparr>"

definition state_try_complete :: "sender_state \<Rightarrow> sender_state \<times> snapshot_status option" where
  "state_try_complete s =
     (let s = (if ss_status s = None \<and> ss_sent_chunk_count s = ss_chunk_count s then complete_with s Finish else s)
      in (s, ss_status s))"

record snapshot_sender =
  ds_chunk_size :: nat
  ds_max_pending_chunks :: nat
  ds_replica_id :: nat
  ds_instant :: nat
  ds_next_snapshot_id :: nat
  ds_next_delivery_id :: nat
  ds_receivers :: "(nat, sender_state) hmap"

definition sender_new :: snapshot_sender where
  "sender_new = \<lparr> ds_chunk_size = 1024 * 1024, ds_max_pending_chunks = 2, ds_replica_id = 0, ds_instant = 0,
     ds_next_snapshot_id = 1, ds_next_delivery_id = 1, ds_receivers = [] \<rparr>"

definition sender_init :: "snapshot_sender \<Rightarrow> nat \<Rightarrow> snapshot_config option \<Rightarrow> snapshot_sender" where
  "sender_init s replica_id config =
     (let s = s\<lparr>ds_replica_id := replica_id\<rparr> in
      case config of
        None \<Rightarrow> s
      | Some c \<Rightarrow> s\<lparr>ds_chunk_size := sc_chunk_size c, ds_max_pending_chunks := sc_max_pending_chunks c\<rparr>)"

definition sender_set_instant :: "snapshot_sender \<Rightarrow> nat \<Rightarrow> snapshot_sender" where
  "sender_set_instant s instant = s\<lparr>ds_instant := instant\<rparr>"

definition sender_reset :: "snapshot_sender \<Rightarrow> snapshot_sender \<times> (nat \<times> snapshot_status) list" where
  "sender_reset s = (s\<lparr>ds_receivers := []\<rparr>, map (\<lambda>r. (fst r, Failure)) (ds_receivers s))"

definition sender_start :: "snapshot_sender \<Rightarrow> nat \<Rightarrow> raft_snapshot \<Rightarrow> snapshot_sender \<times> (unit, unit) result" where
  "sender_start s receiver_id snapshot =
     lift_st s (sender_state_new (ds_next_snapshot_id s) snapshot (ds_chunk_size s)) (\<lambda>state.
       (s\<lparr>ds_receivers := hm_insert receiver_id state (ds_receivers s),
          ds_next_snapshot_id := ds_next_snapshot_id s + 1\<rparr>, Ok ()))"

text \<open>The loop that sums the chunks in flight and selects the receiver with the least progress.\<close>

fun select_receiver :: "(nat, sender_state) hmap \<Rightarrow> nat \<times> rat \<times> nat \<Rightarrow> nat \<times> rat \<times> nat" where
  "select_receiver [] acc = acc"
| "select_receiver ((receiver_id, state) # rest) (selected, min_progress, pending) =
     (let pending = pending + length (ss_pending_chunks state) in
      if min_progress > progress state then select_receiver rest (receiver_id, progress state, pending)
      else select_receiver rest (selected, min_progress, pending))"

definition next_request ::
  "snapshot_env \<Rightarrow> snapshot_sender \<Rightarrow> snapshot_sender \<times> (deliver_snapshot_request option, unit) result" where
  "next_request env s =
     (case select_receiver (ds_receivers s) (0, 1, 0) of
        (selected, _, pending) \<Rightarrow>
          if pending \<ge> ds_max_pending_chunks s \<or> selected = 0 then (s, Ok None)
          else
            (let delivery_id = ds_next_delivery_id s; s = s\<lparr>ds_next_delivery_id := delivery_id + 1\<rparr> in
             lift_st s (unwrap (hm_get (ds_receivers s) selected)) (\<lambda>state.
               case next_chunk env state delivery_id of
                 (state, chunk) \<Rightarrow>
                   (let s = s\<lparr>ds_receivers := hm_insert selected state (ds_receivers s)\<rparr> in
                    (s, and_then chunk (\<lambda>chunk. Ok (map_option (\<lambda>payload_contents.
                       \<lparr> dsr_recipient_replica_id = selected, dsr_sender_replica_id = ds_replica_id s,
                         dsr_delivery_id = delivery_id, dsr_payload_contents = payload_contents \<rparr>) chunk)))))))"

definition sender_process_response :: "snapshot_env \<Rightarrow> snapshot_sender \<Rightarrow> nat \<Rightarrow> nat
    \<Rightarrow> (deliver_snapshot_response, snapshot_error) result \<Rightarrow> snapshot_sender" where
  "sender_process_response env s receiver_id delivery_id response =
     (case hm_get (ds_receivers s) receiver_id of
        None \<Rightarrow> s
      | Some state \<Rightarrow> s\<lparr>ds_receivers :=
          hm_insert receiver_id (state_process_response env state delivery_id response) (ds_receivers s)\<rparr>)"

definition process_unexpected_request :: "snapshot_env \<Rightarrow> deliver_snapshot_request \<Rightarrow> deliver_snapshot_response" where
  "process_unexpected_request env request =
     (let (snapshot_id, chunk_index) =
        (case ne_decode_request env (dsr_payload_contents request) of
           None \<Rightarrow> (0, 0)
         | Some payload \<Rightarrow> (case sp_it payload of
             None \<Rightarrow> (0, 0)
           | Some (PayloadHeader _ _ _) \<Rightarrow> (sp_snapshot_id payload, 0)
           | Some (PayloadChunk chunk_index _) \<Rightarrow> (sp_snapshot_id payload, chunk_index)))
      in \<lparr> dsp_recipient_replica_id = dsr_sender_replica_id request, dsp_sender_replica_id = dsr_recipient_replica_id request,
           dsp_delivery_id = dsr_delivery_id request,
           dsp_payload_contents = ne_encode_response env
             \<lparr> rp_snapshot_id = snapshot_id, rp_chunk_index = chunk_index, rp_status = SnapshotStatusRejected \<rparr> \<rparr>)"

text \<open>The loop stops at the first transfer that is complete; each one it visits is updated.\<close>

fun complete_first :: "(nat, sender_state) hmap \<Rightarrow> (nat, sender_state) hmap \<times> (nat \<times> snapshot_status) option" where
  "complete_first [] = ([], None)"
| "complete_first ((receiver_id, state) # rest) =
     (case state_try_complete state of
        (state, Some status) \<Rightarrow> ((receiver_id, state) # rest, Some (receiver_id, status))
      | (state, None) \<Rightarrow> (case complete_first rest of (rest, result) \<Rightarrow> ((receiver_id, state) # rest, result)))"

definition sender_try_complete :: "snapshot_sender \<Rightarrow> snapshot_sender \<times> (nat \<times> snapshot_status) option" where
  "sender_try_complete s =
     (case complete_first (ds_receivers s) of
        (receivers, result) \<Rightarrow>
          (case result of
             None \<Rightarrow> (s\<lparr>ds_receivers := receivers\<rparr>, None)
           | Some (receiver_id, status) \<Rightarrow>
               (s\<lparr>ds_receivers := hm_remove receiver_id receivers\<rparr>, Some (receiver_id, status))))"

section \<open>Receiving\<close>

record receiver_state =
  rv_sender_id :: nat
  rv_snapshot_id :: nat
  rv_snapshot_size :: nat
  rv_snapshot_metadata :: bytes
  rv_chunk_size :: nat
  rv_chunk_count :: nat
  rv_chunks :: "(nat, bytes) hmap"

definition receiver_state_new :: "nat \<Rightarrow> nat \<Rightarrow> nat \<Rightarrow> bytes \<Rightarrow> bytes \<Rightarrow> (receiver_state, unit) result" where
  "receiver_state_new sender_id snapshot_id snapshot_size snapshot_metadata first_chunk =
     and_then (chunk_count snapshot_size (length first_chunk)) (\<lambda>count.
       Ok \<lparr> rv_sender_id = sender_id, rv_snapshot_id = snapshot_id, rv_snapshot_size = snapshot_size,
            rv_snapshot_metadata = snapshot_metadata, rv_chunk_size = length first_chunk, rv_chunk_count = count,
            rv_chunks = hm_insert 0 first_chunk [] \<rparr>)"

definition accept_chunk :: "receiver_state \<Rightarrow> nat \<Rightarrow> nat \<Rightarrow> bytes \<Rightarrow> receiver_state \<times> bool" where
  "accept_chunk s sender_id index chunk_contents =
     (if sender_id \<noteq> rv_sender_id s then (s, False)
      else if index \<ge> rv_chunk_count s \<or>
          (index < rv_chunk_count s - 1 \<and> length chunk_contents \<noteq> rv_chunk_size s) \<or>
          (index = rv_chunk_count s - 1 \<and>
            length chunk_contents \<noteq> rv_snapshot_size s - (rv_chunk_count s - 1) * rv_chunk_size s)
      then (s, False)
      else (s\<lparr>rv_chunks := hm_insert index chunk_contents (rv_chunks s)\<rparr>, True))"

fun collect_chunks :: "nat list \<Rightarrow> (nat, bytes) hmap \<Rightarrow> (bytes, unit) result" where
  "collect_chunks [] chunks = Ok []"
| "collect_chunks (c # cs) chunks =
     and_then (unwrap (hm_get chunks c)) (\<lambda>chunk.
     and_then (collect_chunks cs (hm_remove c chunks)) (\<lambda>rest. Ok (chunk @ rest)))"

definition receiver_state_complete ::
  "snapshot_env \<Rightarrow> receiver_state \<Rightarrow> ((nat \<times> raft_snapshot, snapshot_error) result option, unit) result" where
  "receiver_state_complete env s =
     (if length (rv_chunks s) \<noteq> rv_chunk_count s then Ok None
      else (case ne_decode_metadata env (rv_snapshot_metadata s) of
         None \<Rightarrow> Ok (Some (Err Corrupted))
       | Some metadata \<Rightarrow>
           and_then (collect_chunks [0..<rv_chunk_count s] (rv_chunks s)) (\<lambda>data.
             Ok (Some (Ok (rv_sender_id s, \<lparr> rs_data = data, rs_metadata = Some metadata \<rparr>))))))"

record snapshot_receiver =
  dr_replica_id :: nat
  dr_instant :: nat
  dr_state :: "receiver_state option"

definition receiver_new :: snapshot_receiver where
  "receiver_new = \<lparr> dr_replica_id = 0, dr_instant = 0, dr_state = None \<rparr>"

definition receiver_init :: "snapshot_receiver \<Rightarrow> nat \<Rightarrow> snapshot_receiver" where
  "receiver_init r replica_id = r\<lparr>dr_replica_id := replica_id\<rparr>"

definition receiver_set_instant :: "snapshot_receiver \<Rightarrow> nat \<Rightarrow> snapshot_receiver" where
  "receiver_set_instant r instant = r\<lparr>dr_instant := instant\<rparr>"

definition receiver_reset :: "snapshot_receiver \<Rightarrow> snapshot_receiver" where
  "receiver_reset r = r\<lparr>dr_state := None\<rparr>"

definition process_request ::
  "snapshot_env \<Rightarrow> snapshot_receiver \<Rightarrow> deliver_snapshot_request \<Rightarrow> snapshot_receiver \<times> (deliver_snapshot_response, unit) result" where
  "process_request env r request =
     (let respond = (\<lambda>snapshot_id chunk_index status.
        Ok \<lparr> dsp_recipient_replica_id = dsr_sender_replica_id request, dsp_sender_replica_id = dsr_recipient_replica_id request,
             dsp_delivery_id = dsr_delivery_id request,
             dsp_payload_contents = ne_encode_response env
               \<lparr> rp_snapshot_id = snapshot_id, rp_chunk_index = chunk_index, rp_status = status \<rparr> \<rparr>);
          current = (case dr_state r of Some s \<Rightarrow> rv_snapshot_id s | None \<Rightarrow> 0) in
      case ne_decode_request env (dsr_payload_contents request) of
        None \<Rightarrow> (r, respond current 0 SnapshotStatusRejected)
      | Some payload \<Rightarrow>
          (case sp_it payload of
             None \<Rightarrow> (r, respond current 0 SnapshotStatusUnspecified)
           | Some (PayloadHeader snapshot_size metadata contents) \<Rightarrow>
               (let r = receiver_reset r in
                lift_st r (receiver_state_new (dsr_sender_replica_id request) (sp_snapshot_id payload) snapshot_size metadata contents) (\<lambda>s.
                  (r\<lparr>dr_state := Some s\<rparr>, respond (sp_snapshot_id payload) 0 SnapshotStatusAccepted)))
           | Some (PayloadChunk chunk_index contents) \<Rightarrow>
               (case dr_state r of
                  Some s \<Rightarrow>
                    (case accept_chunk s (dsr_sender_replica_id request) chunk_index contents of
                       (s, accepted) \<Rightarrow>
                         (r\<lparr>dr_state := Some s\<rparr>, respond (sp_snapshot_id payload) chunk_index
                            (if accepted then SnapshotStatusAccepted else SnapshotStatusRejected)))
                | None \<Rightarrow> (r, respond (sp_snapshot_id payload) chunk_index SnapshotStatusRejected))))"

definition receiver_try_complete :: "snapshot_env \<Rightarrow> snapshot_receiver
    \<Rightarrow> snapshot_receiver \<times> ((nat \<times> raft_snapshot, snapshot_error) result option, unit) result" where
  "receiver_try_complete env r =
     (case dr_state r of
        None \<Rightarrow> (r, Ok None)
      | Some s \<Rightarrow>
          lift_st r (receiver_state_complete env s) (\<lambda>result.
            (if result \<noteq> None then receiver_reset r else r, Ok result)))"

section \<open>Roles\<close>

datatype replica_state = UnknownState | Follower | Leader

record snapshot_processor =
  pr_replica_id :: nat
  pr_leader_id :: nat
  pr_leader_term :: nat
  pr_state :: replica_state
  pr_sender :: snapshot_sender
  pr_receiver :: snapshot_receiver

datatype processor_role = SenderRole snapshot_sender | ReceiverRole snapshot_receiver

definition processor_new :: "snapshot_sender \<Rightarrow> snapshot_receiver \<Rightarrow> snapshot_processor" where
  "processor_new sender receiver = \<lparr> pr_replica_id = 0, pr_leader_id = 0, pr_leader_term = 0, pr_state = UnknownState,
     pr_sender = sender, pr_receiver = receiver \<rparr>"

definition processor_init :: "snapshot_processor \<Rightarrow> nat \<Rightarrow> snapshot_config option \<Rightarrow> snapshot_processor \<times> (unit, unit) result" where
  "processor_init p replica_id config =
     (if pr_state p \<noteq> UnknownState then (p, Panic)
      else (p\<lparr>pr_replica_id := replica_id, pr_sender := sender_init (pr_sender p) replica_id config,
              pr_receiver := receiver_init (pr_receiver p) replica_id, pr_state := Follower\<rparr>, Ok ()))"

definition process_cluster_change ::
  "snapshot_processor \<Rightarrow> nat \<Rightarrow> nat \<Rightarrow> nat list \<Rightarrow> snapshot_processor \<times> ((nat \<times> snapshot_status) list, unit) result" where
  "process_cluster_change p leader_id leader_term replicas =
     (let needs_reset = (pr_leader_id p \<noteq> leader_id \<or> pr_leader_term p \<noteq> leader_term \<or> \<not> List.member replicas (pr_replica_id p));
          p = p\<lparr>pr_leader_id := leader_id, pr_leader_term := leader_term\<rparr> in
      try_st
        (if needs_reset then
           (case pr_state p of
              Follower \<Rightarrow> (p\<lparr>pr_receiver := receiver_reset (pr_receiver p)\<rparr>, Ok [])
            | Leader \<Rightarrow> (case sender_reset (pr_sender p) of (sender, cancelled) \<Rightarrow> (p\<lparr>pr_sender := sender\<rparr>, Ok cancelled))
            | UnknownState \<Rightarrow> (p, Panic))
         else (p, Ok []))
        (\<lambda>p cancelled_snapshots.
           case pr_state p of
             Follower \<Rightarrow> (if pr_replica_id p = pr_leader_id p then p\<lparr>pr_state := Leader\<rparr> else p, Ok cancelled_snapshots)
           | Leader \<Rightarrow> (if pr_replica_id p \<noteq> pr_leader_id p then p\<lparr>pr_state := Follower\<rparr> else p, Ok cancelled_snapshots)
           | UnknownState \<Rightarrow> (p, Panic)))"

definition mut_processor :: "snapshot_processor \<Rightarrow> nat \<Rightarrow> snapshot_processor \<times> (processor_role, unit) result" where
  "mut_processor p instant =
     (case pr_state p of
        Follower \<Rightarrow> (let receiver = receiver_set_instant (pr_receiver p) instant in
            (p\<lparr>pr_receiver := receiver\<rparr>, Ok (ReceiverRole receiver)))
      | Leader \<Rightarrow> (let sender = sender_set_instant (pr_sender p) instant in
            (p\<lparr>pr_sender := sender\<rparr>, Ok (SenderRole sender)))
      | UnknownState \<Rightarrow> (p, Panic))"

section \<open>Specification\<close>

text \<open>The chunk of some data at an index, and the payload that carries it.\<close>

definition chunk_at :: "bytes \<Rightarrow> nat \<Rightarrow> nat \<Rightarrow> bytes" where
  "chunk_at data chunk_size k = take chunk_size (drop (k * chunk_size) data)"

definition payload_at :: "snapshot_env \<Rightarrow> nat \<Rightarrow> snapshot_metadata \<Rightarrow> bytes \<Rightarrow> nat \<Rightarrow> nat \<Rightarrow> snapshot_payload" where
  "payload_at env snapshot_id metadata data chunk_size k =
     \<lparr> sp_snapshot_id = snapshot_id,
       sp_it = Some (if k = 0 then PayloadHeader (length data) (ne_encode_metadata env metadata) (chunk_at data chunk_size 0)
                     else PayloadChunk k (chunk_at data chunk_size k)) \<rparr>"

text \<open>Asking a transfer for chunks, with the given delivery ids; a receiver handling requests.\<close>

fun send_chunks :: "snapshot_env \<Rightarrow> nat list \<Rightarrow> sender_state \<Rightarrow> sender_state \<times> (bytes option list, unit) result" where
  "send_chunks env [] s = (s, Ok [])"
| "send_chunks env (d # ds) s =
     try_st (next_chunk env s d) (\<lambda>s chunk. try_st (send_chunks env ds s) (\<lambda>s chunks. (s, Ok (chunk # chunks))))"

definition receive_all :: "snapshot_env \<Rightarrow> deliver_snapshot_request list \<Rightarrow> snapshot_receiver \<Rightarrow> snapshot_receiver" where
  "receive_all env requests r = fold (\<lambda>q r. fst (process_request env r q)) requests r"

definition snapshot_laws :: "snapshot_env \<Rightarrow> bool" where
  "snapshot_laws env \<longleftrightarrow> (\<forall>p. ne_decode_request env (ne_encode_request env p) = Some p) \<and>
     (\<forall>m. ne_decode_metadata env (ne_encode_metadata env m) = Some m)"

text \<open>The states of a sender that is initialized once, and the number of its chunks in flight.\<close>

inductive sender_reachable :: "snapshot_env \<Rightarrow> snapshot_sender \<Rightarrow> bool" for env where
  init: "sender_reachable env (sender_init sender_new replica_id config)"
| instant: "sender_reachable env s \<Longrightarrow> sender_reachable env (sender_set_instant s i)"
| reset: "sender_reachable env s \<Longrightarrow> sender_reachable env (fst (sender_reset s))"
| start: "sender_reachable env s \<Longrightarrow> sender_reachable env (fst (sender_start s receiver_id snapshot))"
| ask: "sender_reachable env s \<Longrightarrow> sender_reachable env (fst (next_request env s))"
| response: "sender_reachable env s \<Longrightarrow> sender_reachable env (sender_process_response env s receiver_id delivery_id response)"
| complete: "sender_reachable env s \<Longrightarrow> sender_reachable env (fst (sender_try_complete s))"

definition in_flight :: "(nat, sender_state) hmap \<Rightarrow> nat" where
  "in_flight receivers = sum_list (map (\<lambda>r. length (ss_pending_chunks (snd r))) receivers)"

text \<open>What a transfer keeps true: the chunks before the next one are acknowledged or in flight.\<close>

definition transfer_wf :: "nat \<Rightarrow> sender_state \<Rightarrow> bool" where
  "transfer_wf delivery_id s \<longleftrightarrow> hm_wf (ss_pending_chunks s) \<and>
     list_all (\<lambda>p. fst p < delivery_id) (ss_pending_chunks s) \<and>
     ss_status s \<noteq> Some Finish \<and>
     (ss_status s = None \<longrightarrow>
        ss_next_chunk_index s = ss_sent_chunk_count s + length (ss_pending_chunks s) \<and>
        ss_next_chunk_index s \<le> ss_chunk_count s \<and>
        chunk_count (length (ss_snapshot_data s)) (ss_chunk_size s) = Ok (ss_chunk_count s))"

definition sender_wf :: "snapshot_sender \<Rightarrow> bool" where
  "sender_wf s \<longleftrightarrow> hm_wf (ds_receivers s) \<and> list_all (\<lambda>r. transfer_wf (ds_next_delivery_id s) (snd r)) (ds_receivers s) \<and>
     in_flight (ds_receivers s) \<le> ds_max_pending_chunks s"

text \<open>What a receiver keeps true of the chunks it has stored.\<close>

definition chunk_ok :: "receiver_state \<Rightarrow> nat \<times> bytes \<Rightarrow> bool" where
  "chunk_ok s e \<longleftrightarrow> fst e < rv_chunk_count s \<and>
     (if fst e < rv_chunk_count s - 1 then length (snd e) = rv_chunk_size s
      else length (snd e) = rv_snapshot_size s - (rv_chunk_count s - 1) * rv_chunk_size s \<or>
        rv_chunk_count s = 1 \<and> length (snd e) = rv_chunk_size s)"

definition receiver_state_wf :: "receiver_state \<Rightarrow> bool" where
  "receiver_state_wf s \<longleftrightarrow> hm_wf (rv_chunks s) \<and> chunk_count (rv_snapshot_size s) (rv_chunk_size s) = Ok (rv_chunk_count s) \<and>
     list_all (chunk_ok s) (rv_chunks s)"

text \<open>The states of a processor, with the work that its current role does.\<close>

inductive processor_reachable :: "snapshot_env \<Rightarrow> nat \<Rightarrow> snapshot_processor \<Rightarrow> bool" for env replica_id where
  init: "processor_init (processor_new sender_new receiver_new) replica_id config = (p, Ok ()) \<Longrightarrow> processor_reachable env replica_id p"
| change: "processor_reachable env replica_id p \<Longrightarrow>
    processor_reachable env replica_id (fst (process_cluster_change p leader_id leader_term replicas))"
| send: "processor_reachable env replica_id p \<Longrightarrow> pr_state p = Leader \<Longrightarrow>
    processor_reachable env replica_id (p\<lparr>pr_sender := s\<rparr>)"
| receive: "processor_reachable env replica_id p \<Longrightarrow> pr_state p = Follower \<Longrightarrow>
    processor_reachable env replica_id (p\<lparr>pr_receiver := r\<rparr>)"

section \<open>Chunks\<close>

lemma chunk_count_Ok:
  assumes "chunk_count n c = Ok k"
  shows "0 < k" "n \<le> k * c" "(k - 1) * c \<le> n" "n > 0 \<Longrightarrow> (k - 1) * c < n"
proof -
  have "n > 0 \<Longrightarrow> c > 0 \<and> k = (n - 1) div c + 1"
    using assms by (auto simp: chunk_count_def split: if_splits)
  moreover have "c > 0 \<Longrightarrow> n - 1 < (n - 1) div c * c + c" "(n - 1) div c * c \<le> n - 1"
    using div_mult_mod_eq [of "n - 1" c] mod_less_divisor [of c "n - 1"] by linarith+
  ultimately have pos: "n > 0 \<Longrightarrow> n \<le> k * c \<and> (k - 1) * c < n"
    by (cases n) (auto simp: le_imp_less_Suc)
  have "n = 0 \<Longrightarrow> k = 1"
    using assms by (simp add: chunk_count_def)
  then show "0 < k" "n \<le> k * c" "(k - 1) * c \<le> n" "n > 0 \<Longrightarrow> (k - 1) * c < n"
    using pos assms by (auto simp: chunk_count_def split: if_splits)
qed

lemma concat_chunks: "concat (map (chunk_at data c) [0..<n]) = take (n * c) data"
  by (induction n) (simp_all add: chunk_at_def take_add add.commute [of c])

lemma chunk_at_length:
  "k < n \<Longrightarrow> chunk_count (length data) c = Ok n \<Longrightarrow>
    length (chunk_at data c k) = (if k < n - 1 then c else length data - (n - 1) * c)"
proof -
  assume k: "k < n" and n: "chunk_count (length data) c = Ok n"
  show ?thesis
  proof (cases "k < n - 1")
    case True
    then have "k * c + c \<le> (n - 1) * c"
      by (metis Suc_leI add.commute mult_Suc mult_le_mono1)
    then show ?thesis
      using True chunk_count_Ok(3) [OF n] by (simp add: chunk_at_def)
  next
    case False
    then have "k = n - 1"
      using k by simp
    moreover have "length data \<le> (n - 1) * c + c"
      using chunk_count_Ok(1,2) [OF n] by (cases n) (simp_all add: algebra_simps)
    ultimately show ?thesis
      by (simp add: chunk_at_def)
  qed
qed

lemma next_chunk_effect:
  assumes "ss_status s = None" "ss_next_chunk_index s < ss_chunk_count s"
    and "chunk_count (length (ss_snapshot_data s)) (ss_chunk_size s) = Ok (ss_chunk_count s)"
  shows "next_chunk env s d =
    (s\<lparr>ss_pending_chunks := hm_insert d (ss_next_chunk_index s) (ss_pending_chunks s),
       ss_next_chunk_index := ss_next_chunk_index s + 1\<rparr>,
     Ok (Some (ne_encode_request env (payload_at env (ss_snapshot_id s) (ss_snapshot_metadata s) (ss_snapshot_data s)
       (ss_chunk_size s) (ss_next_chunk_index s)))))"
proof -
  let ?k = "ss_next_chunk_index s" and ?c = "ss_chunk_size s" and ?data = "ss_snapshot_data s"
  have "?k * ?c \<le> (ss_chunk_count s - 1) * ?c"
    using assms(2) by (intro mult_le_mono1) simp
  then have start: "?k * ?c \<le> length ?data"
    using chunk_count_Ok(3) [OF assms(3)] by (rule order.trans)
  have "drop (?k * ?c) (take (min (length ?data) (?k * ?c + ?c)) ?data) = chunk_at ?data ?c ?k"
    by (simp add: chunk_at_def take_drop add.commute min_def)
  moreover have "\<not> min (length ?data) (?k * ?c + ?c) < ?k * ?c"
    using start by simp
  ultimately show ?thesis
    using assms(1) by (simp add: next_chunk_def Let_def payload_at_def)
qed

lemma send_chunks_effect:
  assumes "ss_status s = None" "ss_next_chunk_index s + length ds \<le> ss_chunk_count s"
    and "chunk_count (length (ss_snapshot_data s)) (ss_chunk_size s) = Ok (ss_chunk_count s)"
  shows "\<exists>t. send_chunks env ds s = (t, Ok (map (\<lambda>k. Some (ne_encode_request env (payload_at env (ss_snapshot_id s)
      (ss_snapshot_metadata s) (ss_snapshot_data s) (ss_chunk_size s) k)))
    [ss_next_chunk_index s..<ss_next_chunk_index s + length ds]))"
  using assms
proof (induction ds arbitrary: s)
  case (Cons d ds)
  let ?t = "s\<lparr>ss_pending_chunks := hm_insert d (ss_next_chunk_index s) (ss_pending_chunks s),
       ss_next_chunk_index := ss_next_chunk_index s + 1\<rparr>"
  have step: "next_chunk env s d = (?t, Ok (Some (ne_encode_request env (payload_at env (ss_snapshot_id s)
      (ss_snapshot_metadata s) (ss_snapshot_data s) (ss_chunk_size s) (ss_next_chunk_index s)))))"
    using Cons.prems by (intro next_chunk_effect) auto
  have "[ss_next_chunk_index s..<ss_next_chunk_index s + length (d # ds)] =
      ss_next_chunk_index s # [ss_next_chunk_index ?t..<ss_next_chunk_index ?t + length ds]"
    using upt_conv_Cons [of "ss_next_chunk_index s" "ss_next_chunk_index s + length (d # ds)"] by simp
  then show ?case
    using Cons.IH [of ?t] Cons.prems by (auto simp: step)
qed simp

section \<open>Receiving a transfer\<close>

lemma collect_chunks_Ok:
  assumes "distinct ks" "\<And>k. k \<in> set ks \<Longrightarrow> hm_get chunks k = Some (f k)"
  shows "collect_chunks ks chunks = Ok (concat (map f ks))"
  using assms
proof (induction ks arbitrary: chunks)
  case (Cons k ks)
  have "collect_chunks ks (hm_remove k chunks) = Ok (concat (map f ks))"
    using Cons.prems by (intro Cons.IH) auto
  then show ?case
    using Cons.prems(2) [of k] by simp
qed simp

lemma hm_length_card: "hm_wf m \<Longrightarrow> length m = card (dom (hm_get m))"
  using distinct_card [of "map fst m"] by (simp add: hm_wf_def hm_get_def [abs_def] dom_map_of_conv_image_fst)

lemma receive_header:
  assumes "snapshot_laws env" "chunk_count (length data) c = Ok n" "c \<noteq> 0 \<or> data = []"
    and "dsr_payload_contents q = ne_encode_request env (payload_at env i m data c 0)"
  shows "\<exists>s. dr_state (fst (process_request env r q)) = Some s \<and>
    rv_sender_id s = dsr_sender_replica_id q \<and> rv_snapshot_size s = length data \<and>
    rv_snapshot_metadata s = ne_encode_metadata env m \<and> rv_chunk_count s = n \<and>
    (1 < n \<longrightarrow> rv_chunk_size s = c) \<and> rv_chunk_size s * (n - 1) = c * (n - 1) \<and>
    rv_chunks s = [(0, chunk_at data c 0)]"
proof -
  have decode: "ne_decode_request env (dsr_payload_contents q) = Some (payload_at env i m data c 0)"
    using assms(1,4) by (simp add: snapshot_laws_def)
  let ?first = "chunk_at data c 0"
  have first: "length ?first = min c (length data)"
    by (simp add: chunk_at_def min.commute)
  have "chunk_count (length data) (length ?first) = Ok n \<and> (1 < n \<longrightarrow> length ?first = c)"
  proof (cases "c \<le> length data")
    case True
    then show ?thesis
      using assms(2) by (simp add: first)
  next
    case False
    then have "chunk_count (length data) c = Ok 1" "chunk_count (length data) (length ?first) = Ok 1"
      by (auto simp: chunk_count_def first div_less)
    then show ?thesis
      using assms(2) by simp
  qed
  then show ?thesis
    by (cases "1 < n") (auto simp: process_request_def decode payload_at_def receiver_state_new_def hm_insert_def Let_def
        dest: chunk_count_Ok(1))
qed

text \<open>A receiver state that has stored the chunks with the indices in a set.\<close>

definition holds_chunks :: "receiver_state \<Rightarrow> bytes \<Rightarrow> nat \<Rightarrow> nat \<Rightarrow> nat set \<Rightarrow> bool" where
  "holds_chunks s data c n K \<longleftrightarrow> rv_snapshot_size s = length data \<and> rv_chunk_count s = n \<and>
     (1 < n \<longrightarrow> rv_chunk_size s = c) \<and> hm_wf (rv_chunks s) \<and>
     hm_get (rv_chunks s) = (\<lambda>k. if k \<in> K then Some (chunk_at data c k) else None)"

lemma receive_chunk:
  assumes "snapshot_laws env" "chunk_count (length data) c = Ok n" "0 < k" "k < n"
    and "dsr_payload_contents q = ne_encode_request env (payload_at env i m data c k)"
    and "dr_state r = Some s" "holds_chunks s data c n K" "dsr_sender_replica_id q = rv_sender_id s"
  shows "\<exists>t. dr_state (fst (process_request env r q)) = Some t \<and> holds_chunks t data c n (insert k K) \<and>
    rv_sender_id t = rv_sender_id s \<and> rv_snapshot_metadata t = rv_snapshot_metadata s"
proof -
  have decode: "ne_decode_request env (dsr_payload_contents q) = Some (payload_at env i m data c k)"
    using assms(1,5) by (simp add: snapshot_laws_def)
  have "accept_chunk s (dsr_sender_replica_id q) k (chunk_at data c k) =
      (s\<lparr>rv_chunks := hm_insert k (chunk_at data c k) (rv_chunks s)\<rparr>, True)"
    using assms(3,4,7,8) chunk_at_length [OF assms(4,2)] by (auto simp: accept_chunk_def holds_chunks_def)
  then show ?thesis
    using assms(3,6,7)
    by (auto simp: process_request_def decode payload_at_def holds_chunks_def map_laws fun_eq_iff Let_def)
qed

lemma receive_chunks:
  assumes "snapshot_laws env" "chunk_count (length data) c = Ok n" "\<And>k. k \<in> set ks \<Longrightarrow> 0 < k \<and> k < n"
    and "map dsr_payload_contents qs = map (\<lambda>k. ne_encode_request env (payload_at env i m data c k)) ks"
    and "dr_state r = Some s" "holds_chunks s data c n K" "\<And>q. q \<in> set qs \<Longrightarrow> dsr_sender_replica_id q = rv_sender_id s"
  shows "\<exists>t. dr_state (receive_all env qs r) = Some t \<and> holds_chunks t data c n (K \<union> set ks) \<and>
    rv_sender_id t = rv_sender_id s \<and> rv_snapshot_metadata t = rv_snapshot_metadata s"
  using assms(3-7)
proof (induction ks arbitrary: qs r s K)
  case (Cons k ks)
  obtain q qs' where qs: "qs = q # qs'" "dsr_payload_contents q = ne_encode_request env (payload_at env i m data c k)"
    "map dsr_payload_contents qs' = map (\<lambda>k. ne_encode_request env (payload_at env i m data c k)) ks"
    using Cons.prems(2) by (cases qs) auto
  obtain t where t: "dr_state (fst (process_request env r q)) = Some t" "holds_chunks t data c n (insert k K)"
    "rv_sender_id t = rv_sender_id s" "rv_snapshot_metadata t = rv_snapshot_metadata s"
    using receive_chunk [OF assms(1,2) _ _ qs(2) Cons.prems(3,4)] Cons.prems(1) [of k] Cons.prems(5) [of q] by (auto simp: qs(1))
  then show ?case
    using Cons.IH [OF _ qs(3) t(1,2)] Cons.prems(1,5) by (auto simp: qs(1) receive_all_def insert_commute)
qed (auto simp: receive_all_def)

lemma receive_complete:
  assumes "holds_chunks s data c n {0..<n}" "chunk_count (length data) c = Ok n"
    and "ne_decode_metadata env (rv_snapshot_metadata s) = Some m"
  shows "receiver_state_complete env s = Ok (Some (Ok (rv_sender_id s, \<lparr> rs_data = data, rs_metadata = Some m \<rparr>)))"
proof -
  have "length (rv_chunks s) = n"
    using assms(1) by (simp add: hm_length_card holds_chunks_def dom_def)
  moreover have "collect_chunks [0..<n] (rv_chunks s) = Ok (concat (map (chunk_at data c) [0..<n]))"
    using assms(1) by (intro collect_chunks_Ok) (auto simp: holds_chunks_def)
  moreover have "concat (map (chunk_at data c) [0..<n]) = data"
    using chunk_count_Ok(2) [OF assms(2)] by (simp add: concat_chunks)
  ultimately show ?thesis
    using assms(1,3) by (simp add: receiver_state_complete_def holds_chunks_def)
qed

text \<open>A header and all other chunks of some data, in any order and with repetitions, give the snapshot.\<close>

lemma try_complete_result:
  "dr_state r = Some s \<Longrightarrow> snd (receiver_try_complete env r) = receiver_state_complete env s"
  by (cases "receiver_state_complete env s") (simp_all add: receiver_try_complete_def)

lemma receive_transfer:
  assumes "snapshot_laws env" "chunk_count (length data) c = Ok n" "0 < c" "set ks = {1..<n}"
    and "dsr_payload_contents header = ne_encode_request env (payload_at env i m data c 0)"
    and "map dsr_payload_contents chunks = map (\<lambda>k. ne_encode_request env (payload_at env i m data c k)) ks"
    and "\<And>q. q \<in> set chunks \<Longrightarrow> dsr_sender_replica_id q = dsr_sender_replica_id header"
  shows "snd (receiver_try_complete env (receive_all env (header # chunks) r)) =
    Ok (Some (Ok (dsr_sender_replica_id header, \<lparr> rs_data = data, rs_metadata = Some m \<rparr>)))"
proof -
  obtain u where u: "dr_state (fst (process_request env r header)) = Some u" "holds_chunks u data c n {0}"
    "rv_sender_id u = dsr_sender_replica_id header" "rv_snapshot_metadata u = ne_encode_metadata env m"
    using receive_header [OF assms(1,2) _ assms(5), of r] assms(3)
    by (auto simp: holds_chunks_def hm_wf_def hm_get_def fun_eq_iff)
  obtain v where v: "dr_state (receive_all env chunks (fst (process_request env r header))) = Some v"
    "holds_chunks v data c n ({0} \<union> set ks)" "rv_sender_id v = rv_sender_id u"
    "rv_snapshot_metadata v = rv_snapshot_metadata u"
    using receive_chunks [OF assms(1,2) _ assms(6) u(1,2)] assms(4,7) u(3) by auto
  have "{0} \<union> set ks = {0..<n}"
    using chunk_count_Ok(1) [OF assms(2)] by (auto simp: assms(4))
  then have "receiver_state_complete env v = Ok (Some (Ok (rv_sender_id v, \<lparr> rs_data = data, rs_metadata = Some m \<rparr>)))"
    using v(2,4) u(4) assms(1,2) by (intro receive_complete) (simp_all add: snapshot_laws_def)
  then show ?thesis
    using try_complete_result [OF v(1)] v(3) u(3) by (simp add: receive_all_def)
qed

section \<open>Receiving anything\<close>

lemma accept_chunk_wf:
  assumes "receiver_state_wf s"
  shows "receiver_state_wf (fst (accept_chunk s sender_id k contents))"
proof (cases "snd (accept_chunk s sender_id k contents)")
  case True
  let ?t = "s\<lparr>rv_chunks := hm_insert k contents (rv_chunks s)\<rparr>"
  have t: "fst (accept_chunk s sender_id k contents) = ?t" and ok: "chunk_ok s (k, contents)"
    using True by (auto simp: accept_chunk_def chunk_ok_def split: if_splits)
  have same: "chunk_ok ?t = chunk_ok s"
    by (simp add: chunk_ok_def fun_eq_iff)
  show ?thesis
    using assms ok hm_insert_set [of k contents "rv_chunks s"]
    by (auto simp: t receiver_state_wf_def same map_laws list_all_iff)
qed (use assms in \<open>auto simp: accept_chunk_def split: if_splits\<close>)

lemma receiver_state_new_wf: "receiver_state_new sender_id i n metadata first_chunk = Ok s \<Longrightarrow> receiver_state_wf s"
  by (auto simp: receiver_state_new_def receiver_state_wf_def chunk_ok_def result_simps hm_wf_def hm_insert_def dest: chunk_count_Ok(1))

text \<open>A receiver state comes from the last header, and its chunks are of the right sizes.\<close>

definition from_header :: "snapshot_env \<Rightarrow> deliver_snapshot_request list \<Rightarrow> receiver_state \<Rightarrow> bool" where
  "from_header env qs s \<longleftrightarrow> (\<exists>q p first_chunk. q \<in> set qs \<and> dsr_sender_replica_id q = rv_sender_id s \<and>
     ne_decode_request env (dsr_payload_contents q) = Some p \<and>
     sp_it p = Some (PayloadHeader (rv_snapshot_size s) (rv_snapshot_metadata s) first_chunk) \<and>
     length first_chunk = rv_chunk_size s)"

lemma process_request_state:
  assumes "\<And>s. dr_state r = Some s \<Longrightarrow> receiver_state_wf s \<and> from_header env qs s"
    and "dr_state (fst (process_request env r q)) = Some s"
  shows "receiver_state_wf s \<and> from_header env (qs @ [q]) s"
proof -
  have keep: "receiver_state_wf s \<and> from_header env (qs @ [q]) s" if "dr_state r = Some s" for s
    using assms(1) [OF that] by (auto simp: from_header_def)
  show ?thesis
  proof (cases "ne_decode_request env (dsr_payload_contents q)")
    case None
    then show ?thesis
      using assms(2) keep by (simp add: process_request_def Let_def)
  next
    case (Some p)
    show ?thesis
    proof (cases "sp_it p")
      case None
      then show ?thesis
        using assms(2) keep Some by (simp add: process_request_def Let_def)
    next
      case (Some it)
      note decode = \<open>ne_decode_request env (dsr_payload_contents q) = Some p\<close> Some
      show ?thesis
      proof (cases it)
        case (PayloadHeader n metadata first_chunk)
        then have new: "receiver_state_new (dsr_sender_replica_id q) (sp_snapshot_id p) n metadata first_chunk = Ok s"
          using assms(2) decode
          by (cases "receiver_state_new (dsr_sender_replica_id q) (sp_snapshot_id p) n metadata first_chunk")
            (auto simp: process_request_def Let_def receiver_reset_def)
        then have "from_header env (qs @ [q]) s"
          using decode PayloadHeader
          by (auto simp: from_header_def receiver_state_new_def result_simps intro!: exI [of _ q] exI [of _ p])
        then show ?thesis
          using receiver_state_new_wf [OF new] by simp
      next
        case (PayloadChunk k contents)
        show ?thesis
        proof (cases "dr_state r")
          case (Some u)
          then have s: "s = fst (accept_chunk u (dsr_sender_replica_id q) k contents)"
            using assms(2) decode PayloadChunk by (simp add: process_request_def Let_def case_prod_beta)
          have "from_header env (qs @ [q]) s"
            using keep [OF Some] by (auto simp: s accept_chunk_def from_header_def)
          then show ?thesis
            using accept_chunk_wf keep [OF Some] by (simp add: s)
        qed (use assms(2) decode PayloadChunk in \<open>simp add: process_request_def Let_def\<close>)
      qed
    qed
  qed
qed

lemma receive_all_state:
  "dr_state (receive_all env qs receiver_new) = Some s \<Longrightarrow> receiver_state_wf s \<and> from_header env qs s"
proof (induction qs arbitrary: s rule: rev_induct)
  case (snoc q qs)
  show ?case
    using snoc.IH snoc.prems by (intro process_request_state [of "receive_all env qs receiver_new"]) (auto simp: receive_all_def)
qed (simp add: receive_all_def receiver_new_def)

lemma collect_chunks_length:
  assumes "collect_chunks ks chunks = Ok data" "distinct ks" "\<And>k chunk. k \<in> set ks \<Longrightarrow> hm_get chunks k = Some chunk \<Longrightarrow> length chunk = f k"
  shows "length data = sum_list (map f ks)"
  using assms
proof (induction ks arbitrary: chunks data)
  case (Cons k ks)
  obtain chunk rest where "hm_get chunks k = Some chunk" "collect_chunks ks (hm_remove k chunks) = Ok rest" "data = chunk @ rest"
    using Cons.prems(1) by (auto simp: result_simps)
  moreover from this have "length rest = sum_list (map f ks)"
    using Cons.prems(2,3) by (intro Cons.IH) (auto split: if_splits)
  ultimately show ?case
    using Cons.prems(3) [of k chunk] by simp
qed simp

lemma received_length:
  assumes "receiver_state_wf s" "collect_chunks [0..<rv_chunk_count s] (rv_chunks s) = Ok data"
  shows "length data = rv_snapshot_size s \<or> rv_snapshot_size s \<le> rv_chunk_size s \<and> length data = rv_chunk_size s"
proof -
  let ?n = "rv_chunk_count s" and ?c = "rv_chunk_size s" and ?size = "rv_snapshot_size s"
  have count: "chunk_count ?size ?c = Ok ?n"
    using assms(1) by (simp add: receiver_state_wf_def)
  note bounds = chunk_count_Ok [OF count]
  have sizes: "if k < ?n - 1 then length chunk = ?c else length chunk = ?size - (?n - 1) * ?c \<or> ?n = 1 \<and> length chunk = ?c"
    if "hm_get (rv_chunks s) k = Some chunk" for k chunk
    using assms(1) hm_get_Some_in [OF that] by (auto simp: receiver_state_wf_def list_all_iff chunk_ok_def)
  show ?thesis
  proof (cases "?n = 1")
    case True
    then obtain chunk where "hm_get (rv_chunks s) 0 = Some chunk" "data = chunk"
      using assms(2) by (auto simp: result_simps)
    then show ?thesis
      using sizes [of 0 chunk] bounds(2) True by auto
  next
    case False
    define f where "f k = (if k < ?n - 1 then ?c else ?size - (?n - 1) * ?c)" for k
    have "length data = sum_list (map f [0..<?n])"
      using assms(2)
    proof (rule collect_chunks_length)
      show "length chunk = f k" if "hm_get (rv_chunks s) k = Some chunk" for k chunk
        using sizes [OF that] False by (auto simp: f_def)
    qed simp
    moreover have "[0..<?n] = [0..<?n - 1] @ [?n - 1]"
      using bounds(1) by (cases ?n) simp_all
    moreover have "map f [0..<?n - 1] = replicate (?n - 1) ?c"
      by (intro nth_equalityI) (simp_all add: f_def)
    ultimately have "length data = (?n - 1) * ?c + f (?n - 1)"
      by (simp add: sum_list_replicate)
    then have "length data = (?n - 1) * ?c + (?size - (?n - 1) * ?c)"
      by (simp add: f_def)
    then show ?thesis
      using bounds(3) by simp
  qed
qed

section \<open>The sender\<close>

lemma in_flight_insert:
  "in_flight (hm_insert k v m) + (case hm_get m k of Some old \<Rightarrow> length (ss_pending_chunks old) | None \<Rightarrow> 0) =
     in_flight m + length (ss_pending_chunks v)"
  by (induction m) (auto simp: in_flight_def hm_insert_def hm_get_def)

lemma in_flight_remove: "in_flight (hm_remove k m) \<le> in_flight m"
  by (induction m) (auto simp: in_flight_def hm_remove_def)

lemma hm_insert_fresh_length: "hm_get m k = None \<Longrightarrow> length (hm_insert k v m) = length m + 1"
  by (induction m) (auto simp: hm_insert_def hm_get_def split: if_splits)

lemma hm_remove_set: "set (hm_remove k m) \<subseteq> set m"
  by (induction m) (auto simp: hm_remove_def)

lemma hm_remove_length:
  "hm_wf m \<Longrightarrow> length (hm_remove k m) + (case hm_get m k of Some _ \<Rightarrow> 1 | None \<Rightarrow> 0) = length m"
  by (induction m) (auto simp: hm_wf_def hm_remove_def hm_get_def split: option.splits)

lemma select_receiver_result:
  assumes "select_receiver m (sel, mp, pending) = (sel', mp', pending')"
  shows "pending' = pending + in_flight m \<and>
    (sel' = sel \<and> mp' = mp \<or> (\<exists>state. (sel', state) \<in> set m \<and> progress state < mp))"
  using assms
proof (induction m arbitrary: sel mp pending)
  case (Cons x m)
  obtain i state where x: "x = (i, state)" by fastforce
  show ?case
  proof (cases "mp > progress state")
    case True
    from Cons.IH [of i "progress state" "pending + length (ss_pending_chunks state)"] Cons.prems True
    show ?thesis
      by (auto simp: x in_flight_def intro: less_trans)
  next
    case False
    from Cons.IH [of sel mp "pending + length (ss_pending_chunks state)"] Cons.prems False
    show ?thesis
      by (auto simp: x in_flight_def)
  qed
qed (simp add: in_flight_def)

lemma transfer_wf_new:
  assumes "sender_state_new i snapshot c = Ok state"
  shows "transfer_wf d state" "ss_pending_chunks state = []"
  using assms by (auto simp: sender_state_new_def transfer_wf_def result_simps hm_wf_def)

lemma transfer_wf_mono: "transfer_wf d state \<Longrightarrow> transfer_wf (Suc d) state"
  by (auto simp: transfer_wf_def list_all_iff)

lemma progress_less: "transfer_wf d state \<Longrightarrow> progress state < 1 \<Longrightarrow> ss_status state = None \<and> ss_next_chunk_index state < ss_chunk_count state"
proof -
  assume wf: "transfer_wf d state" and less: "progress state < 1"
  then have none: "ss_status state = None"
    by (auto simp: progress_def split: if_splits)
  then have "0 < ss_chunk_count state"
    using wf chunk_count_Ok(1) by (auto simp: transfer_wf_def)
  then have "of_nat (ss_sent_chunk_count state) + of_nat (length (ss_pending_chunks state)) < (of_nat (ss_chunk_count state) :: rat)"
    using less none by (simp add: progress_def divide_less_eq)
  then have "ss_sent_chunk_count state + length (ss_pending_chunks state) < ss_chunk_count state"
    by (metis of_nat_add of_nat_less_iff)
  then show ?thesis
    using wf none by (simp add: transfer_wf_def)
qed

lemma next_chunk_wf:
  assumes "transfer_wf d state" "progress state < 1"
  shows "\<exists>t b. next_chunk env state d = (t, Ok (Some b)) \<and> transfer_wf (Suc d) t \<and>
    length (ss_pending_chunks t) = length (ss_pending_chunks state) + 1"
proof -
  have less: "ss_status state = None" "ss_next_chunk_index state < ss_chunk_count state"
    using progress_less [OF assms] by auto
  have count: "chunk_count (length (ss_snapshot_data state)) (ss_chunk_size state) = Ok (ss_chunk_count state)"
    using assms(1) less(1) by (simp add: transfer_wf_def)
  have fresh: "hm_get (ss_pending_chunks state) d = None"
    using assms(1) hm_get_Some_in [of "ss_pending_chunks state" d] by (cases "hm_get (ss_pending_chunks state) d") (auto simp: transfer_wf_def list_all_iff)
  show ?thesis
    using assms(1) less count fresh hm_insert_set [of d "ss_next_chunk_index state" "ss_pending_chunks state"]
    by (auto simp: next_chunk_effect transfer_wf_def hm_insert_fresh_length map_laws list_all_iff less_Suc_eq)
qed

lemma response_wf:
  assumes "transfer_wf d state"
  shows "transfer_wf d (state_process_response env state i response)"
    "length (ss_pending_chunks (state_process_response env state i response)) \<le> length (ss_pending_chunks state)"
proof -
  have rem: "list_all P (hm_remove i m)" if "list_all P m" for P and m :: "(nat, nat) hmap"
    using that by (induction m) (auto simp: hm_remove_def)
  have wf: "hm_wf (ss_pending_chunks state)"
    using assms by (simp add: transfer_wf_def)
  show "transfer_wf d (state_process_response env state i response)"
    using assms hm_remove_length [OF wf, of i]
    by (auto simp: state_process_response_def transfer_wf_def Let_def rem map_laws split: result.split option.split)
  show "length (ss_pending_chunks (state_process_response env state i response)) \<le> length (ss_pending_chunks state)"
    using hm_remove_length [OF wf, of i]
    by (auto simp: state_process_response_def Let_def split: result.split option.split)
qed

lemma complete_first_result:
  "case complete_first m of
     (m', None) \<Rightarrow> m' = m
   | (m', Some (i, status)) \<Rightarrow> (\<exists>state. (i, state) \<in> set m \<and> snd (state_try_complete state) = Some status \<and>
       hm_remove i m' = hm_remove i m)"
proof (induction m)
  case (Cons x m)
  obtain i state where x: "x = (i, state)" by fastforce
  show ?case
  proof (cases "snd (state_try_complete state)")
    case None
    then have "state_try_complete state = (state, None)"
      by (auto simp: state_try_complete_def complete_with_def Let_def split: if_splits)
    then show ?thesis
      using Cons.IH by (auto simp: x hm_remove_def split: prod.splits option.splits)
  next
    case (Some status)
    then show ?thesis
      by (cases "state_try_complete state") (auto simp: x hm_remove_def)
  qed
qed simp

lemma sender_wf_insert:
  assumes "sender_wf s" "transfer_wf (ds_next_delivery_id t) state" "ds_next_delivery_id s \<le> ds_next_delivery_id t"
    and "ds_receivers t = hm_insert i state (ds_receivers s)" "ds_max_pending_chunks t = ds_max_pending_chunks s"
    and "in_flight (hm_insert i state (ds_receivers s)) \<le> ds_max_pending_chunks s"
  shows "sender_wf t"
proof -
  have "transfer_wf (ds_next_delivery_id t) u" if "transfer_wf (ds_next_delivery_id s) u" for u
    using that assms(3) by (auto simp: transfer_wf_def list_all_iff)
  then have "transfer_wf (ds_next_delivery_id t) (snd r)" if "r \<in> set (ds_receivers t)" for r
    using that assms(1,2,4) hm_insert_set [of i state "ds_receivers s"] by (auto simp: sender_wf_def list_all_iff)
  then show ?thesis
    using assms(1,4-6) by (simp add: sender_wf_def list_all_iff map_laws)
qed

lemma next_request_effect:
  assumes "sender_wf s"
  shows "\<exists>s' q. next_request env s = (s', Ok q) \<and> sender_wf s' \<and>
    (q \<noteq> None \<longrightarrow> in_flight (ds_receivers s) < ds_max_pending_chunks s \<and>
       in_flight (ds_receivers s') = in_flight (ds_receivers s) + 1) \<and>
    ds_max_pending_chunks s' = ds_max_pending_chunks s"
proof -
  obtain sel mp pending where sel: "select_receiver (ds_receivers s) (0, 1, 0) = (sel, mp, pending)"
    by (metis prod_cases3)
  note result = select_receiver_result [OF sel]
  show ?thesis
  proof (cases "pending \<ge> ds_max_pending_chunks s \<or> sel = 0")
    case True
    then show ?thesis
      using assms by (auto simp: next_request_def sel)
  next
    case False
    then obtain state where state: "(sel, state) \<in> set (ds_receivers s)" "progress state < 1"
      using result by auto
    have wf: "transfer_wf (ds_next_delivery_id s) state" "hm_get (ds_receivers s) sel = Some state"
      using assms state(1) by (auto simp: sender_wf_def list_all_iff hm_wf_def hm_get_def)
    obtain t b where t: "next_chunk env state (ds_next_delivery_id s) = (t, Ok (Some b))" "transfer_wf (Suc (ds_next_delivery_id s)) t"
      "length (ss_pending_chunks t) = length (ss_pending_chunks state) + 1"
      using next_chunk_wf [OF wf(1) state(2)] by blast
    have insert: "in_flight (hm_insert sel t (ds_receivers s)) = in_flight (ds_receivers s) + 1"
      using in_flight_insert [of sel t "ds_receivers s"] t(3) by (simp add: wf(2))
    then have "in_flight (hm_insert sel t (ds_receivers s)) \<le> ds_max_pending_chunks s"
      using False result by simp
    then have "sender_wf (s\<lparr>ds_next_delivery_id := Suc (ds_next_delivery_id s), ds_receivers := hm_insert sel t (ds_receivers s)\<rparr>)"
      using t(2) by (intro sender_wf_insert [OF assms, where state = t and i = sel]) simp_all
    then show ?thesis
      using False result insert by (auto simp: next_request_def sel wf(2) t(1) Let_def)
  qed
qed

lemma sender_reachable_wf: "sender_reachable env s \<Longrightarrow> sender_wf s"
proof (induction rule: sender_reachable.induct)
  case (init replica_id config)
  show ?case
    by (simp add: sender_wf_def sender_init_def sender_new_def hm_wf_def in_flight_def Let_def split: option.split)
next
  case (start s receiver_id snapshot)
  show ?case
  proof (cases "sender_state_new (ds_next_snapshot_id s) snapshot (ds_chunk_size s)")
    case (Ok state)
    then have "in_flight (hm_insert receiver_id state (ds_receivers s)) \<le> in_flight (ds_receivers s)"
      using in_flight_insert [of receiver_id state "ds_receivers s"] transfer_wf_new(2) [OF Ok] by (simp split: option.splits)
    then show ?thesis
      using start.IH transfer_wf_new(1) [OF Ok]
      by (intro sender_wf_insert [OF start.IH, where state = state and i = receiver_id]) (simp_all add: sender_start_def Ok sender_wf_def)
  qed (use start.IH in \<open>simp_all add: sender_start_def\<close>)
next
  case (ask s)
  then show ?case
    using next_request_effect [of s env] by auto
next
  case (response s receiver_id delivery_id response)
  show ?case
  proof (cases "hm_get (ds_receivers s) receiver_id")
    case (Some state)
    then have wf: "transfer_wf (ds_next_delivery_id s) state"
      using response.IH hm_get_Some_in [OF Some] by (auto simp: sender_wf_def list_all_iff)
    let ?t = "state_process_response env state delivery_id response"
    have "in_flight (hm_insert receiver_id ?t (ds_receivers s)) \<le> in_flight (ds_receivers s)"
      using in_flight_insert [of receiver_id ?t "ds_receivers s"] response_wf(2) [OF wf, of env delivery_id response] by (simp add: Some)
    then show ?thesis
      using response.IH response_wf(1) [OF wf, of env delivery_id response]
      by (intro sender_wf_insert [OF response.IH, where state = ?t and i = receiver_id]) (simp_all add: sender_process_response_def Some sender_wf_def)
  qed (use response.IH in \<open>simp add: sender_process_response_def\<close>)
next
  case (complete s)
  have "sender_wf (s\<lparr>ds_receivers := hm_remove i (ds_receivers s)\<rparr>)" for i
    using complete.IH in_flight_remove [of i "ds_receivers s"] hm.wf_del [of "ds_receivers s" i]
      hm_remove_set [of i "ds_receivers s"]
    by (auto simp: sender_wf_def list_all_iff)
  then show ?case
    using complete.IH complete_first_result [of "ds_receivers s"]
    by (auto simp: sender_try_complete_def split: prod.splits option.splits)
qed (auto simp: sender_wf_def sender_set_instant_def sender_reset_def hm_wf_def in_flight_def)

section \<open>Witnesses\<close>

text \<open>
  An environment whose encodings carry the messages in a simple way: a payload is its id, a tag, a
  number, the length of the metadata, the metadata and the chunk.
\<close>

definition enc_config_state :: "config_state \<Rightarrow> bytes" where
  "enc_config_state cs = enc_pair (enc_list enc_nat) (enc_pair (enc_list enc_nat) (enc_pair (enc_list enc_nat)
       (enc_pair (enc_list enc_nat) (enc_option enc_nat))))
     (cs_voters cs, cs_learners cs, cs_voters_outgoing cs, cs_learners_next cs, if cs_auto_leave cs then Some 0 else None)"

definition dec_config_state :: "config_state parser" where
  "dec_config_state = dec_map (\<lambda>(a, b, c, d, e). \<lparr> cs_voters = a, cs_learners = b, cs_voters_outgoing = c, cs_learners_next = d,
       cs_auto_leave = e \<noteq> None \<rparr>)
     (dec_pair (dec_list dec_nat) (dec_pair (dec_list dec_nat) (dec_pair (dec_list dec_nat) (dec_pair (dec_list dec_nat) (dec_option dec_nat)))))"

definition enc_snapshot_metadata :: "snapshot_metadata \<Rightarrow> bytes" where
  "enc_snapshot_metadata m = enc_pair (enc_option enc_config_state) (enc_pair enc_nat enc_nat) (sm_conf_state m, sm_index m, sm_term m)"

definition dec_snapshot_metadata :: "snapshot_metadata parser" where
  "dec_snapshot_metadata = dec_map (\<lambda>(c, i, t). \<lparr> sm_conf_state = c, sm_index = i, sm_term = t \<rparr>)
     (dec_pair (dec_option dec_config_state) (dec_pair dec_nat dec_nat))"

definition enc_payload :: "snapshot_payload \<Rightarrow> bytes" where
  "enc_payload p = enc_pair enc_nat (enc_option (enc_sum (enc_pair enc_nat (enc_pair enc_bytes enc_bytes)) (enc_pair enc_nat enc_bytes)))
     (sp_snapshot_id p, map_option (\<lambda>it. case it of PayloadHeader n m c \<Rightarrow> Inl (n, m, c) | PayloadChunk k c \<Rightarrow> Inr (k, c)) (sp_it p))"

definition dec_payload :: "snapshot_payload parser" where
  "dec_payload = dec_map (\<lambda>(i, it). \<lparr> sp_snapshot_id = i,
       sp_it = map_option (\<lambda>x. case x of Inl (n, m, c) \<Rightarrow> PayloadHeader n m c | Inr (k, c) \<Rightarrow> PayloadChunk k c) it \<rparr>)
     (dec_pair dec_nat (dec_option (dec_sum (dec_pair dec_nat (dec_pair dec_bytes dec_bytes)) (dec_pair dec_nat dec_bytes))))"

definition demo_snapshot_env :: snapshot_env where
  "demo_snapshot_env = \<lparr> ne_encode_request = enc_payload, ne_decode_request = decode_all dec_payload,
     ne_encode_response = (\<lambda>p. [word_of_nat (rp_snapshot_id p), word_of_nat (rp_chunk_index p), if rp_status p = SnapshotStatusAccepted then 1 else 0]),
     ne_decode_response = (\<lambda>b. case b of [i, k, a] \<Rightarrow> Some \<lparr> rp_snapshot_id = unat i, rp_chunk_index = unat k,
        rp_status = (if a = 1 then SnapshotStatusAccepted else SnapshotStatusRejected) \<rparr> | _ \<Rightarrow> None),
     ne_encode_metadata = enc_snapshot_metadata, ne_decode_metadata = decode_all dec_snapshot_metadata \<rparr>"

definition demo_metadata :: snapshot_metadata where
  "demo_metadata = create_raft_snapshot_metadata 3 1 (create_raft_config_state [1, 2])"

definition demo_snapshot :: raft_snapshot where
  "demo_snapshot = create_raft_snapshot demo_metadata [1, 2, 3, 4, 5]"

definition demo_request :: "nat \<Rightarrow> nat \<Rightarrow> deliver_snapshot_request" where
  "demo_request i k = \<lparr> dsr_recipient_replica_id = 2, dsr_sender_replica_id = 1, dsr_delivery_id = k,
     dsr_payload_contents = ne_encode_request demo_snapshot_env (payload_at demo_snapshot_env i demo_metadata [1, 2, 3, 4, 5] 2 k) \<rparr>"

lemma codec_config_state: "codec enc_config_state dec_config_state"
  unfolding enc_config_state_def [abs_def] dec_config_state_def by (intro codec_map codecs) simp

lemma codec_snapshot_metadata: "codec enc_snapshot_metadata dec_snapshot_metadata"
  unfolding enc_snapshot_metadata_def [abs_def] dec_snapshot_metadata_def
  by (intro codec_map codecs codec_config_state) simp

lemma codec_payload: "codec enc_payload dec_payload"
  unfolding enc_payload_def [abs_def] dec_payload_def
  by (intro codec_map codecs) (simp add: option.map_comp comp_def option.map_ident_strong split: snapshot_payload_it.split)

lemma demo_snapshot_laws: "snapshot_laws demo_snapshot_env"
  by (simp add: snapshot_laws_def demo_snapshot_env_def decode_all_encode codec_payload codec_snapshot_metadata)

section \<open>Properties\<close>

text \<open>
  C28. A snapshot arrives unchanged: a transfer that is asked for all of its chunks hands out
  exactly one payload per chunk, and a receiver in any state that gets the header first and then
  the other chunks in any order, with repetitions, completes with the very snapshot, its metadata
  and the id of the sender.
\<close>

theorem snapshot_transfer:
  assumes "snapshot_laws env" "rs_metadata snapshot = Some m" "0 < chunk_size"
    and "sender_state_new snapshot_id snapshot chunk_size = Ok s" "length deliveries = ss_chunk_count s"
  shows "\<exists>t payloads. send_chunks env deliveries s = (t, Ok (map Some payloads)) \<and> length payloads = ss_chunk_count s \<and>
    (\<forall>r ks header chunks. set ks = {1..<ss_chunk_count s} \<and> dsr_payload_contents header = payloads ! 0 \<and>
       map dsr_payload_contents chunks = map (nth payloads) ks \<and>
       list_all (\<lambda>q. dsr_sender_replica_id q = dsr_sender_replica_id header) chunks \<longrightarrow>
       snd (receiver_try_complete env (receive_all env (header # chunks) r)) =
         Ok (Some (Ok (dsr_sender_replica_id header, snapshot))))"
proof -
  let ?data = "rs_data snapshot" and ?n = "ss_chunk_count s"
  have s: "ss_snapshot_data s = ?data" "ss_chunk_size s = chunk_size" "ss_snapshot_id s = snapshot_id"
    "ss_snapshot_metadata s = m" "ss_next_chunk_index s = 0" "ss_status s = None"
    and count: "chunk_count (length ?data) chunk_size = Ok ?n"
    using assms(2,4) by (auto simp: sender_state_new_def result_simps)
  define payload where "payload k = ne_encode_request env (payload_at env snapshot_id m ?data chunk_size k)" for k
  obtain t where t: "send_chunks env deliveries s = (t, Ok (map Some (map payload [0..<?n])))"
    using send_chunks_effect [of s deliveries env] assms(5) count s by (auto simp: comp_def payload_def [abs_def])
  have n: "0 < ?n"
    using count by (rule chunk_count_Ok)
  have "snd (receiver_try_complete env (receive_all env (header # chunks) r)) = Ok (Some (Ok (dsr_sender_replica_id header, snapshot)))"
    if ks: "set ks = {1..<?n}" and h: "dsr_payload_contents header = payload 0"
      and c: "map dsr_payload_contents chunks = map payload ks"
      and from_header: "\<And>q. q \<in> set chunks \<Longrightarrow> dsr_sender_replica_id q = dsr_sender_replica_id header" for r ks header chunks
    using receive_transfer [OF assms(1) count assms(3) ks h [unfolded payload_def] c [unfolded payload_def [abs_def]] from_header] assms(2)
    by simp
  moreover have "map (nth (map payload [0..<?n])) ks = map payload ks" if "set ks = {1..<?n}" for ks
    using that by auto
  ultimately show ?thesis
    using t n by (intro exI [of _ t] exI [of _ "map payload [0..<?n]"]) (auto simp: list_all_iff)
qed

theorem snapshot_transfer_witness:
  "\<exists>s t payloads. sender_state_new 7 demo_snapshot 2 = Ok s \<and>
    send_chunks demo_snapshot_env [1, 2, 3] s = (t, Ok (map Some payloads)) \<and>
    (let req = (\<lambda>k. \<lparr> dsr_recipient_replica_id = 2, dsr_sender_replica_id = 1, dsr_delivery_id = k, dsr_payload_contents = payloads ! k \<rparr>) in
     snd (receiver_try_complete demo_snapshot_env (receive_all demo_snapshot_env [req 0, req 2, req 1] receiver_new)) =
       Ok (Some (Ok (1, demo_snapshot))))"
proof -
  obtain s where s: "sender_state_new 7 demo_snapshot 2 = Ok s" "ss_chunk_count s = 3"
    by (simp add: sender_state_new_def demo_snapshot_def create_raft_snapshot_def chunk_count_def)
  have meta: "rs_metadata demo_snapshot = Some demo_metadata"
    by (simp add: demo_snapshot_def create_raft_snapshot_def)
  obtain t payloads where t: "send_chunks demo_snapshot_env [1, 2, 3] s = (t, Ok (map Some payloads))"
    and all: "\<forall>r ks header chunks. set ks = {1..<ss_chunk_count s} \<and> dsr_payload_contents header = payloads ! 0 \<and>
       map dsr_payload_contents chunks = map (nth payloads) ks \<and>
       list_all (\<lambda>q. dsr_sender_replica_id q = dsr_sender_replica_id header) chunks \<longrightarrow>
       snd (receiver_try_complete demo_snapshot_env (receive_all demo_snapshot_env (header # chunks) r)) =
         Ok (Some (Ok (dsr_sender_replica_id header, demo_snapshot)))"
    using snapshot_transfer [OF demo_snapshot_laws meta _ s(1), of "[1, 2, 3]"] s(2) by auto
  define req where "req k = \<lparr> dsr_recipient_replica_id = 2, dsr_sender_replica_id = 1, dsr_delivery_id = k, dsr_payload_contents = payloads ! k \<rparr>" for k
  have "set [2, 1] = {1..<ss_chunk_count s}"
    by (auto simp: s(2))
  with all [rule_format, of "[2, 1]" "req 0" "[req 2, req 1]" receiver_new]
  have "snd (receiver_try_complete demo_snapshot_env (receive_all demo_snapshot_env [req 0, req 2, req 1] receiver_new)) =
      Ok (Some (Ok (1, demo_snapshot)))"
    by (simp add: req_def)
  then show ?thesis
    using s(1) t by (auto simp: Let_def req_def)
qed

text \<open>
  C40. What a receiver completes with, whatever requests it got: the sender, size and metadata come
  from one header of that sender, and the data has the announced size. The single exception is a
  header whose own chunk is longer than the size it announces: that chunk is taken as the data.
\<close>

theorem received_snapshot_size:
  assumes "snd (receiver_try_complete env (receive_all env requests receiver_new)) = Ok (Some (Ok (sender_id, snapshot)))"
  shows "\<exists>q p size metadata first_chunk. q \<in> set requests \<and> dsr_sender_replica_id q = sender_id \<and>
    ne_decode_request env (dsr_payload_contents q) = Some p \<and> sp_it p = Some (PayloadHeader size metadata first_chunk) \<and>
    ne_decode_metadata env metadata = rs_metadata snapshot \<and>
    (length (rs_data snapshot) = size \<or> size \<le> length first_chunk \<and> length (rs_data snapshot) = length first_chunk)"
proof -
  obtain s where s: "dr_state (receive_all env requests receiver_new) = Some s"
    and "receiver_state_complete env s = Ok (Some (Ok (sender_id, snapshot)))"
    using assms by (cases "dr_state (receive_all env requests receiver_new)") (auto simp: try_complete_result, auto simp: receiver_try_complete_def)
  then obtain m data where m: "ne_decode_metadata env (rv_snapshot_metadata s) = Some m"
    "collect_chunks [0..<rv_chunk_count s] (rv_chunks s) = Ok data" "snapshot = \<lparr> rs_data = data, rs_metadata = Some m \<rparr>"
    "sender_id = rv_sender_id s"
    by (auto simp: receiver_state_complete_def result_simps split: if_splits option.splits)
  have "receiver_state_wf s" "from_header env requests s"
    using receive_all_state [OF s] by auto
  then show ?thesis
    using received_length [OF _ m(2)] m by (fastforce simp: from_header_def)
qed

theorem received_snapshot_size_witness:
  "\<exists>snapshot. snd (receiver_try_complete demo_snapshot_env (receive_all demo_snapshot_env
      [demo_request 7 0, demo_request 7 1, demo_request 7 2] receiver_new)) = Ok (Some (Ok (1, snapshot))) \<and>
    length (rs_data snapshot) = 5"
proof -
  have "snd (receiver_try_complete demo_snapshot_env (receive_all demo_snapshot_env
      [demo_request 7 0, demo_request 7 1, demo_request 7 2] receiver_new)) =
      Ok (Some (Ok (dsr_sender_replica_id (demo_request 7 0), \<lparr> rs_data = [1, 2, 3, 4, 5], rs_metadata = Some demo_metadata \<rparr>)))"
    by (rule receive_transfer [OF demo_snapshot_laws, where c = 2 and n = 3 and ks = "[1, 2]" and i = 7])
      (auto simp: chunk_count_def demo_request_def)
  then have run: "snd (receiver_try_complete demo_snapshot_env (receive_all demo_snapshot_env
      [demo_request 7 0, demo_request 7 1, demo_request 7 2] receiver_new)) =
      Ok (Some (Ok (1, \<lparr> rs_data = [1, 2, 3, 4, 5], rs_metadata = Some demo_metadata \<rparr>)))"
    by (simp add: demo_request_def)
  from received_snapshot_size [OF run] show ?thesis
    using run by auto
qed

text \<open>
  A sender, in every state it can reach, has at most the configured number of chunks in flight
  over all transfers; asking it for a request never panics and only yields one while it is below
  that number; and a transfer it reports as finished had sent every chunk and had all of them
  acknowledged.
\<close>

theorem snapshot_sender_safe:
  assumes "sender_reachable env s"
  shows "in_flight (ds_receivers s) \<le> ds_max_pending_chunks s \<and>
    (\<exists>s' q. next_request env s = (s', Ok q) \<and> (q = None \<or> in_flight (ds_receivers s) < ds_max_pending_chunks s)) \<and>
    (\<forall>i. snd (sender_try_complete s) = Some (i, Finish) \<longrightarrow>
      (\<exists>state. hm_get (ds_receivers s) i = Some state \<and> ss_next_chunk_index state = ss_chunk_count state \<and>
        ss_sent_chunk_count state = ss_chunk_count state \<and> ss_pending_chunks state = []))"
proof -
  have wf: "sender_wf s"
    using assms by (rule sender_reachable_wf)
  have "\<exists>state. hm_get (ds_receivers s) i = Some state \<and> ss_next_chunk_index state = ss_chunk_count state \<and>
      ss_sent_chunk_count state = ss_chunk_count state \<and> ss_pending_chunks state = []"
    if finish: "snd (sender_try_complete s) = Some (i, Finish)" for i
  proof -
    obtain state where state: "(i, state) \<in> set (ds_receivers s)" "snd (state_try_complete state) = Some Finish"
      using complete_first_result [of "ds_receivers s"] finish
      by (cases "complete_first (ds_receivers s)"; cases "snd (complete_first (ds_receivers s))") (auto simp: sender_try_complete_def)
    then have "transfer_wf (ds_next_delivery_id s) state" "hm_get (ds_receivers s) i = Some state"
      using wf by (auto simp: sender_wf_def list_all_iff hm_wf_def hm_get_def)
    then show ?thesis
      using state(2) by (auto simp: transfer_wf_def state_try_complete_def Let_def split: if_splits)
  qed
  then show ?thesis
    using wf next_request_effect [OF wf, of env] by (auto simp: sender_wf_def)
qed

theorem snapshot_sender_safe_witness:
  "\<exists>s s' q. sender_reachable demo_snapshot_env s \<and> ds_receivers s \<noteq> [] \<and>
    next_request demo_snapshot_env s = (s', Ok q) \<and> in_flight (ds_receivers s) \<le> 2"
proof -
  let ?s = "fst (sender_start (sender_init sender_new 1 None) 2 demo_snapshot)"
  have reach: "sender_reachable demo_snapshot_env ?s"
    by (intro sender_reachable.start sender_reachable.init)
  moreover have "ds_receivers ?s \<noteq> []" "ds_max_pending_chunks ?s = 2"
    by (simp_all add: sender_start_def sender_init_def sender_new_def sender_state_new_def demo_snapshot_def
        create_raft_snapshot_def chunk_count_def hm_insert_def)
  ultimately show ?thesis
    using snapshot_sender_safe [OF reach] by auto
qed

text \<open>
  Roles: in every state of a processor of a replica with a positive id, it plays the sender
  role exactly when the leader it last heard of is itself, and the role it does not play has no
  work: a follower has no transfers to others, a leader receives no snapshot.
\<close>

theorem processor_roles:
  assumes "processor_reachable env replica_id p" "0 < replica_id"
  shows "pr_replica_id p = replica_id \<and>
    (pr_state p = (if pr_leader_id p = replica_id then Leader else Follower)) \<and>
    (if pr_state p = Leader then dr_state (pr_receiver p) = None else ds_receivers (pr_sender p) = [])"
  using assms(1)
proof (induction rule: processor_reachable.induct)
  case (init config p)
  then show ?case
    using assms(2) by (auto simp: processor_init_def processor_new_def sender_new_def sender_init_def Let_def split: option.splits)
next
  case (change p leader_id leader_term replicas)
  then show ?case
    by (auto simp: process_cluster_change_def sender_reset_def receiver_reset_def Let_def split: replica_state.split)
qed (use assms(2) in auto)

theorem processor_roles_witness:
  "pr_state (fst (process_cluster_change (fst (processor_init (processor_new sender_new receiver_new) 3 None)) 3 1 [3])) = Leader"
proof -
  have "processor_reachable demo_snapshot_env 3 (fst (processor_init (processor_new sender_new receiver_new) 3 None))"
    by (rule processor_reachable.init [of 3 None]) (simp add: processor_init_def processor_new_def)
  then have "processor_reachable demo_snapshot_env 3
      (fst (process_cluster_change (fst (processor_init (processor_new sender_new receiver_new) 3 None)) 3 1 [3]))"
    by (rule processor_reachable.change)
  from processor_roles [OF this] show ?thesis
    by (auto simp: process_cluster_change_def processor_init_def processor_new_def Let_def)
qed

text \<open>
  The receiver does not compare snapshot ids: a chunk of another snapshot of the same sender is
  stored when its size fits.
\<close>

lemma other_snapshot_chunk_accepted:
  assumes "ne_decode_request env (dsr_payload_contents q) = Some \<lparr> sp_snapshot_id = j, sp_it = Some (PayloadChunk k contents) \<rparr>"
    and "dr_state r = Some s" "j \<noteq> rv_snapshot_id s" "dsr_sender_replica_id q = rv_sender_id s"
    and "k < rv_chunk_count s - 1" "length contents = rv_chunk_size s"
  shows "dr_state (fst (process_request env r q)) = Some (s\<lparr>rv_chunks := hm_insert k contents (rv_chunks s)\<rparr>)"
  using assms by (auto simp: process_request_def accept_chunk_def Let_def)

text \<open>A header with an empty chunk for a snapshot that is not empty makes the receiver panic.\<close>

lemma empty_first_chunk_panics:
  assumes "ne_decode_request env (dsr_payload_contents q) = Some \<lparr> sp_snapshot_id = i, sp_it = Some (PayloadHeader n metadata []) \<rparr>"
    and "0 < n"
  shows "snd (process_request env r q) = Panic"
  using assms by (simp add: process_request_def receiver_state_new_def chunk_count_def Let_def)

end
