(* ===== verification/Consensus.thy ===== *)
theory Consensus
  imports Snapshot
begin

text \<open>
  The layer over the Raft library, \<open>src/runtime/src/consensus.rs\<close>: the trait \<open>Raft\<close> that the driver
  uses (\<open>raft_ops\<close>) and its implementation \<open>RaftSimple\<close> over the library's \<open>RawNode\<close>, which is a
  parameter (\<open>raw_node\<close>). The store behind the node is the storage of theory \<open>RaftStorage\<close>. The
  lemmas give the contract of the trait for \<open>RaftSimple\<close>: once initialized a node stays initialized
  and none of the calls panics on its account, and a ready that was obtained can be advanced once.
\<close>

section \<open>Messages and states\<close>

text \<open>Messages of the Raft library; the fields that the platform does not read are opaque.\<close>

datatype raft_message_type = MsgSnapshot | MsgOther nat

record raft_message =
  rm_msg_type :: raft_message_type
  rm_to :: nat
  rm_from :: nat
  rm_snapshot :: "raft_snapshot option"
  rm_rest :: bytes

definition create_raft_message :: "nat \<Rightarrow> nat \<Rightarrow> raft_message_type \<Rightarrow> raft_message" where
  "create_raft_message node_from node_to message_type =
     \<lparr>rm_msg_type = message_type, rm_to = node_to, rm_from = node_from, rm_snapshot = None, rm_rest = []\<rparr>"

datatype raft_role = RoleFollower | RoleCandidate | RoleLeader | RolePreCandidate

record soft_state =
  sf_leader_id :: nat
  sf_raft_state :: raft_role

record raft_node_config =
  nc_id :: nat
  nc_election_tick :: nat
  nc_heartbeat_tick :: nat
  nc_max_size_per_msg :: nat

record raft_state =
  rt_leader_replica_id :: nat
  rt_leader_term :: nat
  rt_committed_cluster_config :: "nat list"
  rt_has_pending_change :: bool

definition raft_state_new :: raft_state where
  "raft_state_new =
     \<lparr>rt_leader_replica_id = 0, rt_leader_term = 0, rt_committed_cluster_config = [], rt_has_pending_change = False\<rparr>"

record raft_ready =
  rd_messages :: "raft_message list"
  rd_persisted_messages :: "raft_message list"
  rd_entries :: "raft_entry list"
  rd_committed_entries :: "raft_entry list"
  rd_hard_state :: "hard_state option"
  rd_snapshot :: raft_snapshot
  rd_number :: nat

definition empty_raft_snapshot :: raft_snapshot where
  "empty_raft_snapshot = \<lparr>rs_data = [], rs_metadata = None\<rparr>"

definition take_messages :: "raft_ready \<Rightarrow> raft_ready \<times> raft_message list" where
  "take_messages r = (r\<lparr>rd_messages := []\<rparr>, rd_messages r)"

definition take_persisted_messages :: "raft_ready \<Rightarrow> raft_ready \<times> raft_message list" where
  "take_persisted_messages r = (r\<lparr>rd_persisted_messages := []\<rparr>, rd_persisted_messages r)"

definition take_entries :: "raft_ready \<Rightarrow> raft_ready \<times> raft_entry list" where
  "take_entries r = (r\<lparr>rd_entries := []\<rparr>, rd_entries r)"

definition take_committed_entries :: "raft_ready \<Rightarrow> raft_ready \<times> raft_entry list" where
  "take_committed_entries r = (r\<lparr>rd_committed_entries := []\<rparr>, rd_committed_entries r)"

definition take_snapshot :: "raft_ready \<Rightarrow> raft_ready \<times> raft_snapshot" where
  "take_snapshot r = (r\<lparr>rd_snapshot := empty_raft_snapshot\<rparr>, rd_snapshot r)"

record raft_light_ready =
  rl_messages :: "raft_message list"
  rl_committed_entries :: "raft_entry list"

section \<open>The trait\<close>

text \<open>
  A panicking call is \<open>Panic\<close>. The store behind \<open>mut_store\<close> is read with \<open>ra_store\<close> and written
  back with \<open>ra_set_store\<close>.
\<close>

record 'r raft_ops =
  ra_initialized :: "'r \<Rightarrow> bool"
  ra_leader :: "'r \<Rightarrow> bool"
  ra_state :: "'r \<Rightarrow> (raft_state, raft_error) result"
  ra_store :: "'r \<Rightarrow> (storage_core, raft_error) result"
  ra_set_store :: "'r \<Rightarrow> storage_core \<Rightarrow> 'r"
  ra_init :: "'r \<Rightarrow> nat \<Rightarrow> raft_node_config \<Rightarrow> bytes \<Rightarrow> bool \<Rightarrow> storage_core \<Rightarrow> 'r \<times> (unit, raft_error) result"
  ra_make_step :: "'r \<Rightarrow> raft_message \<Rightarrow> 'r \<times> (unit, raft_error) result"
  ra_make_proposal :: "'r \<Rightarrow> bytes \<Rightarrow> 'r \<times> (unit, raft_error) result"
  ra_make_config_change_proposal :: "'r \<Rightarrow> config_change \<Rightarrow> 'r \<times> (unit, raft_error) result"
  ra_make_tick :: "'r \<Rightarrow> 'r \<times> (unit, raft_error) result"
  ra_apply_config_change :: "'r \<Rightarrow> config_change \<Rightarrow> 'r \<times> (config_state, raft_error) result"
  ra_has_ready :: "'r \<Rightarrow> (bool, raft_error) result"
  ra_get_ready :: "'r \<Rightarrow> 'r \<times> (raft_ready, raft_error) result"
  ra_advance_ready :: "'r \<Rightarrow> raft_ready \<Rightarrow> 'r \<times> (raft_light_ready, raft_error) result"
  ra_advance_apply :: "'r \<Rightarrow> 'r \<times> (unit, raft_error) result"
  ra_report_snapshot :: "'r \<Rightarrow> nat \<Rightarrow> snapshot_status \<Rightarrow> 'r \<times> (unit, raft_error) result"

section \<open>RaftSimple\<close>

text \<open>
  The node of the Raft library, with the ready objects that it hands out: \<open>rn_take\<close> takes the parts
  of a ready out of it.
\<close>

record ('n, 'd) raw_node =
  rn_new :: "raft_node_config \<Rightarrow> storage_core \<Rightarrow> ('n, raft_error) result"
  rn_status :: "'n \<Rightarrow> hard_state \<times> soft_state"
  rn_has_pending_conf :: "'n \<Rightarrow> bool"
  rn_store :: "'n \<Rightarrow> storage_core"
  rn_set_store :: "'n \<Rightarrow> storage_core \<Rightarrow> 'n"
  rn_step :: "'n \<Rightarrow> raft_message \<Rightarrow> 'n \<times> (unit, raft_error) result"
  rn_propose :: "'n \<Rightarrow> bytes \<Rightarrow> 'n \<times> (unit, raft_error) result"
  rn_propose_conf_change :: "'n \<Rightarrow> config_change \<Rightarrow> 'n \<times> (unit, raft_error) result"
  rn_tick :: "'n \<Rightarrow> 'n"
  rn_apply_conf_change :: "'n \<Rightarrow> config_change \<Rightarrow> 'n \<times> (config_state, raft_error) result"
  rn_has_ready :: "'n \<Rightarrow> bool"
  rn_ready :: "'n \<Rightarrow> 'n \<times> 'd"
  rn_take :: "'d \<Rightarrow> raft_ready \<times> 'd"
  rn_advance :: "'n \<Rightarrow> 'd \<Rightarrow> 'n \<times> raft_light_ready"
  rn_advance_apply :: "'n \<Rightarrow> 'n"
  rn_report_snapshot :: "'n \<Rightarrow> nat \<Rightarrow> snapshot_status \<Rightarrow> 'n"

record ('n, 'd) raft_simple =
  rp_raft_node :: "'n option"
  rp_raft_ready :: "(nat, 'd) hmap"

definition raft_simple_new :: "('n, 'd) raft_simple" where
  "raft_simple_new = \<lparr>rp_raft_node = None, rp_raft_ready = []\<rparr>"

definition raft_node :: "('n, 'd) raft_simple \<Rightarrow> ('n, raft_error) result" where
  "raft_node r = unwrap (rp_raft_node r)"

text \<open>A call through \<open>mut_raft_node\<close>.\<close>

definition mut_raft_node ::
  "('n, 'd) raft_simple \<Rightarrow> ('n \<Rightarrow> 'n \<times> ('a, raft_error) result) \<Rightarrow> ('n, 'd) raft_simple \<times> ('a, raft_error) result" where
  "mut_raft_node r f = lift_st r (raft_node r) (\<lambda>n.
     let (n', res) = f n in (r\<lparr>rp_raft_node := Some n'\<rparr>, res))"

definition simple_initialized :: "('n, 'd) raft_simple \<Rightarrow> bool" where
  "simple_initialized r = (rp_raft_node r \<noteq> None)"

definition simple_leader :: "('n, 'd) raw_node \<Rightarrow> ('n, 'd) raft_simple \<Rightarrow> bool" where
  "simple_leader N r = (case rp_raft_node r of
     Some n \<Rightarrow> sf_raft_state (snd (rn_status N n)) = RoleLeader
   | None \<Rightarrow> False)"

definition simple_state :: "('n, 'd) raw_node \<Rightarrow> ('n, 'd) raft_simple \<Rightarrow> (raft_state, raft_error) result" where
  "simple_state N r = and_then (raft_node r) (\<lambda>n.
     let (raft_hard_state, raft_soft_state) = rn_status N n in
     Ok (if sf_raft_state raft_soft_state = RoleLeader
         then raft_state_new\<lparr>rt_leader_replica_id := sf_leader_id raft_soft_state,
                rt_leader_term := hs_term raft_hard_state, rt_has_pending_change := rn_has_pending_conf N n\<rparr>
         else raft_state_new))"

definition simple_store :: "('n, 'd) raw_node \<Rightarrow> ('n, 'd) raft_simple \<Rightarrow> (storage_core, raft_error) result" where
  "simple_store N r = and_then (raft_node r) (\<lambda>n. Ok (rn_store N n))"

definition simple_set_store :: "('n, 'd) raw_node \<Rightarrow> ('n, 'd) raft_simple \<Rightarrow> storage_core \<Rightarrow> ('n, 'd) raft_simple" where
  "simple_set_store N r s = r\<lparr>rp_raft_node := map_option (\<lambda>n. rn_set_store N n s) (rp_raft_node r)\<rparr>"

definition simple_init ::
  "('n, 'd) raw_node \<Rightarrow> ('n, 'd) raft_simple \<Rightarrow> nat \<Rightarrow> raft_node_config \<Rightarrow> bytes \<Rightarrow> bool \<Rightarrow> storage_core \<Rightarrow>
   ('n, 'd) raft_simple \<times> (unit, raft_error) result" where
  "simple_init N r replica_id config snapshot leader store =
     (let (store', res) =
        (if leader then apply_snapshot store (create_raft_snapshot
           (create_raft_snapshot_metadata 1 1 (create_raft_config_state [replica_id])) snapshot)
         else (store, Ok ())) in
      lift_st r res (\<lambda>_.
      lift_st r (rn_new N config store') (\<lambda>n. (r\<lparr>rp_raft_node := Some n\<rparr>, Ok ()))))"

definition simple_get_ready ::
  "('n, 'd) raw_node \<Rightarrow> ('n, 'd) raft_simple \<Rightarrow> ('n, 'd) raft_simple \<times> (raft_ready, raft_error) result" where
  "simple_get_ready N r = lift_st r (raft_node r) (\<lambda>n.
     let (n', d) = rn_ready N n; (ready, rest) = rn_take N d in
     (r\<lparr>rp_raft_node := Some n', rp_raft_ready := hm_insert (rd_number ready) rest (rp_raft_ready r)\<rparr>, Ok ready))"

definition simple_advance_ready ::
  "('n, 'd) raw_node \<Rightarrow> ('n, 'd) raft_simple \<Rightarrow> raft_ready \<Rightarrow> ('n, 'd) raft_simple \<times> (raft_light_ready, raft_error) result" where
  "simple_advance_ready N r ready =
     (let d = hm_get (rp_raft_ready r) (rd_number ready);
          r' = r\<lparr>rp_raft_ready := hm_remove (rd_number ready) (rp_raft_ready r)\<rparr> in
      lift_st r' (unwrap d) (\<lambda>rest.
      mut_raft_node r' (\<lambda>n. apsnd Ok (rn_advance N n rest))))"

definition simple_make_step ::
  "('n, 'd) raw_node \<Rightarrow> ('n, 'd) raft_simple \<Rightarrow> raft_message \<Rightarrow> ('n, 'd) raft_simple \<times> (unit, raft_error) result" where
  "simple_make_step N r message = mut_raft_node r (\<lambda>n. rn_step N n message)"

definition simple_make_proposal ::
  "('n, 'd) raw_node \<Rightarrow> ('n, 'd) raft_simple \<Rightarrow> bytes \<Rightarrow> ('n, 'd) raft_simple \<times> (unit, raft_error) result" where
  "simple_make_proposal N r proposal = mut_raft_node r (\<lambda>n. rn_propose N n proposal)"

definition simple_make_config_change_proposal ::
  "('n, 'd) raw_node \<Rightarrow> ('n, 'd) raft_simple \<Rightarrow> config_change \<Rightarrow> ('n, 'd) raft_simple \<times> (unit, raft_error) result" where
  "simple_make_config_change_proposal N r config_change = mut_raft_node r (\<lambda>n. rn_propose_conf_change N n config_change)"

definition simple_make_tick ::
  "('n, 'd) raw_node \<Rightarrow> ('n, 'd) raft_simple \<Rightarrow> ('n, 'd) raft_simple \<times> (unit, raft_error) result" where
  "simple_make_tick N r = mut_raft_node r (\<lambda>n. (rn_tick N n, Ok ()))"

definition simple_apply_config_change ::
  "('n, 'd) raw_node \<Rightarrow> ('n, 'd) raft_simple \<Rightarrow> config_change \<Rightarrow> ('n, 'd) raft_simple \<times> (config_state, raft_error) result" where
  "simple_apply_config_change N r config_change = mut_raft_node r (\<lambda>n. rn_apply_conf_change N n config_change)"

definition simple_has_ready :: "('n, 'd) raw_node \<Rightarrow> ('n, 'd) raft_simple \<Rightarrow> (bool, raft_error) result" where
  "simple_has_ready N r = and_then (raft_node r) (\<lambda>n. Ok (rn_has_ready N n))"

definition simple_advance_apply ::
  "('n, 'd) raw_node \<Rightarrow> ('n, 'd) raft_simple \<Rightarrow> ('n, 'd) raft_simple \<times> (unit, raft_error) result" where
  "simple_advance_apply N r = mut_raft_node r (\<lambda>n. (rn_advance_apply N n, Ok ()))"

definition simple_report_snapshot ::
  "('n, 'd) raw_node \<Rightarrow> ('n, 'd) raft_simple \<Rightarrow> nat \<Rightarrow> snapshot_status \<Rightarrow> ('n, 'd) raft_simple \<times> (unit, raft_error) result" where
  "simple_report_snapshot N r replica_id status = mut_raft_node r (\<lambda>n. (rn_report_snapshot N n replica_id status, Ok ()))"

definition raft_simple_ops :: "('n, 'd) raw_node \<Rightarrow> ('n, 'd) raft_simple raft_ops" where
  "raft_simple_ops N =
     \<lparr>ra_initialized = simple_initialized, ra_leader = simple_leader N, ra_state = simple_state N,
      ra_store = simple_store N, ra_set_store = simple_set_store N, ra_init = simple_init N,
      ra_make_step = simple_make_step N, ra_make_proposal = simple_make_proposal N,
      ra_make_config_change_proposal = simple_make_config_change_proposal N,
      ra_make_tick = simple_make_tick N, ra_apply_config_change = simple_apply_config_change N,
      ra_has_ready = simple_has_ready N, ra_get_ready = simple_get_ready N,
      ra_advance_ready = simple_advance_ready N, ra_advance_apply = simple_advance_apply N,
      ra_report_snapshot = simple_report_snapshot N\<rparr>"

section \<open>The contract of the trait\<close>

text \<open>
  A node that was initialized stays initialized, and the calls that only read it do not panic then.
\<close>

locale raft_contract =
  fixes R :: "'r raft_ops"
  assumes initialized_init: "ra_init R r i config b leader store = (r', Ok ()) \<Longrightarrow> ra_initialized R r'"
    and initialized_steps: "ra_initialized R r \<Longrightarrow>
      ra_initialized R (ra_set_store R r store) \<and>
      ra_initialized R (fst (ra_make_step R r message)) \<and>
      ra_initialized R (fst (ra_make_proposal R r proposal)) \<and>
      ra_initialized R (fst (ra_make_config_change_proposal R r change)) \<and>
      ra_initialized R (fst (ra_make_tick R r)) \<and>
      ra_initialized R (fst (ra_apply_config_change R r change)) \<and>
      ra_initialized R (fst (ra_get_ready R r)) \<and>
      ra_initialized R (fst (ra_advance_ready R r ready)) \<and>
      ra_initialized R (fst (ra_advance_apply R r)) \<and>
      ra_initialized R (fst (ra_report_snapshot R r replica_id status))"
    and initialized_reads: "ra_initialized R r \<Longrightarrow>
      (\<exists>st. ra_state R r = Ok st) \<and> (\<exists>b. ra_has_ready R r = Ok b) \<and> (\<exists>store. ra_store R r = Ok store)"
    and leader_initialized: "ra_leader R r \<Longrightarrow> ra_initialized R r"

section \<open>RaftSimple keeps the contract\<close>

lemma mut_raft_node_initialized:
  "simple_initialized r \<Longrightarrow> simple_initialized (fst (mut_raft_node r f))"
  by (auto simp: simple_initialized_def mut_raft_node_def raft_node_def split_def Let_def)

lemmas simple_calls =
  simple_make_step_def simple_make_proposal_def simple_make_config_change_proposal_def simple_make_tick_def
  simple_apply_config_change_def simple_advance_apply_def simple_report_snapshot_def

lemma simple_get_ready_initialized:
  "simple_initialized r \<Longrightarrow> simple_initialized (fst (simple_get_ready N r))"
  by (auto simp: simple_initialized_def simple_get_ready_def raft_node_def split_def Let_def)

lemma simple_advance_ready_initialized:
  "simple_initialized r \<Longrightarrow> simple_initialized (fst (simple_advance_ready N r ready))"
proof -
  assume "simple_initialized r"
  then have "simple_initialized (r\<lparr>rp_raft_ready := m\<rparr>)" for m
    by (simp add: simple_initialized_def)
  then show ?thesis
    by (cases "hm_get (rp_raft_ready r) (rd_number ready)")
      (auto simp: simple_advance_ready_def Let_def intro: mut_raft_node_initialized)
qed

lemma simple_init_initialized:
  "simple_init N r i config b leader store = (r', Ok ()) \<Longrightarrow> simple_initialized r'"
  by (auto simp: simple_init_def simple_initialized_def result_simps split_def Let_def)

interpretation simple: raft_contract "raft_simple_ops N" for N :: "('n, 'd) raw_node"
proof unfold_locales
  fix r r' :: "('n, 'd) raft_simple" and i config b leader store
  show "ra_init (raft_simple_ops N) r i config b leader store = (r', Ok ()) \<Longrightarrow> ra_initialized (raft_simple_ops N) r'"
    by (simp add: raft_simple_ops_def simple_init_initialized)
next
  fix r :: "('n, 'd) raft_simple" and store message proposal change ready replica_id status
  assume "ra_initialized (raft_simple_ops N) r"
  then have "simple_initialized r"
    by (simp add: raft_simple_ops_def)
  moreover from this have "simple_initialized (simple_set_store N r store)"
    by (auto simp: simple_initialized_def simple_set_store_def)
  ultimately show "ra_initialized (raft_simple_ops N) (ra_set_store (raft_simple_ops N) r store) \<and>
      ra_initialized (raft_simple_ops N) (fst (ra_make_step (raft_simple_ops N) r message)) \<and>
      ra_initialized (raft_simple_ops N) (fst (ra_make_proposal (raft_simple_ops N) r proposal)) \<and>
      ra_initialized (raft_simple_ops N) (fst (ra_make_config_change_proposal (raft_simple_ops N) r change)) \<and>
      ra_initialized (raft_simple_ops N) (fst (ra_make_tick (raft_simple_ops N) r)) \<and>
      ra_initialized (raft_simple_ops N) (fst (ra_apply_config_change (raft_simple_ops N) r change)) \<and>
      ra_initialized (raft_simple_ops N) (fst (ra_get_ready (raft_simple_ops N) r)) \<and>
      ra_initialized (raft_simple_ops N) (fst (ra_advance_ready (raft_simple_ops N) r ready)) \<and>
      ra_initialized (raft_simple_ops N) (fst (ra_advance_apply (raft_simple_ops N) r)) \<and>
      ra_initialized (raft_simple_ops N) (fst (ra_report_snapshot (raft_simple_ops N) r replica_id status))"
    by (simp add: raft_simple_ops_def simple_calls mut_raft_node_initialized simple_get_ready_initialized
      simple_advance_ready_initialized)
qed (auto simp: raft_simple_ops_def simple_state_def simple_has_ready_def simple_store_def simple_leader_def
    simple_initialized_def raft_node_def split_def Let_def split: option.splits)

text \<open>
  A ready is handed out under its number and can be advanced once; a second time, or a ready that
  was never handed out, panics.
\<close>

lemma ready_advances_once:
  assumes "simple_get_ready N r = (r1, Ok ready)" "rd_number ready' = rd_number ready"
  shows "\<exists>r2 light. simple_advance_ready N r1 ready' = (r2, Ok light) \<and> snd (simple_advance_ready N r2 ready') = Panic"
  using assms
  by (auto simp: simple_get_ready_def simple_advance_ready_def mut_raft_node_def raft_node_def result_simps
    Let_def split_def apsnd_def map_laws)

end
