(* ===== verification/Handshake.thy ===== *)
theory Handshake
  imports Endpoint
begin

text \<open>
  The handshake between two replicas, \<open>src/runtime/src/handshake.rs\<close>, with the traits and default
  implementations it uses: \<open>attestation.rs\<close>, \<open>oak_handshaker.rs\<close> and \<open>encryptor.rs\<close>.

  A trait object is a state together with a record of the trait's methods, so the sessions are
  modelled for every attestation and every key exchange, and the default implementations are
  instances. The Oak library is a parameter (\<open>oak_lib\<close>). A session that completed has
  accepted the attestation of its peer, started the key exchange with the attested key and derived
  its session keys from that exchange.
\<close>

section \<open>Attestation and key exchange traits\<close>

datatype handshake_error =
    UnexpectedMessage
  | NoOutgoingMessage
  | NoAttestationResults
  | NoSessionKeys
  | ProviderError string

record session_keys =
  sk_request_key :: bytes
  sk_response_key :: bytes

record extracted_evidence =
  ee_encryption_public_key :: bytes
  ee_signing_public_key :: bytes
  ee_evidence_values :: "bytes option"

record attestation_results =
  ar_status :: int
  ar_reason :: string
  ar_encryption_public_key :: bytes
  ar_signing_public_key :: bytes
  ar_extracted_evidence :: "extracted_evidence option"

record 'a attestation_ops =
  at_results :: "'a \<Rightarrow> attestation_results option"
  at_put :: "'a \<Rightarrow> bytes \<Rightarrow> 'a \<times> (unit option, handshake_error) result"
  at_get :: "'a \<Rightarrow> 'a \<times> (bytes option, handshake_error) result"

record 'h oak_handshaker_ops =
  oh_init :: "'h \<Rightarrow> bytes \<Rightarrow> ('h, handshake_error) result"
  oh_put :: "'h \<Rightarrow> bytes \<Rightarrow> 'h \<times> (unit option, handshake_error) result"
  oh_get :: "'h \<Rightarrow> 'h \<times> (bytes option, handshake_error) result"
  oh_derive :: "'h \<Rightarrow> session_keys option"

section \<open>Encryptor\<close>

record default_encryptor =
  de_session_keys :: session_keys

definition default_encryptor_new :: "session_keys \<Rightarrow> default_encryptor" where
  "default_encryptor_new keys = \<lparr>de_session_keys = keys\<rparr>"

definition encrypt :: "default_encryptor \<Rightarrow> bytes \<Rightarrow> (bytes, handshake_error) result" where
  "encrypt e plaintext = Ok plaintext"

definition decrypt :: "default_encryptor \<Rightarrow> bytes \<Rightarrow> (bytes, handshake_error) result" where
  "decrypt e ciphertext = Ok ciphertext"

section \<open>Sessions\<close>

datatype role = Initiator | Recipient

datatype hs_state = HsUnknown | HsAttesting | HsKeyExchange | HsCompleted | HsFailed

text \<open>\<open>ClientHandshakeSession\<close> and \<open>ServerHandshakeSession\<close> have the same fields.\<close>

record ('a, 'h) handshake_session =
  hs_self_replica_id :: nat
  hs_peer_replica_id :: nat
  hs_attestation :: "'a option"
  hs_oak_handshaker :: "'h option"
  hs_state :: hs_state
  hs_session_keys :: session_keys

definition default_session_keys :: session_keys where
  "default_session_keys = \<lparr>sk_request_key = [], sk_response_key = []\<rparr>"

definition session_new :: "nat \<Rightarrow> nat \<Rightarrow> 'a \<Rightarrow> 'h \<Rightarrow> ('a, 'h) handshake_session" where
  "session_new self peer a h =
     \<lparr>hs_self_replica_id = self, hs_peer_replica_id = peer, hs_attestation = Some a,
      hs_oak_handshaker = Some h, hs_state = HsUnknown, hs_session_keys = default_session_keys\<rparr>"

definition transition_to_failed :: "('a, 'h) handshake_session \<Rightarrow> ('a, 'h) handshake_session" where
  "transition_to_failed s = s\<lparr>hs_state := HsFailed\<rparr>"

text \<open>\<open>.inspect_err(|err| self.transition_to_failed(err))\<close>.\<close>

fun inspect_err :: "('s \<Rightarrow> 's) \<Rightarrow> 's \<times> ('b, 'e) result \<Rightarrow> 's \<times> ('b, 'e) result" where
  "inspect_err f (s, Err e) = (f s, Err e)"
| "inspect_err f (s, r) = (s, r)"

text \<open>The patterns on incoming messages.\<close>

fun attest_response_of :: "secure_channel_handshake \<Rightarrow> bytes option" where
  "attest_response_of m = (case sch_encryption m of
     Some (Some (RecipientResponse (Some (AttestResponse r)))) \<Rightarrow> Some r | _ \<Rightarrow> None)"

fun handshake_response_of :: "secure_channel_handshake \<Rightarrow> bytes option" where
  "handshake_response_of m = (case sch_encryption m of
     Some (Some (RecipientResponse (Some (HandshakeResponse r)))) \<Rightarrow> Some r | _ \<Rightarrow> None)"

fun attest_request_of :: "secure_channel_handshake \<Rightarrow> bytes option" where
  "attest_request_of m = (case sch_encryption m of
     Some (Some (InitiatorRequest (Some (AttestRequest r)))) \<Rightarrow> Some r | _ \<Rightarrow> None)"

fun handshake_request_of :: "secure_channel_handshake \<Rightarrow> bytes option" where
  "handshake_request_of m = (case sch_encryption m of
     Some (Some (InitiatorRequest (Some (HandshakeRequest r)))) \<Rightarrow> Some r | _ \<Rightarrow> None)"

section \<open>Client session\<close>

definition client_create_handshake ::
  "('a, 'h) handshake_session \<Rightarrow> initiator_request \<Rightarrow> secure_channel_handshake" where
  "client_create_handshake s req =
     \<lparr>sch_recipient_replica_id = hs_peer_replica_id s, sch_sender_replica_id = hs_self_replica_id s,
      sch_encryption = Some (Some (InitiatorRequest (Some req)))\<rparr>"

definition get_attest_request ::
  "'a attestation_ops \<Rightarrow> ('a, 'h) handshake_session \<Rightarrow>
   ('a, 'h) handshake_session \<times> (secure_channel_handshake, handshake_error) result" where
  "get_attest_request A s = lift_st s (unwrap (hs_attestation s)) (\<lambda>a.
     let (a', r) = at_get A a; s' = s\<lparr>hs_attestation := Some a'\<rparr> in
     lift_st s' r (\<lambda>m. case m of
       Some req \<Rightarrow> (s', Ok (client_create_handshake s' (AttestRequest req)))
     | None \<Rightarrow> (s', Err NoOutgoingMessage)))"

text \<open>Both roles consume the attestation and hand the peer's key to the key exchange.\<close>

definition init_oak_handshaker ::
  "'a attestation_ops \<Rightarrow> 'h oak_handshaker_ops \<Rightarrow> ('a, 'h) handshake_session \<Rightarrow>
   ('a, 'h) handshake_session \<times> (unit, handshake_error) result" where
  "init_oak_handshaker A H s =
     (let s' = s\<lparr>hs_attestation := None\<rparr> in
      lift_st s' (unwrap (hs_attestation s)) (\<lambda>a.
      lift_st s' (ok_or NoAttestationResults (at_results A a)) (\<lambda>res.
      lift_st s' (unwrap (hs_oak_handshaker s)) (\<lambda>h.
      lift_st s' (unwrap (ar_extracted_evidence res)) (\<lambda>ev.
      lift_st s' (oh_init H h (ee_encryption_public_key ev)) (\<lambda>h'.
      (s'\<lparr>hs_oak_handshaker := Some h'\<rparr>, Ok ())))))))"

text \<open>Both roles consume the key exchange and keep its session keys.\<close>

definition init_session_keys ::
  "'h oak_handshaker_ops \<Rightarrow> ('a, 'h) handshake_session \<Rightarrow>
   ('a, 'h) handshake_session \<times> (unit, handshake_error) result" where
  "init_session_keys H s =
     (let s' = s\<lparr>hs_oak_handshaker := None\<rparr> in
      lift_st s' (unwrap (hs_oak_handshaker s)) (\<lambda>h.
      lift_st s' (ok_or NoSessionKeys (oh_derive H h)) (\<lambda>keys.
      (s'\<lparr>hs_session_keys := keys\<rparr>, Ok ()))))"

definition handle_attest_response ::
  "'a attestation_ops \<Rightarrow> 'h oak_handshaker_ops \<Rightarrow> ('a, 'h) handshake_session \<Rightarrow> bytes \<Rightarrow>
   ('a, 'h) handshake_session \<times> (unit, handshake_error) result" where
  "handle_attest_response A H s resp = lift_st s (unwrap (hs_attestation s)) (\<lambda>a.
     let (a', r) = at_put A a resp; s' = s\<lparr>hs_attestation := Some a'\<rparr> in
     lift_st s' r (\<lambda>_. init_oak_handshaker A H s'))"

definition get_handshake_request ::
  "'h oak_handshaker_ops \<Rightarrow> ('a, 'h) handshake_session \<Rightarrow>
   ('a, 'h) handshake_session \<times> (secure_channel_handshake, handshake_error) result" where
  "get_handshake_request H s = lift_st s (unwrap (hs_oak_handshaker s)) (\<lambda>h.
     let (h', r) = oh_get H h; s' = s\<lparr>hs_oak_handshaker := Some h'\<rparr> in
     lift_st s' r (\<lambda>m. case m of
       Some req \<Rightarrow> (s', Ok (client_create_handshake s' (HandshakeRequest req)))
     | None \<Rightarrow> (s', Err NoOutgoingMessage)))"

definition handle_handshake_response ::
  "'h oak_handshaker_ops \<Rightarrow> ('a, 'h) handshake_session \<Rightarrow> bytes \<Rightarrow>
   ('a, 'h) handshake_session \<times> (unit, handshake_error) result" where
  "handle_handshake_response H s resp = lift_st s (unwrap (hs_oak_handshaker s)) (\<lambda>h.
     let (h', r) = oh_put H h resp; s' = s\<lparr>hs_oak_handshaker := Some h'\<rparr> in
     lift_st s' r (\<lambda>_. init_session_keys H s'))"

definition client_process_message ::
  "'a attestation_ops \<Rightarrow> 'h oak_handshaker_ops \<Rightarrow> ('a, 'h) handshake_session \<Rightarrow>
   secure_channel_handshake \<Rightarrow> ('a, 'h) handshake_session \<times> (unit, handshake_error) result" where
  "client_process_message A H s m = (case hs_state s of
     HsUnknown \<Rightarrow> (transition_to_failed s, Err UnexpectedMessage)
   | HsAttesting \<Rightarrow> (case attest_response_of m of
       Some r \<Rightarrow> try_st (inspect_err transition_to_failed (handle_attest_response A H s r))
         (\<lambda>s' _. (s'\<lparr>hs_state := HsKeyExchange\<rparr>, Ok ()))
     | None \<Rightarrow> (transition_to_failed s, Err UnexpectedMessage))
   | HsKeyExchange \<Rightarrow> (case handshake_response_of m of
       Some r \<Rightarrow> try_st (inspect_err transition_to_failed (handle_handshake_response H s r))
         (\<lambda>s' _. (s'\<lparr>hs_state := HsCompleted\<rparr>, Ok ()))
     | None \<Rightarrow> (transition_to_failed s, Err UnexpectedMessage))
   | HsCompleted \<Rightarrow> (s, Ok ())
   | HsFailed \<Rightarrow> (s, Ok ()))"

definition client_take_out_message ::
  "'a attestation_ops \<Rightarrow> 'h oak_handshaker_ops \<Rightarrow> ('a, 'h) handshake_session \<Rightarrow>
   ('a, 'h) handshake_session \<times> (secure_channel_handshake option, handshake_error) result" where
  "client_take_out_message A H s = (case hs_state s of
     HsUnknown \<Rightarrow> try_st (inspect_err transition_to_failed (get_attest_request A s))
       (\<lambda>s' req. (s'\<lparr>hs_state := HsAttesting\<rparr>, Ok (Some req)))
   | HsAttesting \<Rightarrow> (s, Ok None)
   | HsKeyExchange \<Rightarrow> try_st (inspect_err transition_to_failed (get_handshake_request H s))
       (\<lambda>s' req. (s', Ok (Some req)))
   | HsCompleted \<Rightarrow> (s, Ok None)
   | HsFailed \<Rightarrow> (s, Ok None))"

section \<open>Server session\<close>

definition server_create_handshake ::
  "('a, 'h) handshake_session \<Rightarrow> recipient_response \<Rightarrow> secure_channel_handshake" where
  "server_create_handshake s resp =
     \<lparr>sch_recipient_replica_id = hs_peer_replica_id s, sch_sender_replica_id = hs_self_replica_id s,
      sch_encryption = Some (Some (RecipientResponse (Some resp)))\<rparr>"

definition handle_attest_request ::
  "'a attestation_ops \<Rightarrow> ('a, 'h) handshake_session \<Rightarrow> bytes \<Rightarrow>
   ('a, 'h) handshake_session \<times> (unit, handshake_error) result" where
  "handle_attest_request A s req = lift_st s (unwrap (hs_attestation s)) (\<lambda>a.
     let (a', r) = at_put A a req; s' = s\<lparr>hs_attestation := Some a'\<rparr> in
     lift_st s' r (\<lambda>_. (s', Ok ())))"

definition get_attest_response ::
  "'a attestation_ops \<Rightarrow> ('a, 'h) handshake_session \<Rightarrow>
   ('a, 'h) handshake_session \<times> (secure_channel_handshake, handshake_error) result" where
  "get_attest_response A s = lift_st s (unwrap (hs_attestation s)) (\<lambda>a.
     let (a', r) = at_get A a; s' = s\<lparr>hs_attestation := Some a'\<rparr> in
     lift_st s' r (\<lambda>m. case m of
       Some resp \<Rightarrow> (s', Ok (server_create_handshake s' (AttestResponse resp)))
     | None \<Rightarrow> (s', Err NoOutgoingMessage)))"

definition handle_handshake_request ::
  "'h oak_handshaker_ops \<Rightarrow> ('a, 'h) handshake_session \<Rightarrow> bytes \<Rightarrow>
   ('a, 'h) handshake_session \<times> (unit, handshake_error) result" where
  "handle_handshake_request H s req = lift_st s (unwrap (hs_oak_handshaker s)) (\<lambda>h.
     let (h', r) = oh_put H h req; s' = s\<lparr>hs_oak_handshaker := Some h'\<rparr> in
     lift_st s' r (\<lambda>_. (s', Ok ())))"

definition get_handshake_response ::
  "'h oak_handshaker_ops \<Rightarrow> ('a, 'h) handshake_session \<Rightarrow>
   ('a, 'h) handshake_session \<times> (secure_channel_handshake, handshake_error) result" where
  "get_handshake_response H s = lift_st s (unwrap (hs_oak_handshaker s)) (\<lambda>h.
     let (h', r) = oh_get H h; s' = s\<lparr>hs_oak_handshaker := Some h'\<rparr> in
     lift_st s' r (\<lambda>m. case m of
       Some resp \<Rightarrow> (s', Ok (server_create_handshake s' (HandshakeResponse resp)))
     | None \<Rightarrow> (s', Err NoOutgoingMessage)))"

definition server_process_message ::
  "'a attestation_ops \<Rightarrow> 'h oak_handshaker_ops \<Rightarrow> ('a, 'h) handshake_session \<Rightarrow>
   secure_channel_handshake \<Rightarrow> ('a, 'h) handshake_session \<times> (unit, handshake_error) result" where
  "server_process_message A H s m = (case hs_state s of
     HsUnknown \<Rightarrow> (case attest_request_of m of
       Some r \<Rightarrow> try_st (inspect_err transition_to_failed (handle_attest_request A s r))
         (\<lambda>s' _. (s'\<lparr>hs_state := HsAttesting\<rparr>, Ok ()))
     | None \<Rightarrow> (transition_to_failed s, Err UnexpectedMessage))
   | HsAttesting \<Rightarrow> (transition_to_failed s, Err UnexpectedMessage)
   | HsKeyExchange \<Rightarrow> (case handshake_request_of m of
       Some r \<Rightarrow> inspect_err transition_to_failed (handle_handshake_request H s r)
     | None \<Rightarrow> (transition_to_failed s, Err UnexpectedMessage))
   | HsCompleted \<Rightarrow> (s, Ok ())
   | HsFailed \<Rightarrow> (s, Ok ()))"

definition server_take_out_message ::
  "'a attestation_ops \<Rightarrow> 'h oak_handshaker_ops \<Rightarrow> ('a, 'h) handshake_session \<Rightarrow>
   ('a, 'h) handshake_session \<times> (secure_channel_handshake option, handshake_error) result" where
  "server_take_out_message A H s = (case hs_state s of
     HsUnknown \<Rightarrow> (s, Ok None)
   | HsAttesting \<Rightarrow> try_st (inspect_err transition_to_failed (get_attest_response A s)) (\<lambda>s1 resp.
       try_st (inspect_err transition_to_failed (init_oak_handshaker A H s1)) (\<lambda>s2 _.
       (s2\<lparr>hs_state := HsKeyExchange\<rparr>, Ok (Some resp))))
   | HsKeyExchange \<Rightarrow> try_st (inspect_err transition_to_failed (get_handshake_response H s)) (\<lambda>s1 resp.
       try_st (inspect_err transition_to_failed (init_session_keys H s1)) (\<lambda>s2 _.
       (s2\<lparr>hs_state := HsCompleted\<rparr>, Ok (Some resp))))
   | HsCompleted \<Rightarrow> (s, Ok None)
   | HsFailed \<Rightarrow> (s, Ok None))"

section \<open>Both kinds of session\<close>

datatype ('a, 'h, 'b, 'k) dyn_session =
    ClientHandshakeSession "('a, 'h) handshake_session"
  | ServerHandshakeSession "('b, 'k) handshake_session"

text \<open>\<open>DefaultHandshakeSessionProvider\<close>: the two factories, as initial states with their methods.\<close>

record ('a, 'h, 'b, 'k) session_provider =
  pr_client_attestation :: "'a attestation_ops"
  pr_client_attestation_new :: 'a
  pr_client_handshaker :: "'h oak_handshaker_ops"
  pr_client_handshaker_new :: 'h
  pr_server_attestation :: "'b attestation_ops"
  pr_server_attestation_new :: 'b
  pr_server_handshaker :: "'k oak_handshaker_ops"
  pr_server_handshaker_new :: 'k

fun provider_get ::
  "('a, 'h, 'b, 'k) session_provider \<Rightarrow> nat \<Rightarrow> nat \<Rightarrow> role \<Rightarrow> ('a, 'h, 'b, 'k) dyn_session" where
  "provider_get P self peer Initiator =
     ClientHandshakeSession (session_new self peer (pr_client_attestation_new P) (pr_client_handshaker_new P))"
| "provider_get P self peer Recipient =
     ServerHandshakeSession (session_new self peer (pr_server_attestation_new P) (pr_server_handshaker_new P))"

fun process_message ::
  "('a, 'h, 'b, 'k) session_provider \<Rightarrow> ('a, 'h, 'b, 'k) dyn_session \<Rightarrow> secure_channel_handshake \<Rightarrow>
   ('a, 'h, 'b, 'k) dyn_session \<times> (unit, handshake_error) result" where
  "process_message P (ClientHandshakeSession s) m =
     apfst ClientHandshakeSession
       (client_process_message (pr_client_attestation P) (pr_client_handshaker P) s m)"
| "process_message P (ServerHandshakeSession s) m =
     apfst ServerHandshakeSession
       (server_process_message (pr_server_attestation P) (pr_server_handshaker P) s m)"

fun take_out_message ::
  "('a, 'h, 'b, 'k) session_provider \<Rightarrow> ('a, 'h, 'b, 'k) dyn_session \<Rightarrow>
   ('a, 'h, 'b, 'k) dyn_session \<times> (secure_channel_handshake option, handshake_error) result" where
  "take_out_message P (ClientHandshakeSession s) =
     apfst ClientHandshakeSession
       (client_take_out_message (pr_client_attestation P) (pr_client_handshaker P) s)"
| "take_out_message P (ServerHandshakeSession s) =
     apfst ServerHandshakeSession
       (server_take_out_message (pr_server_attestation P) (pr_server_handshaker P) s)"

fun is_completed :: "('a, 'h, 'b, 'k) dyn_session \<Rightarrow> bool" where
  "is_completed (ClientHandshakeSession s) = (hs_state s = HsCompleted)"
| "is_completed (ServerHandshakeSession s) = (hs_state s = HsCompleted)"

fun get_encryptor :: "('a, 'h, 'b, 'k) dyn_session \<Rightarrow> default_encryptor option" where
  "get_encryptor (ClientHandshakeSession s) =
     (if hs_state s \<noteq> HsCompleted then None else Some (default_encryptor_new (hs_session_keys s)))"
| "get_encryptor (ServerHandshakeSession s) =
     (if hs_state s \<noteq> HsCompleted then None else Some (default_encryptor_new (hs_session_keys s)))"

section \<open>Default attestation and key exchange\<close>

text \<open>What the default implementations call of the Oak library.\<close>

record ('p, 'q, 'c, 'd) oak_lib =
  ol_client_attestation_provider :: 'p
  ol_server_attestation_provider :: 'q
  ol_client_handshaker_create :: "bytes \<Rightarrow> 'c option"
  ol_server_handshaker_new :: "bytes \<Rightarrow> 'd"

definition default_attestation_results :: attestation_results where
  "default_attestation_results =
     \<lparr>ar_status = 0, ar_reason = '''', ar_encryption_public_key = [], ar_signing_public_key = [],
      ar_extracted_evidence = Some
        \<lparr>ee_encryption_public_key = [], ee_signing_public_key = [], ee_evidence_values = None\<rparr>\<rparr>"

text \<open>Empty Oak messages serialize to no bytes.\<close>

definition default_client_attestation :: "'p attestation_ops" where
  "default_client_attestation =
     \<lparr>at_results = \<lambda>a. Some default_attestation_results,
      at_put = \<lambda>a m. (a, Ok (Some ())),
      at_get = \<lambda>a. (a, Ok (Some []))\<rparr>"

definition default_server_attestation :: "'q attestation_ops" where
  "default_server_attestation =
     \<lparr>at_results = \<lambda>a. Some default_attestation_results,
      at_put = \<lambda>a m. (a, Ok (Some ())),
      at_get = \<lambda>a. (a, Ok (Some []))\<rparr>"

definition default_oak_client_handshaker :: "('p, 'q, 'c, 'd) oak_lib \<Rightarrow> 'c option oak_handshaker_ops" where
  "default_oak_client_handshaker L =
     \<lparr>oh_init = \<lambda>h pk. and_then (unwrap (ol_client_handshaker_create L pk)) (\<lambda>c. Ok (Some c)),
      oh_put = \<lambda>h m. (h, Ok (Some ())),
      oh_get = \<lambda>h. (h, Ok (Some [])),
      oh_derive = \<lambda>h. Some \<lparr>sk_request_key = [], sk_response_key = []\<rparr>\<rparr>"

definition default_oak_server_handshaker :: "('p, 'q, 'c, 'd) oak_lib \<Rightarrow> 'd option oak_handshaker_ops" where
  "default_oak_server_handshaker L =
     \<lparr>oh_init = \<lambda>h pk. Ok (Some (ol_server_handshaker_new L pk)),
      oh_put = \<lambda>h m. (h, Ok (Some ())),
      oh_get = \<lambda>h. (h, Ok (Some [])),
      oh_derive = \<lambda>h. Some \<lparr>sk_request_key = [], sk_response_key = []\<rparr>\<rparr>"

definition default_provider ::
  "('p, 'q, 'c, 'd) oak_lib \<Rightarrow> ('p, 'c option, 'q, 'd option) session_provider" where
  "default_provider L =
     \<lparr>pr_client_attestation = default_client_attestation,
      pr_client_attestation_new = ol_client_attestation_provider L,
      pr_client_handshaker = default_oak_client_handshaker L, pr_client_handshaker_new = None,
      pr_server_attestation = default_server_attestation,
      pr_server_attestation_new = ol_server_attestation_provider L,
      pr_server_handshaker = default_oak_server_handshaker L, pr_server_handshaker_new = None\<rparr>"

section \<open>The interface of sessions\<close>

text \<open>The traits \<open>HandshakeSessionProvider\<close>, \<open>HandshakeSession\<close> and \<open>Encryptor\<close>.\<close>

record ('s, 'e) session_ops =
  so_get :: "nat \<Rightarrow> nat \<Rightarrow> role \<Rightarrow> 's"
  so_process :: "'s \<Rightarrow> secure_channel_handshake \<Rightarrow> 's \<times> (unit, handshake_error) result"
  so_take_out :: "'s \<Rightarrow> 's \<times> (secure_channel_handshake option, handshake_error) result"
  so_is_completed :: "'s \<Rightarrow> bool"
  so_get_encryptor :: "'s \<Rightarrow> 'e option"
  so_encrypt :: "'e \<Rightarrow> bytes \<Rightarrow> (bytes, handshake_error) result"
  so_decrypt :: "'e \<Rightarrow> bytes \<Rightarrow> (bytes, handshake_error) result"

definition provider_ops ::
  "('a, 'h, 'b, 'k) session_provider \<Rightarrow> (('a, 'h, 'b, 'k) dyn_session, default_encryptor) session_ops" where
  "provider_ops P =
     \<lparr>so_get = provider_get P, so_process = process_message P, so_take_out = take_out_message P,
      so_is_completed = is_completed, so_get_encryptor = get_encryptor,
      so_encrypt = encrypt, so_decrypt = decrypt\<rparr>"

section \<open>Verified peers\<close>

text \<open>The attestation in state \<open>a\<close> accepts a peer with the public key \<open>pk\<close>.\<close>

definition attested_key :: "'a attestation_ops \<Rightarrow> 'a \<Rightarrow> bytes \<Rightarrow> bool" where
  "attested_key A a pk =
     (\<exists>res ev. at_results A a = Some res \<and> ar_extracted_evidence res = Some ev \<and>
        ee_encryption_public_key ev = pk)"

text \<open>The client sent its evidence, accepted an answer and obtained the key of the peer.\<close>

definition client_attested :: "'a attestation_ops \<Rightarrow> 'a \<Rightarrow> bytes \<Rightarrow> bool" where
  "client_attested A a0 pk =
     (\<exists>a req m a' x. at_get A a0 = (a, Ok (Some req)) \<and> at_put A a m = (a', Ok x) \<and> attested_key A a' pk)"

definition server_attested :: "'a attestation_ops \<Rightarrow> 'a \<Rightarrow> bytes \<Rightarrow> bool" where
  "server_attested A a0 pk =
     (\<exists>m a x a' resp. at_put A a0 m = (a, Ok x) \<and> at_get A a = (a', Ok (Some resp)) \<and> attested_key A a' pk)"

text \<open>A key exchange with the key \<open>pk\<close> in which requests were produced.\<close>

inductive key_exchange :: "'h oak_handshaker_ops \<Rightarrow> 'h \<Rightarrow> bytes \<Rightarrow> 'h \<Rightarrow> bool" for H h0 pk where
  start: "oh_init H h0 pk = Ok h \<Longrightarrow> key_exchange H h0 pk h"
| request: "key_exchange H h0 pk h \<Longrightarrow> oh_get H h = (h', Ok (Some req)) \<Longrightarrow> key_exchange H h0 pk h'"

definition client_keys :: "'h oak_handshaker_ops \<Rightarrow> 'h \<Rightarrow> bytes \<Rightarrow> session_keys \<Rightarrow> bool" where
  "client_keys H h0 pk keys =
     (\<exists>h m h' x. key_exchange H h0 pk h \<and> oh_put H h m = (h', Ok x) \<and> oh_derive H h' = Some keys)"

definition server_keys :: "'h oak_handshaker_ops \<Rightarrow> 'h \<Rightarrow> bytes \<Rightarrow> session_keys \<Rightarrow> bool" where
  "server_keys H h0 pk keys =
     (\<exists>h m h1 x h2 resp. oh_init H h0 pk = Ok h \<and> oh_put H h m = (h1, Ok x) \<and>
        oh_get H h1 = (h2, Ok (Some resp)) \<and> oh_derive H h2 = Some keys)"

fun verified_keys :: "('a, 'h, 'b, 'k) session_provider \<Rightarrow> role \<Rightarrow> session_keys \<Rightarrow> bool" where
  "verified_keys P Initiator keys =
     (\<exists>pk. client_attested (pr_client_attestation P) (pr_client_attestation_new P) pk \<and>
        client_keys (pr_client_handshaker P) (pr_client_handshaker_new P) pk keys)"
| "verified_keys P Recipient keys =
     (\<exists>pk. server_attested (pr_server_attestation P) (pr_server_attestation_new P) pk \<and>
        server_keys (pr_server_handshaker P) (pr_server_handshaker_new P) pk keys)"

text \<open>
  The sessions that the communication module holds: after creation, after the first message was
  taken out, and after each turn in which a message is processed and the answer taken out.
\<close>

inductive session_reach ::
  "('a, 'h, 'b, 'k) session_provider \<Rightarrow> nat \<Rightarrow> nat \<Rightarrow> role \<Rightarrow> ('a, 'h, 'b, 'k) dyn_session \<Rightarrow> bool"
  for P self peer r where
  fresh: "session_reach P self peer r (provider_get P self peer r)"
| opened: "take_out_message P (provider_get P self peer r) = (s, Ok out) \<Longrightarrow> session_reach P self peer r s"
| turn: "session_reach P self peer r s \<Longrightarrow> process_message P s m = (s1, Ok ()) \<Longrightarrow>
    take_out_message P s1 = (s2, Ok out) \<Longrightarrow> session_reach P self peer r s2"

text \<open>The replicas at the two ends of a session.\<close>

fun session_ends :: "('a, 'h, 'b, 'k) dyn_session \<Rightarrow> nat \<times> nat" where
  "session_ends (ClientHandshakeSession s) = (hs_self_replica_id s, hs_peer_replica_id s)"
| "session_ends (ServerHandshakeSession s) = (hs_self_replica_id s, hs_peer_replica_id s)"

fun message_ends :: "secure_channel_handshake \<Rightarrow> nat \<times> nat" where
  "message_ends m = (sch_sender_replica_id m, sch_recipient_replica_id m)"

section \<open>Invariant of sessions\<close>

definition client_inv :: "'a attestation_ops \<Rightarrow> 'h oak_handshaker_ops \<Rightarrow> 'a \<Rightarrow> 'h \<Rightarrow>
  ('a, 'h) handshake_session \<Rightarrow> bool" where
  "client_inv A H a0 h0 s = (case hs_state s of
     HsUnknown \<Rightarrow> hs_attestation s = Some a0 \<and> hs_oak_handshaker s = Some h0
   | HsAttesting \<Rightarrow> (\<exists>a req. at_get A a0 = (a, Ok (Some req)) \<and> hs_attestation s = Some a) \<and>
       hs_oak_handshaker s = Some h0
   | HsKeyExchange \<Rightarrow> (\<exists>pk h. client_attested A a0 pk \<and> key_exchange H h0 pk h \<and> hs_oak_handshaker s = Some h)
   | HsCompleted \<Rightarrow> (\<exists>pk. client_attested A a0 pk \<and> client_keys H h0 pk (hs_session_keys s))
   | HsFailed \<Rightarrow> True)"

text \<open>The server answers every message, so between turns it never waits with an answer.\<close>

definition server_inv :: "'a attestation_ops \<Rightarrow> 'h oak_handshaker_ops \<Rightarrow> 'a \<Rightarrow> 'h \<Rightarrow>
  ('a, 'h) handshake_session \<Rightarrow> bool" where
  "server_inv A H a0 h0 s = (case hs_state s of
     HsUnknown \<Rightarrow> hs_attestation s = Some a0 \<and> hs_oak_handshaker s = Some h0
   | HsAttesting \<Rightarrow> False
   | HsKeyExchange \<Rightarrow> (\<exists>pk h. server_attested A a0 pk \<and> oh_init H h0 pk = Ok h \<and> hs_oak_handshaker s = Some h)
   | HsCompleted \<Rightarrow> (\<exists>pk. server_attested A a0 pk \<and> server_keys H h0 pk (hs_session_keys s))
   | HsFailed \<Rightarrow> True)"

fun session_inv :: "('a, 'h, 'b, 'k) session_provider \<Rightarrow> role \<Rightarrow> ('a, 'h, 'b, 'k) dyn_session \<Rightarrow> bool" where
  "session_inv P Initiator (ClientHandshakeSession s) =
     client_inv (pr_client_attestation P) (pr_client_handshaker P)
       (pr_client_attestation_new P) (pr_client_handshaker_new P) s"
| "session_inv P Recipient (ServerHandshakeSession s) =
     server_inv (pr_server_attestation P) (pr_server_handshaker P)
       (pr_server_attestation_new P) (pr_server_handshaker_new P) s"
| "session_inv P _ _ = False"

definition genuine_encryptor :: "('a, 'h, 'b, 'k) session_provider \<Rightarrow> role \<Rightarrow> default_encryptor \<Rightarrow> bool" where
  "genuine_encryptor P r e = verified_keys P r (de_session_keys e)"

text \<open>An Oak library whose key exchange is always created.\<close>

definition demo_oak :: "(unit, unit, unit, unit) oak_lib" where
  "demo_oak =
     \<lparr>ol_client_attestation_provider = (), ol_server_attestation_provider = (),
      ol_client_handshaker_create = (\<lambda>pk. Some ()), ol_server_handshaker_new = (\<lambda>pk. ())\<rparr>"

text \<open>The sessions of the default implementations, which derive empty keys.\<close>

definition session_at :: "nat \<Rightarrow> nat \<Rightarrow> 'a option \<Rightarrow> 'h option \<Rightarrow> hs_state \<Rightarrow> ('a, 'h) handshake_session" where
  "session_at self peer a h st =
     \<lparr>hs_self_replica_id = self, hs_peer_replica_id = peer, hs_attestation = a, hs_oak_handshaker = h,
      hs_state = st, hs_session_keys = default_session_keys\<rparr>"

definition client_handshake :: "nat \<Rightarrow> nat \<Rightarrow> initiator_request \<Rightarrow> secure_channel_handshake" where
  "client_handshake self peer req =
     \<lparr>sch_recipient_replica_id = peer, sch_sender_replica_id = self,
      sch_encryption = Some (Some (InitiatorRequest (Some req)))\<rparr>"

definition server_handshake :: "nat \<Rightarrow> nat \<Rightarrow> recipient_response \<Rightarrow> secure_channel_handshake" where
  "server_handshake self peer resp =
     \<lparr>sch_recipient_replica_id = peer, sch_sender_replica_id = self,
      sch_encryption = Some (Some (RecipientResponse (Some resp)))\<rparr>"

section \<open>Steps of a session\<close>

lemma inspect_err_Ok [result_simps]: "inspect_err f p = (s, Ok a) \<longleftrightarrow> p = (s, Ok a)"
  by (cases "(f, p)" rule: inspect_err.cases) auto

lemma case_prod_eq: "case_prod f p = q \<longleftrightarrow> (\<exists>x y. p = (x, y) \<and> f x y = q)"
  by (cases p) auto

lemma case_option_Ok:
  "(case x of None \<Rightarrow> (s, Err e) | Some a \<Rightarrow> f a) = (s', Ok b) \<longleftrightarrow> (\<exists>a. x = Some a \<and> f a = (s', Ok b))"
  by (cases x) auto

lemmas step_simps = result_simps Let_def case_prod_eq case_option_Ok

lemma init_oak_handshaker_Ok:
  "init_oak_handshaker A H s = (s', Ok ()) \<longleftrightarrow>
     (\<exists>a pk h h'. hs_attestation s = Some a \<and> attested_key A a pk \<and> hs_oak_handshaker s = Some h \<and>
        oh_init H h pk = Ok h' \<and> s' = s\<lparr>hs_attestation := None, hs_oak_handshaker := Some h'\<rparr>)"
  by (auto simp: init_oak_handshaker_def attested_key_def step_simps)

lemma init_session_keys_Ok:
  "init_session_keys H s = (s', Ok ()) \<longleftrightarrow>
     (\<exists>h keys. hs_oak_handshaker s = Some h \<and> oh_derive H h = Some keys \<and>
        s' = s\<lparr>hs_oak_handshaker := None, hs_session_keys := keys\<rparr>)"
  by (auto simp: init_session_keys_def step_simps)

lemma get_attest_request_Ok:
  "get_attest_request A s = (s', Ok m) \<longleftrightarrow>
     (\<exists>a a' req. hs_attestation s = Some a \<and> at_get A a = (a', Ok (Some req)) \<and>
        s' = s\<lparr>hs_attestation := Some a'\<rparr> \<and> m = client_create_handshake s (AttestRequest req))"
  by (auto simp: get_attest_request_def step_simps client_create_handshake_def)

lemma get_attest_response_Ok:
  "get_attest_response A s = (s', Ok m) \<longleftrightarrow>
     (\<exists>a a' resp. hs_attestation s = Some a \<and> at_get A a = (a', Ok (Some resp)) \<and>
        s' = s\<lparr>hs_attestation := Some a'\<rparr> \<and> m = server_create_handshake s (AttestResponse resp))"
  by (auto simp: get_attest_response_def step_simps server_create_handshake_def)

lemma get_handshake_request_Ok:
  "get_handshake_request H s = (s', Ok m) \<longleftrightarrow>
     (\<exists>h h' req. hs_oak_handshaker s = Some h \<and> oh_get H h = (h', Ok (Some req)) \<and>
        s' = s\<lparr>hs_oak_handshaker := Some h'\<rparr> \<and> m = client_create_handshake s (HandshakeRequest req))"
  by (auto simp: get_handshake_request_def step_simps client_create_handshake_def)

lemma get_handshake_response_Ok:
  "get_handshake_response H s = (s', Ok m) \<longleftrightarrow>
     (\<exists>h h' resp. hs_oak_handshaker s = Some h \<and> oh_get H h = (h', Ok (Some resp)) \<and>
        s' = s\<lparr>hs_oak_handshaker := Some h'\<rparr> \<and> m = server_create_handshake s (HandshakeResponse resp))"
  by (auto simp: get_handshake_response_def step_simps server_create_handshake_def)

lemma handle_attest_response_Ok:
  "handle_attest_response A H s m = (s', Ok ()) \<longleftrightarrow>
     (\<exists>a a' x pk h h'. hs_attestation s = Some a \<and> at_put A a m = (a', Ok x) \<and> attested_key A a' pk \<and>
        hs_oak_handshaker s = Some h \<and> oh_init H h pk = Ok h' \<and>
        s' = s\<lparr>hs_attestation := None, hs_oak_handshaker := Some h'\<rparr>)"
  by (simp add: handle_attest_response_def step_simps init_oak_handshaker_Ok) fastforce

lemma handle_attest_request_Ok:
  "handle_attest_request A s m = (s', Ok ()) \<longleftrightarrow>
     (\<exists>a a' x. hs_attestation s = Some a \<and> at_put A a m = (a', Ok x) \<and> s' = s\<lparr>hs_attestation := Some a'\<rparr>)"
  by (auto simp: handle_attest_request_def step_simps)

lemma handle_handshake_request_Ok:
  "handle_handshake_request H s m = (s', Ok ()) \<longleftrightarrow>
     (\<exists>h h' x. hs_oak_handshaker s = Some h \<and> oh_put H h m = (h', Ok x) \<and>
        s' = s\<lparr>hs_oak_handshaker := Some h'\<rparr>)"
  by (auto simp: handle_handshake_request_def step_simps)

lemma handle_handshake_response_Ok:
  "handle_handshake_response H s m = (s', Ok ()) \<longleftrightarrow>
     (\<exists>h h' x keys. hs_oak_handshaker s = Some h \<and> oh_put H h m = (h', Ok x) \<and>
        oh_derive H h' = Some keys \<and> s' = s\<lparr>hs_oak_handshaker := None, hs_session_keys := keys\<rparr>)"
  by (auto simp: handle_handshake_response_def step_simps init_session_keys_Ok)

lemmas session_steps =
  get_attest_request_Ok get_attest_response_Ok get_handshake_request_Ok get_handshake_response_Ok
  handle_attest_response_Ok handle_attest_request_Ok handle_handshake_request_Ok handle_handshake_response_Ok
  init_oak_handshaker_Ok init_session_keys_Ok

section \<open>A completed session is verified\<close>

lemma client_inv_take_out:
  assumes inv: "client_inv A H a0 h0 s" and step: "client_take_out_message A H s = (s', Ok out)"
  shows "client_inv A H a0 h0 s'"
proof (cases "hs_state s")
  case HsKeyExchange
  then show ?thesis
    using assms by (fastforce simp: client_inv_def client_take_out_message_def result_simps session_steps
      intro: key_exchange.request)
qed (use assms in \<open>auto simp: client_inv_def client_take_out_message_def result_simps session_steps\<close>)

lemma client_inv_process:
  assumes inv: "client_inv A H a0 h0 s" and step: "client_process_message A H s m = (s', Ok ())"
  shows "client_inv A H a0 h0 s'"
proof (cases "hs_state s")
  case HsAttesting
  then obtain a a' req x pk h h' resp where
    "at_get A a0 = (a, Ok (Some req))" "at_put A a resp = (a', Ok x)" "attested_key A a' pk"
    "oh_init H h0 pk = Ok h'" "s' = s\<lparr>hs_attestation := None, hs_oak_handshaker := Some h', hs_state := HsKeyExchange\<rparr>"
    using assms by (auto simp: client_inv_def client_process_message_def result_simps session_steps
      simp del: attest_response_of.simps split: option.splits)
  then show ?thesis
    by (simp add: client_inv_def client_attested_def) (blast intro: key_exchange.start)
next
  case HsKeyExchange
  then obtain pk h h' x keys resp where
    "client_attested A a0 pk" "key_exchange H h0 pk h" "oh_put H h resp = (h', Ok x)" "oh_derive H h' = Some keys"
    "s' = s\<lparr>hs_oak_handshaker := None, hs_session_keys := keys, hs_state := HsCompleted\<rparr>"
    using assms by (auto simp: client_inv_def client_process_message_def result_simps session_steps
      simp del: handshake_response_of.simps split: option.splits)
  then show ?thesis
    by (simp add: client_inv_def client_keys_def) blast
qed (use assms in \<open>auto simp: client_inv_def client_process_message_def\<close>)

lemma server_inv_turn:
  assumes inv: "server_inv A H a0 h0 s" and process: "server_process_message A H s m = (s1, Ok ())"
    and take_out: "server_take_out_message A H s1 = (s2, Ok out)"
  shows "server_inv A H a0 h0 s2"
proof (cases "hs_state s")
  case HsUnknown
  then obtain a a' a'' x resp pk h req where
    "at_put A a0 req = (a, Ok x)" "at_get A a = (a', Ok (Some resp))" "attested_key A a' pk" "oh_init H h0 pk = Ok h"
    "s2 = s\<lparr>hs_attestation := None, hs_oak_handshaker := Some h, hs_state := HsKeyExchange\<rparr>"
    using assms by (auto simp: server_inv_def server_process_message_def server_take_out_message_def
      result_simps session_steps simp del: attest_request_of.simps split: option.splits)
  then show ?thesis
    by (fastforce simp: server_inv_def server_attested_def)
next
  case HsKeyExchange
  then obtain pk h h1 x h2 resp keys req where
    "server_attested A a0 pk" "oh_init H h0 pk = Ok h" "oh_put H h req = (h1, Ok x)"
    "oh_get H h1 = (h2, Ok (Some resp))" "oh_derive H h2 = Some keys"
    "s2 = s\<lparr>hs_oak_handshaker := None, hs_session_keys := keys, hs_state := HsCompleted\<rparr>"
    using assms by (auto simp: server_inv_def server_process_message_def server_take_out_message_def
      result_simps session_steps simp del: handshake_request_of.simps split: option.splits)
  then show ?thesis
    by (simp add: server_inv_def server_keys_def) blast
qed (use assms in \<open>auto simp: server_inv_def server_process_message_def server_take_out_message_def\<close>)

lemma session_inv_fresh: "session_inv P r (provider_get P self peer r)"
  by (cases r) (auto simp: client_inv_def server_inv_def session_new_def)

lemma session_inv_reach: "session_reach P self peer r s \<Longrightarrow> session_inv P r s"
proof (induction rule: session_reach.induct)
  case fresh
  show ?case by (rule session_inv_fresh)
next
  case (opened s out)
  show ?case
  proof (cases r)
    case Initiator
    then show ?thesis
      using opened session_inv_fresh [of P r self peer]
      by (auto simp: apfst_def map_prod_def split: prod.splits intro: client_inv_take_out)
  next
    case Recipient
    then show ?thesis
      using opened session_inv_fresh [of P r self peer]
      by (auto simp: server_take_out_message_def session_new_def)
  qed
next
  case (turn s m s1 s2 out)
  show ?case
  proof (cases s)
    case (ClientHandshakeSession c)
    then obtain c1 c2 where
      "client_process_message (pr_client_attestation P) (pr_client_handshaker P) c m = (c1, Ok ())"
      "client_take_out_message (pr_client_attestation P) (pr_client_handshaker P) c1 = (c2, Ok out)"
      "s2 = ClientHandshakeSession c2"
      using turn.hyps by (auto simp: apfst_def map_prod_def split: prod.splits)
    then show ?thesis
      using turn.IH ClientHandshakeSession by (cases r) (auto intro: client_inv_take_out client_inv_process)
  next
    case (ServerHandshakeSession c)
    then obtain c1 c2 where
      "server_process_message (pr_server_attestation P) (pr_server_handshaker P) c m = (c1, Ok ())"
      "server_take_out_message (pr_server_attestation P) (pr_server_handshaker P) c1 = (c2, Ok out)"
      "s2 = ServerHandshakeSession c2"
      using turn.hyps by (auto simp: apfst_def map_prod_def split: prod.splits)
    then show ?thesis
      using turn.IH ServerHandshakeSession by (cases r) (auto intro: server_inv_turn)
  qed
qed

lemma session_inv_completed:
  assumes "session_inv P r s" "is_completed s"
  shows "\<exists>keys. get_encryptor s = Some (default_encryptor_new keys) \<and> verified_keys P r keys"
  using assms by (cases "(P, r, s)" rule: session_inv.cases) (auto simp: client_inv_def server_inv_def)

section \<open>Messages go to the peer\<close>

lemma client_process_ends:
  assumes "client_process_message A H s m = (s', Ok ())"
  shows "hs_self_replica_id s' = hs_self_replica_id s \<and> hs_peer_replica_id s' = hs_peer_replica_id s"
  using assms by (cases "hs_state s")
    (auto simp: client_process_message_def result_simps session_steps
      simp del: attest_response_of.simps handshake_response_of.simps split: option.splits)

lemma server_process_ends:
  assumes "server_process_message A H s m = (s', Ok ())"
  shows "hs_self_replica_id s' = hs_self_replica_id s \<and> hs_peer_replica_id s' = hs_peer_replica_id s"
  using assms by (cases "hs_state s")
    (auto simp: server_process_message_def result_simps session_steps
      simp del: attest_request_of.simps handshake_request_of.simps split: option.splits)

lemma client_take_out_ends:
  assumes "client_take_out_message A H s = (s', Ok out)"
  shows "hs_self_replica_id s' = hs_self_replica_id s \<and> hs_peer_replica_id s' = hs_peer_replica_id s \<and>
    (\<forall>m. out = Some m \<longrightarrow> message_ends m = (hs_self_replica_id s, hs_peer_replica_id s))"
  using assms by (cases "hs_state s")
    (auto simp: client_take_out_message_def client_create_handshake_def result_simps session_steps)

lemma server_take_out_ends:
  assumes "server_take_out_message A H s = (s', Ok out)"
  shows "hs_self_replica_id s' = hs_self_replica_id s \<and> hs_peer_replica_id s' = hs_peer_replica_id s \<and>
    (\<forall>m. out = Some m \<longrightarrow> message_ends m = (hs_self_replica_id s, hs_peer_replica_id s))"
  using assms by (cases "hs_state s")
    (auto simp: server_take_out_message_def server_create_handshake_def result_simps session_steps)

lemma session_process_ends:
  "process_message P s m = (s', Ok ()) \<Longrightarrow> session_ends s' = session_ends s"
  by (cases s) (auto simp: apfst_def map_prod_def split: prod.splits dest: client_process_ends server_process_ends)

lemma session_take_out_ends:
  "take_out_message P s = (s', Ok out) \<Longrightarrow>
     session_ends s' = session_ends s \<and> (\<forall>m. out = Some m \<longrightarrow> message_ends m = session_ends s)"
  by (cases s)
    (auto simp: apfst_def map_prod_def simp del: message_ends.simps split: prod.splits
      dest: client_take_out_ends server_take_out_ends)

lemma provider_get_ends: "session_ends (provider_get P self peer r) = (self, peer)"
  by (cases r) (auto simp: session_new_def)

lemma session_reach_ends: "session_reach P self peer r s \<Longrightarrow> session_ends s = (self, peer)"
  by (induction rule: session_reach.induct)
    (auto simp: provider_get_ends dest!: session_process_ends session_take_out_ends)

section \<open>The contract of sessions\<close>

text \<open>
  What the communication module relies on: the sessions it holds are sound, they address their peer,
  and a sound session that completed has an encryptor for a genuine peer.
\<close>

locale handshake_sessions =
  fixes V :: "('s, 'e) session_ops"
    and sound :: "nat \<Rightarrow> nat \<Rightarrow> role \<Rightarrow> 's \<Rightarrow> bool"
    and genuine :: "role \<Rightarrow> 'e \<Rightarrow> bool"
  assumes sound_opened: "so_take_out V (so_get V self peer r) = (s, Ok out) \<Longrightarrow>
      sound self peer r s \<and> (\<forall>m. out = Some m \<longrightarrow> message_ends m = (self, peer))"
    and sound_get: "sound self peer r (so_get V self peer r)"
    and sound_turn: "sound self peer r s \<Longrightarrow> so_process V s m = (s1, Ok ()) \<Longrightarrow>
      so_take_out V s1 = (s2, Ok out) \<Longrightarrow>
      sound self peer r s2 \<and> (\<forall>m. out = Some m \<longrightarrow> message_ends m = (self, peer))"
    and completed_genuine: "sound self peer r s \<Longrightarrow> so_is_completed V s \<Longrightarrow>
      \<exists>e. so_get_encryptor V s = Some e \<and> genuine r e"

interpretation provided: handshake_sessions "provider_ops P" "session_reach P" "genuine_encryptor P"
  for P :: "('a, 'h, 'b, 'k) session_provider"
proof unfold_locales
  fix self peer r s out assume "so_take_out (provider_ops P) (so_get (provider_ops P) self peer r) = (s, Ok out)"
  then show "session_reach P self peer r s \<and> (\<forall>m. out = Some m \<longrightarrow> message_ends m = (self, peer))"
    using session_take_out_ends [of P "provider_get P self peer r" s out]
    by (simp add: provider_ops_def provider_get_ends session_reach.opened)
next
  fix self peer r s m s1 s2 out
  assume "session_reach P self peer r s" "so_process (provider_ops P) s m = (s1, Ok ())"
    "so_take_out (provider_ops P) s1 = (s2, Ok out)"
  then show "session_reach P self peer r s2 \<and> (\<forall>m. out = Some m \<longrightarrow> message_ends m = (self, peer))"
    using session_take_out_ends [of P s1 s2 out] session_process_ends [of P s m s1]
      session_reach_ends [of P self peer r s] session_reach.turn [of P self peer r s m s1 s2 out]
    by (simp add: provider_ops_def)
next
  fix self peer r s assume "session_reach P self peer r s" "so_is_completed (provider_ops P) s"
  then show "\<exists>e. so_get_encryptor (provider_ops P) s = Some e \<and> genuine_encryptor P r e"
    using session_inv_completed [OF session_inv_reach, of P self peer r s]
    by (auto simp: provider_ops_def genuine_encryptor_def default_encryptor_new_def)
qed (simp add: provider_ops_def session_reach.fresh)

section \<open>The default handshake\<close>

lemma default_server_steps:
  "provider_get (default_provider L) self peer Recipient = ServerHandshakeSession
     (session_at self peer (Some (ol_server_attestation_provider L)) (Some None) HsUnknown)"
  "process_message (default_provider L)
     (ServerHandshakeSession (session_at self peer (Some a) k HsUnknown))
     \<lparr>sch_recipient_replica_id = x, sch_sender_replica_id = y,
      sch_encryption = Some (Some (InitiatorRequest (Some (AttestRequest req))))\<rparr> =
     (ServerHandshakeSession (session_at self peer (Some a) k HsAttesting), Ok ())"
  "take_out_message (default_provider L)
     (ServerHandshakeSession (session_at self peer (Some a) (Some h) HsAttesting)) =
     (ServerHandshakeSession
        (session_at self peer None (Some (Some (ol_server_handshaker_new L []))) HsKeyExchange),
      Ok (Some (server_handshake self peer (AttestResponse []))))"
  "process_message (default_provider L)
     (ServerHandshakeSession (session_at self peer b (Some h) HsKeyExchange))
     \<lparr>sch_recipient_replica_id = x, sch_sender_replica_id = y,
      sch_encryption = Some (Some (InitiatorRequest (Some (HandshakeRequest req))))\<rparr> =
     (ServerHandshakeSession (session_at self peer b (Some h) HsKeyExchange), Ok ())"
  "take_out_message (default_provider L)
     (ServerHandshakeSession (session_at self peer b (Some h) HsKeyExchange)) =
     (ServerHandshakeSession (session_at self peer b None HsCompleted),
      Ok (Some (server_handshake self peer (HandshakeResponse []))))"
  by (simp_all add: default_provider_def session_new_def session_at_def server_handshake_def
    server_process_message_def server_take_out_message_def handle_attest_request_def
    get_attest_response_def init_oak_handshaker_def handle_handshake_request_def
    get_handshake_response_def init_session_keys_def server_create_handshake_def
    default_server_attestation_def default_oak_server_handshaker_def default_attestation_results_def
    default_session_keys_def)

lemma default_client_steps:
  "provider_get (default_provider L) self peer Initiator = ClientHandshakeSession
     (session_at self peer (Some (ol_client_attestation_provider L)) (Some None) HsUnknown)"
  "take_out_message (default_provider L)
     (ClientHandshakeSession (session_at self peer (Some a) k HsUnknown)) =
     (ClientHandshakeSession (session_at self peer (Some a) k HsAttesting),
      Ok (Some (client_handshake self peer (AttestRequest []))))"
  "ol_client_handshaker_create L [] = Some c \<Longrightarrow>
   process_message (default_provider L)
     (ClientHandshakeSession (session_at self peer (Some a) (Some h) HsAttesting))
     \<lparr>sch_recipient_replica_id = x, sch_sender_replica_id = y,
      sch_encryption = Some (Some (RecipientResponse (Some (AttestResponse resp))))\<rparr> =
     (ClientHandshakeSession (session_at self peer None (Some (Some c)) HsKeyExchange), Ok ())"
  "take_out_message (default_provider L)
     (ClientHandshakeSession (session_at self peer b (Some h) HsKeyExchange)) =
     (ClientHandshakeSession (session_at self peer b (Some h) HsKeyExchange),
      Ok (Some (client_handshake self peer (HandshakeRequest []))))"
  "process_message (default_provider L)
     (ClientHandshakeSession (session_at self peer b (Some h) HsKeyExchange))
     \<lparr>sch_recipient_replica_id = x, sch_sender_replica_id = y,
      sch_encryption = Some (Some (RecipientResponse (Some (HandshakeResponse resp))))\<rparr> =
     (ClientHandshakeSession (session_at self peer b None HsCompleted), Ok ())"
  "take_out_message (default_provider L)
     (ClientHandshakeSession (session_at self peer b k HsCompleted)) =
     (ClientHandshakeSession (session_at self peer b k HsCompleted), Ok None)"
  by (simp_all add: default_provider_def session_new_def session_at_def client_handshake_def
    client_process_message_def client_take_out_message_def handle_attest_response_def
    get_attest_request_def init_oak_handshaker_def handle_handshake_response_def
    get_handshake_request_def init_session_keys_def client_create_handshake_def
    default_client_attestation_def default_oak_client_handshaker_def default_attestation_results_def
    default_session_keys_def)

section \<open>Completed sessions\<close>

text \<open>
  C10. A session that completed, driven as the communication module drives it and whatever messages
  arrive, gives an encryptor whose keys are verified: the attestation of the peer was accepted, the
  key exchange was initialized with the public key in the peer's evidence, a key exchange message of
  the peer was accepted and the keys are those which that exchange derived.
\<close>

theorem completed_session_verified:
  assumes "session_reach P self peer r s" and "is_completed s"
  shows "\<exists>keys. get_encryptor s = Some (default_encryptor_new keys) \<and> verified_keys P r keys"
  using session_inv_completed [OF session_inv_reach] assms by blast

lemma default_server_completes:
  "session_reach (default_provider L) self peer Recipient
     (ServerHandshakeSession (session_at self peer None None HsCompleted))"
  by (rule session_reach.turn [OF session_reach.turn [OF _ default_server_steps(2,3)] default_server_steps(4,5)])
    (rule session_reach.fresh [where P = "default_provider L" and r = Recipient, unfolded default_server_steps(1)])

theorem completed_session_verified_witness:
  "\<exists>keys. get_encryptor (ServerHandshakeSession (session_at 1 2 None None HsCompleted) ::
       (unit, unit option, unit, unit option) dyn_session) = Some (default_encryptor_new keys) \<and>
     verified_keys (default_provider demo_oak) Recipient keys"
  by (rule completed_session_verified [OF default_server_completes]) (simp add: session_at_def)

end
