(* ===== verification/Communication.thy ===== *)
theory Communication
  imports Handshake
begin

text \<open>
  The communication module, \<open>src/runtime/src/communication.rs\<close>: per peer a handshake, a queue of
  messages that wait for it and, once it completed, the encryptor of the channel. The module is
  modelled for every implementation of sessions and encryptors (\<open>session_ops\<close>); the contract
  \<open>handshake_sessions\<close> gives its safety, the default implementations give the end-to-end delivery.
\<close>

section \<open>Peers\<close>

text \<open>\<open>PalError\<close> of \<open>platform.rs\<close>.\<close>

datatype pal_error = PalInternal | PalInvalidOperation | PalRaft | PalActor

datatype handshake_state = CsUnknown | CsInitialized | CsInitiated | CsCompleted | CsFailed nat

datatype communication_error =
    HandshakeNotInitialized
  | NoInitialHandshakeMessage
  | NotAHandshakeMessage
  | SessionError handshake_error

record ('s, 'e) communication_state =
  cs_handshake_state :: handshake_state
  cs_pending_handshake_message :: "secure_channel_handshake option"
  cs_handshake_session :: "'s option"
  cs_unencrypted_messages :: "out_message list"
  cs_encryptor :: "'e option"

definition cs_new :: "('s, 'e) communication_state" where
  "cs_new =
     \<lparr>cs_handshake_state = CsUnknown, cs_pending_handshake_message = None, cs_handshake_session = None,
      cs_unencrypted_messages = [], cs_encryptor = None\<rparr>"

definition cs_init ::
  "('s, 'e) communication_state \<Rightarrow> 's \<Rightarrow> ('s, 'e) communication_state \<times> (unit, pal_error) result" where
  "cs_init s session =
     (if cs_handshake_state s \<noteq> CsUnknown then (s, Err PalInvalidOperation)
      else (s\<lparr>cs_handshake_session := Some session, cs_handshake_state := CsInitialized\<rparr>, Ok ()))"

definition is_initialized :: "('s, 'e) communication_state \<Rightarrow> bool" where
  "is_initialized s = (cs_handshake_state s \<noteq> CsUnknown)"

definition cs_make_tick :: "('s, 'e) communication_state \<Rightarrow> ('s, 'e) communication_state" where
  "cs_make_tick s = (case cs_handshake_state s of
     CsFailed ticks \<Rightarrow> s\<lparr>cs_handshake_state := CsFailed (ticks + 1)\<rparr>
   | _ \<Rightarrow> s)"

definition reset_state_machine :: "('s, 'e) communication_state \<Rightarrow> ('s, 'e) communication_state" where
  "reset_state_machine s =
     s\<lparr>cs_handshake_state := CsUnknown, cs_pending_handshake_message := None,
       cs_handshake_session := None, cs_encryptor := None\<rparr>"

definition cs_transition_to_failed :: "('s, 'e) communication_state \<Rightarrow> ('s, 'e) communication_state" where
  "cs_transition_to_failed s = s\<lparr>cs_handshake_state := CsFailed 0\<rparr>"

text \<open>A call of the session behind \<open>handshake_session.as_mut().unwrap()\<close>, failing the peer on an error.\<close>

definition call_session ::
  "('s, 'e) communication_state \<Rightarrow> ('s \<Rightarrow> 's \<times> ('a, handshake_error) result) \<Rightarrow>
   ('s, 'e) communication_state \<times> ('a, communication_error) result" where
  "call_session s f = lift_st s (unwrap (cs_handshake_session s)) (\<lambda>session.
     let (session', r) = f session in
     inspect_err cs_transition_to_failed (s\<lparr>cs_handshake_session := Some session'\<rparr>, map_err SessionError r))"

definition cs_push :: "('s, 'e) communication_state \<Rightarrow> out_message \<Rightarrow> ('s, 'e) communication_state" where
  "cs_push s m = s\<lparr>cs_unencrypted_messages := cs_unencrypted_messages s @ [m]\<rparr>"

definition cs_process_out_message ::
  "('s, 'e) session_ops \<Rightarrow> ('s, 'e) communication_state \<Rightarrow> out_message \<Rightarrow>
   ('s, 'e) communication_state \<times> (unit, communication_error) result" where
  "cs_process_out_message V s m = (case cs_handshake_state s of
     CsUnknown \<Rightarrow> (cs_transition_to_failed s, Err HandshakeNotInitialized)
   | CsInitialized \<Rightarrow> try_st (call_session s (so_take_out V)) (\<lambda>s1 pending.
       let s2 = s1\<lparr>cs_pending_handshake_message := pending\<rparr> in
       if pending = None then (cs_transition_to_failed s2, Err NoInitialHandshakeMessage)
       else ((cs_push s2 m)\<lparr>cs_handshake_state := CsInitiated\<rparr>, Ok ()))
   | CsInitiated \<Rightarrow> (cs_push s m, Ok ())
   | CsCompleted \<Rightarrow> (cs_push s m, Ok ())
   | CsFailed _ \<Rightarrow> (cs_push s m, Ok ()))"

definition decrypt_contents ::
  "('s, 'e) session_ops \<Rightarrow> 'e \<Rightarrow> in_message \<Rightarrow> (in_message, handshake_error) result" where
  "decrypt_contents V e m = (case m of
     InDeliverSystemMessage d \<Rightarrow> and_then (so_decrypt V e (dm_message_contents d))
       (\<lambda>c. Ok (InDeliverSystemMessage (d\<lparr>dm_message_contents := c\<rparr>)))
   | InDeliverSnapshotRequest d \<Rightarrow> and_then (so_decrypt V e (dsr_payload_contents d))
       (\<lambda>c. Ok (InDeliverSnapshotRequest (d\<lparr>dsr_payload_contents := c\<rparr>)))
   | InDeliverSnapshotResponse d \<Rightarrow> and_then (so_decrypt V e (dsp_payload_contents d))
       (\<lambda>c. Ok (InDeliverSnapshotResponse (d\<lparr>dsp_payload_contents := c\<rparr>)))
   | _ \<Rightarrow> Err UnexpectedMessage)"

text \<open>A result that is only logged on an error: \<open>None\<close> then.\<close>

fun logged :: "('a, 'x) result \<Rightarrow> ('a option, 'y) result" where
  "logged (Ok a) = Ok (Some a)"
| "logged (Err _) = Ok None"
| "logged Panic = Panic"

definition cs_decrypt_message ::
  "('s, 'e) session_ops \<Rightarrow> ('s, 'e) communication_state \<Rightarrow> in_message \<Rightarrow>
   (in_message option, communication_error) result" where
  "cs_decrypt_message V s m =
     and_then (unwrap (cs_encryptor s)) (\<lambda>e. logged (decrypt_contents V e m))"

definition cs_process_in_message ::
  "('s, 'e) session_ops \<Rightarrow> ('s, 'e) communication_state \<Rightarrow> in_message \<Rightarrow>
   ('s, 'e) communication_state \<times> (in_message option, communication_error) result" where
  "cs_process_in_message V s m =
     (let handshake = (case m of
        InSecureChannelHandshake h \<Rightarrow>
          try_st (call_session s (\<lambda>session. so_process V session h)) (\<lambda>s1 _.
          try_st (call_session s1 (so_take_out V)) (\<lambda>s2 pending.
          let s3 = s2\<lparr>cs_pending_handshake_message := pending\<rparr> in
          lift_st s3 (unwrap (cs_handshake_session s3)) (\<lambda>session.
          if so_is_completed V session then
            (s3\<lparr>cs_handshake_session := None, cs_encryptor := so_get_encryptor V session,
                cs_handshake_state := CsCompleted\<rparr>, Ok None)
          else (s3\<lparr>cs_handshake_state := CsInitiated\<rparr>, Ok None))))
      | _ \<Rightarrow> (cs_transition_to_failed s, Err NotAHandshakeMessage))
      in case cs_handshake_state s of
        CsUnknown \<Rightarrow> (cs_transition_to_failed s, Err HandshakeNotInitialized)
      | CsInitialized \<Rightarrow> handshake
      | CsInitiated \<Rightarrow> handshake
      | CsCompleted \<Rightarrow> (s, cs_decrypt_message V s m)
      | CsFailed _ \<Rightarrow> (s, Ok None))"

definition encrypt_contents ::
  "('s, 'e) session_ops \<Rightarrow> 'e \<Rightarrow> out_message \<Rightarrow> (out_message, handshake_error) result" where
  "encrypt_contents V e m = (case m of
     OutDeliverSystemMessage d \<Rightarrow> and_then (so_encrypt V e (dm_message_contents d))
       (\<lambda>c. Ok (OutDeliverSystemMessage (d\<lparr>dm_message_contents := c\<rparr>)))
   | OutDeliverSnapshotRequest d \<Rightarrow> and_then (so_encrypt V e (dsr_payload_contents d))
       (\<lambda>c. Ok (OutDeliverSnapshotRequest (d\<lparr>dsr_payload_contents := c\<rparr>)))
   | OutDeliverSnapshotResponse d \<Rightarrow> and_then (so_encrypt V e (dsp_payload_contents d))
       (\<lambda>c. Ok (OutDeliverSnapshotResponse (d\<lparr>dsp_payload_contents := c\<rparr>)))
   | _ \<Rightarrow> Err UnexpectedMessage)"

text \<open>The loop over the queue: a message that cannot be encrypted is dropped.\<close>

fun encrypt_all ::
  "('s, 'e) session_ops \<Rightarrow> 'e \<Rightarrow> out_message list \<Rightarrow> (out_message list, communication_error) result" where
  "encrypt_all V e [] = Ok []"
| "encrypt_all V e (m # ms) =
     and_then (logged (encrypt_contents V e m)) (\<lambda>r.
     and_then (encrypt_all V e ms) (\<lambda>rs.
     Ok (case r of Some m' \<Rightarrow> m' # rs | None \<Rightarrow> rs)))"

definition take_encrypted_messages ::
  "('s, 'e) session_ops \<Rightarrow> ('s, 'e) communication_state \<Rightarrow>
   ('s, 'e) communication_state \<times> (out_message list, communication_error) result" where
  "take_encrypted_messages V s =
     (let s' = s\<lparr>cs_unencrypted_messages := []\<rparr> in
      (s', and_then (unwrap (cs_encryptor s)) (\<lambda>e. encrypt_all V e (cs_unencrypted_messages s))))"

definition cs_take_out_messages ::
  "('s, 'e) session_ops \<Rightarrow> ('s, 'e) communication_state \<Rightarrow>
   ('s, 'e) communication_state \<times> (out_message list, communication_error) result" where
  "cs_take_out_messages V s = (case cs_pending_handshake_message s of
     Some h \<Rightarrow> (s\<lparr>cs_pending_handshake_message := None\<rparr>, Ok [OutSecureChannelHandshake h])
   | None \<Rightarrow> if cs_handshake_state s = CsCompleted then take_encrypted_messages V s else (s, Ok []))"

section \<open>The module\<close>

record ('s, 'e) communication_module =
  cm_replicas :: "(nat, ('s, 'e) communication_state) hmap"
  cm_replica_id :: nat
  cm_handshake_retry_tick :: nat

definition cm_new :: "('s, 'e) communication_module" where
  "cm_new = \<lparr>cm_replicas = [], cm_replica_id = 0, cm_handshake_retry_tick = 1\<rparr>"

definition check_initialized :: "('s, 'e) communication_module \<Rightarrow> (unit, pal_error) result" where
  "check_initialized c = (if cm_replica_id c = 0 then Err PalInvalidOperation else Ok ())"

definition cm_init ::
  "('s, 'e) communication_module \<Rightarrow> nat \<Rightarrow> nat option \<Rightarrow> ('s, 'e) communication_module" where
  "cm_init c rid config =
     (let c' = c\<lparr>cm_replica_id := rid\<rparr> in
      case config of Some retry \<Rightarrow> c'\<lparr>cm_handshake_retry_tick := retry\<rparr> | None \<Rightarrow> c')"

text \<open>The entry of a peer, created and initialized with a session of the role on demand.\<close>

definition cm_put ::
  "nat \<Rightarrow> ('s, 'e) communication_state \<Rightarrow> ('s, 'e) communication_module \<Rightarrow> ('s, 'e) communication_module" where
  "cm_put peer s c = c\<lparr>cm_replicas := hm_insert peer s (cm_replicas c)\<rparr>"

definition replica_state_for ::
  "('s, 'e) session_ops \<Rightarrow> role \<Rightarrow> nat \<Rightarrow> ('s, 'e) communication_module \<Rightarrow>
   ('s, 'e) communication_state \<times> (unit, pal_error) result" where
  "replica_state_for V r peer c =
     (let s = (case hm_get (cm_replicas c) peer of Some s \<Rightarrow> s | None \<Rightarrow> cs_new) in
      if is_initialized s then (s, Ok ())
      else cs_init s (so_get V (cm_replica_id c) peer r))"

fun out_peer :: "out_message \<Rightarrow> (nat, pal_error) result" where
  "out_peer (OutDeliverSystemMessage d) = Ok (dm_recipient_replica_id d)"
| "out_peer (OutDeliverSnapshotRequest d) = Ok (dsr_recipient_replica_id d)"
| "out_peer (OutDeliverSnapshotResponse d) = Ok (dsp_recipient_replica_id d)"
| "out_peer _ = Err PalInvalidOperation"

fun in_peer :: "in_message \<Rightarrow> (nat, pal_error) result" where
  "in_peer (InSecureChannelHandshake h) = Ok (sch_sender_replica_id h)"
| "in_peer (InDeliverSystemMessage d) = Ok (dm_sender_replica_id d)"
| "in_peer (InDeliverSnapshotRequest d) = Ok (dsr_sender_replica_id d)"
| "in_peer (InDeliverSnapshotResponse d) = Ok (dsp_sender_replica_id d)"
| "in_peer _ = Err PalInvalidOperation"

definition process_out_message ::
  "('s, 'e) session_ops \<Rightarrow> ('s, 'e) communication_module \<Rightarrow> out_message \<Rightarrow>
   ('s, 'e) communication_module \<times> (unit, pal_error) result" where
  "process_out_message V c m =
     lift_st c (check_initialized c) (\<lambda>_. lift_st c (out_peer m) (\<lambda>peer.
     let (s, r) = replica_state_for V Initiator peer c in
     lift_st (cm_put peer s c) r (\<lambda>_.
     let (s', r') = cs_process_out_message V s m in
     lift_st (cm_put peer s' c) (logged r') (\<lambda>_. (cm_put peer s' c, Ok ())))))"

definition process_in_message ::
  "('s, 'e) session_ops \<Rightarrow> ('s, 'e) communication_module \<Rightarrow> in_message \<Rightarrow>
   ('s, 'e) communication_module \<times> (in_message option, pal_error) result" where
  "process_in_message V c m =
     lift_st c (check_initialized c) (\<lambda>_. lift_st c (in_peer m) (\<lambda>peer.
     let (s, r) = replica_state_for V Recipient peer c in
     lift_st (cm_put peer s c) r (\<lambda>_.
     let (s', r') = cs_process_in_message V s m in
     lift_st (cm_put peer s' c) (logged r') (\<lambda>res. (cm_put peer s' c, Ok (case res of Some d \<Rightarrow> d | None \<Rightarrow> None))))))"

fun take_out_each ::
  "('s, 'e) session_ops \<Rightarrow> (nat, ('s, 'e) communication_state) hmap \<Rightarrow>
   (nat, ('s, 'e) communication_state) hmap \<times> (out_message list, communication_error) result" where
  "take_out_each V [] = ([], Ok [])"
| "take_out_each V ((peer, s) # rest) =
     (let (s', r) = cs_take_out_messages V s in
      lift_st ((peer, s') # rest) r (\<lambda>ms.
      let (rest', r') = take_out_each V rest in
      lift_st ((peer, s') # rest') r' (\<lambda>ms'. ((peer, s') # rest', Ok (ms @ ms')))))"

definition take_out_messages ::
  "('s, 'e) session_ops \<Rightarrow> ('s, 'e) communication_module \<Rightarrow>
   ('s, 'e) communication_module \<times> (out_message list, communication_error) result" where
  "take_out_messages V c =
     (let (rs, r) = take_out_each V (cm_replicas c) in (c\<lparr>cm_replicas := rs\<rparr>, r))"

definition cm_process_cluster_change :: "('s, 'e) communication_module \<Rightarrow> nat list \<Rightarrow> ('s, 'e) communication_module" where
  "cm_process_cluster_change c new_replica_ids =
     (if cm_replica_id c \<notin> set new_replica_ids then c\<lparr>cm_replicas := []\<rparr>
      else c\<lparr>cm_replicas := filter (\<lambda>e. fst e \<in> set new_replica_ids) (cm_replicas c)\<rparr>)"

definition tick_replica :: "nat \<Rightarrow> ('s, 'e) communication_state \<Rightarrow> ('s, 'e) communication_state" where
  "tick_replica retry s =
     (let s' = cs_make_tick s in
      case cs_handshake_state s' of
        CsFailed ticks \<Rightarrow> if ticks \<ge> retry then reset_state_machine s' else s'
      | _ \<Rightarrow> s')"

definition make_tick :: "('s, 'e) communication_module \<Rightarrow> ('s, 'e) communication_module" where
  "make_tick c =
     c\<lparr>cm_replicas := map (\<lambda>(peer, s). (peer, tick_replica (cm_handshake_retry_tick c) s)) (cm_replicas c)\<rparr>"

section \<open>Runs of the module\<close>

datatype comm_event =
    ProcessOut out_message
  | ProcessIn in_message
  | TakeOut
  | ClusterChange "nat list"
  | Tick

text \<open>The runs in which no call panics, from an initialized module, with their events.\<close>

inductive comm_run ::
  "('s, 'e) session_ops \<Rightarrow> nat \<Rightarrow> nat option \<Rightarrow> comm_event list \<Rightarrow> ('s, 'e) communication_module \<Rightarrow> bool"
  for V self config where
  init: "comm_run V self config [] (cm_init cm_new self config)"
| out: "comm_run V self config evs c \<Longrightarrow> process_out_message V c m = (c', r) \<Longrightarrow> r \<noteq> Panic \<Longrightarrow>
    comm_run V self config (evs @ [ProcessOut m]) c'"
| incoming: "comm_run V self config evs c \<Longrightarrow> process_in_message V c m = (c', r) \<Longrightarrow> r \<noteq> Panic \<Longrightarrow>
    comm_run V self config (evs @ [ProcessIn m]) c'"
| taken: "comm_run V self config evs c \<Longrightarrow> take_out_messages V c = (c', Ok ms) \<Longrightarrow>
    comm_run V self config (evs @ [TakeOut]) c'"
| cluster: "comm_run V self config evs c \<Longrightarrow>
    comm_run V self config (evs @ [ClusterChange ids]) (cm_process_cluster_change c ids)"
| tick: "comm_run V self config evs c \<Longrightarrow> comm_run V self config (evs @ [Tick]) (make_tick c)"

section \<open>Invariant of the module\<close>

text \<open>
  What holds of a peer: handshake messages and queued messages are addressed to it, queued messages
  were submitted, a session under way is sound and only a completed handshake has an encryptor, a
  genuine one.
\<close>

definition peer_inv ::
  "('s, 'e) session_ops \<Rightarrow> (nat \<Rightarrow> nat \<Rightarrow> role \<Rightarrow> 's \<Rightarrow> bool) \<Rightarrow> (role \<Rightarrow> 'e \<Rightarrow> bool) \<Rightarrow> nat \<Rightarrow>
   out_message set \<Rightarrow> nat \<Rightarrow> ('s, 'e) communication_state \<Rightarrow> bool" where
  "peer_inv V sound genuine self submitted peer s =
     ((\<forall>h. cs_pending_handshake_message s = Some h \<longrightarrow> message_ends h = (self, peer)) \<and>
      (\<forall>m \<in> set (cs_unencrypted_messages s). m \<in> submitted \<and> out_peer m = Ok peer) \<and>
      (case cs_handshake_state s of
         CsUnknown \<Rightarrow> cs_encryptor s = None \<and> cs_pending_handshake_message s = None
       | CsInitialized \<Rightarrow> cs_encryptor s = None \<and> (\<exists>r. cs_handshake_session s = Some (so_get V self peer r))
       | CsInitiated \<Rightarrow> cs_encryptor s = None \<and> (\<exists>r x. cs_handshake_session s = Some x \<and> sound self peer r x)
       | CsCompleted \<Rightarrow> (\<exists>r e. cs_encryptor s = Some e \<and> genuine r e)
       | CsFailed _ \<Rightarrow> cs_encryptor s = None))"

definition module_inv ::
  "('s, 'e) session_ops \<Rightarrow> (nat \<Rightarrow> nat \<Rightarrow> role \<Rightarrow> 's \<Rightarrow> bool) \<Rightarrow> (role \<Rightarrow> 'e \<Rightarrow> bool) \<Rightarrow> nat \<Rightarrow>
   out_message set \<Rightarrow> ('s, 'e) communication_module \<Rightarrow> bool" where
  "module_inv V sound genuine self submitted c =
     (cm_replica_id c = self \<and> hm_wf (cm_replicas c) \<and>
      (\<forall>(peer, s) \<in> set (cm_replicas c). peer_inv V sound genuine self submitted peer s))"

definition submitted_messages :: "comm_event list \<Rightarrow> out_message set" where
  "submitted_messages evs = {m. ProcessOut m \<in> set evs}"

text \<open>
  A message that may leave the module: a handshake message for a known peer, or the encryption under a
  genuine encryptor of a message that was submitted.
\<close>

definition proper_output ::
  "('s, 'e) session_ops \<Rightarrow> (role \<Rightarrow> 'e \<Rightarrow> bool) \<Rightarrow> nat \<Rightarrow> out_message set \<Rightarrow> nat set \<Rightarrow> out_message \<Rightarrow> bool" where
  "proper_output V genuine self submitted peers m =
     ((\<exists>h peer. m = OutSecureChannelHandshake h \<and> peer \<in> peers \<and> message_ends h = (self, peer)) \<or>
      (\<exists>plain peer r e. plain \<in> submitted \<and> out_peer plain = Ok peer \<and> peer \<in> peers \<and> genuine r e \<and>
         encrypt_contents V e plain = Ok m))"

section \<open>Two replicas\<close>

text \<open>What a network without loss makes of the messages between replicas.\<close>

fun arrives :: "out_message \<Rightarrow> in_message option" where
  "arrives (OutDeliverSystemMessage d) = Some (InDeliverSystemMessage d)"
| "arrives (OutDeliverSnapshotRequest d) = Some (InDeliverSnapshotRequest d)"
| "arrives (OutDeliverSnapshotResponse d) = Some (InDeliverSnapshotResponse d)"
| "arrives (OutSecureChannelHandshake d) = Some (InSecureChannelHandshake d)"
| "arrives _ = None"

text \<open>The messages that replica \<open>a\<close> sends to replica \<open>b\<close>.\<close>

fun addressed :: "nat \<Rightarrow> nat \<Rightarrow> out_message \<Rightarrow> bool" where
  "addressed a b (OutDeliverSystemMessage d) = (dm_sender_replica_id d = a \<and> dm_recipient_replica_id d = b)"
| "addressed a b (OutDeliverSnapshotRequest d) = (dsr_sender_replica_id d = a \<and> dsr_recipient_replica_id d = b)"
| "addressed a b (OutDeliverSnapshotResponse d) = (dsp_sender_replica_id d = a \<and> dsp_recipient_replica_id d = b)"
| "addressed a b _ = False"

fun submit ::
  "('s, 'e) session_ops \<Rightarrow> ('s, 'e) communication_module \<Rightarrow> out_message list \<Rightarrow>
   (('s, 'e) communication_module, pal_error) result" where
  "submit V c [] = Ok c"
| "submit V c (m # ms) =
     (let (c', r) = process_out_message V c m in and_then r (\<lambda>_. submit V c' ms))"

text \<open>The messages that a module hands over when a list of messages arrives.\<close>

fun feed ::
  "('s, 'e) session_ops \<Rightarrow> ('s, 'e) communication_module \<Rightarrow> in_message list \<Rightarrow>
   (('s, 'e) communication_module \<times> in_message list, pal_error) result" where
  "feed V c [] = Ok (c, [])"
| "feed V c (m # ms) =
     (let (c', r) = process_in_message V c m in
      and_then r (\<lambda>d. and_then (feed V c' ms) (\<lambda>(c'', ds).
      Ok (c'', (case d of Some x \<Rightarrow> x # ds | None \<Rightarrow> ds)))))"

text \<open>
  Turns of two modules: what the first one sends arrives at the second one, then the roles change. The
  result has what was handed over in each turn.
\<close>

fun exchange ::
  "('s, 'e) session_ops \<Rightarrow> nat \<Rightarrow> ('s, 'e) communication_module \<Rightarrow> ('s, 'e) communication_module \<Rightarrow>
   (in_message list list, pal_error) result" where
  "exchange V 0 x y = Ok []"
| "exchange V (Suc n) x y =
     (let (x', r) = take_out_messages V x in
      and_then (map_err (\<lambda>_. PalInternal) r) (\<lambda>ms.
      and_then (feed V y (List.map_filter arrives ms)) (\<lambda>(y', ds).
      and_then (exchange V n y' x') (\<lambda>rest. Ok (ds # rest)))))"

text \<open>A module that knows one peer.\<close>

abbreviation one_peer ::
  "nat \<Rightarrow> nat \<Rightarrow> nat \<Rightarrow> ('s, 'e) communication_state \<Rightarrow> ('s, 'e) communication_module" where
  "one_peer self t peer s \<equiv> \<lparr>cm_replicas = [(peer, s)], cm_replica_id = self, cm_handshake_retry_tick = t\<rparr>"

text \<open>A module whose handshake with the peer completed under the default implementations.\<close>

definition open_channel :: "nat \<Rightarrow> nat \<Rightarrow> ('s, default_encryptor) communication_module" where
  "open_channel self peer = one_peer self 1 peer
     \<lparr>cs_handshake_state = CsCompleted, cs_pending_handshake_message = None, cs_handshake_session = None,
      cs_unencrypted_messages = [], cs_encryptor = Some (default_encryptor_new default_session_keys)\<rparr>"

definition demo_events :: "comm_event list" where
  "demo_events =
     [ProcessIn (InSecureChannelHandshake (client_handshake 1 2 (AttestRequest []))), TakeOut,
      ProcessIn (InSecureChannelHandshake (client_handshake 1 2 (HandshakeRequest []))), TakeOut]"

section \<open>Steps of a peer\<close>

lemma call_session_Ok:
  "call_session s f = (s', Ok a) \<longleftrightarrow>
     (\<exists>x x'. cs_handshake_session s = Some x \<and> f x = (x', Ok a) \<and> s' = s\<lparr>cs_handshake_session := Some x'\<rparr>)"
  by (auto simp: call_session_def result_simps Let_def case_prod_eq)

lemma call_session_Err:
  "call_session s f = (s', Err e) \<longleftrightarrow>
     (\<exists>x x' e'. cs_handshake_session s = Some x \<and> f x = (x', Err e') \<and> e = SessionError e' \<and>
        s' = cs_transition_to_failed (s\<lparr>cs_handshake_session := Some x'\<rparr>))"
proof (cases "cs_handshake_session s")
  case (Some x)
  then show ?thesis
    by (cases "f x"; cases "snd (f x)") (auto simp: call_session_def)
qed (simp add: call_session_def)

lemma logged_Ok: "logged r = Ok x \<longleftrightarrow> (case x of Some a \<Rightarrow> r = Ok a | None \<Rightarrow> \<exists>e. r = Err e)"
  by (cases r; cases x) auto

lemma logged_Err [simp]: "logged r \<noteq> Err e"
  by (cases r) auto

lemma cs_decrypt_message_Ok:
  "cs_decrypt_message V s m = Ok (Some d) \<longleftrightarrow> (\<exists>e. cs_encryptor s = Some e \<and> decrypt_contents V e m = Ok d)"
  by (auto simp: cs_decrypt_message_def result_simps logged_Ok)

lemma encrypt_all_Ok:
  "encrypt_all V e ms = Ok out \<Longrightarrow> m \<in> set out \<Longrightarrow> \<exists>p \<in> set ms. encrypt_contents V e p = Ok m"
  by (induction ms arbitrary: out) (auto simp: result_simps logged_Ok split: option.splits)

lemma peer_inv_mono:
  "peer_inv V sound genuine self S peer s \<Longrightarrow> S \<subseteq> T \<Longrightarrow> peer_inv V sound genuine self T peer s"
  by (auto simp: peer_inv_def)

lemma peer_inv_new [simp]: "peer_inv V sound genuine self S peer cs_new"
  by (simp add: peer_inv_def cs_new_def)

lemma peer_inv_failed:
  "peer_inv V sound genuine self S peer s \<Longrightarrow> cs_handshake_state s \<noteq> CsCompleted \<Longrightarrow>
   peer_inv V sound genuine self S peer (cs_transition_to_failed s)"
  by (auto simp: peer_inv_def cs_transition_to_failed_def split: handshake_state.splits)

lemma peer_inv_push:
  "peer_inv V sound genuine self S peer s \<Longrightarrow> m \<in> S \<Longrightarrow> out_peer m = Ok peer \<Longrightarrow>
   peer_inv V sound genuine self S peer (cs_push s m)"
  by (auto simp: peer_inv_def cs_push_def split: handshake_state.splits)

lemma peer_inv_init:
  "peer_inv V sound genuine self S peer s \<Longrightarrow> \<not> is_initialized s \<Longrightarrow>
   cs_init s (so_get V self peer r) = (s', Ok ()) \<Longrightarrow> peer_inv V sound genuine self S peer s'"
  by (auto simp: peer_inv_def cs_init_def is_initialized_def)

lemma peer_inv_tick:
  "peer_inv V sound genuine self S peer s \<Longrightarrow> peer_inv V sound genuine self S peer (tick_replica retry s)"
  by (cases "cs_handshake_state s")
    (auto simp: peer_inv_def tick_replica_def cs_make_tick_def reset_state_machine_def Let_def)

lemma peer_inv_take_out:
  assumes inv: "peer_inv V sound genuine self S peer s" and step: "cs_take_out_messages V s = (s', Ok ms)"
  shows "peer_inv V sound genuine self S peer s'"
    and "m \<in> set ms \<Longrightarrow> proper_output V genuine self S {peer} m"
proof -
  show "peer_inv V sound genuine self S peer s'"
    using assms by (auto simp: peer_inv_def cs_take_out_messages_def take_encrypted_messages_def Let_def
      split: option.splits if_splits handshake_state.splits)
  show "proper_output V genuine self S {peer} m"
    if m: "m \<in> set ms"
  proof (cases "cs_pending_handshake_message s")
    case (Some h)
    then show ?thesis using assms m by (auto simp: peer_inv_def cs_take_out_messages_def proper_output_def)
  next
    case None
    then obtain r e where "cs_encryptor s = Some e" "genuine r e" "encrypt_all V e (cs_unencrypted_messages s) = Ok ms"
      using assms m by (auto simp: peer_inv_def cs_take_out_messages_def take_encrypted_messages_def Let_def
        result_simps split: if_splits)
    then show ?thesis using encrypt_all_Ok [OF _ m] inv by (fastforce simp: peer_inv_def proper_output_def)
  qed
qed

context handshake_sessions
begin

lemma peer_inv_process_out:
  assumes inv: "peer_inv V sound genuine self S peer s" and m: "m \<in> S" "out_peer m = Ok peer"
    and step: "cs_process_out_message V s m = (s', r)" "r \<noteq> Panic"
  shows "peer_inv V sound genuine self S peer s'"
proof (cases "cs_handshake_state s")
  case CsInitialized
  then obtain ro where session: "cs_handshake_session s = Some (so_get V self peer ro)"
    using inv by (auto simp: peer_inv_def)
  obtain x a where call: "so_take_out V (so_get V self peer ro) = (x, a)"
    by fastforce
  show ?thesis
  proof (cases a)
    case (Ok out)
    let ?s = "s\<lparr>cs_handshake_session := Some x, cs_pending_handshake_message := out\<rparr>"
    have opened: "sound self peer ro x" "\<And>h. out = Some h \<Longrightarrow> message_ends h = (self, peer)"
      using sound_opened [OF call [unfolded Ok]] by auto
    have "s' = (if out = None then cs_transition_to_failed ?s else (cs_push ?s m)\<lparr>cs_handshake_state := CsInitiated\<rparr>)"
      using step CsInitialized session call Ok
      by (auto simp: cs_process_out_message_def call_session_def Let_def split: if_splits)
    then show ?thesis
      using inv m opened CsInitialized
      by (auto simp: peer_inv_def cs_push_def cs_transition_to_failed_def)
  next
    case (Err e)
    then have "s' = cs_transition_to_failed (s\<lparr>cs_handshake_session := Some x\<rparr>)"
      using step CsInitialized session call by (auto simp: cs_process_out_message_def call_session_def)
    then show ?thesis
      using inv CsInitialized by (auto simp: peer_inv_def cs_transition_to_failed_def)
  next
    case Panic
    then show ?thesis
      using step CsInitialized session call by (auto simp: cs_process_out_message_def call_session_def)
  qed
qed (use step peer_inv_push [OF inv m] peer_inv_failed [OF inv] in \<open>auto simp: cs_process_out_message_def\<close>)

end

section \<open>Runs keep the invariant\<close>

lemma try_st_Err:
  "try_st r f = (s', Err e) \<longleftrightarrow> r = (s', Err e) \<or> (\<exists>s a. r = (s, Ok a) \<and> f s a = (s', Err e))"
  by (cases "(r, f)" rule: try_st.cases) auto

lemma replica_state_for_Ok: "\<exists>s. replica_state_for V r peer c = (s, Ok ())"
  by (auto simp: replica_state_for_def cs_init_def is_initialized_def Let_def)

lemma process_out_cases:
  assumes "process_out_message V c m = (c', r)"
  obtains e where "c' = c" "r = Err e" "check_initialized c \<noteq> Ok () \<or> out_peer m = Err e"
  | peer s s' r' where "check_initialized c = Ok ()" "out_peer m = Ok peer"
      "replica_state_for V Initiator peer c = (s, Ok ())" "cs_process_out_message V s m = (s', r')"
      "c' = cm_put peer s' c" "r = (if r' = Panic then Panic else Ok ())"
proof (cases "out_peer m")
  case (Ok peer)
  obtain s where s: "replica_state_for V Initiator peer c = (s, Ok ())"
    using replica_state_for_Ok by blast
  obtain s' r' where "cs_process_out_message V s m = (s', r')"
    by fastforce
  then show ?thesis
    using assms Ok s that by (cases r') (auto simp: process_out_message_def check_initialized_def split: if_splits)
qed (use assms that(1) in \<open>auto simp: process_out_message_def check_initialized_def split: if_splits elim: out_peer.elims\<close>)

lemma process_in_cases:
  assumes "process_in_message V c m = (c', r)"
  obtains e where "c' = c" "r = Err e" "check_initialized c \<noteq> Ok () \<or> in_peer m = Err e"
  | peer s s' r' where "check_initialized c = Ok ()" "in_peer m = Ok peer"
      "replica_state_for V Recipient peer c = (s, Ok ())" "cs_process_in_message V s m = (s', r')"
      "c' = cm_put peer s' c" "r = (case r' of Ok d \<Rightarrow> Ok d | Err _ \<Rightarrow> Ok None | Panic \<Rightarrow> Panic)"
proof (cases "in_peer m")
  case (Ok peer)
  obtain s where s: "replica_state_for V Recipient peer c = (s, Ok ())"
    using replica_state_for_Ok by blast
  obtain s' r' where "cs_process_in_message V s m = (s', r')"
    by fastforce
  then show ?thesis
    using assms Ok s that by (cases r') (auto simp: process_in_message_def check_initialized_def split: if_splits)
qed (use assms that(1) in \<open>auto simp: process_in_message_def check_initialized_def split: if_splits elim: in_peer.elims\<close>)

lemma module_inv_put:
  "module_inv V sound genuine self S c \<Longrightarrow> peer_inv V sound genuine self S peer s \<Longrightarrow>
   module_inv V sound genuine self S (cm_put peer s c)"
  using hm_insert_set [of peer s "cm_replicas c"]
  by (auto simp: module_inv_def cm_put_def map_laws)

lemma module_inv_mono:
  "module_inv V sound genuine self S c \<Longrightarrow> S \<subseteq> T \<Longrightarrow> module_inv V sound genuine self T c"
  by (auto simp: module_inv_def intro: peer_inv_mono)

lemma module_inv_get:
  "module_inv V sound genuine self S c \<Longrightarrow> hm_get (cm_replicas c) peer = Some s \<Longrightarrow>
   peer_inv V sound genuine self S peer s"
  by (auto simp: module_inv_def dest: hm_get_Some_in)

lemma replica_state_for_inv:
  assumes "module_inv V sound genuine self S c" "replica_state_for V r peer c = (s, res)"
  shows "peer_inv V sound genuine self S peer s" "res = Ok ()"
proof -
  let ?s = "case hm_get (cm_replicas c) peer of Some s \<Rightarrow> s | None \<Rightarrow> cs_new"
  have "peer_inv V sound genuine self S peer ?s"
    using assms(1) by (auto dest: module_inv_get split: option.splits)
  then show "peer_inv V sound genuine self S peer s" "res = Ok ()"
    using assms peer_inv_init [of V sound genuine self S peer ?s r]
    by (auto simp: replica_state_for_def module_inv_def cs_init_def is_initialized_def Let_def split: if_splits)
qed

lemma proper_output_mono:
  "proper_output V genuine self S A m \<Longrightarrow> A \<subseteq> B \<Longrightarrow> proper_output V genuine self S B m"
  unfolding proper_output_def by blast

lemma take_out_each_inv:
  assumes "\<forall>(peer, s) \<in> set rs. peer_inv V sound genuine self S peer s" "take_out_each V rs = (rs', Ok ms)"
  shows "map fst rs' = map fst rs \<and> (\<forall>(peer, s) \<in> set rs'. peer_inv V sound genuine self S peer s) \<and>
    (\<forall>m \<in> set ms. proper_output V genuine self S (fst ` set rs) m)"
  using assms
proof (induction rs arbitrary: rs' ms)
  case (Cons entry rs)
  obtain peer s where entry: "entry = (peer, s)"
    by fastforce
  obtain s' ms1 rs1 ms2 where steps: "cs_take_out_messages V s = (s', Ok ms1)" "take_out_each V rs = (rs1, Ok ms2)"
    "rs' = (peer, s') # rs1" "ms = ms1 @ ms2"
    using Cons.prems entry by (auto simp: result_simps Let_def case_prod_eq)
  have inv: "peer_inv V sound genuine self S peer s" "\<forall>(peer, s) \<in> set rs. peer_inv V sound genuine self S peer s"
    using Cons.prems(1) entry by auto
  show ?case
    using Cons.IH [OF inv(2) steps(2)] peer_inv_take_out [OF inv(1) steps(1)] steps(3,4) entry
    by (auto intro: proper_output_mono)
qed simp

context handshake_sessions
begin

lemma peer_inv_turn:
  assumes inv: "peer_inv V sound genuine self S peer s"
    and state: "cs_handshake_state s = CsInitialized \<or> cs_handshake_state s = CsInitiated"
    and step: "cs_process_in_message V s (InSecureChannelHandshake h) = (s', Ok r)"
  shows "peer_inv V sound genuine self S peer s' \<and> r = None"
proof -
  obtain ro x where x: "cs_handshake_session s = Some x" "sound self peer ro x" and none: "cs_encryptor s = None"
    using inv state sound_get by (fastforce simp: peer_inv_def)
  obtain x1 x2 out where turn: "so_process V x h = (x1, Ok ())" "so_take_out V x1 = (x2, Ok out)"
    and s': "cs_unencrypted_messages s' = cs_unencrypted_messages s" "cs_pending_handshake_message s' = out"
      "if so_is_completed V x2 then cs_handshake_state s' = CsCompleted \<and> cs_encryptor s' = so_get_encryptor V x2
       else cs_handshake_state s' = CsInitiated \<and> cs_encryptor s' = None \<and> cs_handshake_session s' = Some x2"
    and r: "r = None"
    using state step x(1) none
    by (fastforce simp: cs_process_in_message_def Let_def result_simps call_session_Ok split: if_splits)
  have "sound self peer ro x2" "\<And>m. out = Some m \<Longrightarrow> message_ends m = (self, peer)"
    using sound_turn [OF x(2) turn] by auto
  then show ?thesis
    using inv s' completed_genuine [of self peer ro x2] r by (auto simp: peer_inv_def split: if_splits)
qed

lemma peer_inv_process_in:
  assumes inv: "peer_inv V sound genuine self S peer s"
    and step: "cs_process_in_message V s m = (s', r)" "r \<noteq> Panic"
  shows "peer_inv V sound genuine self S peer s'"
proof (cases "cs_handshake_state s = CsInitialized \<or> cs_handshake_state s = CsInitiated")
  case state: True
  show ?thesis
  proof (cases r)
    case (Ok d)
    then obtain h where "m = InSecureChannelHandshake h"
      using step state by (cases m) (auto simp: cs_process_in_message_def)
    then show ?thesis
      using peer_inv_turn [OF inv state] step Ok by blast
  next
    case (Err e)
    obtain t where "s' = cs_transition_to_failed t" "cs_encryptor t = cs_encryptor s"
      "cs_unencrypted_messages t = cs_unencrypted_messages s"
      "cs_pending_handshake_message t = cs_pending_handshake_message s"
      using step state Err
      by (cases m) (auto simp: cs_process_in_message_def Let_def result_simps try_st_Err call_session_Ok call_session_Err
        cs_transition_to_failed_def split: if_splits)
    then show ?thesis
      using inv state by (auto simp: peer_inv_def cs_transition_to_failed_def)
  qed (use step in auto)
next
  case False
  then show ?thesis
    using step inv peer_inv_failed [OF inv]
    by (cases "cs_handshake_state s") (auto simp: cs_process_in_message_def)
qed

lemma module_inv_process_out:
  assumes inv: "module_inv V sound genuine self S c" and m: "m \<in> S"
    and step: "process_out_message V c m = (c', r)" "r \<noteq> Panic"
  shows "module_inv V sound genuine self S c'"
  using step(1)
proof (cases rule: process_out_cases)
  case (2 peer s s' r')
  have "peer_inv V sound genuine self S peer s'"
    using replica_state_for_inv(1) [OF inv 2(3)] 2(6) step(2)
    by (intro peer_inv_process_out [OF _ m 2(2) 2(4)]) (auto split: if_splits)
  then show ?thesis
    using module_inv_put [OF inv] 2(5) by blast
qed (use inv in simp)

lemma module_inv_process_in:
  assumes inv: "module_inv V sound genuine self S c"
    and step: "process_in_message V c m = (c', r)" "r \<noteq> Panic"
  shows "module_inv V sound genuine self S c'"
  using step(1)
proof (cases rule: process_in_cases)
  case (2 peer s s' r')
  have "peer_inv V sound genuine self S peer s'"
    using 2(6) step(2)
    by (intro peer_inv_process_in [OF replica_state_for_inv(1) [OF inv 2(3)] 2(4)]) (auto split: result.splits)
  then show ?thesis
    using module_inv_put [OF inv] 2(5) by blast
qed (use inv in simp)

lemma module_inv_take_out:
  assumes inv: "module_inv V sound genuine self S c" and step: "take_out_messages V c = (c', Ok ms)"
  shows "module_inv V sound genuine self S c'"
    and "m \<in> set ms \<Longrightarrow> proper_output V genuine self S (fst ` set (cm_replicas c)) m"
proof -
  obtain rs where rs: "take_out_each V (cm_replicas c) = (rs, Ok ms)" "c' = c\<lparr>cm_replicas := rs\<rparr>"
    using step by (auto simp: take_out_messages_def case_prod_eq)
  note each = take_out_each_inv [OF _ rs(1), of sound genuine self S]
  show "module_inv V sound genuine self S c'"
    using each inv rs(2) by (auto simp: module_inv_def hm_wf_def)
  show "m \<in> set ms \<Longrightarrow> proper_output V genuine self S (fst ` set (cm_replicas c)) m"
    using each inv by (auto simp: module_inv_def)
qed

lemma module_inv_cluster_change:
  "module_inv V sound genuine self S c \<Longrightarrow> module_inv V sound genuine self S (cm_process_cluster_change c ids)"
  by (auto simp: module_inv_def cm_process_cluster_change_def hm_wf_def distinct_map_filter)

lemma module_inv_make_tick:
  "module_inv V sound genuine self S c \<Longrightarrow> module_inv V sound genuine self S (make_tick c)"
  by (auto simp: module_inv_def make_tick_def hm_wf_def comp_def split_def intro: peer_inv_tick)

lemma run_inv:
  assumes "comm_run V self config evs c"
  shows "module_inv V sound genuine self (submitted_messages evs) c"
  using assms
proof (induction rule: comm_run.induct)
  case init
  show ?case
    by (auto simp: module_inv_def cm_init_def cm_new_def hm_wf_def Let_def split: option.splits)
next
  case (out evs c m c' r)
  have "module_inv V sound genuine self (submitted_messages (evs @ [ProcessOut m])) c"
    using out.IH by (rule module_inv_mono) (auto simp: submitted_messages_def)
  then show ?case
    by (rule module_inv_process_out [OF _ _ out.hyps(2,3)]) (simp add: submitted_messages_def)
next
  case (incoming evs c m c' r)
  then show ?case
    using module_inv_process_in [OF incoming.IH incoming.hyps(2,3)] by (simp add: submitted_messages_def)
next
  case (taken evs c c' ms)
  then show ?case
    using module_inv_take_out(1) [OF taken.IH taken.hyps(2)] by (simp add: submitted_messages_def)
next
  case (cluster evs c ids)
  then show ?case
    using module_inv_cluster_change [OF cluster.IH] by (simp add: submitted_messages_def)
next
  case (tick evs c)
  then show ?case
    using module_inv_make_tick [OF tick.IH] by (simp add: submitted_messages_def)
qed

end

context handshake_sessions
begin

lemma module_inv_delivered:
  assumes module: "module_inv V sound genuine self S c" and step: "process_in_message V c m = (c', Ok (Some d))"
  shows "\<exists>peer s r e. in_peer m = Ok peer \<and> hm_get (cm_replicas c) peer = Some s \<and>
    cs_handshake_state s = CsCompleted \<and> cs_encryptor s = Some e \<and> genuine r e \<and> decrypt_contents V e m = Ok d"
  using step
proof (cases rule: process_in_cases)
  case (2 peer s s' r')
  have inv: "peer_inv V sound genuine self S peer s"
    by (rule replica_state_for_inv(1) [OF module 2(3)])
  have r': "r' = Ok (Some d)"
    using 2(6) by (cases r') auto
  have state: "cs_handshake_state s = CsCompleted"
  proof (rule ccontr)
    assume not_completed: "cs_handshake_state s \<noteq> CsCompleted"
    then have state: "cs_handshake_state s = CsInitialized \<or> cs_handshake_state s = CsInitiated"
      using 2(4) r' by (cases "cs_handshake_state s") (auto simp: cs_process_in_message_def)
    then obtain h where "m = InSecureChannelHandshake h"
      using 2(4) r' by (cases m) (auto simp: cs_process_in_message_def)
    then show False
      using peer_inv_turn [OF inv state] 2(4) r' by auto
  qed
  moreover obtain r e where "cs_encryptor s = Some e" "genuine r e"
    using inv state by (auto simp: peer_inv_def)
  moreover have "cs_decrypt_message V s m = Ok (Some d)"
    using 2(4) r' state by (auto simp: cs_process_in_message_def)
  moreover have "hm_get (cm_replicas c) peer = Some s"
    using 2(3) state by (auto simp: replica_state_for_def cs_new_def is_initialized_def cs_init_def Let_def
      split: option.splits if_splits)
  ultimately show ?thesis
    using 2(2) by (auto simp: cs_decrypt_message_Ok)
qed simp

lemma delivered_genuine:
  assumes "comm_run V self config evs c" "process_in_message V c m = (c', Ok (Some d))"
  shows "\<exists>peer s r e. in_peer m = Ok peer \<and> hm_get (cm_replicas c) peer = Some s \<and>
    cs_handshake_state s = CsCompleted \<and> cs_encryptor s = Some e \<and> genuine r e \<and> decrypt_contents V e m = Ok d"
  using module_inv_delivered [OF run_inv] assms by blast

lemma sent_proper:
  assumes "comm_run V self config evs c" "take_out_messages V c = (c', Ok ms)" "m \<in> set ms"
  shows "proper_output V genuine self (submitted_messages evs) (fst ` set (cm_replicas c)) m"
  using module_inv_take_out(2) [OF run_inv] assms by blast

end

section \<open>Safety of the channels\<close>

text \<open>
  C12. Whatever messages arrive, a message is handed to the replica only over a channel whose handshake
  completed: it is the decryption of what arrived under the keys of a peer that was attested.
\<close>

theorem delivered_only_from_verified_peers:
  assumes "comm_run (provider_ops P) self config evs c"
    and "process_in_message (provider_ops P) c m = (c', Ok (Some d))"
  shows "\<exists>peer s r e. in_peer m = Ok peer \<and> hm_get (cm_replicas c) peer = Some s \<and>
    cs_handshake_state s = CsCompleted \<and> cs_encryptor s = Some e \<and>
    verified_keys P r (de_session_keys e) \<and> decrypt_contents (provider_ops P) e m = Ok d"
  using provided.delivered_genuine [OF assms] by (simp add: genuine_encryptor_def)

text \<open>
  The module sends only handshake messages to the peers it knows and encryptions, under verified
  keys, of messages that the replica submitted for that peer. Nothing leaves before the handshake
  completed.
\<close>

theorem sent_only_to_verified_peers:
  assumes "comm_run (provider_ops P) self config evs c"
    and "take_out_messages (provider_ops P) c = (c', Ok ms)" and "m \<in> set ms"
  shows "proper_output (provider_ops P) (genuine_encryptor P) self (submitted_messages evs)
    (fst ` set (cm_replicas c)) m"
  using provided.sent_proper [OF assms] .

section \<open>Delivery between two replicas\<close>

declare process_message.simps [simp del] take_out_message.simps [simp del] provider_get.simps [simp del]

lemma default_encryption:
  "addressed a b m \<Longrightarrow> encrypt_contents (provider_ops P) e m = Ok m"
  "addressed a b m \<Longrightarrow> arrives m = Some i \<Longrightarrow> decrypt_contents (provider_ops P) e i = Ok i"
  by (cases m; auto simp: encrypt_contents_def decrypt_contents_def provider_ops_def encrypt_def decrypt_def)+

lemma default_encrypt_all:
  "\<forall>m \<in> set ms. addressed a b m \<Longrightarrow> encrypt_all (provider_ops P) e ms = Ok ms"
  by (induction ms) (auto simp: default_encryption)

lemma addressed_peers:
  assumes "addressed a b m"
  shows "out_peer m = Ok b" "\<exists>i. arrives m = Some i \<and> in_peer i = Ok a"
  using assms by (cases m; auto)+

lemma submit_pushes:
  assumes "\<forall>m \<in> set ms. addressed a b m" "a \<noteq> 0" "cs_handshake_state s = CsInitiated"
  shows "submit V \<lparr>cm_replicas = [(b, s)], cm_replica_id = a, cm_handshake_retry_tick = t\<rparr> ms =
    Ok \<lparr>cm_replicas = [(b, s\<lparr>cs_unencrypted_messages := cs_unencrypted_messages s @ ms\<rparr>)],
        cm_replica_id = a, cm_handshake_retry_tick = t\<rparr>"
  using assms
proof (induction ms arbitrary: s)
  case (Cons m ms)
  have "process_out_message V \<lparr>cm_replicas = [(b, s)], cm_replica_id = a, cm_handshake_retry_tick = t\<rparr> m =
    (\<lparr>cm_replicas = [(b, cs_push s m)], cm_replica_id = a, cm_handshake_retry_tick = t\<rparr>, Ok ())"
    using Cons.prems addressed_peers(1) [of a b m]
    by (simp add: process_out_message_def check_initialized_def replica_state_for_def hm_get_def hm_insert_def
      is_initialized_def cs_process_out_message_def cm_put_def)
  then show ?case
    using Cons.IH [of "cs_push s m"] Cons.prems by (simp add: cs_push_def)
qed simp

lemmas module_defs =
  process_out_message_def process_in_message_def check_initialized_def replica_state_for_def
  is_initialized_def cs_init_def cs_new_def cm_put_def hm_get_def hm_insert_def call_session_def
  cs_process_out_message_def cs_process_in_message_def cs_push_def take_out_messages_def
  cs_take_out_messages_def take_encrypted_messages_def

lemma default_session_views:
  "hs_state (session_at a b x h st) = st"
  "hs_session_keys (session_at a b x h st) = default_session_keys"
  by (simp_all add: session_at_def)

lemma feed_decrypts:
  assumes "\<forall>m \<in> set ms. addressed a b m" "b \<noteq> 0" "cs_handshake_state s = CsCompleted" "cs_encryptor s = Some e"
  shows "feed (provider_ops P) (one_peer b t a s) (List.map_filter arrives ms) =
    Ok (one_peer b t a s, List.map_filter arrives ms)"
  using assms
proof (induction ms)
  case (Cons m ms)
  obtain i where i: "arrives m = Some i" "in_peer i = Ok a"
    using addressed_peers(2) [of a b m] Cons.prems by auto
  have "process_in_message (provider_ops P) (one_peer b t a s) i = (one_peer b t a s, Ok (Some i))"
    using Cons.prems i default_encryption(2) [of a b m i P e]
    by (simp add: module_defs cs_decrypt_message_def)
  then show ?case
    using Cons i by (simp add: List.map_filter_def)
qed (simp add: List.map_filter_def)

lemma default_ops:
  "so_get (provider_ops P) = provider_get P" "so_process (provider_ops P) = process_message P"
  "so_take_out (provider_ops P) = take_out_message P" "so_is_completed (provider_ops P) = is_completed"
  "so_get_encryptor (provider_ops P) = get_encryptor"
  by (simp_all add: provider_ops_def)

lemmas handshake_evals = default_ops default_server_steps default_client_steps default_session_views
  client_handshake_def server_handshake_def

lemma cm_init_new:
  "cm_init cm_new a cfg =
     \<lparr>cm_replicas = [], cm_replica_id = a, cm_handshake_retry_tick = (case cfg of Some t \<Rightarrow> t | None \<Rightarrow> 1)\<rparr>"
  by (cases cfg) (simp_all add: cm_init_def cm_new_def)

lemma submit_starts:
  assumes "addressed a b m" "a \<noteq> 0"
  shows "process_out_message (provider_ops (default_provider L)) (cm_init cm_new a cfg) m =
    (one_peer a (case cfg of Some t \<Rightarrow> t | None \<Rightarrow> 1) b
      \<lparr>cs_handshake_state = CsInitiated,
       cs_pending_handshake_message = Some (client_handshake a b (AttestRequest [])),
       cs_handshake_session = Some (ClientHandshakeSession
         (session_at a b (Some (ol_client_attestation_provider L)) (Some None) HsAttesting)),
       cs_unencrypted_messages = [m], cs_encryptor = None\<rparr>, Ok ())"
  using assms addressed_peers(1) [OF assms(1)]
  by (simp add: module_defs cm_init_new handshake_evals)

lemma exchange_turn:
  "take_out_messages V x = (x', Ok ms) \<Longrightarrow> feed V y (List.map_filter arrives ms) = Ok (y', ds) \<Longrightarrow>
   exchange V n y' x' = Ok rest \<Longrightarrow> exchange V (Suc n) x y = Ok (ds # rest)"
  by simp

text \<open>The five turns, from the module that submitted messages to a module without peers.\<close>

lemma exchange_completes:
  fixes L :: "('p, 'q, 'c, 'd) oak_lib"
  assumes ms: "\<forall>m \<in> set ms. addressed a b m" and ids: "a \<noteq> 0" "b \<noteq> 0"
    and created: "ol_client_handshaker_create L [] = Some c"
  shows "exchange (provider_ops (default_provider L)) 5
    (one_peer a t b
      \<lparr>cs_handshake_state = CsInitiated,
       cs_pending_handshake_message = Some (client_handshake a b (AttestRequest [])),
       cs_handshake_session = Some (ClientHandshakeSession
         (session_at a b (Some (ol_client_attestation_provider L)) (Some None) HsAttesting)),
       cs_unencrypted_messages = ms, cs_encryptor = None\<rparr>)
    \<lparr>cm_replicas = [], cm_replica_id = b, cm_handshake_retry_tick = t'\<rparr> =
    Ok [[], [], [], [], List.map_filter arrives ms]"
proof -
  let ?V = "provider_ops (default_provider L)"
  let ?A = "\<lambda>st p s e. one_peer a t b \<lparr>cs_handshake_state = st, cs_pending_handshake_message = p,
    cs_handshake_session = map_option ClientHandshakeSession s, cs_unencrypted_messages = ms, cs_encryptor = e\<rparr>"
  let ?B = "\<lambda>st p s e. one_peer b t' a \<lparr>cs_handshake_state = st, cs_pending_handshake_message = p,
    cs_handshake_session = map_option ServerHandshakeSession s, cs_unencrypted_messages = [], cs_encryptor = e\<rparr>"
  let ?e = "Some (default_encryptor_new default_session_keys)"
  let ?c1 = "Some (session_at a b (Some (ol_client_attestation_provider L)) (Some None) HsAttesting)"
  let ?c2 = "Some (session_at a b None (Some (Some c)) HsKeyExchange)"
  let ?s2 = "Some (session_at b a None (Some (Some (ol_server_handshaker_new L []))) HsKeyExchange)"
  have handshake_turn:
    "take_out_messages ?V (?A st (Some h) s e) = (?A st None s e, Ok [OutSecureChannelHandshake h])"
    "take_out_messages ?V (?B st (Some h) z e) = (?B st None z e, Ok [OutSecureChannelHandshake h])" for st h s z e
    by (simp_all add: module_defs)
  have turn1: "feed ?V \<lparr>cm_replicas = [], cm_replica_id = b, cm_handshake_retry_tick = t'\<rparr>
    (List.map_filter arrives [OutSecureChannelHandshake (client_handshake a b (AttestRequest []))]) =
    Ok (?B CsInitiated (Some (server_handshake b a (AttestResponse []))) ?s2 None, [])"
    using ids by (simp add: module_defs handshake_evals List.map_filter_def)
  have turn2: "feed ?V (?A CsInitiated None ?c1 None)
    (List.map_filter arrives [OutSecureChannelHandshake (server_handshake b a (AttestResponse []))]) =
    Ok (?A CsInitiated (Some (client_handshake a b (HandshakeRequest []))) ?c2 None, [])"
    using ids created by (simp add: module_defs handshake_evals List.map_filter_def)
  have turn3: "feed ?V (?B CsInitiated None ?s2 None)
    (List.map_filter arrives [OutSecureChannelHandshake (client_handshake a b (HandshakeRequest []))]) =
    Ok (?B CsCompleted (Some (server_handshake b a (HandshakeResponse []))) None ?e, [])"
    using ids by (simp add: module_defs handshake_evals List.map_filter_def)
  have turn4: "feed ?V (?A CsInitiated None ?c2 None)
    (List.map_filter arrives [OutSecureChannelHandshake (server_handshake b a (HandshakeResponse []))]) =
    Ok (?A CsCompleted None None ?e, [])"
    using ids by (simp add: module_defs handshake_evals List.map_filter_def)
  have "exchange ?V (Suc 0) (?A CsCompleted None None ?e) (?B CsCompleted None None ?e) =
    Ok [List.map_filter arrives ms]"
    by (simp add: module_defs default_encrypt_all [OF ms] feed_decrypts [OF ms ids(2)])
  then have "exchange ?V (Suc (Suc (Suc (Suc (Suc 0))))) (?A CsInitiated
    (Some (client_handshake a b (AttestRequest []))) ?c1 None)
    \<lparr>cm_replicas = [], cm_replica_id = b, cm_handshake_retry_tick = t'\<rparr> =
    Ok [[], [], [], [], List.map_filter arrives ms]"
    by (rule exchange_turn [OF handshake_turn(1) turn1 exchange_turn [OF handshake_turn(2) turn2
      exchange_turn [OF handshake_turn(1) turn3 exchange_turn [OF handshake_turn(2) turn4]]]])
  then show ?thesis
    by (simp add: eval_nat_numeral)
qed

text \<open>
  C11. With the default attestation and key exchange, two replicas that know nothing of each other
  complete the handshake in four turns, and in the fifth turn the recipient is handed exactly the
  messages that were submitted, in their order and unchanged.
\<close>

theorem messages_arrive_after_handshake:
  fixes L :: "('p, 'q, 'c, 'd) oak_lib"
  assumes "ms \<noteq> []" and "\<forall>m \<in> set ms. addressed a b m" and "a \<noteq> 0" and "b \<noteq> 0"
    and created: "ol_client_handshaker_create L [] = Some c"
  shows "\<exists>x. submit (provider_ops (default_provider L)) (cm_init cm_new a cfg) ms = Ok x \<and>
    exchange (provider_ops (default_provider L)) 5 x (cm_init cm_new b cfg') =
      Ok [[], [], [], [], List.map_filter arrives ms]"
proof -
  let ?V = "provider_ops (default_provider L)"
  define x :: "(('p, 'c option, 'q, 'd option) dyn_session, default_encryptor) communication_module" where "x = one_peer a (case cfg of Some t \<Rightarrow> t | None \<Rightarrow> 1) b
      \<lparr>cs_handshake_state = CsInitiated,
       cs_pending_handshake_message = Some (client_handshake a b (AttestRequest [])),
       cs_handshake_session = Some (ClientHandshakeSession
         (session_at a b (Some (ol_client_attestation_provider L)) (Some None) HsAttesting)),
       cs_unencrypted_messages = ms, cs_encryptor = None\<rparr>"
  obtain m rest where ms: "ms = m # rest"
    using assms(1) by (cases ms) auto
  have "submit ?V (cm_init cm_new a cfg) ms = Ok x"
    using assms submit_starts [of a b m L cfg] unfolding ms x_def
    by (simp only: submit.simps list.set ball_simps) (simp add: submit_pushes)
  moreover have "exchange ?V 5 x (cm_init cm_new b cfg') = Ok [[], [], [], [], List.map_filter arrives ms]"
    unfolding x_def cm_init_new by (rule exchange_completes [OF assms(2-4) created])
  ultimately show ?thesis
    by blast
qed

theorem messages_arrive_after_handshake_witness:
  "\<exists>x. submit (provider_ops (default_provider demo_oak)) (cm_init cm_new 1 None)
      [OutDeliverSystemMessage \<lparr>dm_recipient_replica_id = 2, dm_sender_replica_id = 1, dm_message_contents = [7]\<rparr>] = Ok x \<and>
    exchange (provider_ops (default_provider demo_oak)) 5 x (cm_init cm_new 2 None) =
      Ok [[], [], [], [], [InDeliverSystemMessage
        \<lparr>dm_recipient_replica_id = 2, dm_sender_replica_id = 1, dm_message_contents = [7]\<rparr>]]"
  using messages_arrive_after_handshake [of "[OutDeliverSystemMessage
      \<lparr>dm_recipient_replica_id = 2, dm_sender_replica_id = 1, dm_message_contents = [7]\<rparr>]" 1 2 demo_oak "()" None None]
  by (simp add: demo_oak_def List.map_filter_def)

section \<open>A channel that one end lost\<close>

lemma exchange_idle:
  assumes "take_out_messages V x = (x, Ok [])" "take_out_messages V y = (y, Ok [])"
  shows "exchange V n x y = Ok (replicate n [])"
  using assms by (induction n arbitrary: x y) (simp_all add: List.map_filter_def)

text \<open>
  C35. An open channel ignores handshake messages. When one end lost its state and the other one still
  has the channel open, the handshake that the first one starts is never answered: in any number of
  turns nothing it sends is handed over.
\<close>

theorem half_open_channel_stuck:
  fixes L :: "('p, 'q, 'c, 'd) oak_lib"
  assumes "ms \<noteq> []" and ms: "\<forall>m \<in> set ms. addressed a b m" and ids: "a \<noteq> 0" "b \<noteq> 0"
  shows "\<exists>x. submit (provider_ops (default_provider L)) (cm_init cm_new a cfg) ms = Ok x \<and>
    (\<forall>n. exchange (provider_ops (default_provider L)) n x (open_channel b a) = Ok (replicate n []))"
proof -
  let ?V = "provider_ops (default_provider L)"
  let ?t = "case cfg of Some t \<Rightarrow> t | None \<Rightarrow> 1"
  let ?A = "\<lambda>p. one_peer a ?t b \<lparr>cs_handshake_state = CsInitiated, cs_pending_handshake_message = p,
    cs_handshake_session = Some (ClientHandshakeSession
      (session_at a b (Some (ol_client_attestation_provider L)) (Some None) HsAttesting)),
    cs_unencrypted_messages = ms, cs_encryptor = None\<rparr>"
  let ?h = "client_handshake a b (AttestRequest [])"
  obtain m rest where "ms = m # rest"
    using assms(1) by (cases ms) auto
  then have "submit ?V (cm_init cm_new a cfg) ms = Ok (?A (Some ?h))"
    using ms ids submit_starts [of a b m L cfg]
    by (simp only: submit.simps list.set ball_simps) (simp add: submit_pushes)
  moreover have "exchange ?V n (?A (Some ?h)) (open_channel b a) = Ok (replicate n [])" for n
  proof (cases n)
    case (Suc k)
    have "take_out_messages ?V (?A (Some ?h)) = (?A None, Ok [OutSecureChannelHandshake ?h])"
      by (simp add: module_defs)
    moreover have "feed ?V (open_channel b a) (List.map_filter arrives [OutSecureChannelHandshake ?h]) =
      Ok (open_channel b a, [])"
      using ids by (simp add: open_channel_def List.map_filter_def module_defs client_handshake_def
        cs_decrypt_message_def decrypt_contents_def)
    moreover have "exchange ?V k (open_channel b a) (?A None) = Ok (replicate k [])"
      by (rule exchange_idle) (simp_all add: open_channel_def module_defs)
    ultimately show ?thesis
      unfolding Suc replicate_Suc by (rule exchange_turn)
  qed simp
  ultimately show ?thesis
    by blast
qed

theorem half_open_channel_stuck_witness:
  "\<exists>x. submit (provider_ops (default_provider demo_oak)) (cm_init cm_new 1 None)
      [OutDeliverSystemMessage \<lparr>dm_recipient_replica_id = 2, dm_sender_replica_id = 1, dm_message_contents = [7]\<rparr>] = Ok x \<and>
    exchange (provider_ops (default_provider demo_oak)) 5 x (open_channel 2 1) = Ok (replicate 5 [])"
  using half_open_channel_stuck [of "[OutDeliverSystemMessage
      \<lparr>dm_recipient_replica_id = 2, dm_sender_replica_id = 1, dm_message_contents = [7]\<rparr>]" 1 2 demo_oak None]
  by (simp del: submit.simps) blast

section \<open>A channel of the default implementations\<close>

lemma demo_channel:
  "comm_run (provider_ops (default_provider demo_oak)) 2 None demo_events (open_channel 2 1)"
proof -
  let ?V = "provider_ops (default_provider demo_oak)"
  let ?B = "\<lambda>st p s e. one_peer 2 1 1 \<lparr>cs_handshake_state = st, cs_pending_handshake_message = p,
    cs_handshake_session = map_option ServerHandshakeSession s, cs_unencrypted_messages = [], cs_encryptor = e\<rparr>"
  let ?s = "Some (session_at 2 1 None (Some (Some ())) HsKeyExchange)"
  have 1: "process_in_message ?V (cm_init cm_new 2 None)
    (InSecureChannelHandshake (client_handshake 1 2 (AttestRequest []))) =
    (?B CsInitiated (Some (server_handshake 2 1 (AttestResponse []))) ?s None, Ok None)"
    by (simp add: module_defs cm_init_new handshake_evals)
  have 2: "process_in_message ?V (?B CsInitiated None ?s None)
    (InSecureChannelHandshake (client_handshake 1 2 (HandshakeRequest []))) =
    (?B CsCompleted (Some (server_handshake 2 1 (HandshakeResponse []))) None
       (Some (default_encryptor_new default_session_keys)), Ok None)"
    by (simp add: module_defs handshake_evals)
  have take: "take_out_messages ?V (?B st (Some h) z e) = (?B st None z e, Ok [OutSecureChannelHandshake h])" for st h z e
    by (simp add: module_defs)
  show ?thesis
    using comm_run.taken [OF comm_run.incoming [OF comm_run.taken [OF comm_run.incoming
      [OF comm_run.init [of ?V 2 None] 1] take] 2] take]
    by (simp add: open_channel_def demo_events_def)
qed

theorem delivered_only_from_verified_peers_witness:
  "\<exists>r e. cs_encryptor (snd (hd (cm_replicas (open_channel 2 1 ::
         ((unit, unit option, unit, unit option) dyn_session, default_encryptor) communication_module)))) = Some e \<and>
     verified_keys (default_provider demo_oak) r (de_session_keys e)"
proof -
  let ?c = "open_channel 2 1 :: ((unit, unit option, unit, unit option) dyn_session, default_encryptor) communication_module"
  let ?m = "InDeliverSystemMessage
    \<lparr>dm_recipient_replica_id = 2, dm_sender_replica_id = 1, dm_message_contents = [7]\<rparr>"
  have "process_in_message (provider_ops (default_provider demo_oak)) ?c ?m = (?c, Ok (Some ?m))"
    by (simp add: open_channel_def module_defs cs_decrypt_message_def decrypt_contents_def provider_ops_def decrypt_def)
  from delivered_only_from_verified_peers [OF demo_channel this] show ?thesis
    by (auto simp: open_channel_def hm_get_def split: if_splits)
qed

theorem sent_only_to_verified_peers_witness:
  "proper_output (provider_ops (default_provider demo_oak)) (genuine_encryptor (default_provider demo_oak)) 2
     {OutDeliverSystemMessage \<lparr>dm_recipient_replica_id = 1, dm_sender_replica_id = 2, dm_message_contents = [7]\<rparr>}
     {1} (OutDeliverSystemMessage \<lparr>dm_recipient_replica_id = 1, dm_sender_replica_id = 2, dm_message_contents = [7]\<rparr>)"
proof -
  let ?V = "provider_ops (default_provider demo_oak)"
  let ?c = "open_channel 2 1 :: ((unit, unit option, unit, unit option) dyn_session, default_encryptor) communication_module"
  let ?m = "OutDeliverSystemMessage
    \<lparr>dm_recipient_replica_id = 1, dm_sender_replica_id = 2, dm_message_contents = [7]\<rparr>"
  let ?s = "\<lparr>cs_handshake_state = CsCompleted, cs_pending_handshake_message = None, cs_handshake_session = None,
    cs_unencrypted_messages = [?m], cs_encryptor = Some (default_encryptor_new default_session_keys)\<rparr>"
  have "process_out_message ?V ?c ?m = (one_peer 2 1 1 ?s, Ok ())"
    by (simp add: open_channel_def module_defs)
  from comm_run.out [OF demo_channel this] have run: "comm_run ?V 2 None (demo_events @ [ProcessOut ?m]) (one_peer 2 1 1 ?s)"
    by simp
  have "take_out_messages ?V (one_peer 2 1 1 ?s) = (?c, Ok [?m])"
    by (simp add: open_channel_def module_defs encrypt_contents_def provider_ops_def encrypt_def)
  from sent_only_to_verified_peers [OF run this, of ?m] show ?thesis
    by (simp add: submitted_messages_def demo_events_def)
qed

section \<open>Failed handshakes\<close>

lemma tick_replica_failed:
  "cs_handshake_state s = CsFailed k \<Longrightarrow>
   tick_replica retry s = (if retry \<le> k + 1 then reset_state_machine s else s\<lparr>cs_handshake_state := CsFailed (k + 1)\<rparr>)"
  by (simp add: tick_replica_def cs_make_tick_def reset_state_machine_def)

lemma tick_replica_idle:
  "(\<And>k. cs_handshake_state s \<noteq> CsFailed k) \<Longrightarrow> (tick_replica retry ^^ n) s = s"
  by (induction n) (auto simp: tick_replica_def cs_make_tick_def split: handshake_state.splits)

lemma tick_replica_resets:
  assumes "cs_handshake_state s = CsFailed k" "retry \<le> k + n" "0 < n"
  shows "(tick_replica retry ^^ n) s = reset_state_machine s"
  using assms
proof (induction n arbitrary: s k)
  case (Suc n)
  show ?case
  proof (cases "retry \<le> k + 1")
    case True
    then show ?thesis
      using Suc.prems tick_replica_idle [of "reset_state_machine s" n retry]
      by (simp add: funpow_Suc_right tick_replica_failed reset_state_machine_def del: funpow.simps)
  next
    case False
    have "(tick_replica retry ^^ n) (s\<lparr>cs_handshake_state := CsFailed (k + 1)\<rparr>) =
      reset_state_machine (s\<lparr>cs_handshake_state := CsFailed (k + 1)\<rparr>)"
      using Suc.prems False by (intro Suc.IH [of _ "k + 1"]) auto
    then show ?thesis
      using Suc.prems False by (simp add: funpow_Suc_right tick_replica_failed reset_state_machine_def del: funpow.simps)
  qed
qed simp

lemma make_tick_funpow:
  "(make_tick ^^ n) c =
     c\<lparr>cm_replicas := map (\<lambda>(peer, s). (peer, (tick_replica (cm_handshake_retry_tick c) ^^ n) s)) (cm_replicas c)\<rparr>"
proof (induction n)
  case 0
  then show ?case by (simp add: case_prod_eta)
next
  case (Suc n)
  then show ?case by (simp add: make_tick_def comp_def split_def)
qed

text \<open>
  A failed handshake is retried: after at most as many ticks as configured (at least one) the peer is
  back in the state of a peer that was never contacted, with the messages that wait for it, and the next
  message for it starts a new handshake as its initiator.
\<close>

theorem failed_handshake_is_retried:
  assumes s: "hm_get (cm_replicas c) peer = Some s"
    and failed: "cs_handshake_state s = CsFailed k" and n: "n = max 1 (cm_handshake_retry_tick c - k)"
    and self: "cm_replica_id c \<noteq> 0" and m: "out_peer m = Ok peer"
    and opened: "so_take_out V (so_get V (cm_replica_id c) peer Initiator) = (x, Ok (Some h))"
  shows "process_out_message V ((make_tick ^^ n) c) m =
    (cm_put peer \<lparr>cs_handshake_state = CsInitiated, cs_pending_handshake_message = Some h,
       cs_handshake_session = Some x, cs_unencrypted_messages = cs_unencrypted_messages s @ [m],
       cs_encryptor = None\<rparr> ((make_tick ^^ n) c), Ok ())"
proof -
  have "hm_get (cm_replicas ((make_tick ^^ n) c)) peer = Some ((tick_replica (cm_handshake_retry_tick c) ^^ n) s)"
    using s by (simp add: make_tick_funpow hm_get_def map_of_map)
  moreover have "(tick_replica (cm_handshake_retry_tick c) ^^ n) s = reset_state_machine s"
    using failed n by (intro tick_replica_resets) auto
  moreover have "cm_replica_id ((make_tick ^^ n) c) = cm_replica_id c"
    by (simp add: make_tick_funpow)
  ultimately show ?thesis
    using self m opened by (cases s)
     (simp add: process_out_message_def check_initialized_def replica_state_for_def is_initialized_def
      cs_init_def cs_process_out_message_def call_session_def reset_state_machine_def cs_push_def cm_put_def
      communication_state.defs)
qed

theorem failed_handshake_is_retried_witness:
  "hm_get (cm_replicas (one_peer 2 1 1 (cs_transition_to_failed cs_new))) 1 = Some (cs_transition_to_failed cs_new) \<and>
   snd (process_out_message (provider_ops (default_provider demo_oak))
     ((make_tick ^^ 1) (one_peer 2 1 1 (cs_transition_to_failed cs_new)))
     (OutDeliverSystemMessage \<lparr>dm_recipient_replica_id = 1, dm_sender_replica_id = 2, dm_message_contents = [7]\<rparr>)) = Ok ()"
  using failed_handshake_is_retried [of "one_peer 2 1 1 (cs_transition_to_failed cs_new)" 1 "cs_transition_to_failed cs_new"
      0 1 "OutDeliverSystemMessage \<lparr>dm_recipient_replica_id = 1, dm_sender_replica_id = 2, dm_message_contents = [7]\<rparr>"
      "provider_ops (default_provider demo_oak)"]
  by (simp add: hm_wf_def hm_get_def cs_transition_to_failed_def cs_new_def handshake_evals)

text \<open>
  A message of an unknown peer that is not a handshake message fails the handshake with that peer, and
  messages for it then only queue until the retry.
\<close>

lemma stray_message_fails_peer:
  assumes "cm_replica_id c \<noteq> 0" "in_peer m = Ok peer" "hm_get (cm_replicas c) peer = None"
    "\<And>h. m \<noteq> InSecureChannelHandshake h"
  shows "\<exists>s. process_in_message V c m = (cm_put peer s c, Ok None) \<and> cs_handshake_state s = CsFailed 0"
  using assms by (cases m) (auto simp: process_in_message_def check_initialized_def replica_state_for_def
    is_initialized_def cs_new_def cs_init_def cs_process_in_message_def cs_transition_to_failed_def)

text \<open>The message whose handshake cannot be started is not queued.\<close>

lemma unstarted_handshake_drops_message:
  assumes "cs_handshake_state s = CsInitialized" "cs_handshake_session s = Some x" "so_take_out V x = (x', Err e)"
    "cs_process_out_message V s m = (s', r)"
  shows "cs_unencrypted_messages s' = cs_unencrypted_messages s \<and> cs_handshake_state s' = CsFailed 0"
  using assms by (auto simp: cs_process_out_message_def call_session_def cs_transition_to_failed_def)

lemma hm_get_filter_keys: "hm_get (filter (\<lambda>e. fst e \<in> A) m) k = (if k \<in> A then hm_get m k else None)"
  by (induction m) (auto simp: hm_get_def)

lemma cluster_change_members:
  assumes "cm_replica_id c \<in> set ids"
  shows "hm_get (cm_replicas (cm_process_cluster_change c ids)) peer =
    (if peer \<in> set ids then hm_get (cm_replicas c) peer else None)"
  using assms by (simp add: cm_process_cluster_change_def hm_get_filter_keys)

end
