(* ===== verification/Logger.thy ===== *)
theory Logger
  imports Endpoint
begin

text \<open>
  Model of \<open>src/runtime/src/logger.rs\<close>: the format of a log message and the drain that keeps the messages until
  the driver takes them for its host. The library of the loggers is represented by its records, with the key value
  pairs formatted and in the order in which it serializes them, and by the format \<open>{:?}\<close> of a level.

  The core of the drain is shared by the logger and the driver behind a lock: one state with the operations of both.
  The lemmas show that a message is taken once, in the order of logging.
\<close>

datatype log_level = LevelCritical | LevelError | LevelWarning | LevelInfo | LevelDebug | LevelTrace

record log_record =
  lr_level :: log_level
  lr_file :: string
  lr_line :: nat
  lr_column :: nat
  lr_msg :: string
  lr_kv :: "(string \<times> string) list"

section \<open>Messages\<close>

definition emit_arguments :: "string \<Rightarrow> string \<Rightarrow> string \<Rightarrow> string" where
  "emit_arguments key val output = output @ key @ '': '' @ val @ '', ''"

definition serialize_values :: "(string \<times> string) list \<Rightarrow> string \<Rightarrow> string" where
  "serialize_values pairs output = fold (\<lambda>(key, val). emit_arguments key val) pairs output"

fun log_severity_of :: "log_level \<Rightarrow> log_severity" where
  "log_severity_of LevelCritical = SeverityCritical"
| "log_severity_of LevelError = SeverityError"
| "log_severity_of LevelWarning = SeverityWarning"
| "log_severity_of LevelInfo = SeverityInfo"
| "log_severity_of LevelDebug = SeverityDebug"
| "log_severity_of LevelTrace = SeverityTrace"

definition create_log_message :: "(log_level \<Rightarrow> string) \<Rightarrow> log_record \<Rightarrow> (string \<times> string) list \<Rightarrow> log_message" where
  "create_log_message debug_level r values =
     (let output = serialize_values values (serialize_values (lr_kv r) []);
          file = (case rfind (CHR ''/'') (lr_file r) of Some pos \<Rightarrow> drop (pos + 1) (lr_file r) | None \<Rightarrow> lr_file r)
      in \<lparr>lm_severity = log_severity_of (lr_level r),
          lm_message = debug_level (lr_level r) @ '' '' @ file @ '' @ '' @ decimal (lr_line r) @ '' : '' @
            decimal (lr_column r) @ '' / '' @ lr_msg r @ '' // '' @ output\<rparr>)"

section \<open>The drain\<close>

record remote_drain_core =
  rdc_entries :: "log_message list"

definition drain_core_new :: remote_drain_core where
  "drain_core_new = \<lparr>rdc_entries = []\<rparr>"

definition append_entry :: "log_message \<Rightarrow> remote_drain_core \<Rightarrow> remote_drain_core" where
  "append_entry entry core = core\<lparr>rdc_entries := rdc_entries core @ [entry]\<rparr>"

definition drain_take_entries :: "remote_drain_core \<Rightarrow> remote_drain_core \<times> log_message list" where
  "drain_take_entries core = (core\<lparr>rdc_entries := []\<rparr>, rdc_entries core)"

definition drain_log ::
  "(log_level \<Rightarrow> string) \<Rightarrow> log_record \<Rightarrow> (string \<times> string) list \<Rightarrow> remote_drain_core \<Rightarrow> remote_drain_core \<times> (unit, unit) result" where
  "drain_log debug_level r values core = (append_entry (create_log_message debug_level r values) core, Ok ())"

definition create_remote_logger :: remote_drain_core where
  "create_remote_logger = drain_core_new"

section \<open>Runs\<close>

text \<open>A run logs records, some with values of their logger, and takes the entries now and then.\<close>

datatype log_step = LogRecord log_record "(string \<times> string) list" | TakeEntries

fun log_run :: "(log_level \<Rightarrow> string) \<Rightarrow> log_step list \<Rightarrow> remote_drain_core \<Rightarrow> remote_drain_core \<times> log_message list list" where
  "log_run debug_level [] core = (core, [])"
| "log_run debug_level (LogRecord r values # steps) core = log_run debug_level steps (fst (drain_log debug_level r values core))"
| "log_run debug_level (TakeEntries # steps) core =
     (case drain_take_entries core of (core, entries) \<Rightarrow> apsnd ((#) entries) (log_run debug_level steps core))"

fun logged_messages :: "(log_level \<Rightarrow> string) \<Rightarrow> log_step list \<Rightarrow> log_message list" where
  "logged_messages debug_level [] = []"
| "logged_messages debug_level (LogRecord r values # steps) = create_log_message debug_level r values # logged_messages debug_level steps"
| "logged_messages debug_level (TakeEntries # steps) = logged_messages debug_level steps"

lemma log_run_entries:
  "log_run debug_level steps core = (core', taken) \<Longrightarrow>
    concat taken @ rdc_entries core' = rdc_entries core @ logged_messages debug_level steps"
  by (induction debug_level steps core arbitrary: taken rule: log_run.induct)
    (auto simp: drain_log_def append_entry_def drain_take_entries_def apsnd_def map_prod_def split: prod.splits)

text \<open>
  Every message is delivered once: what the driver takes from the logger that it created, together with what is
  still there, are the messages of all records, in the order of logging; taking them leaves nothing behind.
\<close>

theorem log_entries_taken_once:
  assumes "log_run debug_level steps create_remote_logger = (core, taken)"
  shows "concat taken @ rdc_entries core = logged_messages debug_level steps \<and> rdc_entries (fst (drain_take_entries core)) = []"
  using log_run_entries [OF assms] by (simp add: create_remote_logger_def drain_core_new_def drain_take_entries_def)

text \<open>Directories of the source file are left out of a message.\<close>

lemma log_message_file:
  assumes "CHR ''/'' \<notin> set name"
  shows "create_log_message debug_level (r\<lparr>lr_file := dir @ CHR ''/'' # name\<rparr>) values =
    create_log_message debug_level (r\<lparr>lr_file := name\<rparr>) values"
  using assms by (simp add: create_log_message_def rfind_last)

end
