(* ===== verification/Driver.thy ===== *)
theory Driver
  imports Consensus Communication Actor Logger
begin

text \<open>
  The driver of a replica, \<open>src/runtime/src/driver.rs\<close>: it takes one message of the host, runs the actor,
  the Raft node, the snapshot transfer and the communication module, and sends the messages that they
  produced. The driver is modelled for every Raft node (\<open>raft_ops\<close>), every actor (\<open>actor_ops\<close>) and every
  implementation of sessions (\<open>session_ops\<close>); snapshot transfer, storage and communication are the models
  of their theories. Codecs and the default configuration of the Raft library are parameters
  (\<open>driver_env\<close>). What the logger collected is an argument of \<open>receive_message\<close>.
\<close>

section \<open>Actors\<close>

text \<open>
  The trait \<open>Actor\<close> with its state. The context that the driver shares with the actor is a value;
  \<open>ao_refresh\<close> is the view of the actor after the driver changed it.
\<close>

record 'a actor_ops =
  ao_refresh :: "actor_context \<Rightarrow> 'a \<Rightarrow> 'a"
  ao_on_init :: "'a \<Rightarrow> actor_context \<Rightarrow> 'a \<times> (unit, actor_error) result"
  ao_on_shutdown :: "'a \<Rightarrow> 'a"
  ao_on_save_snapshot :: "'a \<Rightarrow> 'a \<times> (bytes, actor_error) result"
  ao_on_load_snapshot :: "'a \<Rightarrow> bytes \<Rightarrow> 'a \<times> (unit, actor_error) result"
  ao_on_process_command :: "'a \<Rightarrow> actor_command option \<Rightarrow> 'a \<times> (command_outcome, actor_error) result"
  ao_on_apply_event :: "'a \<Rightarrow> actor_event_context \<Rightarrow> actor_event \<Rightarrow> 'a \<times> (event_outcome, actor_error) result"

section \<open>State\<close>

record driver_context_core =
  dx_id :: nat
  dx_instant :: nat
  dx_config :: bytes
  dx_leader :: bool
  dx_proposals :: "bytes list"

definition context_core_new :: driver_context_core where
  "context_core_new = \<lparr>dx_id = 0, dx_instant = 0, dx_config = [], dx_leader = False, dx_proposals = []\<rparr>"

definition set_state :: "nat \<Rightarrow> bool \<Rightarrow> driver_context_core \<Rightarrow> driver_context_core" where
  "set_state instant leader c = c\<lparr>dx_instant := instant, dx_leader := leader\<rparr>"

definition set_immutable_state :: "nat \<Rightarrow> bytes \<Rightarrow> driver_context_core \<Rightarrow> driver_context_core" where
  "set_immutable_state i config c = c\<lparr>dx_id := i, dx_config := config\<rparr>"

definition append_proposal :: "bytes \<Rightarrow> driver_context_core \<Rightarrow> driver_context_core" where
  "append_proposal proposal c = c\<lparr>dx_proposals := dx_proposals c @ [proposal]\<rparr>"

text \<open>\<open>DriverContext\<close>: what the actor sees of the core.\<close>

definition driver_context :: "driver_context_core \<Rightarrow> actor_context" where
  "driver_context c =
     \<lparr>ctx_id = dx_id c, ctx_instant = dx_instant c, ctx_config = dx_config c, ctx_leader = dx_leader c\<rparr>"

datatype driver_state = Created | Started | Stopped

record driver_config =
  dg_tick_period :: nat
  dg_snapshot_count :: nat

record raft_progress =
  rg_applied_index :: nat
  rg_config_state :: config_state

definition raft_progress_new :: raft_progress where
  "raft_progress_new = \<lparr>rg_applied_index = 0, rg_config_state = create_raft_config_state []\<rparr>"

record ('r, 'a, 's, 'e) driver =
  dv_core :: driver_context_core
  dv_driver_config :: driver_config
  dv_driver_state :: driver_state
  dv_messages :: "out_message list"
  dv_snapshots :: "raft_message list"
  dv_id :: nat
  dv_instant :: nat
  dv_tick_instant :: nat
  dv_raft :: 'r
  dv_snapshot :: snapshot_processor
  dv_actor :: 'a
  dv_raft_state :: raft_state
  dv_prev_raft_state :: raft_state
  dv_raft_progress :: raft_progress
  dv_communication :: "('s, 'e) communication_module"
  dv_is_ephemeral :: bool

type_synonym ('r, 'a, 's, 'e, 'x) driver_call =
  "('r, 'a, 's, 'e) driver \<Rightarrow> ('r, 'a, 's, 'e) driver \<times> ('x, pal_error) result"

record ('r, 'a, 's, 'e) driver_env =
  en_raft :: "'r raft_ops"
  en_actor :: "'a actor_ops"
  en_sessions :: "('s, 'e) session_ops"
  en_snapshot :: snapshot_env
  en_default_raft_config :: raft_node_config
  en_encode_raft_message :: "raft_message \<Rightarrow> bytes"
  en_decode_raft_message :: "bytes \<Rightarrow> raft_message option"
  en_decode_config_change :: "bytes \<Rightarrow> config_change option"
  en_encode_entry :: "wrapped_entry \<Rightarrow> bytes"
  en_decode_entry :: "bytes \<Rightarrow> wrapped_entry option"

definition driver_new ::
  "'r \<Rightarrow> snapshot_processor \<Rightarrow> 'a \<Rightarrow> ('s, 'e) communication_module \<Rightarrow> ('r, 'a, 's, 'e) driver" where
  "driver_new raft snapshot actor communication =
     \<lparr>dv_core = context_core_new, dv_driver_config = \<lparr>dg_tick_period = 100, dg_snapshot_count = 1000\<rparr>,
      dv_driver_state = Created, dv_messages = [], dv_snapshots = [], dv_id = 0, dv_instant = 0,
      dv_tick_instant = 0, dv_raft = raft, dv_snapshot = snapshot, dv_actor = actor,
      dv_raft_state = raft_state_new, dv_prev_raft_state = raft_state_new,
      dv_raft_progress = raft_progress_new, dv_communication = communication, dv_is_ephemeral = False\<rparr>"

section \<open>Calls of the parts\<close>

definition raft_call ::
  "('r \<Rightarrow> 'r \<times> ('x, raft_error) result) \<Rightarrow> pal_error \<Rightarrow> ('r, 'a, 's, 'e, 'x) driver_call" where
  "raft_call f e d =
     (let (r, res) = f (dv_raft d) in (d\<lparr>dv_raft := r\<rparr>, map_err (\<lambda>_. e) res))"

definition store_call ::
  "('r, 'a, 's, 'e) driver_env \<Rightarrow> (storage_core \<Rightarrow> storage_core \<times> ('x, raft_error) result) \<Rightarrow> pal_error \<Rightarrow>
   ('r, 'a, 's, 'e, 'x) driver_call" where
  "store_call env f e d =
     lift_st d (map_err (\<lambda>_. e) (ra_store (en_raft env) (dv_raft d))) (\<lambda>store.
     let (store', res) = f store in
     (d\<lparr>dv_raft := ra_set_store (en_raft env) (dv_raft d) store'\<rparr>, map_err (\<lambda>_. e) res))"

definition actor_call ::
  "('a \<Rightarrow> 'a \<times> ('x, actor_error) result) \<Rightarrow> ('r, 'a, 's, 'e, 'x) driver_call" where
  "actor_call f d =
     (let (a, res) = f (dv_actor d) in (d\<lparr>dv_actor := a\<rparr>, map_err (\<lambda>_. PalActor) res))"

definition comm_call ::
  "(('s, 'e) communication_module \<Rightarrow> ('s, 'e) communication_module \<times> ('x, pal_error) result) \<Rightarrow>
   ('r, 'a, 's, 'e, 'x) driver_call" where
  "comm_call f d = (let (c, res) = f (dv_communication d) in (d\<lparr>dv_communication := c\<rparr>, res))"

text \<open>The role of the snapshot processor at the instant of the driver.\<close>

definition processor_call :: "('r, 'a, 's, 'e, processor_role) driver_call" where
  "processor_call d =
     (let (p, role) = mut_processor (dv_snapshot d) (dv_instant d) in
      (d\<lparr>dv_snapshot := p\<rparr>, map_err (\<lambda>_. PalInternal) role))"

definition put_sender :: "snapshot_sender \<Rightarrow> ('r, 'a, 's, 'e) driver \<Rightarrow> ('r, 'a, 's, 'e) driver" where
  "put_sender sender d = d\<lparr>dv_snapshot := (dv_snapshot d)\<lparr>pr_sender := sender\<rparr>\<rparr>"

definition put_receiver :: "snapshot_receiver \<Rightarrow> ('r, 'a, 's, 'e) driver \<Rightarrow> ('r, 'a, 's, 'e) driver" where
  "put_receiver receiver d = d\<lparr>dv_snapshot := (dv_snapshot d)\<lparr>pr_receiver := receiver\<rparr>\<rparr>"

fun for_each :: "('i \<Rightarrow> ('r, 'a, 's, 'e, unit) driver_call) \<Rightarrow> 'i list \<Rightarrow> ('r, 'a, 's, 'e, unit) driver_call" where
  "for_each f [] d = (d, Ok ())"
| "for_each f (x # xs) d = try_st (f x d) (\<lambda>d _. for_each f xs d)"

definition stash_message :: "out_message \<Rightarrow> ('r, 'a, 's, 'e) driver \<Rightarrow> ('r, 'a, 's, 'e) driver" where
  "stash_message message d = d\<lparr>dv_messages := dv_messages d @ [message]\<rparr>"

definition stash_snapshot :: "raft_message \<Rightarrow> ('r, 'a, 's, 'e) driver \<Rightarrow> ('r, 'a, 's, 'e) driver" where
  "stash_snapshot snapshot_message d = d\<lparr>dv_snapshots := dv_snapshots d @ [snapshot_message]\<rparr>"

text \<open>The loop that stashes the commands of an actor's outcome.\<close>

definition app_message :: "actor_command \<Rightarrow> out_message" where
  "app_message command = OutDeliverAppMessage
     \<lparr>da_correlation_id = ac_correlation_id command, da_message_header = ac_header command,
      da_message_payload = ac_payload command\<rparr>"

definition stash_commands :: "actor_command list \<Rightarrow> ('r, 'a, 's, 'e) driver \<Rightarrow> ('r, 'a, 's, 'e) driver" where
  "stash_commands commands d = fold (\<lambda>c. stash_message (app_message c)) commands d"

section \<open>Raft\<close>

definition check_raft_leadership :: "('r, 'a, 's, 'e) driver_env \<Rightarrow> ('r, 'a, 's, 'e) driver \<Rightarrow> bool" where
  "check_raft_leadership env d = ra_leader (en_raft env) (dv_raft d)"

definition get_raft_state ::
  "('r, 'a, 's, 'e) driver_env \<Rightarrow> ('r, 'a, 's, 'e) driver \<Rightarrow> (raft_state, pal_error) result" where
  "get_raft_state env d = and_then (map_err (\<lambda>_. PalRaft) (ra_state (en_raft env) (dv_raft d))) (\<lambda>state.
     Ok (if rt_leader_replica_id state = dv_id d
         then state\<lparr>rt_committed_cluster_config := cs_voters (rg_config_state (dv_raft_progress d))\<rparr>
         else state))"

definition initialize_raft_node ::
  "('r, 'a, 's, 'e) driver_env \<Rightarrow> raft_config option \<Rightarrow> bytes \<Rightarrow> bool \<Rightarrow> ('r, 'a, 's, 'e, unit) driver_call" where
  "initialize_raft_node env raft_config snapshot leader d =
     (let config = (en_default_raft_config env)\<lparr>nc_id := dv_id d\<rparr>;
          (d, config) = (case raft_config of
             Some rc \<Rightarrow>
               (d\<lparr>dv_driver_config := (dv_driver_config d)\<lparr>dg_tick_period := rc_tick_period rc,
                    dg_snapshot_count := (case rc_snapshot_config rc of
                       Some sc \<Rightarrow> sc_snapshot_count sc
                     | None \<Rightarrow> dg_snapshot_count (dv_driver_config d))\<rparr>\<rparr>,
                config\<lparr>nc_election_tick := rc_election_tick rc, nc_heartbeat_tick := rc_heartbeat_tick rc,
                  nc_max_size_per_msg := rc_max_size_per_msg rc\<rparr>)
           | None \<Rightarrow> (d, config)) in
      try_st (raft_call (\<lambda>r. ra_init (en_raft env) r (dv_id d) config snapshot leader
          (storage_new (dg_snapshot_count (dv_driver_config d)))) PalRaft d) (\<lambda>d _.
      let d = (if leader then d\<lparr>dv_raft_progress :=
                 \<lparr>rg_applied_index = 1, rg_config_state = create_raft_config_state [dv_id d]\<rparr>\<rparr>
               else d);
          d = d\<lparr>dv_tick_instant := dv_instant d\<rparr> in
      lift_st d (get_raft_state env d) (\<lambda>state. (d\<lparr>dv_prev_raft_state := state\<rparr>, Ok ()))))"

text \<open>The two checks of the addresses only write a log entry.\<close>

definition make_raft_step ::
  "('r, 'a, 's, 'e) driver_env \<Rightarrow> nat \<Rightarrow> nat \<Rightarrow> bytes \<Rightarrow> ('r, 'a, 's, 'e, unit) driver_call" where
  "make_raft_step env sender_replica_id recipient_replica_id message_contents d =
     (case en_decode_raft_message env message_contents of
        None \<Rightarrow> (d, Ok ())
      | Some message \<Rightarrow> raft_call (\<lambda>r. ra_make_step (en_raft env) r message) PalRaft d)"

definition make_raft_proposal :: "('r, 'a, 's, 'e) driver_env \<Rightarrow> bytes \<Rightarrow> ('r, 'a, 's, 'e, unit) driver_call" where
  "make_raft_proposal env proposal_contents d =
     (let (r, res) = ra_make_proposal (en_raft env) (dv_raft d) proposal_contents in
      (d\<lparr>dv_raft := r\<rparr>, case res of Ok _ \<Rightarrow> Ok () | _ \<Rightarrow> Panic))"

definition make_raft_config_change_proposal ::
  "('r, 'a, 's, 'e) driver_env \<Rightarrow> nat \<Rightarrow> config_change_type \<Rightarrow> ('r, 'a, 's, 'e, change_cluster_status) driver_call" where
  "make_raft_config_change_proposal env node_id change_type d =
     (let (r, res) = ra_make_config_change_proposal (en_raft env) (dv_raft d) (create_raft_config_change node_id change_type);
          d = d\<lparr>dv_raft := r\<rparr> in
      case res of
        Ok _ \<Rightarrow> (d, Ok ChangeStatusPending)
      | Err RaftProposalDropped \<Rightarrow> (d, Ok ChangeStatusRejected)
      | Err _ \<Rightarrow> (d, Err PalRaft)
      | Panic \<Rightarrow> (d, Panic))"

definition trigger_raft_tick :: "('r, 'a, 's, 'e) driver_env \<Rightarrow> ('r, 'a, 's, 'e, unit) driver_call" where
  "trigger_raft_tick env d =
     (if dv_instant d - dv_tick_instant d \<ge> dg_tick_period (dv_driver_config d)
      then raft_call (ra_make_tick (en_raft env)) PalRaft (d\<lparr>dv_tick_instant := dv_instant d\<rparr>)
      else (d, Ok ()))"

definition collect_config_state :: "config_state \<Rightarrow> ('r, 'a, 's, 'e) driver \<Rightarrow> ('r, 'a, 's, 'e) driver" where
  "collect_config_state config_state d =
     d\<lparr>dv_raft_progress := (dv_raft_progress d)\<lparr>rg_config_state := config_state\<rparr>\<rparr>"

text \<open>The body of the loop over committed entries.\<close>

definition apply_committed_entry ::
  "('r, 'a, 's, 'e) driver_env \<Rightarrow> raft_entry \<Rightarrow> ('r, 'a, 's, 'e, unit) driver_call" where
  "apply_committed_entry env entry d =
     (let d = d\<lparr>dv_raft_progress := (dv_raft_progress d)\<lparr>rg_applied_index := re_index entry\<rparr>\<rparr> in
      if re_data entry = [] then (d, Ok ())
      else if re_entry_type entry = EntryConfChange then
        lift_st d (ok_or PalRaft (en_decode_config_change env (re_data entry))) (\<lambda>config_change.
        try_st (raft_call (\<lambda>r. ra_apply_config_change (en_raft env) r config_change) PalRaft d) (\<lambda>d config_state.
        (collect_config_state config_state d, Ok ())))
      else
        lift_st d (ok_or PalRaft (en_decode_entry env (re_data entry))) (\<lambda>wrapped.
        lift_st d (unwrap (we_entry_id wrapped)) (\<lambda>entry_id.
        try_st (actor_call (\<lambda>a. ao_on_apply_event (en_actor env) a
            \<lparr>aec_index = re_index entry, aec_owned = (ei_replica_id entry_id = dv_id d)\<rparr>
            (event_with_bytes (ei_entry_id entry_id) (we_entry_contents wrapped))) d) (\<lambda>d outcome.
        (stash_commands (eo_commands outcome) d, Ok ())))))"

definition apply_raft_committed_entries ::
  "('r, 'a, 's, 'e) driver_env \<Rightarrow> raft_entry list \<Rightarrow> ('r, 'a, 's, 'e, unit) driver_call" where
  "apply_raft_committed_entries env committed_entries d =
     for_each (apply_committed_entry env) (sort_key re_index committed_entries) d"

definition send_raft_message :: "('r, 'a, 's, 'e) driver_env \<Rightarrow> raft_message \<Rightarrow> ('r, 'a, 's, 'e, unit) driver_call" where
  "send_raft_message env raft_message d =
     (if rm_msg_type raft_message = MsgSnapshot then (stash_snapshot raft_message d, Ok ())
      else comm_call (\<lambda>c. process_out_message (en_sessions env) c (OutDeliverSystemMessage
        \<lparr>dm_recipient_replica_id = rm_to raft_message, dm_sender_replica_id = dv_id d,
         dm_message_contents = en_encode_raft_message env raft_message\<rparr>)) d)"

definition send_raft_messages ::
  "('r, 'a, 's, 'e) driver_env \<Rightarrow> raft_message list \<Rightarrow> ('r, 'a, 's, 'e, unit) driver_call" where
  "send_raft_messages env raft_messages d = for_each (send_raft_message env) raft_messages d"

text \<open>\<open>is_empty\<close> of the library's snapshots.\<close>

definition snapshot_is_empty :: "raft_snapshot \<Rightarrow> bool" where
  "snapshot_is_empty s = (case rs_metadata s of None \<Rightarrow> True | Some m \<Rightarrow> sm_index m = 0)"

definition restore_raft_snapshot ::
  "('r, 'a, 's, 'e) driver_env \<Rightarrow> raft_snapshot \<Rightarrow> ('r, 'a, 's, 'e, unit) driver_call" where
  "restore_raft_snapshot env raft_snapshot d =
     (if snapshot_is_empty raft_snapshot then (d, Ok ())
      else
        lift_st d (map_err (\<lambda>_. PalRaft) (get_config_state raft_snapshot)) (\<lambda>config_state.
        let d = collect_config_state config_state d in
        try_st (store_call env (\<lambda>s. apply_snapshot s raft_snapshot) PalRaft d) (\<lambda>d _.
        try_st (actor_call (\<lambda>a. ao_on_load_snapshot (en_actor env) a (rs_data raft_snapshot)) d) (\<lambda>d _.
        lift_st d (map_err (\<lambda>_. PalRaft) (get_metadata raft_snapshot)) (\<lambda>metadata.
        (d\<lparr>dv_raft_progress := (dv_raft_progress d)\<lparr>rg_applied_index := sm_index metadata\<rparr>\<rparr>, Ok ()))))))"

definition maybe_create_raft_snapshot :: "('r, 'a, 's, 'e) driver_env \<Rightarrow> ('r, 'a, 's, 'e, unit) driver_call" where
  "maybe_create_raft_snapshot env d =
     (let applied_index = rg_applied_index (dv_raft_progress d);
          config_state = rg_config_state (dv_raft_progress d) in
      try_st (store_call env (\<lambda>s. (s, should_snapshot s applied_index config_state)) PalActor d) (\<lambda>d should.
      if \<not> should then (d, Ok ())
      else try_st (actor_call (ao_on_save_snapshot (en_actor env)) d) (\<lambda>d snapshot_data.
        store_call env (\<lambda>s. create_snapshot s applied_index config_state snapshot_data) PalActor d)))"

definition advance_raft :: "('r, 'a, 's, 'e) driver_env \<Rightarrow> ('r, 'a, 's, 'e, unit) driver_call" where
  "advance_raft env d =
     try_st (trigger_raft_tick env d) (\<lambda>d _.
     lift_st d (map_err (\<lambda>_. PalRaft) (ra_has_ready (en_raft env) (dv_raft d))) (\<lambda>has_ready.
     if \<not> has_ready then (d, Ok ())
     else
       try_st (raft_call (ra_get_ready (en_raft env)) PalRaft d) (\<lambda>d raft_ready.
       let (raft_ready, messages) = take_messages raft_ready in
       try_st (send_raft_messages env messages d) (\<lambda>d _.
       try_st (case rd_hard_state raft_ready of
           Some hard_state \<Rightarrow> store_call env (\<lambda>s. (set_hard_state s hard_state, Ok ())) PalRaft d
         | None \<Rightarrow> (d, Ok ())) (\<lambda>d _.
       let (raft_ready, snapshot) = take_snapshot raft_ready in
       try_st (restore_raft_snapshot env snapshot d) (\<lambda>d _.
       let (raft_ready, committed_entries) = take_committed_entries raft_ready in
       try_st (apply_raft_committed_entries env committed_entries d) (\<lambda>d _.
       let (raft_ready, persisted_messages) = take_persisted_messages raft_ready in
       try_st (send_raft_messages env persisted_messages d) (\<lambda>d _.
       let (raft_ready, entries) = take_entries raft_ready in
       try_st (if entries \<noteq> [] then store_call env (\<lambda>s. append_entries s entries) PalActor d else (d, Ok ())) (\<lambda>d _.
       try_st (raft_call (\<lambda>r. ra_advance_ready (en_raft env) r raft_ready) PalRaft d) (\<lambda>d light_raft_ready.
       try_st (send_raft_messages env (rl_messages light_raft_ready) d) (\<lambda>d _.
       try_st (apply_raft_committed_entries env (rl_committed_entries light_raft_ready) d) (\<lambda>d _.
       raft_call (ra_advance_apply (en_raft env)) PalRaft d))))))))))))"

definition reset_leader_state :: "('r, 'a, 's, 'e) driver \<Rightarrow> ('r, 'a, 's, 'e) driver" where
  "reset_leader_state d = d\<lparr>dv_prev_raft_state := raft_state_new\<rparr>"

definition report_snapshot ::
  "('r, 'a, 's, 'e) driver_env \<Rightarrow> nat \<times> snapshot_status \<Rightarrow> ('r, 'a, 's, 'e, unit) driver_call" where
  "report_snapshot env update d =
     raft_call (\<lambda>r. ra_report_snapshot (en_raft env) r (fst update) (snd update)) PalRaft d"

definition update_snapshot_cluster_change :: "('r, 'a, 's, 'e) driver_env \<Rightarrow> ('r, 'a, 's, 'e, unit) driver_call" where
  "update_snapshot_cluster_change env d =
     (if dv_driver_state d \<noteq> Started then (d, Ok ())
      else
        (let (p, updates) = process_cluster_change (dv_snapshot d) (rt_leader_replica_id (dv_raft_state d))
               (rt_leader_term (dv_raft_state d)) (rt_committed_cluster_config (dv_raft_state d));
             d = d\<lparr>dv_snapshot := p\<rparr> in
         lift_st d (map_err (\<lambda>_. PalInternal) updates) (\<lambda>snapshot_updates.
         for_each (report_snapshot env) snapshot_updates d)))"

definition stash_leader_state :: "('r, 'a, 's, 'e) driver_env \<Rightarrow> ('r, 'a, 's, 'e, unit) driver_call" where
  "stash_leader_state env d =
     lift_st d (get_raft_state env d) (\<lambda>state.
     let d = d\<lparr>dv_raft_state := state\<rparr> in
     if dv_prev_raft_state d = state then (d, Ok ())
     else
       try_st (update_snapshot_cluster_change env (d\<lparr>dv_prev_raft_state := state\<rparr>)) (\<lambda>d _.
       let d = d\<lparr>dv_communication :=
                 cm_process_cluster_change (dv_communication d) (rt_committed_cluster_config state)\<rparr> in
       (stash_message (OutCheckCluster
          \<lparr>cc_leader_replica_id = rt_leader_replica_id state, cc_leader_term = rt_leader_term state,
           cc_cluster_replica_ids = rt_committed_cluster_config state,
           cc_has_pending_changes = rt_has_pending_change state\<rparr>) d, Ok ())))"

section \<open>Messages of the host\<close>

definition preset_state_machine ::
  "('r, 'a, 's, 'e) driver_env \<Rightarrow> nat \<Rightarrow> ('r, 'a, 's, 'e) driver \<Rightarrow> ('r, 'a, 's, 'e) driver" where
  "preset_state_machine env instant d =
     (let d = d\<lparr>dv_prev_raft_state := dv_raft_state d, dv_instant := max (dv_instant d) instant\<rparr>;
          core = set_state (dv_instant d) (check_raft_leadership env d) (dv_core d) in
      d\<lparr>dv_core := core, dv_actor := ao_refresh (en_actor env) (driver_context core) (dv_actor d)\<rparr>)"

definition check_driver_state :: "driver_state \<Rightarrow> ('r, 'a, 's, 'e) driver \<Rightarrow> (unit, pal_error) result" where
  "check_driver_state state d = (if dv_driver_state d \<noteq> state then Err PalInvalidOperation else Ok ())"

definition check_driver_started :: "('r, 'a, 's, 'e) driver \<Rightarrow> (unit, pal_error) result" where
  "check_driver_started d = check_driver_state Started d"

definition check_non_ephemeral :: "('r, 'a, 's, 'e) driver \<Rightarrow> (unit, pal_error) result" where
  "check_non_ephemeral d = (if dv_is_ephemeral d then Err PalInvalidOperation else Ok ())"

definition initialize_driver :: "nat \<Rightarrow> ('r, 'a, 's, 'e) driver \<Rightarrow> ('r, 'a, 's, 'e) driver" where
  "initialize_driver replica_id_hint d = d\<lparr>dv_id := replica_id_hint\<rparr>"

text \<open>The initialization of the actor and, for a replicated one, of snapshots and Raft.\<close>

definition initialize_parts ::
  "('r, 'a, 's, 'e) driver_env \<Rightarrow> start_replica_request \<Rightarrow> ('r, 'a, 's, 'e, unit) driver_call" where
  "initialize_parts env request d =
     (let d = initialize_driver (sr_replica_id_hint request) d;
          d = d\<lparr>dv_core := set_immutable_state (dv_id d) (sr_app_config request) (dv_core d)\<rparr> in
      try_st (actor_call (\<lambda>a. ao_on_init (en_actor env) a (driver_context (dv_core d))) d) (\<lambda>d _.
      let d = d\<lparr>dv_is_ephemeral := sr_is_ephemeral request\<rparr> in
      if dv_is_ephemeral d then (d, Ok ())
      else
        try_st (actor_call (ao_on_save_snapshot (en_actor env)) d) (\<lambda>d snapshot.
        let (p, initialized) = processor_init (dv_snapshot d) (dv_id d)
              (Option.bind (sr_raft_config request) rc_snapshot_config);
            d = d\<lparr>dv_snapshot := p\<rparr> in
        lift_st d (map_err (\<lambda>_. PalInternal) initialized) (\<lambda>_.
        initialize_raft_node env (sr_raft_config request) snapshot (sr_is_leader request) d))))"

definition process_start_node ::
  "('r, 'a, 's, 'e) driver_env \<Rightarrow> start_replica_request \<Rightarrow> ('r, 'a, 's, 'e, unit) driver_call" where
  "process_start_node env request d =
     lift_st d (check_driver_state Created d) (\<lambda>_.
     try_st (initialize_parts env request d) (\<lambda>d _.
     let d = d\<lparr>dv_communication := cm_init (dv_communication d) (dv_id d)
               (map_option rc_handshake_retry_tick (sr_raft_config request)), dv_driver_state := Started\<rparr> in
     (stash_message (OutStartReplica (dv_id d)) d, Ok ())))"

definition process_stop_node :: "('r, 'a, 's, 'e) driver_env \<Rightarrow> ('r, 'a, 's, 'e, unit) driver_call" where
  "process_stop_node env d =
     (if dv_driver_state d = Stopped then (d, Ok ())
      else (stash_message OutStopReplica
        (d\<lparr>dv_actor := ao_on_shutdown (en_actor env) (dv_actor d), dv_driver_state := Stopped\<rparr>), Ok ()))"

definition process_change_cluster ::
  "('r, 'a, 's, 'e) driver_env \<Rightarrow> change_cluster_request \<Rightarrow> ('r, 'a, 's, 'e, unit) driver_call" where
  "process_change_cluster env request d =
     lift_st d (check_driver_started d) (\<lambda>_. lift_st d (check_non_ephemeral d) (\<lambda>_.
     try_st (case cr_change_type request of
         Some ChangeTypeAddReplica \<Rightarrow> make_raft_config_change_proposal env (cr_replica_id request) AddNode d
       | Some ChangeTypeRemoveReplica \<Rightarrow> make_raft_config_change_proposal env (cr_replica_id request) RemoveNode d
       | _ \<Rightarrow> (d, Ok ChangeStatusRejected)) (\<lambda>d change_status.
     (stash_message (OutChangeCluster (cr_change_id request) change_status) d, Ok ()))))"

definition process_check_cluster :: "('r, 'a, 's, 'e, unit) driver_call" where
  "process_check_cluster d =
     lift_st d (check_driver_started d) (\<lambda>_. lift_st d (check_non_ephemeral d) (\<lambda>_.
     (reset_leader_state d, Ok ())))"

definition process_deliver_system_message ::
  "('r, 'a, 's, 'e) driver_env \<Rightarrow> deliver_system_message \<Rightarrow> ('r, 'a, 's, 'e, unit) driver_call" where
  "process_deliver_system_message env message d =
     lift_st d (check_driver_started d) (\<lambda>_. lift_st d (check_non_ephemeral d) (\<lambda>_.
     try_st (comm_call (\<lambda>c. process_in_message (en_sessions env) c (InDeliverSystemMessage message)) d) (\<lambda>d m.
     case m of
       None \<Rightarrow> (d, Ok ())
     | Some (InDeliverSystemMessage m) \<Rightarrow>
         make_raft_step env (dm_sender_replica_id m) (dm_recipient_replica_id m) (dm_message_contents m) d
     | Some _ \<Rightarrow> (d, Err PalInternal))))"

definition process_deliver_snapshot_request ::
  "('r, 'a, 's, 'e) driver_env \<Rightarrow> deliver_snapshot_request \<Rightarrow> ('r, 'a, 's, 'e, unit) driver_call" where
  "process_deliver_snapshot_request env request d =
     lift_st d (check_non_ephemeral d) (\<lambda>_.
     try_st (comm_call (\<lambda>c. process_in_message (en_sessions env) c (InDeliverSnapshotRequest request)) d) (\<lambda>d m.
     case m of
       None \<Rightarrow> (d, Ok ())
     | Some (InDeliverSnapshotRequest m) \<Rightarrow>
         try_st (try_st (processor_call d) (\<lambda>d role. case role of
             SenderRole sender \<Rightarrow> (d, Ok (process_unexpected_request (en_snapshot env) m))
           | ReceiverRole receiver \<Rightarrow>
               (let (receiver, response) = process_request (en_snapshot env) receiver m in
                (put_receiver receiver d, map_err (\<lambda>_. PalInternal) response)))) (\<lambda>d response.
         comm_call (\<lambda>c. process_out_message (en_sessions env) c (OutDeliverSnapshotResponse response)) d)
     | Some _ \<Rightarrow> (d, Err PalInternal)))"

definition process_deliver_snapshot_response ::
  "('r, 'a, 's, 'e) driver_env \<Rightarrow> deliver_snapshot_response \<Rightarrow> ('r, 'a, 's, 'e, unit) driver_call" where
  "process_deliver_snapshot_response env response d =
     lift_st d (check_non_ephemeral d) (\<lambda>_.
     try_st (comm_call (\<lambda>c. process_in_message (en_sessions env) c (InDeliverSnapshotResponse response)) d) (\<lambda>d m.
     case m of
       None \<Rightarrow> (d, Ok ())
     | Some (InDeliverSnapshotResponse m) \<Rightarrow>
         try_st (processor_call d) (\<lambda>d role. case role of
             SenderRole sender \<Rightarrow> (put_sender (sender_process_response (en_snapshot env) sender
                (dsp_sender_replica_id m) (dsp_delivery_id m) (Ok m)) d, Ok ())
           | ReceiverRole receiver \<Rightarrow> (d, Ok ()))
     | Some _ \<Rightarrow> (d, Err PalInternal)))"

definition process_deliver_snapshot_failure ::
  "('r, 'a, 's, 'e) driver_env \<Rightarrow> deliver_snapshot_failure \<Rightarrow> ('r, 'a, 's, 'e, unit) driver_call" where
  "process_deliver_snapshot_failure env failure d =
     lift_st d (check_non_ephemeral d) (\<lambda>_.
     try_st (processor_call d) (\<lambda>d role. case role of
         SenderRole sender \<Rightarrow> (put_sender (sender_process_response (en_snapshot env) sender
            (dsf_sender_replica_id failure) (dsf_delivery_id failure) (Err FailedDelivery)) d, Ok ())
       | ReceiverRole receiver \<Rightarrow> (d, Ok ())))"

definition process_snapshot_progress :: "('r, 'a, 's, 'e) driver_env \<Rightarrow> ('r, 'a, 's, 'e, unit) driver_call" where
  "process_snapshot_progress env d =
     (if dv_driver_state d \<noteq> Started then (d, Ok ())
      else try_st (processor_call d) (\<lambda>d role. case role of
          SenderRole sender \<Rightarrow>
            (let (sender, completed) = sender_try_complete sender; d = put_sender sender d in
             case completed of None \<Rightarrow> (d, Ok ()) | Some update \<Rightarrow> report_snapshot env update d)
        | ReceiverRole receiver \<Rightarrow>
            (let (receiver, completed) = receiver_try_complete (en_snapshot env) receiver; d = put_receiver receiver d in
             lift_st d (map_err (\<lambda>_. PalInternal) completed) (\<lambda>result. case result of
               Some (Ok (sender_replica_id, snapshot)) \<Rightarrow>
                 (let (r, res) = ra_make_step (en_raft env) (dv_raft d)
                        ((create_raft_message sender_replica_id (dv_id d) MsgSnapshot)\<lparr>rm_snapshot := Some snapshot\<rparr>);
                      d = d\<lparr>dv_raft := r\<rparr> in
                  (d, if res = Panic then Panic else Ok ()))
             | _ \<Rightarrow> (d, Ok ())))))"

text \<open>
  The loop over \<open>next_request\<close>, with fuel: every request adds a chunk in flight, and there are at most
  \<open>max_pending_chunks\<close> of them.
\<close>

fun next_requests ::
  "nat \<Rightarrow> snapshot_env \<Rightarrow> snapshot_sender \<Rightarrow> snapshot_sender \<times> (deliver_snapshot_request list, unit) result" where
  "next_requests 0 env s = (s, Ok [])"
| "next_requests (Suc fuel) env s =
     try_st (next_request env s) (\<lambda>s request. case request of
         None \<Rightarrow> (s, Ok [])
       | Some q \<Rightarrow> try_st (next_requests fuel env s) (\<lambda>s qs. (s, Ok (q # qs))))"

fun start_transfers :: "raft_message list \<Rightarrow> snapshot_sender \<Rightarrow> snapshot_sender \<times> (unit, unit) result" where
  "start_transfers [] s = (s, Ok ())"
| "start_transfers (m # ms) s =
     lift_st s (unwrap (rm_snapshot m)) (\<lambda>snapshot.
     try_st (sender_start s (rm_to m) snapshot) (\<lambda>s _. start_transfers ms s))"

definition process_snapshot_sending :: "('r, 'a, 's, 'e) driver_env \<Rightarrow> ('r, 'a, 's, 'e, unit) driver_call" where
  "process_snapshot_sending env d =
     (let snapshot_messages = dv_snapshots d; d = d\<lparr>dv_snapshots := []\<rparr> in
      try_st (try_st (processor_call d) (\<lambda>d role. case role of
          SenderRole sender \<Rightarrow>
            (let (sender, r) = try_st (start_transfers snapshot_messages sender) (\<lambda>sender _.
                   next_requests (Suc (ds_max_pending_chunks sender)) (en_snapshot env) sender) in
             (put_sender sender d, map_err (\<lambda>_. PalInternal) r))
        | ReceiverRole receiver \<Rightarrow>
            try_st (for_each (\<lambda>m. report_snapshot env (rm_to m, Failure)) snapshot_messages d) (\<lambda>d _. (d, Ok []))))
        (\<lambda>d requests.
      for_each (\<lambda>q. comm_call (\<lambda>c. process_out_message (en_sessions env) c (OutDeliverSnapshotRequest q))) requests d))"

definition process_deliver_app_message ::
  "('r, 'a, 's, 'e) driver_env \<Rightarrow> deliver_app_message option \<Rightarrow> ('r, 'a, 's, 'e, unit) driver_call" where
  "process_deliver_app_message env message d =
     lift_st d (check_driver_started d) (\<lambda>_.
     try_st (actor_call (\<lambda>a. ao_on_process_command (en_actor env) a (map_option (\<lambda>m.
         \<lparr>ac_correlation_id = da_correlation_id m, ac_header = da_message_header m, ac_payload = da_message_payload m\<rparr>)
         message)) d) (\<lambda>d outcome.
     let d = stash_commands (co_commands outcome) d in
     case co_event outcome of
       None \<Rightarrow> (d, Ok ())
     | Some event \<Rightarrow>
         if dv_is_ephemeral d then
           try_st (actor_call (\<lambda>a. ao_on_apply_event (en_actor env) a \<lparr>aec_index = 0, aec_owned = True\<rparr> event) d)
             (\<lambda>d event_outcome. (stash_commands (eo_commands event_outcome) d, Ok ()))
         else
           (d\<lparr>dv_core := append_proposal (en_encode_entry env (create_entry
                (create_entry_id (dv_id d) (ae_correlation_id event)) (ae_contents event))) (dv_core d)\<rparr>, Ok ())))"

definition process_get_replica_state :: "('r, 'a, 's, 'e) driver_env \<Rightarrow> ('r, 'a, 's, 'e, unit) driver_call" where
  "process_get_replica_state env d =
     lift_st d (check_driver_started d) (\<lambda>_.
     if dv_is_ephemeral d then (stash_message (OutGetReplicaState 0 0) d, Ok ())
     else try_st (store_call env (\<lambda>s. (s, Ok (latest_snapshot_size s))) PalRaft d) (\<lambda>d latest_snapshot_size.
       (stash_message (OutGetReplicaState (rg_applied_index (dv_raft_progress d)) latest_snapshot_size) d, Ok ())))"

definition process_secure_channel_handshake ::
  "('r, 'a, 's, 'e) driver_env \<Rightarrow> secure_channel_handshake \<Rightarrow> ('r, 'a, 's, 'e, unit) driver_call" where
  "process_secure_channel_handshake env handshake d =
     lift_st d (check_driver_started d) (\<lambda>_.
     try_st (comm_call (\<lambda>c. process_in_message (en_sessions env) c (InSecureChannelHandshake handshake)) d)
       (\<lambda>d _. (d, Ok ())))"

definition process_actor_raft_proposals :: "('r, 'a, 's, 'e) driver_env \<Rightarrow> ('r, 'a, 's, 'e, unit) driver_call" where
  "process_actor_raft_proposals env d =
     (let proposals = dx_proposals (dv_core d) in
      for_each (make_raft_proposal env) proposals (d\<lparr>dv_core := (dv_core d)\<lparr>dx_proposals := []\<rparr>\<rparr>))"

definition process_state_machine :: "('r, 'a, 's, 'e) driver_env \<Rightarrow> ('r, 'a, 's, 'e, unit) driver_call" where
  "process_state_machine env d =
     (if ra_initialized (en_raft env) (dv_raft d) then
        try_st (advance_raft env d) (\<lambda>d _.
        try_st (maybe_create_raft_snapshot env d) (\<lambda>d _.
        stash_leader_state env d))
      else (d, Ok ()))"

definition stash_log_entries :: "log_message list \<Rightarrow> ('r, 'a, 's, 'e) driver \<Rightarrow> ('r, 'a, 's, 'e) driver" where
  "stash_log_entries entries d = fold (\<lambda>e. stash_message (OutLog e)) entries d"

definition stash_comms_module_entries :: "('r, 'a, 's, 'e) driver_env \<Rightarrow> ('r, 'a, 's, 'e, unit) driver_call" where
  "stash_comms_module_entries env d =
     (let (c, res) = take_out_messages (en_sessions env) (dv_communication d);
          d = d\<lparr>dv_communication := c\<rparr> in
      lift_st d (map_err (\<lambda>_. PalInternal) res) (\<lambda>ms. (d\<lparr>dv_messages := dv_messages d @ ms\<rparr>, Ok ())))"

text \<open>The message that is dispatched; an application message is left for the actor.\<close>

definition dispatch_message ::
  "('r, 'a, 's, 'e) driver_env \<Rightarrow> in_message \<Rightarrow> ('r, 'a, 's, 'e, deliver_app_message option) driver_call" where
  "dispatch_message env message d =
     (let continue = (\<lambda>p. try_st p (\<lambda>d _. (d, Ok None))) in
      case message of
        InStartReplica request \<Rightarrow> continue (process_start_node env request d)
      | InStopReplica \<Rightarrow> continue (process_stop_node env d)
      | InChangeCluster request \<Rightarrow> continue (process_change_cluster env request d)
      | InCheckCluster \<Rightarrow> continue (process_check_cluster d)
      | InDeliverSystemMessage m \<Rightarrow> continue (process_deliver_system_message env m d)
      | InDeliverSnapshotRequest m \<Rightarrow> continue (process_deliver_snapshot_request env m d)
      | InDeliverSnapshotResponse m \<Rightarrow> continue (process_deliver_snapshot_response env m d)
      | InDeliverSnapshotFailure m \<Rightarrow> continue (process_deliver_snapshot_failure env m d)
      | InGetReplicaState \<Rightarrow> continue (process_get_replica_state env d)
      | InSecureChannelHandshake m \<Rightarrow> continue (process_secure_channel_handshake env m d)
      | InDeliverAppMessage m \<Rightarrow> (d, Ok (Some m)))"

definition process_raft :: "('r, 'a, 's, 'e) driver_env \<Rightarrow> ('r, 'a, 's, 'e, unit) driver_call" where
  "process_raft env d =
     (if dv_is_ephemeral d then (d, Ok ())
      else
        try_st (process_actor_raft_proposals env d) (\<lambda>d _.
        try_st (process_snapshot_progress env d) (\<lambda>d _.
        try_st (process_state_machine env d) (\<lambda>d _.
        process_snapshot_sending env d))))"

text \<open>
  The message is absent, unknown or one of the known messages. The result has the messages that the
  host is asked to send, if it is asked at all.
\<close>

definition receive_message ::
  "('r, 'a, 's, 'e) driver_env \<Rightarrow> nat \<Rightarrow> in_message option option \<Rightarrow> log_message list \<Rightarrow>
   ('r, 'a, 's, 'e, out_message list option) driver_call" where
  "receive_message env instant opt_message log_entries d =
     (let d = preset_state_machine env instant d in
      if opt_message = Some None then (d, Ok None)
      else
        try_st (case opt_message of
            Some (Some message) \<Rightarrow> dispatch_message env message d
          | _ \<Rightarrow> (d, Ok None)) (\<lambda>d deliver_app_message.
        try_st (if dv_driver_state d = Started then
              try_st (process_deliver_app_message env deliver_app_message d) (\<lambda>d _.
              (d\<lparr>dv_communication := make_tick (dv_communication d)\<rparr>, Ok ()))
            else (d, Ok ())) (\<lambda>d _.
        try_st (process_raft env d) (\<lambda>d _.
        try_st (stash_comms_module_entries env (stash_log_entries log_entries d)) (\<lambda>d _.
        (d\<lparr>dv_messages := []\<rparr>, Ok (Some (dv_messages d))))))))"

section \<open>Runs of a driver\<close>

text \<open>The driver of the platform: \<open>RaftSimple\<close> over a node of the Raft library, provided sessions.\<close>

definition platform_env ::
  "('n, 'd) raw_node \<Rightarrow> ('p, 'h, 'q, 'k) session_provider \<Rightarrow> (('n, 'd) raft_simple, 'a,
     ('p, 'h, 'q, 'k) dyn_session, default_encryptor) driver_env \<Rightarrow>
   (('n, 'd) raft_simple, 'a, ('p, 'h, 'q, 'k) dyn_session, default_encryptor) driver_env" where
  "platform_env N P env = env\<lparr>en_raft := raft_simple_ops N, en_sessions := provider_ops P\<rparr>"

text \<open>The drivers that are reached from a new one while no call panics or fails.\<close>

inductive driver_run :: "('r, 'a, 's, 'e) driver_env \<Rightarrow> 'r \<Rightarrow> 'a \<Rightarrow> ('r, 'a, 's, 'e) driver \<Rightarrow> bool"
  for env raft actor where
  start: "driver_run env raft actor (driver_new raft (processor_new sender_new receiver_new) actor cm_new)"
| receive: "driver_run env raft actor d \<Longrightarrow> receive_message env instant m logs d = (d', Ok out) \<Longrightarrow>
    driver_run env raft actor d'"

section \<open>The log as the actor sees it\<close>

text \<open>The event that a committed entry carries for replica \<open>i\<close>; the others are not for the actor.\<close>

definition entry_event ::
  "('r, 'a, 's, 'e) driver_env \<Rightarrow> nat \<Rightarrow> raft_entry \<Rightarrow> (actor_event_context \<times> actor_event) option" where
  "entry_event env i entry =
     (if re_data entry = [] \<or> re_entry_type entry = EntryConfChange then None
      else Option.bind (en_decode_entry env (re_data entry)) (\<lambda>wrapped.
        map_option (\<lambda>entry_id.
          (\<lparr>aec_index = re_index entry, aec_owned = (ei_replica_id entry_id = i)\<rparr>,
           event_with_bytes (ei_entry_id entry_id) (we_entry_contents wrapped))) (we_entry_id wrapped)))"

definition entry_events ::
  "('r, 'a, 's, 'e) driver_env \<Rightarrow> nat \<Rightarrow> raft_entry list \<Rightarrow> (actor_event_context \<times> actor_event) list" where
  "entry_events env i es = List.map_filter (entry_event env i) (sort_key re_index es)"

definition apply_events :: "'a actor_ops \<Rightarrow> (actor_event_context \<times> actor_event) list \<Rightarrow> 'a \<Rightarrow> 'a" where
  "apply_events A evs a = fold (\<lambda>(c, e) a. fst (ao_on_apply_event A a c e)) evs a"

fun event_commands :: "'a actor_ops \<Rightarrow> (actor_event_context \<times> actor_event) list \<Rightarrow> 'a \<Rightarrow> actor_command list" where
  "event_commands A [] a = []"
| "event_commands A ((c, e) # evs) a =
     (case ao_on_apply_event A a c e of (a', r) \<Rightarrow>
        (case r of Ok outcome \<Rightarrow> eo_commands outcome | _ \<Rightarrow> []) @ event_commands A evs a')"

section \<open>Invariant of a driver\<close>

text \<open>The messages that go to other replicas; a driver stashes only the others.\<close>

fun peer_message :: "out_message \<Rightarrow> bool" where
  "peer_message (OutDeliverSystemMessage _) = True"
| "peer_message (OutDeliverSnapshotRequest _) = True"
| "peer_message (OutDeliverSnapshotResponse _) = True"
| "peer_message (OutSecureChannelHandshake _) = True"
| "peer_message _ = False"

definition channels_inv ::
  "('s, 'e) session_ops \<Rightarrow> (nat \<Rightarrow> nat \<Rightarrow> role \<Rightarrow> 's \<Rightarrow> bool) \<Rightarrow> (role \<Rightarrow> 'e \<Rightarrow> bool) \<Rightarrow>
   ('r, 'a, 's, 'e) driver \<Rightarrow> bool" where
  "channels_inv V sound genuine d =
     (module_inv V sound genuine (cm_replica_id (dv_communication d)) UNIV (dv_communication d) \<and>
      (cm_replica_id (dv_communication d) = 0 \<longrightarrow> cm_replicas (dv_communication d) = []) \<and>
      (dv_driver_state d = Created \<longrightarrow> cm_replica_id (dv_communication d) = 0) \<and>
      (\<forall>m \<in> set (dv_messages d). \<not> peer_message m))"

definition same_channels :: "('r, 'a, 's, 'e) driver \<Rightarrow> ('r, 'a, 's, 'e) driver \<Rightarrow> bool" where
  "same_channels d d' =
     (dv_communication d' = dv_communication d \<and> dv_messages d' = dv_messages d \<and> dv_driver_state d' = dv_driver_state d)"

definition parts_inv :: "'r raft_ops \<Rightarrow> ('r, 'a, 's, 'e) driver \<Rightarrow> bool" where
  "parts_inv R d =
     (dv_driver_state d = Started \<and> \<not> dv_is_ephemeral d \<longrightarrow>
        ra_initialized R (dv_raft d) \<and> pr_state (dv_snapshot d) \<noteq> UnknownState)"

text \<open>An ephemeral replica whose replicated parts are those of \<open>d0\<close>.\<close>

definition detached :: "('r, 'a, 's, 'e) driver \<Rightarrow> ('r, 'a, 's, 'e) driver \<Rightarrow> bool" where
  "detached d0 d = (dv_raft d = dv_raft d0 \<and> dv_snapshot d = dv_snapshot d0 \<and> dv_raft_progress d = dv_raft_progress d0 \<and>
     dx_proposals (dv_core d) = dx_proposals (dv_core d0) \<and> dv_is_ephemeral d \<and> dv_driver_state d \<noteq> Created)"

text \<open>A predicate holds after a call that does not panic.\<close>

definition holds :: "('d \<Rightarrow> bool) \<Rightarrow> 'd \<times> ('x, 'e) result \<Rightarrow> bool" where
  "holds I p = (snd p \<noteq> Panic \<longrightarrow> I (fst p))"

named_theorems call_rules \<open>rules for invariants of calls\<close>

section \<open>A replica for the witnesses\<close>

text \<open>
  A node of a cluster of one replica: it leads, and what is proposed to it, in a message of another replica
  too, is committed once it is persisted.
  Its state has the id, the store and the entries that wait.
\<close>

definition solo_entry :: "nat \<times> storage_core \<times> raft_entry list \<Rightarrow> bytes \<Rightarrow> raft_entry" where
  "solo_entry n data = (case n of (i, store, es) \<Rightarrow>
     \<lparr>re_entry_type = EntryNormal, re_term = 1, re_index = 2 + length (mc_entries store) + length es,
      re_data = data, re_context = []\<rparr>)"

definition solo_node :: "(nat \<times> storage_core \<times> raft_entry list, raft_ready) raw_node" where
  "solo_node =
     \<lparr>rn_new = (\<lambda>config store. Ok (nc_id config, store, [])),
      rn_status = (\<lambda>(i, store, es). (mc_state store, \<lparr>sf_leader_id = i, sf_raft_state = RoleLeader\<rparr>)),
      rn_has_pending_conf = (\<lambda>n. False), rn_store = (\<lambda>(i, store, es). store),
      rn_set_store = (\<lambda>(i, store, es) store'. (i, store', es)),
      rn_step = (\<lambda>n m. ((fst n, fst (snd n), snd (snd n) @ [solo_entry n (rm_rest m)]), Ok ())),
      rn_propose = (\<lambda>n data. ((fst n, fst (snd n), snd (snd n) @ [solo_entry n data]), Ok ())),
      rn_propose_conf_change = (\<lambda>n c. (n, Err RaftProposalDropped)), rn_tick = (\<lambda>n. n),
      rn_apply_conf_change = (\<lambda>n c. (n, Ok (create_raft_config_state [fst n]))),
      rn_has_ready = (\<lambda>(i, store, es). es \<noteq> []),
      rn_ready = (\<lambda>(i, store, es). ((i, store, []),
        \<lparr>rd_messages = [], rd_persisted_messages = [], rd_entries = es, rd_committed_entries = [],
         rd_hard_state = None, rd_snapshot = empty_raft_snapshot, rd_number = 1\<rparr>)),
      rn_take = (\<lambda>d. (d, d)),
      rn_advance = (\<lambda>n d. (n, \<lparr>rl_messages = [], rl_committed_entries = rd_entries d\<rparr>)),
      rn_advance_apply = (\<lambda>n. n), rn_report_snapshot = (\<lambda>n i status. n)\<rparr>"

definition enc_entry :: "wrapped_entry \<Rightarrow> bytes" where
  "enc_entry e = enc_pair (enc_option (enc_pair enc_nat enc_nat)) enc_bytes
     (map_option (\<lambda>i. (ei_replica_id i, ei_entry_id i)) (we_entry_id e), we_entry_contents e)"

definition dec_entry :: "wrapped_entry parser" where
  "dec_entry = dec_map (\<lambda>(i, contents).
     \<lparr>we_entry_id = map_option (\<lambda>(r, k). \<lparr>ei_replica_id = r, ei_entry_id = k\<rparr>) i, we_entry_contents = contents\<rparr>)
     (dec_pair (dec_option (dec_pair dec_nat dec_nat)) dec_bytes)"

definition solo_env ::
  "'a actor_ops \<Rightarrow> ((nat \<times> storage_core \<times> raft_entry list, raft_ready) raft_simple, 'a,
     (unit, unit option, unit, unit option) dyn_session, default_encryptor) driver_env" where
  "solo_env A =
     \<lparr>en_raft = raft_simple_ops solo_node, en_actor = A, en_sessions = provider_ops (default_provider demo_oak),
      en_snapshot = demo_snapshot_env,
      en_default_raft_config = \<lparr>nc_id = 0, nc_election_tick = 10, nc_heartbeat_tick = 2, nc_max_size_per_msg = 0\<rparr>,
      en_encode_raft_message = rm_rest,
      en_decode_raft_message = (\<lambda>b. Some ((create_raft_message 1 2 (MsgOther 2))\<lparr>rm_rest := b\<rparr>)),
      en_decode_config_change = (\<lambda>b. None),
      en_encode_entry = enc_entry, en_decode_entry = decode_all dec_entry\<rparr>"

text \<open>An actor that records the contents of the events and answers the events it owns.\<close>

definition log_actor :: "bytes list actor_ops" where
  "log_actor =
     \<lparr>ao_refresh = (\<lambda>c a. a), ao_on_init = (\<lambda>a c. (a, Ok ())), ao_on_shutdown = (\<lambda>a. a),
      ao_on_save_snapshot = (\<lambda>a. (a, Ok [])), ao_on_load_snapshot = (\<lambda>a b. (a, Ok ())),
      ao_on_process_command = (\<lambda>a c. (a, Ok (case c of None \<Rightarrow> outcome_with_none
         | Some c \<Rightarrow> outcome_with_event (event_with_bytes (ac_correlation_id c) (ac_header c))))),
      ao_on_apply_event = (\<lambda>a c e. (a @ [ae_contents e], Ok (EventOutcome
         (if aec_owned c then [command_with_header (ae_correlation_id e) (ae_contents e)] else []))))\<rparr>"

definition start_request :: "nat \<Rightarrow> bool \<Rightarrow> bool \<Rightarrow> start_replica_request" where
  "start_request i leader ephemeral =
     \<lparr>sr_is_leader = leader, sr_replica_id_hint = i, sr_raft_config = None, sr_app_config = [],
      sr_reference_values = None, sr_is_ephemeral = ephemeral\<rparr>"

section \<open>Rules for calls\<close>

lemma holds_pair [call_rules]: "I d \<Longrightarrow> holds I (d, r)"
  by (simp add: holds_def)

lemma holds_try_st [call_rules]:
  "holds I p \<Longrightarrow> (\<And>d x. I d \<Longrightarrow> holds I (f d x)) \<Longrightarrow> holds I (try_st p f)"
  by (cases "(p, f)" rule: try_st.cases) (auto simp: holds_def)

lemma holds_try_st_via:
  "holds J p \<Longrightarrow> (\<And>d x. J d \<Longrightarrow> holds I (f d x)) \<Longrightarrow> (\<And>d. J d \<Longrightarrow> I d) \<Longrightarrow> holds I (try_st p f)"
  by (cases "(p, f)" rule: try_st.cases) (auto simp: holds_def)

lemma holds_lift_st [call_rules]: "(r \<noteq> Panic \<Longrightarrow> I d) \<Longrightarrow> (\<And>x. r = Ok x \<Longrightarrow> holds I (f x)) \<Longrightarrow> holds I (lift_st d r f)"
  by (cases r) (auto simp: holds_def)

lemma holds_if [call_rules]: "(b \<Longrightarrow> holds I p) \<Longrightarrow> (\<not> b \<Longrightarrow> holds I q) \<Longrightarrow> holds I (if b then p else q)"
  by simp

lemma holds_case_option [call_rules]:
  "(x = None \<Longrightarrow> holds I p) \<Longrightarrow> (\<And>y. x = Some y \<Longrightarrow> holds I (f y)) \<Longrightarrow>
   holds I (case x of None \<Rightarrow> p | Some y \<Rightarrow> f y)"
  by (cases x) auto

lemma holds_case_prod [call_rules]: "(\<And>x y. p = (x, y) \<Longrightarrow> holds I (f x y)) \<Longrightarrow> holds I (case p of (x, y) \<Rightarrow> f x y)"
  by (cases p) auto

lemma holds_Let [call_rules]: "(\<And>y. y = x \<Longrightarrow> holds I (f y)) \<Longrightarrow> holds I (Let x f)"
  by simp

lemma holds_case_role [call_rules]:
  "(\<And>s. r = SenderRole s \<Longrightarrow> holds I (f s)) \<Longrightarrow> (\<And>s. r = ReceiverRole s \<Longrightarrow> holds I (g s)) \<Longrightarrow>
   holds I (case r of SenderRole s \<Rightarrow> f s | ReceiverRole s \<Rightarrow> g s)"
  by (cases r) auto

lemma holds_for_each [call_rules]: "I d \<Longrightarrow> (\<And>x d. I d \<Longrightarrow> holds I (f x d)) \<Longrightarrow> holds I (for_each f xs d)"
  by (induction xs arbitrary: d) (auto intro: call_rules)

section \<open>Channels of a driver\<close>

lemma channels_frame [simp]:
  "channels_inv V sound genuine (d\<lparr>dv_core := core\<rparr>) = channels_inv V sound genuine d"
  "channels_inv V sound genuine (d\<lparr>dv_driver_config := config\<rparr>) = channels_inv V sound genuine d"
  "channels_inv V sound genuine (d\<lparr>dv_snapshots := ms\<rparr>) = channels_inv V sound genuine d"
  "channels_inv V sound genuine (d\<lparr>dv_id := i\<rparr>) = channels_inv V sound genuine d"
  "channels_inv V sound genuine (d\<lparr>dv_instant := i\<rparr>) = channels_inv V sound genuine d"
  "channels_inv V sound genuine (d\<lparr>dv_tick_instant := i\<rparr>) = channels_inv V sound genuine d"
  "channels_inv V sound genuine (d\<lparr>dv_raft := r\<rparr>) = channels_inv V sound genuine d"
  "channels_inv V sound genuine (d\<lparr>dv_snapshot := p\<rparr>) = channels_inv V sound genuine d"
  "channels_inv V sound genuine (d\<lparr>dv_actor := a\<rparr>) = channels_inv V sound genuine d"
  "channels_inv V sound genuine (d\<lparr>dv_raft_state := st\<rparr>) = channels_inv V sound genuine d"
  "channels_inv V sound genuine (d\<lparr>dv_prev_raft_state := st\<rparr>) = channels_inv V sound genuine d"
  "channels_inv V sound genuine (d\<lparr>dv_raft_progress := g\<rparr>) = channels_inv V sound genuine d"
  "channels_inv V sound genuine (d\<lparr>dv_is_ephemeral := b\<rparr>) = channels_inv V sound genuine d"
  by (simp_all add: channels_inv_def)

lemma channels_stash_message:
  "channels_inv V sound genuine d \<Longrightarrow> \<not> peer_message m \<Longrightarrow> channels_inv V sound genuine (stash_message m d)"
  by (auto simp: channels_inv_def stash_message_def)

lemma channels_stash_all:
  "channels_inv V sound genuine d \<Longrightarrow> (\<And>x. \<not> peer_message (f x)) \<Longrightarrow>
   channels_inv V sound genuine (fold (\<lambda>x. stash_message (f x)) xs d)"
  by (induction xs arbitrary: d) (simp_all add: channels_stash_message)

lemma channels_stash_commands:
  "channels_inv V sound genuine d \<Longrightarrow> channels_inv V sound genuine (stash_commands cs d)"
  unfolding stash_commands_def by (rule channels_stash_all) (simp_all add: app_message_def)

lemma channels_leave_created:
  "channels_inv V sound genuine d \<Longrightarrow> st \<noteq> Created \<Longrightarrow> channels_inv V sound genuine (d\<lparr>dv_driver_state := st\<rparr>)"
  by (simp add: channels_inv_def)

lemma same_channels_calls:
  assumes "same_channels d0 d"
  shows "holds (same_channels d0) (raft_call f e d)" and "holds (same_channels d0) (actor_call h d)"
  using assms unfolding raft_call_def actor_call_def
  by (intro call_rules; simp add: same_channels_def)+

lemma same_channels_raft_node:
  "same_channels d0 d \<Longrightarrow> holds (same_channels d0) (initialize_raft_node env config b leader d)"
  unfolding initialize_raft_node_def
  by (intro call_rules same_channels_calls) (auto simp: same_channels_def split: option.splits)

lemma same_channels_initialize: "holds (same_channels d) (initialize_parts env request d)"
  unfolding initialize_parts_def initialize_driver_def
  by (intro call_rules same_channels_calls same_channels_raft_node) (auto simp: same_channels_def)

lemma channels_parts [call_rules]:
  assumes "channels_inv V sound genuine d"
  shows "holds (channels_inv V sound genuine) (raft_call f e d)"
    and "holds (channels_inv V sound genuine) (store_call env g e d)"
    and "holds (channels_inv V sound genuine) (actor_call h d)"
    and "holds (channels_inv V sound genuine) (processor_call d)"
    and "holds (channels_inv V sound genuine) (make_raft_proposal env b d)"
  using assms unfolding raft_call_def store_call_def actor_call_def processor_call_def make_raft_proposal_def
  by (intro call_rules; simp)+

lemma channels_report [call_rules]:
  "channels_inv V sound genuine d \<Longrightarrow> holds (channels_inv V sound genuine) (report_snapshot env update d)"
  unfolding report_snapshot_def by (rule channels_parts(1))

lemma cm_put_replica_id [simp]: "cm_replica_id (cm_put peer s c) = cm_replica_id c"
  by (simp add: cm_put_def)

context handshake_sessions
begin

lemma channels_process_out [call_rules]:
  assumes inv: "channels_inv V sound genuine d"
  shows "holds (channels_inv V sound genuine) (comm_call (\<lambda>c. process_out_message V c m) d)"
proof -
  obtain c r where c: "process_out_message V (dv_communication d) m = (c, r)"
    by fastforce
  have "r \<noteq> Panic \<Longrightarrow> module_inv V sound genuine (cm_replica_id (dv_communication d)) UNIV c"
    using inv by (intro module_inv_process_out [OF _ _ c]) (auto simp: channels_inv_def)
  moreover from c have "cm_replica_id c = cm_replica_id (dv_communication d) \<and>
    (cm_replica_id c = 0 \<longrightarrow> cm_replicas c = cm_replicas (dv_communication d))"
    by (cases rule: process_out_cases) (auto simp: check_initialized_def split: if_splits)
  ultimately show ?thesis
    using inv by (auto simp: holds_def comm_call_def c channels_inv_def)
qed

lemma channels_process_in [call_rules]:
  assumes inv: "channels_inv V sound genuine d"
  shows "holds (channels_inv V sound genuine) (comm_call (\<lambda>c. process_in_message V c m) d)"
proof -
  obtain c r where c: "process_in_message V (dv_communication d) m = (c, r)"
    by fastforce
  have "r \<noteq> Panic \<Longrightarrow> module_inv V sound genuine (cm_replica_id (dv_communication d)) UNIV c"
    using inv by (intro module_inv_process_in [OF _ c]) (auto simp: channels_inv_def)
  moreover from c have "cm_replica_id c = cm_replica_id (dv_communication d) \<and>
    (cm_replica_id c = 0 \<longrightarrow> cm_replicas c = cm_replicas (dv_communication d))"
    by (cases rule: process_in_cases) (auto simp: check_initialized_def split: if_splits)
  ultimately show ?thesis
    using inv by (auto simp: holds_def comm_call_def c channels_inv_def)
qed

lemma channels_cluster_change:
  "channels_inv V sound genuine d \<Longrightarrow>
   channels_inv V sound genuine (d\<lparr>dv_communication := cm_process_cluster_change (dv_communication d) ids\<rparr>)"
  using module_inv_cluster_change [of "cm_replica_id (dv_communication d)" UNIV "dv_communication d" ids]
  by (auto simp: channels_inv_def cm_process_cluster_change_def)

lemma channels_make_tick:
  "channels_inv V sound genuine d \<Longrightarrow>
   channels_inv V sound genuine (d\<lparr>dv_communication := make_tick (dv_communication d)\<rparr>)"
  using module_inv_make_tick [of "cm_replica_id (dv_communication d)" UNIV "dv_communication d"]
  by (auto simp: channels_inv_def make_tick_def)

lemma channels_raft [call_rules]:
  assumes env: "en_sessions env = V" and inv: "channels_inv V sound genuine d"
  shows "holds (channels_inv V sound genuine) (send_raft_messages env ms d)"
    and "holds (channels_inv V sound genuine) (apply_raft_committed_entries env es d)"
    and "holds (channels_inv V sound genuine) (restore_raft_snapshot env snapshot d)"
    and "holds (channels_inv V sound genuine) (maybe_create_raft_snapshot env d)"
    and "holds (channels_inv V sound genuine) (trigger_raft_tick env d)"
    and "holds (channels_inv V sound genuine) (make_raft_step env i j b d)"
proof -
  show "holds (channels_inv V sound genuine) (send_raft_messages env ms d)"
    unfolding send_raft_messages_def send_raft_message_def env
    by (intro call_rules inv) (simp_all add: stash_snapshot_def)
  show "holds (channels_inv V sound genuine) (apply_raft_committed_entries env es d)"
    unfolding apply_raft_committed_entries_def apply_committed_entry_def
    by (intro call_rules inv) (simp_all add: collect_config_state_def channels_stash_commands)
  show "holds (channels_inv V sound genuine) (restore_raft_snapshot env snapshot d)"
    using inv unfolding restore_raft_snapshot_def
    by (intro call_rules) (simp_all add: collect_config_state_def)
  show "holds (channels_inv V sound genuine) (maybe_create_raft_snapshot env d)"
    using inv unfolding maybe_create_raft_snapshot_def by (intro call_rules) simp_all
  show "holds (channels_inv V sound genuine) (trigger_raft_tick env d)"
    using inv unfolding trigger_raft_tick_def by (intro call_rules) simp_all
  show "holds (channels_inv V sound genuine) (make_raft_step env i j b d)"
    using inv unfolding make_raft_step_def by (intro call_rules) simp_all
qed

end

context handshake_sessions
begin

lemma channels_advance_raft [call_rules]:
  assumes env: "en_sessions env = V" and inv: "channels_inv V sound genuine d"
  shows "holds (channels_inv V sound genuine) (advance_raft env d)"
  using inv unfolding advance_raft_def take_messages_def take_snapshot_def take_committed_entries_def
    take_persisted_messages_def take_entries_def prod.case
  by (intro call_rules env) simp_all

lemma channels_state_machine [call_rules]:
  assumes env: "en_sessions env = V" and inv: "channels_inv V sound genuine d"
  shows "holds (channels_inv V sound genuine) (stash_leader_state env d)"
    and "holds (channels_inv V sound genuine) (process_state_machine env d)"
proof -
  have leader: "holds (channels_inv V sound genuine) (stash_leader_state env d)"
    if "channels_inv V sound genuine d" for d :: "('a, 'b, 's, 'e) driver"
    using that unfolding stash_leader_state_def update_snapshot_cluster_change_def
    by (intro call_rules) (simp_all add: channels_stash_message channels_cluster_change)
  show "holds (channels_inv V sound genuine) (stash_leader_state env d)"
    by (rule leader [OF inv])
  show "holds (channels_inv V sound genuine) (process_state_machine env d)"
    using inv unfolding process_state_machine_def by (intro call_rules env leader) simp_all
qed

lemma channels_snapshots [call_rules]:
  assumes env: "en_sessions env = V" and inv: "channels_inv V sound genuine d"
  shows "holds (channels_inv V sound genuine) (process_snapshot_progress env d)"
    and "holds (channels_inv V sound genuine) (process_snapshot_sending env d)"
    and "holds (channels_inv V sound genuine) (process_deliver_snapshot_request env q d)"
    and "holds (channels_inv V sound genuine) (process_deliver_snapshot_response env p d)"
    and "holds (channels_inv V sound genuine) (process_deliver_snapshot_failure env f d)"
proof -
  show "holds (channels_inv V sound genuine) (process_snapshot_progress env d)"
    using inv unfolding process_snapshot_progress_def
    by (intro call_rules) (auto simp: put_sender_def put_receiver_def Let_def split: option.splits result.splits intro!: call_rules)
  show "holds (channels_inv V sound genuine) (process_snapshot_sending env d)"
    using inv unfolding process_snapshot_sending_def env
    by (intro call_rules) (simp_all add: put_sender_def)
  show "holds (channels_inv V sound genuine) (process_deliver_snapshot_request env q d)"
    using inv unfolding process_deliver_snapshot_request_def env
    by (intro call_rules) (auto simp: put_receiver_def split: in_message.splits intro!: call_rules)
  show "holds (channels_inv V sound genuine) (process_deliver_snapshot_response env p d)"
    using inv unfolding process_deliver_snapshot_response_def env
    by (intro call_rules) (auto simp: put_sender_def split: in_message.splits intro!: call_rules)
  show "holds (channels_inv V sound genuine) (process_deliver_snapshot_failure env f d)"
    using inv unfolding process_deliver_snapshot_failure_def
    by (intro call_rules) (simp_all add: put_sender_def)
qed

lemma channels_messages [call_rules]:
  assumes env: "en_sessions env = V" and inv: "channels_inv V sound genuine d"
  shows "holds (channels_inv V sound genuine) (process_stop_node env d)"
    and "holds (channels_inv V sound genuine) (process_change_cluster env cc d)"
    and "holds (channels_inv V sound genuine) (process_check_cluster d)"
    and "holds (channels_inv V sound genuine) (process_deliver_system_message env m d)"
    and "holds (channels_inv V sound genuine) (process_get_replica_state env d)"
    and "holds (channels_inv V sound genuine) (process_secure_channel_handshake env h d)"
    and "holds (channels_inv V sound genuine) (process_deliver_app_message env am d)"
    and "holds (channels_inv V sound genuine) (process_actor_raft_proposals env d)"
proof -
  show "holds (channels_inv V sound genuine) (process_stop_node env d)"
    using inv unfolding process_stop_node_def
    by (intro call_rules) (simp_all add: channels_stash_message channels_leave_created)
  have proposal: "holds (channels_inv V sound genuine) (make_raft_config_change_proposal env i t d)" for i t
    using inv unfolding make_raft_config_change_proposal_def
    by (intro call_rules) (auto simp: holds_def split: result.splits raft_error.splits)
  show "holds (channels_inv V sound genuine) (process_change_cluster env cc d)"
    using inv unfolding process_change_cluster_def
    by (intro call_rules) (auto intro!: channels_stash_message proposal simp: holds_def [of _ "(d, _)"]
      split: option.splits change_cluster_type.splits)
  show "holds (channels_inv V sound genuine) (process_check_cluster d)"
    using inv unfolding process_check_cluster_def by (intro call_rules) (simp_all add: reset_leader_state_def)
  show "holds (channels_inv V sound genuine) (process_deliver_system_message env m d)"
    using inv unfolding process_deliver_system_message_def env
    by (intro call_rules env) (auto split: in_message.splits intro!: call_rules env)
  show "holds (channels_inv V sound genuine) (process_get_replica_state env d)"
    using inv unfolding process_get_replica_state_def
    by (intro call_rules) (auto intro!: channels_stash_message)
  show "holds (channels_inv V sound genuine) (process_secure_channel_handshake env h d)"
    using inv unfolding process_secure_channel_handshake_def env by (intro call_rules)
  show "holds (channels_inv V sound genuine) (process_deliver_app_message env am d)"
    using inv unfolding process_deliver_app_message_def
    by (intro call_rules) (simp_all add: channels_stash_commands)
  show "holds (channels_inv V sound genuine) (process_actor_raft_proposals env d)"
    using inv unfolding process_actor_raft_proposals_def by (intro call_rules) simp_all
qed

lemma channels_start_node [call_rules]:
  assumes env: "en_sessions env = V" and inv: "channels_inv V sound genuine d"
  shows "holds (channels_inv V sound genuine) (process_start_node env request d)"
proof (cases "dv_driver_state d = Created")
  case True
  have started: "channels_inv V sound genuine (stash_message (OutStartReplica i)
      (d'\<lparr>dv_communication := cm_init (dv_communication d') j config, dv_driver_state := Started\<rparr>))"
    if "same_channels d d'" for d' i j config
    using inv that True
    by (auto simp: channels_inv_def same_channels_def stash_message_def cm_init_def module_inv_def hm_wf_def Let_def
      split: option.splits)
  have unchanged: "channels_inv V sound genuine d'" if "same_channels d d'" for d'
    using inv that by (simp add: channels_inv_def same_channels_def)
  have "holds (channels_inv V sound genuine) (try_st (initialize_parts env request d) (\<lambda>d _.
     let d = d\<lparr>dv_communication := cm_init (dv_communication d) (dv_id d)
               (map_option rc_handshake_retry_tick (sr_raft_config request)), dv_driver_state := Started\<rparr> in
     (stash_message (OutStartReplica (dv_id d)) d, Ok ())))"
    by (rule holds_try_st_via [OF same_channels_initialize _ unchanged]) (simp_all add: holds_def started)
  then show ?thesis
    using True by (simp add: process_start_node_def check_driver_state_def)
qed (use inv in \<open>simp add: process_start_node_def check_driver_state_def holds_def\<close>)

lemma channels_dispatch [call_rules]:
  assumes env: "en_sessions env = V" and inv: "channels_inv V sound genuine d"
  shows "holds (channels_inv V sound genuine) (dispatch_message env m d)"
  using inv unfolding dispatch_message_def
  by (cases m) (auto intro!: call_rules env)

lemma channels_process_raft [call_rules]:
  assumes env: "en_sessions env = V" and inv: "channels_inv V sound genuine d"
  shows "holds (channels_inv V sound genuine) (process_raft env d)"
  using inv unfolding process_raft_def by (intro call_rules env)

end

context handshake_sessions
begin

lemma channels_receive:
  assumes env: "en_sessions env = V" and inv: "channels_inv V sound genuine d"
    and step: "receive_message env instant m logs d = (d', Ok out)"
  shows "channels_inv V sound genuine d' \<and>
    (\<forall>ms. out = Some ms \<longrightarrow> (\<forall>x \<in> set ms. peer_message x \<longrightarrow>
      proper_output V genuine (cm_replica_id (dv_communication d')) UNIV UNIV x))"
proof -
  have preset: "channels_inv V sound genuine (preset_state_machine env instant d)"
    using inv by (simp add: preset_state_machine_def Let_def)
  show ?thesis
  proof (cases "m = Some None")
    case True
    then show ?thesis
      using step preset by (auto simp: receive_message_def Let_def)
  next
    case False
    let ?before = "try_st (case m of Some (Some message) \<Rightarrow> dispatch_message env message (preset_state_machine env instant d)
          | _ \<Rightarrow> (preset_state_machine env instant d, Ok None)) (\<lambda>d deliver_app_message.
        try_st (if dv_driver_state d = Started then
              try_st (process_deliver_app_message env deliver_app_message d) (\<lambda>d _.
              (d\<lparr>dv_communication := make_tick (dv_communication d)\<rparr>, Ok ()))
            else (d, Ok ())) (\<lambda>d _. process_raft env d))"
    have before: "holds (channels_inv V sound genuine) ?before"
      using preset by (intro call_rules env) (auto simp: channels_make_tick split: option.splits intro!: call_rules env)
    obtain d1 c ms where d1: "?before = (d1, Ok ())"
      and ms: "take_out_messages V (dv_communication (stash_log_entries logs d1)) = (c, Ok ms)"
      and d': "d' = (stash_log_entries logs d1)\<lparr>dv_communication := c, dv_messages := []\<rparr>"
      and out: "out = Some (dv_messages (stash_log_entries logs d1) @ ms)"
      using step False env
      by (auto simp: receive_message_def Let_def result_simps stash_comms_module_entries_def case_prod_eq)
    define d2 where "d2 = stash_log_entries logs d1"
    have inv2: "channels_inv V sound genuine d2"
      using before d1 unfolding d2_def stash_log_entries_def
      by (intro channels_stash_all) (auto simp: holds_def)
    then have module: "module_inv V sound genuine (cm_replica_id (dv_communication d2)) UNIV (dv_communication d2)"
      by (simp add: channels_inv_def)
    have c: "module_inv V sound genuine (cm_replica_id (dv_communication d2)) UNIV c"
      "\<And>x. x \<in> set ms \<Longrightarrow> proper_output V genuine (cm_replica_id (dv_communication d2)) UNIV UNIV x"
      using module_inv_take_out [OF module ms [folded d2_def]] by (auto intro: proper_output_mono)
    have same: "cm_replica_id c = cm_replica_id (dv_communication d2)" "cm_replicas (dv_communication d2) = [] \<Longrightarrow> cm_replicas c = []"
      using ms by (auto simp: d2_def take_out_messages_def case_prod_eq)
    show ?thesis
      using inv2 c same d' out by (auto simp: channels_inv_def d2_def [symmetric])
  qed
qed

lemma channels_run:
  assumes "en_sessions env = V" "driver_run env raft actor d"
  shows "channels_inv V sound genuine d"
  using assms(2)
proof (induction rule: driver_run.induct)
  case start
  show ?case
    by (simp add: channels_inv_def driver_new_def cm_new_def module_inv_def hm_wf_def)
next
  case (receive d instant m logs d' out)
  then show ?case
    using channels_receive [OF assms(1)] by blast
qed

end

section \<open>Parts of a started driver\<close>

lemma parts_frame [simp]:
  "parts_inv R (d\<lparr>dv_core := core\<rparr>) = parts_inv R d"
  "parts_inv R (d\<lparr>dv_driver_config := config\<rparr>) = parts_inv R d"
  "parts_inv R (d\<lparr>dv_snapshots := ms\<rparr>) = parts_inv R d"
  "parts_inv R (d\<lparr>dv_messages := xs\<rparr>) = parts_inv R d"
  "parts_inv R (d\<lparr>dv_id := i\<rparr>) = parts_inv R d"
  "parts_inv R (d\<lparr>dv_instant := i\<rparr>) = parts_inv R d"
  "parts_inv R (d\<lparr>dv_tick_instant := i\<rparr>) = parts_inv R d"
  "parts_inv R (d\<lparr>dv_actor := a\<rparr>) = parts_inv R d"
  "parts_inv R (d\<lparr>dv_raft_state := st\<rparr>) = parts_inv R d"
  "parts_inv R (d\<lparr>dv_prev_raft_state := st\<rparr>) = parts_inv R d"
  "parts_inv R (d\<lparr>dv_raft_progress := g\<rparr>) = parts_inv R d"
  "parts_inv R (d\<lparr>dv_communication := c\<rparr>) = parts_inv R d"
  "parts_inv R (stash_message m d) = parts_inv R d"
  "parts_inv R (put_sender s d) = parts_inv R d"
  "parts_inv R (put_receiver v d) = parts_inv R d"
  "parts_inv R (collect_config_state config_state d) = parts_inv R d"
  by (simp_all add: parts_inv_def stash_message_def put_sender_def put_receiver_def collect_config_state_def)

lemma parts_stash_all [simp]: "parts_inv R (fold (\<lambda>x. stash_message (f x)) xs d) = parts_inv R d"
  by (induction xs arbitrary: d) simp_all

lemma parts_stash_commands [simp]: "parts_inv R (stash_commands cs d) = parts_inv R d"
  by (simp add: stash_commands_def)

lemma parts_raft_call:
  "parts_inv R d \<Longrightarrow> (\<And>r. ra_initialized R r \<Longrightarrow> ra_initialized R (fst (f r))) \<Longrightarrow> holds (parts_inv R) (raft_call f e d)"
  by (cases "f (dv_raft d)") (auto simp: holds_def raft_call_def parts_inv_def, (metis fst_conv)+)

lemma parts_actor_call: "parts_inv R d \<Longrightarrow> holds (parts_inv R) (actor_call h d)"
  unfolding actor_call_def by (intro call_rules) simp

lemma parts_comm_call: "parts_inv R d \<Longrightarrow> holds (parts_inv R) (comm_call h d)"
  unfolding comm_call_def by (intro call_rules) simp

lemma parts_processor_call: "parts_inv R d \<Longrightarrow> holds (parts_inv R) (processor_call d)"
  by (auto simp: holds_def processor_call_def mut_processor_def parts_inv_def Let_def split: replica_state.splits)

lemma parts_cluster_change:
  "process_cluster_change p i t rs = (p', r) \<Longrightarrow> r \<noteq> Panic \<Longrightarrow> pr_state p' \<noteq> UnknownState"
  by (cases "pr_state p")
    (auto simp: process_cluster_change_def sender_reset_def Let_def split: if_splits)

context raft_contract
begin

lemma initialized_calls:
  "ra_initialized R r \<Longrightarrow> ra_initialized R (fst (ra_make_step R r message))"
  "ra_initialized R r \<Longrightarrow> ra_initialized R (fst (ra_make_proposal R r proposal))"
  "ra_initialized R r \<Longrightarrow> ra_initialized R (fst (ra_make_config_change_proposal R r change))"
  "ra_initialized R r \<Longrightarrow> ra_initialized R (fst (ra_make_tick R r))"
  "ra_initialized R r \<Longrightarrow> ra_initialized R (fst (ra_apply_config_change R r change))"
  "ra_initialized R r \<Longrightarrow> ra_initialized R (fst (ra_get_ready R r))"
  "ra_initialized R r \<Longrightarrow> ra_initialized R (fst (ra_advance_ready R r ready))"
  "ra_initialized R r \<Longrightarrow> ra_initialized R (fst (ra_advance_apply R r))"
  "ra_initialized R r \<Longrightarrow> ra_initialized R (fst (ra_report_snapshot R r replica_id status))"
  using initialized_steps by blast+

lemma parts_store_call:
  assumes "en_raft env = R" "parts_inv R d"
  shows "holds (parts_inv R) (store_call env g e d)"
  unfolding store_call_def using assms
  by (intro call_rules) (auto simp: parts_inv_def initialized_steps)

lemma parts_set_raft:
  "parts_inv R d \<Longrightarrow> ra_initialized R (dv_raft d) \<longrightarrow> ra_initialized R r \<Longrightarrow> parts_inv R (d\<lparr>dv_raft := r\<rparr>)"
  by (auto simp: parts_inv_def)

lemmas parts_rules = call_rules parts_raft_call parts_actor_call parts_comm_call parts_processor_call
  parts_store_call initialized_calls

lemma parts_raft:
  assumes env: "en_raft env = R" and inv: "parts_inv R d"
  shows "holds (parts_inv R) (send_raft_messages env ms d)"
    and "holds (parts_inv R) (apply_raft_committed_entries env es d)"
    and "holds (parts_inv R) (restore_raft_snapshot env snapshot d)"
    and "holds (parts_inv R) (maybe_create_raft_snapshot env d)"
    and "holds (parts_inv R) (trigger_raft_tick env d)"
    and "holds (parts_inv R) (make_raft_step env i j b d)"
    and "holds (parts_inv R) (report_snapshot env update d)"
    and "holds (parts_inv R) (make_raft_proposal env b d)"
proof -
  show "holds (parts_inv R) (send_raft_messages env ms d)"
    using inv unfolding send_raft_messages_def send_raft_message_def
    by (intro parts_rules) (simp_all add: stash_snapshot_def)
  show "holds (parts_inv R) (apply_raft_committed_entries env es d)"
    using inv unfolding apply_raft_committed_entries_def apply_committed_entry_def env
    by (intro parts_rules) simp_all
  show "holds (parts_inv R) (restore_raft_snapshot env snapshot d)"
    using inv unfolding restore_raft_snapshot_def by (intro parts_rules env) simp_all
  show "holds (parts_inv R) (maybe_create_raft_snapshot env d)"
    using inv unfolding maybe_create_raft_snapshot_def by (intro parts_rules env) simp_all
  show "holds (parts_inv R) (trigger_raft_tick env d)"
    using inv unfolding trigger_raft_tick_def env by (intro parts_rules) simp_all
  show "holds (parts_inv R) (make_raft_step env i j b d)"
    using inv unfolding make_raft_step_def env by (intro parts_rules) simp_all
  show "holds (parts_inv R) (report_snapshot env update d)"
    using inv unfolding report_snapshot_def env by (intro parts_rules) simp_all
  show "holds (parts_inv R) (make_raft_proposal env b d)"
    using inv initialized_calls(2) [of "dv_raft d" b] unfolding make_raft_proposal_def env
    by (intro parts_rules) (auto intro!: parts_set_raft, metis fst_conv)
qed

end

context raft_contract
begin

lemma parts_update:
  assumes env: "en_raft env = R" and inv: "parts_inv R d"
  shows "holds (parts_inv R) (update_snapshot_cluster_change env d)"
proof -
  have "parts_inv R (d\<lparr>dv_snapshot := p\<rparr>)"
    if "process_cluster_change (dv_snapshot d) i t rs = (p, r)" "map_err (\<lambda>_. PalInternal) r \<noteq> Panic" for i t rs p r
    using inv parts_cluster_change [OF that(1)] that(2) by (auto simp: parts_inv_def map_err_Panic)
  then show ?thesis
    using inv unfolding update_snapshot_cluster_change_def
    by (intro parts_rules parts_raft env) (auto dest: sym)
qed

lemma parts_state_machine:
  assumes env: "en_raft env = R" and inv: "parts_inv R d"
  shows "holds (parts_inv R) (advance_raft env d)"
    and "holds (parts_inv R) (stash_leader_state env d)"
    and "holds (parts_inv R) (process_state_machine env d)"
proof -
  have advance: "holds (parts_inv R) (advance_raft env d)" if "parts_inv R d" for d :: "('r, 'a, 'b, 'c) driver"
    using that unfolding advance_raft_def take_messages_def take_snapshot_def take_committed_entries_def
      take_persisted_messages_def take_entries_def prod.case env
    by (intro parts_rules parts_raft env) simp_all
  have leader: "holds (parts_inv R) (stash_leader_state env d)" if "parts_inv R d" for d :: "('r, 'a, 'b, 'c) driver"
    using that unfolding stash_leader_state_def
    by (intro parts_rules parts_update env) simp_all
  show "holds (parts_inv R) (advance_raft env d)" "holds (parts_inv R) (stash_leader_state env d)"
    using inv by (rule advance leader)+
  show "holds (parts_inv R) (process_state_machine env d)"
    using inv unfolding process_state_machine_def by (intro parts_rules advance leader parts_raft env) simp_all
qed

lemma parts_snapshots:
  assumes env: "en_raft env = R" and inv: "parts_inv R d"
  shows "holds (parts_inv R) (process_snapshot_progress env d)"
    and "holds (parts_inv R) (process_snapshot_sending env d)"
    and "holds (parts_inv R) (process_deliver_snapshot_request env q d)"
    and "holds (parts_inv R) (process_deliver_snapshot_response env p d)"
    and "holds (parts_inv R) (process_deliver_snapshot_failure env f d)"
proof -
  have step: "parts_inv R (d\<lparr>dv_raft := r\<rparr>)" if "ra_make_step R (dv_raft d) m = (r, x)" "parts_inv R d"
    for d :: "('r, 'a, 'b, 'c) driver" and m r x
    using that initialized_calls(1) [of "dv_raft d" m] by (intro parts_set_raft) auto
  show "holds (parts_inv R) (process_snapshot_progress env d)"
    using inv unfolding process_snapshot_progress_def env
    by (intro parts_rules parts_raft env)
      (auto simp: Let_def split: option.splits result.splits intro!: parts_rules intro: step)
  show "holds (parts_inv R) (process_snapshot_sending env d)"
    using inv unfolding process_snapshot_sending_def by (intro parts_rules parts_raft env) simp_all
  show "holds (parts_inv R) (process_deliver_snapshot_request env q d)"
    using inv unfolding process_deliver_snapshot_request_def
    by (intro parts_rules) (auto split: in_message.splits intro!: parts_rules)
  show "holds (parts_inv R) (process_deliver_snapshot_response env p d)"
    using inv unfolding process_deliver_snapshot_response_def
    by (intro parts_rules) (auto split: in_message.splits intro!: parts_rules)
  show "holds (parts_inv R) (process_deliver_snapshot_failure env f d)"
    using inv unfolding process_deliver_snapshot_failure_def by (intro parts_rules) simp_all
qed

lemma initialize_raft_node_ready:
  assumes "en_raft env = R" "initialize_raft_node env config b leader d = (d', Ok ())"
  shows "ra_initialized R (dv_raft d') \<and> dv_snapshot d' = dv_snapshot d \<and> dv_is_ephemeral d' = dv_is_ephemeral d"
  using assms(2) unfolding initialize_raft_node_def assms(1)
  by (cases config) (auto simp: step_simps raft_call_def dest: initialized_init split: if_splits)

lemma initialize_parts_ready:
  assumes env: "en_raft env = R" and step: "initialize_parts env request d = (d', Ok ())" "\<not> dv_is_ephemeral d'"
  shows "ra_initialized R (dv_raft d') \<and> pr_state (dv_snapshot d') \<noteq> UnknownState"
proof -
  obtain d1 p config b leader where p: "processor_init (dv_snapshot d1) (dv_id d1) config = (p, Ok ())"
    and node: "initialize_raft_node env (sr_raft_config request) b leader (d1\<lparr>dv_snapshot := p\<rparr>) = (d', Ok ())"
    using step by (auto simp: initialize_parts_def step_simps split: if_splits)
  then have "pr_state p = Follower"
    by (auto simp: processor_init_def split: if_splits)
  then show ?thesis
    using initialize_raft_node_ready [OF env node] by simp
qed

lemma parts_start_node:
  assumes env: "en_raft env = R" and inv: "parts_inv R d"
  shows "holds (parts_inv R) (process_start_node env request d)"
proof (cases "dv_driver_state d = Created")
  case True
  obtain d' r where parts: "initialize_parts env request d = (d', r)"
    by fastforce
  show ?thesis
  proof (cases r)
    case (Ok x)
    then show ?thesis
      using True parts initialize_parts_ready [OF env, of request d d']
      by (auto simp: process_start_node_def check_driver_state_def holds_def) (auto simp: parts_inv_def)
  next
    case (Err e)
    then show ?thesis
      using True parts same_channels_initialize [of d env request]
      by (auto simp: process_start_node_def check_driver_state_def holds_def parts_inv_def same_channels_def)
  qed (use True parts in \<open>simp add: process_start_node_def check_driver_state_def holds_def\<close>)
qed (use inv in \<open>simp add: process_start_node_def check_driver_state_def holds_def\<close>)

lemma parts_messages:
  assumes env: "en_raft env = R" and inv: "parts_inv R d"
  shows "holds (parts_inv R) (process_stop_node env d)"
    and "holds (parts_inv R) (process_change_cluster env cc d)"
    and "holds (parts_inv R) (process_check_cluster d)"
    and "holds (parts_inv R) (process_deliver_system_message env m d)"
    and "holds (parts_inv R) (process_get_replica_state env d)"
    and "holds (parts_inv R) (process_secure_channel_handshake env h d)"
    and "holds (parts_inv R) (process_deliver_app_message env am d)"
    and "holds (parts_inv R) (process_actor_raft_proposals env d)"
proof -
  show "holds (parts_inv R) (process_stop_node env d)"
    using inv unfolding process_stop_node_def by (intro parts_rules) (simp_all, simp add: parts_inv_def)
  have proposal: "holds (parts_inv R) (make_raft_config_change_proposal env i t d)" for i t
    using inv initialized_calls(3) [of "dv_raft d"] unfolding make_raft_config_change_proposal_def env
    by (intro parts_rules) (auto simp: holds_def split: result.splits raft_error.splits intro!: parts_set_raft, (metis fst_conv)+)
  show "holds (parts_inv R) (process_change_cluster env cc d)"
    using inv unfolding process_change_cluster_def
    by (intro parts_rules) (auto intro!: proposal simp: holds_def [of _ "(d, _)"]
      split: option.splits change_cluster_type.splits)
  show "holds (parts_inv R) (process_check_cluster d)"
    using inv unfolding process_check_cluster_def by (intro parts_rules) (simp_all add: reset_leader_state_def)
  show "holds (parts_inv R) (process_deliver_system_message env m d)"
    using inv unfolding process_deliver_system_message_def
    by (intro parts_rules) (auto split: in_message.splits intro!: parts_rules parts_raft env)
  show "holds (parts_inv R) (process_get_replica_state env d)"
    using inv unfolding process_get_replica_state_def by (intro parts_rules env) simp_all
  show "holds (parts_inv R) (process_secure_channel_handshake env h d)"
    using inv unfolding process_secure_channel_handshake_def by (intro parts_rules)
  show "holds (parts_inv R) (process_deliver_app_message env am d)"
    using inv unfolding process_deliver_app_message_def by (intro parts_rules) simp_all
  show "holds (parts_inv R) (process_actor_raft_proposals env d)"
    using inv unfolding process_actor_raft_proposals_def by (intro parts_rules parts_raft env) simp_all
qed

lemma parts_dispatch:
  assumes env: "en_raft env = R" and inv: "parts_inv R d"
  shows "holds (parts_inv R) (dispatch_message env m d)"
  using inv unfolding dispatch_message_def
  by (cases m) (auto intro!: call_rules parts_messages parts_snapshots parts_start_node env)

lemma parts_process_raft:
  assumes env: "en_raft env = R" and inv: "parts_inv R d"
  shows "holds (parts_inv R) (process_raft env d)"
  using inv unfolding process_raft_def
  by (intro call_rules parts_messages parts_snapshots parts_state_machine env)

lemma parts_receive:
  assumes env: "en_raft env = R" and inv: "parts_inv R d"
  shows "holds (parts_inv R) (receive_message env instant m logs d)"
proof -
  have "parts_inv R (preset_state_machine env instant d)"
    using inv by (simp add: preset_state_machine_def Let_def)
  then show ?thesis
    unfolding receive_message_def stash_comms_module_entries_def stash_log_entries_def
    by (intro call_rules parts_messages parts_process_raft env)
      (auto split: option.splits intro!: call_rules parts_dispatch env)
qed

lemma parts_run:
  assumes "en_raft env = R" "driver_run env raft actor d"
  shows "parts_inv R d"
  using assms(2)
proof (induction rule: driver_run.induct)
  case start
  show ?case
    by (simp add: parts_inv_def driver_new_def)
next
  case (receive d instant m logs d' out)
  then show ?case
    using parts_receive [OF assms(1) receive.IH, of instant m logs] by (simp add: holds_def)
qed

end

section \<open>Committed entries\<close>

lemma stash_commands_effect:
  "stash_commands cs d = d\<lparr>dv_messages := dv_messages d @ map app_message cs\<rparr>"
  by (induction cs arbitrary: d) (simp_all add: stash_commands_def stash_message_def)

lemma apply_committed_entry_effect:
  assumes "apply_committed_entry env entry d = (d', Ok ())"
  shows "dv_id d' = dv_id d \<and> rg_applied_index (dv_raft_progress d') = re_index entry \<and>
    dv_actor d' = apply_events (en_actor env) (List.map_filter (entry_event env (dv_id d)) [entry]) (dv_actor d) \<and>
    dv_messages d' = dv_messages d @
      map app_message (event_commands (en_actor env) (List.map_filter (entry_event env (dv_id d)) [entry]) (dv_actor d))"
proof (cases "re_data entry = [] \<or> re_entry_type entry = EntryConfChange")
  case True
  then show ?thesis
    using assms by (auto simp: apply_committed_entry_def entry_event_def step_simps raft_call_def
      collect_config_state_def List.map_filter_def apply_events_def split: if_splits)
next
  case False
  then show ?thesis
    using assms by (auto simp: apply_committed_entry_def entry_event_def step_simps actor_call_def
      stash_commands_effect List.map_filter_def apply_events_def)
qed

lemma apply_events_append: "apply_events A (xs @ ys) a = apply_events A ys (apply_events A xs a)"
  by (simp add: apply_events_def)

lemma event_commands_append:
  "event_commands A (xs @ ys) a = event_commands A xs a @ event_commands A ys (apply_events A xs a)"
  by (induction xs arbitrary: a) (auto simp: apply_events_def split: prod.splits)

lemma map_filter_append: "List.map_filter f (xs @ ys) = List.map_filter f xs @ List.map_filter f ys"
  by (simp add: List.map_filter_def)

lemma for_each_entries:
  assumes "for_each (apply_committed_entry env) es d = (d', Ok ())"
  shows "dv_id d' = dv_id d \<and>
    (es \<noteq> [] \<longrightarrow> rg_applied_index (dv_raft_progress d') = re_index (last es)) \<and>
    dv_actor d' = apply_events (en_actor env) (List.map_filter (entry_event env (dv_id d)) es) (dv_actor d) \<and>
    dv_messages d' = dv_messages d @
      map app_message (event_commands (en_actor env) (List.map_filter (entry_event env (dv_id d)) es) (dv_actor d))"
  using assms
proof (induction es arbitrary: d)
  case (Cons e es)
  then obtain d1 where d1: "apply_committed_entry env e d = (d1, Ok ())"
    "for_each (apply_committed_entry env) es d1 = (d', Ok ())"
    by (auto simp: result_simps)
  show ?case
    using apply_committed_entry_effect [OF d1(1)] Cons.IH [OF d1(2)] d1(2)
      map_filter_append [of "entry_event env (dv_id d)" "[e]" es]
    by (auto simp: apply_events_append event_commands_append)
qed (simp add: List.map_filter_def apply_events_def)

lemma sorted_last_Max: "sorted xs \<Longrightarrow> xs \<noteq> [] \<Longrightarrow> last xs = Max (set xs)" for xs :: "'k::linorder list"
  by (induction xs rule: rev_induct) (auto simp: sorted_append intro!: Max_eqI [symmetric])

section \<open>Evaluation\<close>

text \<open>
  Rules that run a driver: the calls in their order, without looking into what follows a call before
  its result is known.
\<close>

lemma try_st_weak: "p = q \<Longrightarrow> try_st p f = try_st q f"
  by simp

lemma lift_st_weak: "r = q \<Longrightarrow> s = t \<Longrightarrow> lift_st s r f = lift_st t q f"
  by simp

lemma solo_env_simps [simp]:
  "en_raft (solo_env A) = raft_simple_ops solo_node" "en_actor (solo_env A) = A"
  "en_sessions (solo_env A) = provider_ops (default_provider demo_oak)"
  "en_snapshot (solo_env A) = demo_snapshot_env" "nc_id (en_default_raft_config (solo_env A)) = 0"
  "en_decode_raft_message (solo_env A) b = Some ((create_raft_message 1 2 (MsgOther 2))\<lparr>rm_rest := b\<rparr>)"
  "en_encode_entry (solo_env A) = enc_entry" "en_decode_entry (solo_env A) = decode_all dec_entry"
  by (simp_all add: solo_env_def)

lemma raft_simple_ops_simps [simp]:
  "ra_init (raft_simple_ops N) = simple_init N" "ra_initialized (raft_simple_ops N) = simple_initialized"
  "ra_leader (raft_simple_ops N) = simple_leader N" "ra_state (raft_simple_ops N) = simple_state N"
  "ra_store (raft_simple_ops N) = simple_store N" "ra_set_store (raft_simple_ops N) = simple_set_store N"
  "ra_make_step (raft_simple_ops N) = simple_make_step N" "ra_has_ready (raft_simple_ops N) = simple_has_ready N"
  "ra_make_proposal (raft_simple_ops N) = simple_make_proposal N" "ra_make_tick (raft_simple_ops N) = simple_make_tick N"
  "ra_get_ready (raft_simple_ops N) = simple_get_ready N" "ra_advance_ready (raft_simple_ops N) = simple_advance_ready N"
  "ra_advance_apply (raft_simple_ops N) = simple_advance_apply N"
  by (simp_all add: raft_simple_ops_def)

lemma log_actor_simps [simp]:
  "ao_refresh log_actor c a = a" "ao_on_init log_actor a c = (a, Ok ())" "ao_on_save_snapshot log_actor a = (a, Ok [])"
  "ao_on_process_command log_actor a command = (a, Ok (case command of None \<Rightarrow> outcome_with_none
     | Some c \<Rightarrow> outcome_with_event (event_with_bytes (ac_correlation_id c) (ac_header c))))"
  "ao_on_apply_event log_actor a x e = (a @ [ae_contents e], Ok (EventOutcome
     (if aec_owned x then [command_with_header (ae_correlation_id e) (ae_contents e)] else [])))"
  by (simp_all add: log_actor_def)

lemma entry_codec [simp]: "decode_all dec_entry (enc_entry e) = Some e" "enc_entry e \<noteq> []"
proof -
  have "codec enc_entry dec_entry"
    unfolding enc_entry_def [abs_def] dec_entry_def
    by (intro codec_map codecs) (simp add: option.map_comp comp_def option.map_ident_strong)
  then show "decode_all dec_entry (enc_entry e) = Some e"
    by (rule decode_all_encode)
  show "enc_entry e \<noteq> []"
    by (simp add: enc_entry_def enc_pair_def enc_option_def split: option.split)
qed

lemmas driver_evals =
  receive_message_def preset_state_machine_def dispatch_message_def process_raft_def process_start_node_def
  initialize_parts_def initialize_raft_node_def initialize_driver_def check_driver_state_def check_driver_started_def
  check_non_ephemeral_def process_deliver_app_message_def process_actor_raft_proposals_def
  process_snapshot_progress_def process_state_machine_def process_snapshot_sending_def stash_log_entries_def
  stash_comms_module_entries_def advance_raft_def maybe_create_raft_snapshot_def stash_leader_state_def
  trigger_raft_tick_def get_raft_state_def check_raft_leadership_def update_snapshot_cluster_change_def
  raft_call_def store_call_def actor_call_def comm_call_def processor_call_def put_sender_def put_receiver_def
  stash_message_def stash_commands_effect make_raft_proposal_def send_raft_messages_def restore_raft_snapshot_def
  apply_raft_committed_entries_def apply_committed_entry_def collect_config_state_def app_message_def
  process_secure_channel_handshake_def process_deliver_system_message_def make_raft_step_def
  set_state_def set_immutable_state_def append_proposal_def driver_context_def driver_new_def context_core_new_def
  raft_progress_new_def Let_def

lemmas solo_evals =
  solo_node_def solo_entry_def start_request_def raft_simple_new_def simple_init_def simple_leader_def
  simple_initialized_def simple_state_def simple_store_def simple_set_store_def simple_calls simple_get_ready_def
  simple_advance_ready_def simple_has_ready_def mut_raft_node_def raft_node_def raft_state_new_def
  take_messages_def take_snapshot_def take_committed_entries_def take_persisted_messages_def take_entries_def
  create_entry_def create_entry_id_def outcome_with_event_def outcome_with_none_def event_with_bytes_def
  command_with_header_def

lemmas store_evals =
  storage_new_def apply_snapshot_def create_raft_snapshot_def create_raft_snapshot_metadata_def
  create_raft_config_state_def should_snapshot_def snapshot_is_empty_def empty_raft_snapshot_def get_metadata_def
  first_entry_index_def last_entry_index_def set_snapshot_def storage_config_state_def snapshot_index_def
  snapshot_term_def get_config_state_def entry_term_def append_entries_def

lemmas transfer_evals =
  processor_init_def processor_new_def sender_new_def receiver_new_def mut_processor_def process_cluster_change_def
  sender_init_def sender_set_instant_def sender_try_complete_def receiver_try_complete_def sender_reset_def
  receiver_reset_def receiver_init_def receiver_set_instant_def next_request_def cm_init_def cm_new_def make_tick_def
  cm_process_cluster_change_def take_out_messages_def

lemmas replica_evals = driver_evals solo_evals store_evals transfer_evals

text \<open>
  C8. The committed entries of a ready reach the actor as its log: ordered by their index, each entry
  that is neither empty nor a change of the cluster once, with the id and the contents it was proposed
  with and marked as owned exactly by the replica that proposed it. The answers of the actor are stashed
  in that order, and the applied index becomes the largest of the indices.
\<close>

theorem committed_entries_applied_in_order:
  assumes "apply_raft_committed_entries env es d = (d', Ok ())"
  shows "dv_actor d' = apply_events (en_actor env) (entry_events env (dv_id d) es) (dv_actor d) \<and>
    dv_messages d' = dv_messages d @
      map app_message (event_commands (en_actor env) (entry_events env (dv_id d) es) (dv_actor d)) \<and>
    (es \<noteq> [] \<longrightarrow> rg_applied_index (dv_raft_progress d') = Max (re_index ` set es))"
proof -
  have "re_index (last (sort_key re_index es)) = Max (re_index ` set es)" "sort_key re_index es \<noteq> []" if "es \<noteq> []"
    using sorted_last_Max [OF sorted_sort_key, of re_index es] that
    by (metis last_map length_0_conv length_sort list.set_map map_is_Nil_conv set_sort)+
  then show ?thesis
    using for_each_entries [OF assms [unfolded apply_raft_committed_entries_def]] by (simp add: entry_events_def)
qed

theorem committed_entries_applied_in_order_witness:
  "\<exists>d. apply_raft_committed_entries (solo_env log_actor)
     [create_raft_entry 3 1 EntryNormal (enc_entry (create_entry (create_entry_id 2 9) [8])),
      create_raft_entry 2 1 EntryNormal (enc_entry (create_entry (create_entry_id 1 5) [7]))]
     ((driver_new raft_simple_new (processor_new sender_new receiver_new) [] cm_new)\<lparr>dv_id := 1\<rparr>) = (d, Ok ()) \<and>
   dv_actor d = [[7], [8]] \<and> rg_applied_index (dv_raft_progress d) = 3 \<and>
   dv_messages d = [OutDeliverAppMessage \<lparr>da_correlation_id = 5, da_message_header = [7], da_message_payload = []\<rparr>]"
proof -
  let ?es = "[create_raft_entry 3 1 EntryNormal (enc_entry (create_entry (create_entry_id 2 9) [8])),
      create_raft_entry 2 1 EntryNormal (enc_entry (create_entry (create_entry_id 1 5) [7]))]"
  let ?d = "(driver_new raft_simple_new (processor_new sender_new receiver_new) [] cm_new)\<lparr>dv_id := 1\<rparr> ::
    ((nat \<times> storage_core \<times> raft_entry list, raft_ready) raft_simple, bytes list,
     (unit, unit option, unit, unit option) dyn_session, default_encryptor) driver"
  obtain d where d: "apply_raft_committed_entries (solo_env log_actor) ?es ?d = (d, Ok ())"
    by (simp add: replica_evals create_raft_entry_def cong: try_st_weak lift_st_weak)
  then have "rg_applied_index (dv_raft_progress d) = 3"
    using committed_entries_applied_in_order [OF d] by (simp add: create_raft_entry_def)
  moreover have "dv_actor d = [[7], [8]]" "dv_messages d =
      [OutDeliverAppMessage \<lparr>da_correlation_id = 5, da_message_header = [7], da_message_payload = []\<rparr>]"
    using committed_entries_applied_in_order [OF d]
    by (simp_all add: entry_events_def entry_event_def apply_events_def create_raft_entry_def List.map_filter_def
      replica_evals)
  ultimately show ?thesis
    using d by blast
qed

section \<open>Requests of a snapshot transfer\<close>

lemma next_requests_fuel:
  assumes "sender_wf s" "ds_max_pending_chunks s - in_flight (ds_receivers s) < n"
  shows "\<exists>s' qs. (\<forall>fuel \<ge> n. next_requests fuel env s = (s', Ok qs)) \<and> sender_wf s' \<and>
    ds_max_pending_chunks s' = ds_max_pending_chunks s \<and>
    length qs \<le> ds_max_pending_chunks s - in_flight (ds_receivers s)"
  using assms
proof (induction n arbitrary: s)
  case (Suc n)
  obtain s1 q where q: "next_request env s = (s1, Ok q)" "sender_wf s1" "ds_max_pending_chunks s1 = ds_max_pending_chunks s"
    "q \<noteq> None \<Longrightarrow> in_flight (ds_receivers s) < ds_max_pending_chunks s \<and>
       in_flight (ds_receivers s1) = in_flight (ds_receivers s) + 1"
    using next_request_effect [OF Suc.prems(1), of env] by blast
  show ?case
  proof (cases q)
    case None
    then have "\<forall>fuel \<ge> Suc n. next_requests fuel env s = (s1, Ok [])"
      using q(1) by (auto simp: Suc_le_eq gr0_conv_Suc dest!: less_imp_Suc_add)
    then show ?thesis
      using q(2,3) by fastforce
  next
    case (Some r)
    then have "ds_max_pending_chunks s1 - in_flight (ds_receivers s1) < n"
      "Suc (ds_max_pending_chunks s1 - in_flight (ds_receivers s1)) = ds_max_pending_chunks s - in_flight (ds_receivers s)"
      using q(3,4) Suc.prems(2) by auto
    moreover from this obtain s' qs where s': "\<forall>fuel \<ge> n. next_requests fuel env s1 = (s', Ok qs)" "sender_wf s'"
      "ds_max_pending_chunks s' = ds_max_pending_chunks s1"
      "length qs \<le> ds_max_pending_chunks s1 - in_flight (ds_receivers s1)"
      using Suc.IH [OF q(2)] by blast
    moreover have "\<forall>fuel \<ge> Suc n. next_requests fuel env s = (s', Ok (r # qs))"
    proof (intro allI impI)
      fix fuel assume "Suc n \<le> fuel"
      then show "next_requests fuel env s = (s', Ok (r # qs))"
        using s'(1) q(1) Some by (cases fuel) auto
    qed
    ultimately show ?thesis
      using q(3) by (intro exI [of _ s'] exI [of _ "r # qs"]) auto
  qed
qed simp

text \<open>
  C32. The loop that asks a snapshot sender for its next request ends: in every state that the sender
  reaches it returns after at most as many requests as chunks may still be put in flight, so the fuel of
  the model is never used up and more of it changes nothing.
\<close>

theorem snapshot_requests_end:
  assumes "sender_reachable env s"
  shows "\<exists>s' qs. next_requests (Suc (ds_max_pending_chunks s)) env s = (s', Ok qs) \<and>
    (\<forall>fuel > ds_max_pending_chunks s. next_requests fuel env s = (s', Ok qs)) \<and>
    in_flight (ds_receivers s) + length qs \<le> ds_max_pending_chunks s"
proof -
  have wf: "sender_wf s"
    using assms by (rule sender_reachable_wf)
  then have "in_flight (ds_receivers s) \<le> ds_max_pending_chunks s"
    by (simp add: sender_wf_def)
  moreover have "ds_max_pending_chunks s - in_flight (ds_receivers s) < Suc (ds_max_pending_chunks s)"
    by simp
  from next_requests_fuel [OF wf this, of env]
  obtain s' qs where s': "\<forall>fuel \<ge> Suc (ds_max_pending_chunks s). next_requests fuel env s = (s', Ok qs)"
    "length qs \<le> ds_max_pending_chunks s - in_flight (ds_receivers s)"
    by blast
  ultimately show ?thesis
    by (intro exI [of _ s'] exI [of _ qs]) auto
qed

theorem snapshot_requests_end_witness:
  "\<exists>s s' qs. sender_reachable demo_snapshot_env s \<and> ds_receivers s \<noteq> [] \<and>
    next_requests 3 demo_snapshot_env s = (s', Ok qs) \<and> length qs \<le> 2"
proof -
  let ?s = "fst (sender_start (sender_init sender_new 1 None) 2 demo_snapshot)"
  have reach: "sender_reachable demo_snapshot_env ?s"
    by (intro sender_reachable.start sender_reachable.init)
  moreover have "ds_receivers ?s \<noteq> []" and two: "ds_max_pending_chunks ?s = 2"
    by (simp_all add: sender_start_def sender_init_def sender_new_def sender_state_new_def demo_snapshot_def
        create_raft_snapshot_def chunk_count_def hm_insert_def)
  moreover have "\<exists>s' qs. next_requests 3 demo_snapshot_env ?s = (s', Ok qs) \<and> length qs \<le> 2"
    using snapshot_requests_end [OF reach] unfolding two by auto
  ultimately show ?thesis
    by blast
qed

section \<open>Proposals\<close>



section \<open>Ephemeral replicas\<close>

lemma detached_frame [simp]:
  "detached d0 (d\<lparr>dv_communication := c\<rparr>) = detached d0 d"
  "detached d0 (d\<lparr>dv_messages := ms\<rparr>) = detached d0 d"
  "detached d0 (d\<lparr>dv_actor := a\<rparr>) = detached d0 d"
  "detached d0 (stash_message m d) = detached d0 d"
  "detached d0 (stash_commands cs d) = detached d0 d"
  by (simp_all add: detached_def stash_message_def stash_commands_effect)

lemma detached_stash_all [simp]: "detached d0 (fold (\<lambda>x. stash_message (f x)) xs d) = detached d0 d"
  by (induction xs arbitrary: d) simp_all

lemma detached_calls:
  "detached d0 d \<Longrightarrow> holds (detached d0) (actor_call h d)"
  "detached d0 d \<Longrightarrow> holds (detached d0) (comm_call g d)"
  unfolding actor_call_def comm_call_def by (intro call_rules; simp)+

lemma detached_dispatch:
  assumes "detached d0 d"
  shows "holds (detached d0) (dispatch_message env m d)"
proof -
  have "holds (detached d0) (process_stop_node env d)"
    using assms unfolding process_stop_node_def by (intro call_rules) (simp_all, simp add: detached_def)
  moreover have "holds (detached d0) (process_get_replica_state env d)"
    using assms unfolding process_get_replica_state_def
    by (intro call_rules) (simp_all add: detached_def stash_message_def)
  moreover have "holds (detached d0) (process_secure_channel_handshake env h d)" for h
    using assms unfolding process_secure_channel_handshake_def by (intro call_rules detached_calls)
  ultimately show ?thesis
    using assms unfolding dispatch_message_def
    by (cases m) (auto intro!: call_rules simp: detached_def process_start_node_def process_change_cluster_def
      process_check_cluster_def process_deliver_system_message_def process_deliver_snapshot_request_def
      process_deliver_snapshot_response_def process_deliver_snapshot_failure_def check_driver_state_def
      check_driver_started_def check_non_ephemeral_def)
qed

lemma detached_app_message:
  assumes "detached d0 d"
  shows "holds (detached d0) (process_deliver_app_message env m d)"
  using assms unfolding process_deliver_app_message_def
  by (intro call_rules detached_calls) (simp_all add: detached_def stash_commands_effect)

text \<open>
  An ephemeral replica stands alone: whatever it receives, it does not touch the Raft node, the log,
  the snapshot transfer or the applied index, and it proposes nothing.
\<close>

theorem ephemeral_replica_isolated:
  assumes ephemeral: "dv_is_ephemeral d" "dv_driver_state d \<noteq> Created"
    and step: "receive_message env instant m logs d = (d', r)" "r \<noteq> Panic"
  shows "dv_raft d' = dv_raft d \<and> dv_snapshot d' = dv_snapshot d \<and> dv_raft_progress d' = dv_raft_progress d \<and>
    dx_proposals (dv_core d') = dx_proposals (dv_core d) \<and> dv_is_ephemeral d'"
proof -
  have "detached d (preset_state_machine env instant d)"
    using ephemeral by (simp add: detached_def preset_state_machine_def set_state_def Let_def)
  moreover have "holds (detached d) (process_raft env d1)" if "detached d d1" for d1
    using that by (simp add: process_raft_def detached_def holds_def)
  ultimately have "holds (detached d) (receive_message env instant m logs d)"
    unfolding receive_message_def stash_comms_module_entries_def stash_log_entries_def
    by (intro call_rules detached_app_message)
      (auto split: option.splits intro!: call_rules detached_dispatch)
  then show ?thesis
    using step by (simp add: holds_def detached_def)
qed

theorem ephemeral_replica_isolated_witness:
  "\<exists>d1 d2. receive_message (solo_env log_actor) 1 (Some (Some (InStartReplica (start_request 1 True True)))) []
      (driver_new raft_simple_new (processor_new sender_new receiver_new) [] cm_new) = (d1, Ok (Some [OutStartReplica 1])) \<and>
    receive_message (solo_env log_actor) 2 (Some (Some (InDeliverAppMessage
      \<lparr>da_correlation_id = 5, da_message_header = [7], da_message_payload = []\<rparr>))) [] d1 =
      (d2, Ok (Some [OutDeliverAppMessage \<lparr>da_correlation_id = 5, da_message_header = [7], da_message_payload = []\<rparr>])) \<and>
    dv_actor d2 = [[7]] \<and> dv_raft d2 = raft_simple_new"
proof -
  obtain d1 where d1: "receive_message (solo_env log_actor) 1 (Some (Some (InStartReplica (start_request 1 True True)))) []
      (driver_new raft_simple_new (processor_new sender_new receiver_new) [] cm_new) = (d1, Ok (Some [OutStartReplica 1]))"
    and ephemeral: "dv_is_ephemeral d1" "dv_driver_state d1 \<noteq> Created" and raft: "dv_raft d1 = raft_simple_new"
    and next_call: "\<exists>d2. receive_message (solo_env log_actor) 2 (Some (Some (InDeliverAppMessage
      \<lparr>da_correlation_id = 5, da_message_header = [7], da_message_payload = []\<rparr>))) [] d1 =
      (d2, Ok (Some [OutDeliverAppMessage \<lparr>da_correlation_id = 5, da_message_header = [7], da_message_payload = []\<rparr>])) \<and>
      dv_actor d2 = [[7]]"
    by (simp add: replica_evals cong: try_st_weak lift_st_weak)
  from next_call obtain d2 where d2: "receive_message (solo_env log_actor) 2 (Some (Some (InDeliverAppMessage
      \<lparr>da_correlation_id = 5, da_message_header = [7], da_message_payload = []\<rparr>))) [] d1 =
      (d2, Ok (Some [OutDeliverAppMessage \<lparr>da_correlation_id = 5, da_message_header = [7], da_message_payload = []\<rparr>]))"
    "dv_actor d2 = [[7]]" by blast
  have "dv_raft d2 = raft_simple_new"
    using ephemeral_replica_isolated [OF ephemeral d2(1)] raft by simp
  then show ?thesis
    using d1 d2 by (intro exI [of _ d1] exI [of _ d2] conjI)
qed

section \<open>Leadership\<close>

text \<open>What a replica reports and does when its view of the leader changes.\<close>

lemma stash_leader_state_channels:
  fixes d d' :: "('a, 'b, 'c, 'd) driver"
  assumes "stash_leader_state env d = (d', Ok ())" "get_raft_state env d = Ok state" "state \<noteq> dv_prev_raft_state d"
  shows "dv_communication d' = cm_process_cluster_change (dv_communication d) (rt_committed_cluster_config state) \<and>
    dv_messages d' = dv_messages d @ [OutCheckCluster
      \<lparr>cc_leader_replica_id = rt_leader_replica_id state, cc_leader_term = rt_leader_term state,
       cc_cluster_replica_ids = rt_committed_cluster_config state, cc_has_pending_changes = rt_has_pending_change state\<rparr>]"
proof -
  have same: "holds (same_channels d0) (update_snapshot_cluster_change env d)" if "same_channels d0 d"
    for d0 d :: "('a, 'b, 'c, 'd) driver"
    using that unfolding update_snapshot_cluster_change_def report_snapshot_def
    by (intro call_rules same_channels_calls) (auto simp: same_channels_def)
  have "same_channels d d1" if "update_snapshot_cluster_change env
      (d\<lparr>dv_raft_state := state, dv_prev_raft_state := state\<rparr>) = (d1, Ok ())" for d1
    using same [of d "d\<lparr>dv_raft_state := state, dv_prev_raft_state := state\<rparr>"] that
    by (simp add: holds_def same_channels_def)
  then show ?thesis
    using assms by (auto simp: stash_leader_state_def step_simps stash_message_def same_channels_def)
qed

text \<open>
  C33. A replica that is no leader any more closes every channel: it reports an unknown leader and an empty
  cluster, and forgets the state of each peer, the open channels and the messages that wait for a
  handshake included.
\<close>

theorem leadership_loss_closes_channels:
  assumes "ra_state (en_raft env) (dv_raft d) = Ok raft_state_new" "dv_id d \<noteq> 0" "dv_prev_raft_state d \<noteq> raft_state_new"
    and "stash_leader_state env d = (d', Ok ())"
  shows "cm_replicas (dv_communication d') = [] \<and>
    dv_messages d' = dv_messages d @ [OutCheckCluster
      \<lparr>cc_leader_replica_id = 0, cc_leader_term = 0, cc_cluster_replica_ids = [], cc_has_pending_changes = False\<rparr>]"
proof -
  have "get_raft_state env d = Ok raft_state_new"
    using assms(1,2) by (simp add: get_raft_state_def raft_state_new_def)
  from stash_leader_state_channels [OF assms(4) this] assms(3) show ?thesis
    by (simp add: cm_process_cluster_change_def raft_state_new_def)
qed

theorem leadership_loss_closes_channels_witness:
  "\<exists>d'. stash_leader_state ((solo_env log_actor)\<lparr>en_raft := (raft_simple_ops solo_node)\<lparr>ra_state := \<lambda>r. Ok raft_state_new\<rparr>\<rparr>)
      ((driver_new raft_simple_new (fst (processor_init (processor_new sender_new receiver_new) 1 None)) [] (open_channel 1 2))
        \<lparr>dv_id := 1, dv_driver_state := Started, dv_prev_raft_state := \<lparr>rt_leader_replica_id = 1, rt_leader_term = 3,
           rt_committed_cluster_config = [1, 2], rt_has_pending_change = False\<rparr>\<rparr>) = (d', Ok ()) \<and>
    cm_replicas (dv_communication d') = []"
proof -
  let ?env = "(solo_env log_actor)\<lparr>en_raft := (raft_simple_ops solo_node)\<lparr>ra_state := \<lambda>r. Ok raft_state_new\<rparr>\<rparr>"
  let ?d = "(driver_new raft_simple_new (fst (processor_init (processor_new sender_new receiver_new) 1 None)) [] (open_channel 1 2))
        \<lparr>dv_id := 1, dv_driver_state := Started, dv_prev_raft_state := \<lparr>rt_leader_replica_id = 1, rt_leader_term = 3,
           rt_committed_cluster_config = [1, 2], rt_has_pending_change = False\<rparr>\<rparr>"
  obtain d' where d': "stash_leader_state ?env ?d = (d', Ok ())"
    by (simp add: replica_evals cong: try_st_weak lift_st_weak)
  have "cm_replicas (dv_communication d') = []"
    using leadership_loss_closes_channels [OF _ _ _ d'] by (simp add: raft_state_new_def)
  with d' show ?thesis
    by blast
qed

text \<open>A request to check the cluster is not answered by a replica that does not lead.\<close>

lemma follower_check_cluster_unanswered:
  assumes "ra_state (en_raft env) (dv_raft d) = Ok raft_state_new" "dv_id d \<noteq> 0"
  shows "\<exists>d'. stash_leader_state env (reset_leader_state d) = (d', Ok ()) \<and> dv_messages d' = dv_messages d"
  using assms by (simp add: stash_leader_state_def get_raft_state_def reset_leader_state_def raft_state_new_def)

text \<open>A replica that was not started panics on every message that does not start it.\<close>

lemma message_before_start_panics:
  "snd (receive_message env instant None logs (driver_new raft (processor_new sender_new receiver_new) actor cm_new)) = Panic"
  if "\<not> ra_initialized (en_raft env) raft"
  using that by (simp add: receive_message_def preset_state_machine_def process_raft_def
    process_actor_raft_proposals_def process_snapshot_progress_def process_state_machine_def
    process_snapshot_sending_def processor_call_def mut_processor_def processor_new_def driver_new_def set_state_def
    context_core_new_def Let_def)

end
