(* ===== verification/Hosting.thy ===== *)
theory Hosting
  imports Driver
begin

text \<open>
  Model of the hosts of a driver: the service of an application in
  \<open>src/runtime/src/service.rs\<close>, which answers each request of the launcher with the messages of one
  call of the driver, and the cluster of \<open>src/integration/src/harness.rs\<close>, which runs several
  drivers, carries the messages between them and advances their clocks.

  What the loggers of the drivers collect is an argument: a function of the replica and of the number of
  the call. An \<open>unwrap\<close> of a failed call is a panic. The loop \<open>advance_until\<close> may run for ever
  and is a partial function.

  The lemmas show that the cluster loses, duplicates and reorders no message between running
  replicas, and that every message in transit between replicas is protected.
\<close>

section \<open>The service of an application\<close>

record application_host =
  ah_messages :: "out_message list"

definition host_new :: application_host where
  "host_new = \<lparr>ah_messages = []\<rparr>"

definition host_take_messages :: "application_host \<Rightarrow> application_host \<times> out_message list" where
  "host_take_messages host = (host\<lparr>ah_messages := []\<rparr>, ah_messages host)"

definition host_send_messages :: "out_message list \<Rightarrow> application_host \<Rightarrow> application_host" where
  "host_send_messages messages host = host\<lparr>ah_messages := ah_messages host @ messages\<rparr>"

definition service_new :: "'a \<Rightarrow> (('n, 'd) raft_simple, 'a, 's, 'e) driver" where
  "service_new actor = driver_new raft_simple_new (processor_new sender_new receiver_new) actor cm_new"

text \<open>A call of the driver with a host: the driver asks the host at most once to send.\<close>

definition receive_with_host ::
  "('r, 'a, 's, 'e) driver_env \<Rightarrow> nat \<Rightarrow> in_message option option \<Rightarrow> log_message list \<Rightarrow> application_host \<Rightarrow>
   ('r, 'a, 's, 'e, application_host) driver_call" where
  "receive_with_host env instant message logs host d =
     (case receive_message env instant message logs d of
        (d, r) \<Rightarrow> (d, and_then r (\<lambda>out. Ok (case out of
            Some messages \<Rightarrow> host_send_messages messages host | None \<Rightarrow> host))))"

definition service_receive_message ::
  "('r, 'a, 's, 'e) driver_env \<Rightarrow> nat \<Rightarrow> in_message option option \<Rightarrow> log_message list \<Rightarrow> ('r, 'a, 's, 'e) driver \<Rightarrow>
   ('r, 'a, 's, 'e) driver \<times> (out_message list, unit) result" where
  "service_receive_message env instant message logs d =
     (case receive_with_host env instant message logs host_new d of
        (d, Ok host) \<Rightarrow> (d, Ok (snd (host_take_messages host)))
      | (d, _) \<Rightarrow> (d, Panic))"

section \<open>A platform of the cluster\<close>

record fake_host =
  fh_config :: bytes
  fh_messages_out :: "out_message list"

record ('r, 'a, 's, 'e) fake_platform =
  pf_id :: nat
  pf_messages_in :: "in_message list"
  pf_instant :: nat
  pf_driver :: "('r, 'a, 's, 'e) driver"
  pf_host :: fake_host

definition fake_host_new :: "bytes \<Rightarrow> fake_host" where
  "fake_host_new app_config = \<lparr>fh_config = app_config, fh_messages_out = []\<rparr>"

definition fake_send_messages :: "out_message list \<Rightarrow> fake_host \<Rightarrow> fake_host" where
  "fake_send_messages messages host = host\<lparr>fh_messages_out := fh_messages_out host @ messages\<rparr>"

definition platform_new :: "nat \<Rightarrow> bytes \<Rightarrow> 'a \<Rightarrow> (('n, 'd) raft_simple, 'a, 's, 'e) fake_platform" where
  "platform_new i app_config actor =
     \<lparr>pf_id = i, pf_messages_in = [], pf_instant = 0,
      pf_driver = driver_new raft_simple_new (processor_new sender_new receiver_new) actor cm_new,
      pf_host = fake_host_new app_config\<rparr>"

definition append_message_in ::
  "in_message \<Rightarrow> ('r, 'a, 's, 'e) fake_platform \<Rightarrow> ('r, 'a, 's, 'e) fake_platform" where
  "append_message_in m p = p\<lparr>pf_messages_in := pf_messages_in p @ [m]\<rparr>"

definition send_start_node ::
  "bytes \<Rightarrow> bool \<Rightarrow> ('r, 'a, 's, 'e) fake_platform \<Rightarrow> ('r, 'a, 's, 'e) fake_platform" where
  "send_start_node app_config is_leader p =
     append_message_in (InStartReplica
       \<lparr>sr_is_leader = is_leader, sr_replica_id_hint = pf_id p,
        sr_raft_config = Some \<lparr>rc_tick_period = 10, rc_election_tick = 20, rc_heartbeat_tick = 2, rc_max_size_per_msg = 0,
          rc_snapshot_config = Some \<lparr>sc_snapshot_count = 1000, sc_chunk_size = 20, sc_max_pending_chunks = 2\<rparr>,
          rc_handshake_retry_tick = 1\<rparr>,
        sr_app_config = app_config, sr_reference_values = None, sr_is_ephemeral = False\<rparr>) p"

definition send_stop_node :: "('r, 'a, 's, 'e) fake_platform \<Rightarrow> ('r, 'a, 's, 'e) fake_platform" where
  "send_stop_node = append_message_in InStopReplica"

definition send_change_cluster ::
  "nat \<Rightarrow> nat \<Rightarrow> change_cluster_type \<Rightarrow> ('r, 'a, 's, 'e) fake_platform \<Rightarrow> ('r, 'a, 's, 'e) fake_platform" where
  "send_change_cluster change_id replica_id change_type =
     append_message_in (InChangeCluster
       \<lparr>cr_change_id = change_id, cr_replica_id = replica_id, cr_change_type = Some change_type\<rparr>)"

definition send_check_cluster :: "('r, 'a, 's, 'e) fake_platform \<Rightarrow> ('r, 'a, 's, 'e) fake_platform" where
  "send_check_cluster = append_message_in InCheckCluster"

definition platform_send_app_message ::
  "nat \<Rightarrow> bytes \<Rightarrow> bytes \<Rightarrow> ('r, 'a, 's, 'e) fake_platform \<Rightarrow> ('r, 'a, 's, 'e) fake_platform" where
  "platform_send_app_message correlation_id header payload =
     append_message_in (InDeliverAppMessage
       \<lparr>da_correlation_id = correlation_id, da_message_header = header, da_message_payload = payload\<rparr>)"

definition advance_time :: "nat \<Rightarrow> ('r, 'a, 's, 'e) fake_platform \<Rightarrow> ('r, 'a, 's, 'e) fake_platform" where
  "advance_time duration p = p\<lparr>pf_instant := pf_instant p + duration\<rparr>"

text \<open>The calls of the driver for the queued messages; the number of the call selects the log entries.\<close>

fun receive_each ::
  "('r, 'a, 's, 'e) driver_env \<Rightarrow> nat \<Rightarrow> (nat \<Rightarrow> log_message list) \<Rightarrow> nat \<Rightarrow> in_message option list \<Rightarrow>
   ('r, 'a, 's, 'e) driver \<Rightarrow> fake_host \<Rightarrow> (('r, 'a, 's, 'e) driver \<times> fake_host, unit) result" where
  "receive_each env instant logs n [] d host = Ok (d, host)"
| "receive_each env instant logs n (m # ms) d host =
     (case receive_message env instant (map_option Some m) (logs n) d of
        (d, Ok out) \<Rightarrow> receive_each env instant logs (Suc n) ms d
          (case out of Some messages \<Rightarrow> fake_send_messages messages host | None \<Rightarrow> host)
      | (d, _) \<Rightarrow> Panic)"

definition send_messages_in ::
  "('r, 'a, 's, 'e) driver_env \<Rightarrow> (nat \<Rightarrow> log_message list) \<Rightarrow> ('r, 'a, 's, 'e) fake_platform \<Rightarrow>
   (('r, 'a, 's, 'e) fake_platform, unit) result" where
  "send_messages_in env logs p =
     and_then (receive_each env (pf_instant p) logs 0
         (if pf_messages_in p = [] then [None] else map Some (pf_messages_in p)) (pf_driver p) (pf_host p))
       (\<lambda>(d, host). Ok (p\<lparr>pf_messages_in := [], pf_driver := d, pf_host := host\<rparr>))"

definition take_messages_out ::
  "('r, 'a, 's, 'e) fake_platform \<Rightarrow> ('r, 'a, 's, 'e) fake_platform \<times> out_message list" where
  "take_messages_out p = (p\<lparr>pf_host := (pf_host p)\<lparr>fh_messages_out := []\<rparr>\<rparr>, fh_messages_out (pf_host p))"

section \<open>The cluster\<close>

record ('r, 'a, 's, 'e) fake_cluster =
  cl_app_config :: bytes
  cl_advance_step :: nat
  cl_platforms :: "(nat, ('r, 'a, 's, 'e) fake_platform) hmap"
  cl_leader_id :: nat
  cl_pull_messages :: "out_message list"

definition cluster_new :: "bytes \<Rightarrow> ('r, 'a, 's, 'e) fake_cluster" where
  "cluster_new app_config =
     \<lparr>cl_app_config = app_config, cl_advance_step = 100, cl_platforms = [], cl_leader_id = 0, cl_pull_messages = []\<rparr>"

definition non_leader_id :: "('r, 'a, 's, 'e) fake_cluster \<Rightarrow> (nat, unit) result" where
  "non_leader_id c = unwrap (find (\<lambda>i. i \<noteq> cl_leader_id c) (map fst (cl_platforms c)))"

definition on_platform ::
  "nat \<Rightarrow> (('r, 'a, 's, 'e) fake_platform \<Rightarrow> ('r, 'a, 's, 'e) fake_platform) \<Rightarrow> ('r, 'a, 's, 'e) fake_cluster \<Rightarrow>
   (('r, 'a, 's, 'e) fake_cluster, unit) result" where
  "on_platform i f c =
     and_then (unwrap (hm_get (cl_platforms c) i)) (\<lambda>p. Ok (c\<lparr>cl_platforms := hm_insert i (f p) (cl_platforms c)\<rparr>))"

definition send_app_message ::
  "nat \<Rightarrow> nat \<Rightarrow> bytes \<Rightarrow> bytes \<Rightarrow> ('r, 'a, 's, 'e) fake_cluster \<Rightarrow> (('r, 'a, 's, 'e) fake_cluster, unit) result" where
  "send_app_message node_id correlation_id header payload =
     on_platform node_id (platform_send_app_message correlation_id header payload)"

definition start_node ::
  "nat \<Rightarrow> bool \<Rightarrow> 'a \<Rightarrow> (('n, 'd) raft_simple, 'a, 's, 'e) fake_cluster \<Rightarrow>
   ((('n, 'd) raft_simple, 'a, 's, 'e) fake_cluster, unit) result" where
  "start_node node_id leader actor c =
     on_platform node_id (send_start_node (cl_app_config c) leader)
       (c\<lparr>cl_platforms := hm_insert node_id (platform_new node_id (cl_app_config c) actor) (cl_platforms c)\<rparr>)"

definition stop_node :: "nat \<Rightarrow> ('r, 'a, 's, 'e) fake_cluster \<Rightarrow> ('r, 'a, 's, 'e) fake_cluster" where
  "stop_node node_id c =
     c\<lparr>cl_platforms := hm_remove node_id (cl_platforms c),
       cl_leader_id := if cl_leader_id c = node_id then 0 else cl_leader_id c\<rparr>"

text \<open>A message between replicas goes to its recipient, the others are left for the test to pull.\<close>

fun route :: "out_message \<Rightarrow> (nat \<times> in_message) option" where
  "route (OutDeliverSystemMessage m) = Some (dm_recipient_replica_id m, InDeliverSystemMessage m)"
| "route (OutDeliverSnapshotRequest m) = Some (dsr_recipient_replica_id m, InDeliverSnapshotRequest m)"
| "route (OutDeliverSnapshotResponse m) = Some (dsp_recipient_replica_id m, InDeliverSnapshotResponse m)"
| "route (OutSecureChannelHandshake m) = Some (sch_recipient_replica_id m, InSecureChannelHandshake m)"
| "route _ = None"

fun route_all ::
  "out_message list \<Rightarrow> (nat \<times> in_message) list \<Rightarrow> out_message list \<Rightarrow> (nat \<times> in_message) list \<times> out_message list" where
  "route_all [] messages_in pull_messages = (messages_in, pull_messages)"
| "route_all (m # ms) messages_in pull_messages =
     (case route m of
        Some x \<Rightarrow> route_all ms (messages_in @ [x]) pull_messages
      | None \<Rightarrow> route_all ms messages_in (pull_messages @ [m]))"

fun collect_out ::
  "(nat, ('r, 'a, 's, 'e) fake_platform) hmap \<Rightarrow> (nat \<times> in_message) list \<Rightarrow> out_message list \<Rightarrow>
   (nat, ('r, 'a, 's, 'e) fake_platform) hmap \<times> (nat \<times> in_message) list \<times> out_message list" where
  "collect_out [] messages_in pull_messages = ([], messages_in, pull_messages)"
| "collect_out ((i, p) # rest) messages_in pull_messages =
     (case take_messages_out p of (p, messages_out) \<Rightarrow>
      case route_all messages_out messages_in pull_messages of (messages_in, pull_messages) \<Rightarrow>
      case collect_out rest messages_in pull_messages of (rest, messages_in, pull_messages) \<Rightarrow>
        ((i, p) # rest, messages_in, pull_messages))"

definition deliver ::
  "nat \<times> in_message \<Rightarrow> (nat, ('r, 'a, 's, 'e) fake_platform) hmap \<Rightarrow> (nat, ('r, 'a, 's, 'e) fake_platform) hmap" where
  "deliver x platforms =
     (case hm_get platforms (fst x) of
        Some p \<Rightarrow> hm_insert (fst x) (append_message_in (snd x) p) platforms
      | None \<Rightarrow> platforms)"

fun advance_platforms ::
  "('r, 'a, 's, 'e) driver_env \<Rightarrow> (nat \<Rightarrow> nat \<Rightarrow> log_message list) \<Rightarrow> nat \<Rightarrow> (nat, ('r, 'a, 's, 'e) fake_platform) hmap \<Rightarrow>
   ((nat, ('r, 'a, 's, 'e) fake_platform) hmap, unit) result" where
  "advance_platforms env logs step [] = Ok []"
| "advance_platforms env logs step ((i, p) # rest) =
     and_then (send_messages_in env (logs i) (advance_time step p)) (\<lambda>p.
     and_then (advance_platforms env logs step rest) (\<lambda>rest. Ok ((i, p) # rest)))"

text \<open>The loop of \<open>extract_pull_messages\<close>: index, remaining messages and result.\<close>

function extract_loop ::
  "(out_message \<Rightarrow> bool) \<Rightarrow> nat \<Rightarrow> out_message list \<Rightarrow> out_message list \<Rightarrow> out_message list \<times> out_message list" where
  "extract_loop filter_fn i pull_messages result =
     (if i < length pull_messages
      then if filter_fn (pull_messages ! i)
        then extract_loop filter_fn i (take i pull_messages @ drop (Suc i) pull_messages) (result @ [pull_messages ! i])
        else extract_loop filter_fn (Suc i) pull_messages result
      else (pull_messages, result))"
  by pat_completeness auto
termination
  by (relation "measure (\<lambda>(f, i, pull, result). length pull - i)") auto

declare extract_loop.simps [simp del]

definition extract_pull_messages ::
  "(out_message \<Rightarrow> bool) \<Rightarrow> ('r, 'a, 's, 'e) fake_cluster \<Rightarrow> ('r, 'a, 's, 'e) fake_cluster \<times> out_message list" where
  "extract_pull_messages filter_fn c =
     (case extract_loop filter_fn 0 (cl_pull_messages c) [] of (pull, result) \<Rightarrow> (c\<lparr>cl_pull_messages := pull\<rparr>, result))"

definition print_log_messages :: "('r, 'a, 's, 'e) fake_cluster \<Rightarrow> ('r, 'a, 's, 'e) fake_cluster" where
  "print_log_messages c = fst (extract_pull_messages (\<lambda>m. case m of OutLog _ \<Rightarrow> True | _ \<Rightarrow> False) c)"

definition cluster_advance ::
  "('r, 'a, 's, 'e) driver_env \<Rightarrow> (nat \<Rightarrow> nat \<Rightarrow> log_message list) \<Rightarrow> ('r, 'a, 's, 'e) fake_cluster \<Rightarrow>
   (('r, 'a, 's, 'e) fake_cluster, unit) result" where
  "cluster_advance env logs c =
     (case collect_out (cl_platforms c) [] (cl_pull_messages c) of (platforms, messages_in, pull_messages) \<Rightarrow>
      and_then (advance_platforms env logs (cl_advance_step c) (fold deliver messages_in platforms)) (\<lambda>platforms.
        Ok (print_log_messages (c\<lparr>cl_platforms := platforms, cl_pull_messages := pull_messages\<rparr>))))"

text \<open>The loop returns once a step leaves messages to pull; \<open>logs n\<close> are the log entries of step \<open>n\<close>.\<close>

partial_function (option) advance_until ::
  "('r, 'a, 's, 'e) driver_env \<Rightarrow> (nat \<Rightarrow> nat \<Rightarrow> nat \<Rightarrow> log_message list) \<Rightarrow> (out_message \<Rightarrow> bool) \<Rightarrow> nat \<Rightarrow>
   ('r, 'a, 's, 'e) fake_cluster \<Rightarrow> (('r, 'a, 's, 'e) fake_cluster \<times> out_message list, unit) result option" where
  "advance_until env logs condition n c =
     (case cluster_advance env (logs n) c of
        Ok c \<Rightarrow>
          (case extract_pull_messages condition c of (c, messages) \<Rightarrow>
             if messages \<noteq> [] then Some (Ok (c, messages)) else advance_until env logs condition (Suc n) c)
      | _ \<Rightarrow> Some Panic)"

fun added_to_cluster :: "nat \<Rightarrow> out_message \<Rightarrow> bool" where
  "added_to_cluster node_id (OutCheckCluster response) \<longleftrightarrow>
     \<not> cc_has_pending_changes response \<and> node_id \<in> set (cc_cluster_replica_ids response)"
| "added_to_cluster node_id _ = False"

definition advance_until_added_to_cluster ::
  "('r, 'a, 's, 'e) driver_env \<Rightarrow> (nat \<Rightarrow> nat \<Rightarrow> nat \<Rightarrow> log_message list) \<Rightarrow> nat \<Rightarrow> ('r, 'a, 's, 'e) fake_cluster \<Rightarrow>
   (('r, 'a, 's, 'e) fake_cluster, unit) result option" where
  "advance_until_added_to_cluster env logs node_id c =
     map_option (\<lambda>r. and_then r (\<lambda>(c, _). Ok c)) (advance_until env logs (added_to_cluster node_id) 0 c)"

definition add_node_to_cluster ::
  "('r, 'a, 's, 'e) driver_env \<Rightarrow> (nat \<Rightarrow> nat \<Rightarrow> nat \<Rightarrow> log_message list) \<Rightarrow> nat \<Rightarrow> ('r, 'a, 's, 'e) fake_cluster \<Rightarrow>
   (('r, 'a, 's, 'e) fake_cluster, unit) result option" where
  "add_node_to_cluster env logs node_id c =
     (case on_platform (cl_leader_id c) (send_change_cluster 0 node_id ChangeTypeAddReplica) c of
        Ok c \<Rightarrow> advance_until_added_to_cluster env logs node_id c
      | _ \<Rightarrow> Some Panic)"

fun elected_leader :: "nat option \<Rightarrow> out_message \<Rightarrow> nat option" where
  "elected_leader excluding_node_id (OutCheckCluster response) =
     (if cc_leader_replica_id response = 0 then None
      else if excluding_node_id = Some (cc_leader_replica_id response) then None
      else Some (cc_leader_replica_id response))"
| "elected_leader excluding_node_id _ = None"

text \<open>The condition records the leader of the last message that satisfies it.\<close>

definition advance_until_elected_leader ::
  "('r, 'a, 's, 'e) driver_env \<Rightarrow> (nat \<Rightarrow> nat \<Rightarrow> nat \<Rightarrow> log_message list) \<Rightarrow> nat option \<Rightarrow> ('r, 'a, 's, 'e) fake_cluster \<Rightarrow>
   (('r, 'a, 's, 'e) fake_cluster, unit) result option" where
  "advance_until_elected_leader env logs excluding_node_id c =
     map_option (\<lambda>r. and_then r (\<lambda>(c, messages).
         Ok (c\<lparr>cl_leader_id := the (elected_leader excluding_node_id (last messages))\<rparr>)))
       (advance_until env logs (\<lambda>m. elected_leader excluding_node_id m \<noteq> None) 0 c)"

section \<open>Carrying messages\<close>

lemma extract_loop_partition:
  "extract_loop f i pull result = (take i pull @ filter (\<lambda>m. \<not> f m) (drop i pull), result @ filter f (drop i pull))"
proof (induction f i pull result rule: extract_loop.induct)
  case (1 f i pull result)
  show ?case
  proof (cases "i < length pull")
    case True
    then have split: "drop i pull = pull ! i # drop (Suc i) pull"
      by (simp add: Cons_nth_drop_Suc)
    show ?thesis
      using 1 True by (subst extract_loop.simps) (simp add: split take_Suc_conv_app_nth)
  qed (subst extract_loop.simps, simp)
qed

lemma extract_pull_partition:
  "extract_pull_messages f c =
    (c\<lparr>cl_pull_messages := filter (\<lambda>m. \<not> f m) (cl_pull_messages c)\<rparr>, filter f (cl_pull_messages c))"
  by (simp add: extract_pull_messages_def extract_loop_partition)

lemma route_all_result:
  "route_all ms ins pull = (ins @ List.map_filter route ms, pull @ filter (\<lambda>m. route m = None) ms)"
  by (induction ms ins pull rule: route_all.induct) (auto simp: List.map_filter_simps split: option.splits)

abbreviation sent :: "(nat, ('r, 'a, 's, 'e) fake_platform) hmap \<Rightarrow> out_message list" where
  "sent platforms \<equiv> concat (map (\<lambda>e. fh_messages_out (pf_host (snd e))) platforms)"

lemma collect_out_result:
  "collect_out platforms ins pull =
    (map (\<lambda>e. (fst e, fst (take_messages_out (snd e)))) platforms,
     ins @ List.map_filter route (sent platforms), pull @ filter (\<lambda>m. route m = None) (sent platforms))"
proof (induction platforms arbitrary: ins pull)
  case (Cons e platforms)
  then show ?case
    by (cases e) (simp add: take_messages_out_def route_all_result map_filter_append)
qed (simp add: List.map_filter_simps)

lemma deliver_get:
  "hm_get (fold deliver xs platforms) i = map_option (\<lambda>p. p\<lparr>pf_messages_in := pf_messages_in p @
     map snd (filter (\<lambda>x. fst x = i) xs)\<rparr>) (hm_get platforms i)"
proof (induction xs arbitrary: platforms)
  case (Cons x xs)
  have "hm_get (deliver x platforms) i = map_option (\<lambda>p. p\<lparr>pf_messages_in := pf_messages_in p @
      map snd (filter (\<lambda>x. fst x = i) [x])\<rparr>) (hm_get platforms i)"
    by (cases "hm_get platforms (fst x)") (auto simp: deliver_def append_message_in_def option.map_ident_strong)
  then show ?case
    using Cons.IH [of "deliver x platforms"] by (simp add: option.map_comp comp_def)
qed (simp add: option.map_ident_strong)

lemma advance_platforms_get:
  "advance_platforms env logs step platforms = Ok platforms' \<Longrightarrow> hm_get platforms i = Some p \<Longrightarrow>
    \<exists>p'. hm_get platforms' i = Some p' \<and> send_messages_in env (logs i) (advance_time step p) = Ok p'"
proof (induction platforms arbitrary: platforms')
  case (Cons e platforms)
  obtain j q where e: "e = (j, q)"
    by (cases e)
  obtain q' rest where "send_messages_in env (logs j) (advance_time step q) = Ok q'"
    "advance_platforms env logs step platforms = Ok rest" "platforms' = (j, q') # rest"
    using Cons.prems(1) by (auto simp: e result_simps)
  then show ?case
    using Cons.IH [of rest] Cons.prems(2) by (auto simp: e hm_get_def split: if_splits)
qed simp

lemma hm_get_map_snd: "hm_get (map (\<lambda>e. (fst e, f (snd e))) m) k = map_option f (hm_get m k)"
  by (induction m) (auto simp: hm_get_def)

text \<open>
  C16. The cluster is a network without loss: in a step, a running replica is called, at its clock advanced
  by the step, with the messages queued for it followed by exactly the messages that the replicas of the cluster
  have sent to it, in order and each once; all other messages that were sent are left to be
  pulled, but for the log messages.
\<close>

theorem advance_delivers_messages:
  assumes "cluster_advance env logs c = Ok c'" "hm_get (cl_platforms c) i = Some p"
  shows "(\<exists>p'. hm_get (cl_platforms c') i = Some p' \<and>
      send_messages_in env (logs i) (p\<lparr>pf_instant := pf_instant p + cl_advance_step c,
        pf_messages_in := pf_messages_in p @ map snd (filter (\<lambda>x. fst x = i) (List.map_filter route (sent (cl_platforms c)))),
        pf_host := (pf_host p)\<lparr>fh_messages_out := []\<rparr>\<rparr>) = Ok p') \<and>
    cl_pull_messages c' = filter (\<lambda>m. \<nexists>s. m = OutLog s)
      (cl_pull_messages c @ filter (\<lambda>m. route m = None) (sent (cl_platforms c)))"
proof -
  let ?platforms = "map (\<lambda>e. (fst e, fst (take_messages_out (snd e)))) (cl_platforms c)"
  let ?routed = "List.map_filter route (sent (cl_platforms c))"
  obtain platforms' where step: "advance_platforms env logs (cl_advance_step c) (fold deliver ?routed ?platforms) = Ok platforms'"
    and c': "c' = print_log_messages (c\<lparr>cl_platforms := platforms',
      cl_pull_messages := cl_pull_messages c @ filter (\<lambda>m. route m = None) (sent (cl_platforms c))\<rparr>)"
    using assms(1) by (auto simp: cluster_advance_def collect_out_result result_simps)
  let ?p = "(fst (take_messages_out p))\<lparr>pf_messages_in := pf_messages_in p @ map snd (filter (\<lambda>x. fst x = i) ?routed)\<rparr>"
  have "hm_get ?platforms i = Some (fst (take_messages_out p))"
    using hm_get_map_snd [of "\<lambda>p. fst (take_messages_out p)" "cl_platforms c" i] assms(2) by simp
  then have "hm_get (fold deliver ?routed ?platforms) i = Some ?p"
    by (simp add: deliver_get) (simp add: take_messages_out_def)
  from advance_platforms_get [OF step this] obtain p' where p': "hm_get platforms' i = Some p'"
    "send_messages_in env (logs i) (advance_time (cl_advance_step c) ?p) = Ok p'"
    by blast
  have "advance_time (cl_advance_step c) ?p = p\<lparr>pf_instant := pf_instant p + cl_advance_step c,
      pf_messages_in := pf_messages_in p @ map snd (filter (\<lambda>x. fst x = i) ?routed),
      pf_host := (pf_host p)\<lparr>fh_messages_out := []\<rparr>\<rparr>"
    by (simp add: advance_time_def take_messages_out_def)
  moreover have "(\<lambda>m. \<not> (case m of OutLog _ \<Rightarrow> True | _ \<Rightarrow> False)) = (\<lambda>m. \<nexists>s. m = OutLog s)"
    by (rule ext) (simp split: out_message.split)
  ultimately show ?thesis
    using p' by (simp add: c' print_log_messages_def extract_pull_partition)
qed

section \<open>Runs of a cluster\<close>

fun from_peer :: "in_message \<Rightarrow> bool" where
  "from_peer (InDeliverSystemMessage _) = True"
| "from_peer (InDeliverSnapshotRequest _) = True"
| "from_peer (InDeliverSnapshotResponse _) = True"
| "from_peer (InSecureChannelHandshake _) = True"
| "from_peer _ = False"

lemma route_peer: "route x = None \<longleftrightarrow> \<not> peer_message x"
  by (cases x) simp_all

text \<open>
  A test starts and stops nodes, queues messages of its own for them, lets the cluster take steps
  and pulls messages.
\<close>

inductive cluster_run ::
  "(('n, 'd) raft_simple, 'a, 's, 'e) driver_env \<Rightarrow> (('n, 'd) raft_simple, 'a, 's, 'e) fake_cluster \<Rightarrow> bool" for env where
  new_cluster: "cluster_run env (cluster_new config)"
| start: "cluster_run env c \<Longrightarrow> start_node i leader actor c = Ok c' \<Longrightarrow> cluster_run env c'"
| stop: "cluster_run env c \<Longrightarrow> cluster_run env (stop_node i c)"
| input: "cluster_run env c \<Longrightarrow> \<not> from_peer m \<Longrightarrow> on_platform i (append_message_in m) c = Ok c' \<Longrightarrow> cluster_run env c'"
| step: "cluster_run env c \<Longrightarrow> cluster_advance env logs c = Ok c' \<Longrightarrow> cluster_run env c'"
| pull: "cluster_run env c \<Longrightarrow> extract_pull_messages f c = (c', ms) \<Longrightarrow> cluster_run env c'"

text \<open>A message of a handshake, or one encrypted with keys whose handshake verified the evidence of the other side.\<close>

definition sealed :: "('p, 'h, 'q, 'k) session_provider \<Rightarrow> out_message \<Rightarrow> bool" where
  "sealed P x \<longleftrightarrow> (\<exists>h. x = OutSecureChannelHandshake h) \<or>
     (\<exists>plain peer r e. out_peer plain = Ok peer \<and> verified_keys P r (de_session_keys e) \<and>
        encrypt_contents (provider_ops P) e plain = Ok x)"

definition platform_inv ::
  "('p, 'h, 'q, 'k) session_provider \<Rightarrow> (('n, 'd) raft_simple, 'a, ('p, 'h, 'q, 'k) dyn_session, default_encryptor) driver_env \<Rightarrow>
   (('n, 'd) raft_simple, 'a, ('p, 'h, 'q, 'k) dyn_session, default_encryptor) fake_platform \<Rightarrow> bool" where
  "platform_inv P env p \<longleftrightarrow>
     (\<exists>actor. driver_run env raft_simple_new actor (pf_driver p)) \<and>
     (\<forall>x \<in> set (fh_messages_out (pf_host p)). peer_message x \<longrightarrow> sealed P x) \<and>
     (\<forall>m \<in> set (pf_messages_in p). from_peer m \<longrightarrow> (\<exists>x r. route x = Some (r, m) \<and> sealed P x))"

definition cluster_inv ::
  "('p, 'h, 'q, 'k) session_provider \<Rightarrow> (('n, 'd) raft_simple, 'a, ('p, 'h, 'q, 'k) dyn_session, default_encryptor) driver_env \<Rightarrow>
   (('n, 'd) raft_simple, 'a, ('p, 'h, 'q, 'k) dyn_session, default_encryptor) fake_cluster \<Rightarrow> bool" where
  "cluster_inv P env c \<longleftrightarrow> list_all (\<lambda>e. platform_inv P env (snd e)) (cl_platforms c) \<and>
     (\<forall>x \<in> set (cl_pull_messages c). \<not> peer_message x)"

lemma receive_each_inv:
  assumes "en_sessions env = provider_ops P"
  shows "receive_each env instant logs n ms d host = Ok (d', host') \<Longrightarrow> driver_run env raft_simple_new actor d \<Longrightarrow>
    (\<forall>x \<in> set (fh_messages_out host). peer_message x \<longrightarrow> sealed P x) \<Longrightarrow>
    driver_run env raft_simple_new actor d' \<and> (\<forall>x \<in> set (fh_messages_out host'). peer_message x \<longrightarrow> sealed P x)"
proof (induction ms arbitrary: n d host)
  case (Cons m ms)
  obtain d1 r where call: "receive_message env instant (map_option Some m) (logs n) d = (d1, r)"
    by fastforce
  then obtain out where r: "r = Ok out"
    using Cons.prems(1) by (cases r) auto
  let ?host = "case out of Some messages \<Rightarrow> fake_send_messages messages host | None \<Rightarrow> host"
  have rest: "receive_each env instant logs (Suc n) ms d1 ?host = Ok (d', host')"
    using Cons.prems(1) call r by simp
  have run: "driver_run env raft_simple_new actor d1"
    using driver_run.receive [OF Cons.prems(2) call [unfolded r]] .
  have "\<forall>xs. out = Some xs \<longrightarrow> (\<forall>x \<in> set xs. peer_message x \<longrightarrow> sealed P x)"
    using provided.channels_receive [OF assms provided.channels_run [OF assms Cons.prems(2)] call [unfolded r]]
    unfolding proper_output_def genuine_encryptor_def sealed_def by blast
  then have "\<forall>x \<in> set (fh_messages_out ?host). peer_message x \<longrightarrow> sealed P x"
    using Cons.prems(3) by (cases out) (auto simp: fake_send_messages_def)
  then show ?case
    using Cons.IH [OF rest run] by blast
qed simp

lemma send_messages_in_inv:
  assumes "en_sessions env = provider_ops P" "platform_inv P env p" "send_messages_in env logs p = Ok p'"
  shows "platform_inv P env p'"
proof -
  obtain actor where run: "driver_run env raft_simple_new actor (pf_driver p)"
    using assms(2) by (auto simp: platform_inv_def)
  obtain d host where "receive_each env (pf_instant p) logs 0
      (if pf_messages_in p = [] then [None] else map Some (pf_messages_in p)) (pf_driver p) (pf_host p) = Ok (d, host)"
    and p': "p' = p\<lparr>pf_messages_in := [], pf_driver := d, pf_host := host\<rparr>"
    using assms(3) by (auto simp: send_messages_in_def result_simps)
  from receive_each_inv [OF assms(1) this(1) run] show ?thesis
    using assms(2) by (auto simp: p' platform_inv_def)
qed

lemma append_input_inv:
  "platform_inv P env p \<Longrightarrow> \<not> from_peer m \<or> (\<exists>x r. route x = Some (r, m) \<and> sealed P x) \<Longrightarrow> platform_inv P env (append_message_in m p)"
  by (auto simp: platform_inv_def append_message_in_def)

lemma deliver_inv:
  "list_all (\<lambda>e. platform_inv P env (snd e)) platforms \<Longrightarrow> \<forall>(r, m) \<in> set xs. \<exists>x r. route x = Some (r, m) \<and> sealed P x \<Longrightarrow>
    list_all (\<lambda>e. platform_inv P env (snd e)) (fold deliver xs platforms)"
proof (induction xs arbitrary: platforms)
  case (Cons x xs)
  have "list_all (\<lambda>e. platform_inv P env (snd e)) (deliver x platforms)"
  proof (cases "hm_get platforms (fst x)")
    case (Some p)
    then have "platform_inv P env p"
      using Cons.prems(1) hm_get_Some_in [OF Some] by (auto simp: list_all_iff)
    then have "platform_inv P env (append_message_in (snd x) p)"
      using Cons.prems(2) by (cases x, intro append_input_inv) fastforce+
    then show ?thesis
      using Some Cons.prems(1) by (simp add: deliver_def hm_insert_all)
  qed (use Cons.prems(1) in \<open>simp add: deliver_def\<close>)
  then show ?case
    using Cons.IH [of "deliver x platforms"] Cons.prems(2) by simp
qed simp

lemma advance_platforms_inv:
  assumes "en_sessions env = provider_ops P"
  shows "advance_platforms env logs step platforms = Ok platforms' \<Longrightarrow> list_all (\<lambda>e. platform_inv P env (snd e)) platforms \<Longrightarrow>
    list_all (\<lambda>e. platform_inv P env (snd e)) platforms'"
proof (induction platforms arbitrary: platforms')
  case (Cons e platforms)
  obtain i p where e: "e = (i, p)"
    by (cases e)
  obtain p' rest where one: "send_messages_in env (logs i) (advance_time step p) = Ok p'"
    and rest: "advance_platforms env logs step platforms = Ok rest" "platforms' = (i, p') # rest"
    using Cons.prems(1) by (auto simp: e result_simps)
  have "platform_inv P env (advance_time step p)"
    using Cons.prems(2) by (simp add: e platform_inv_def advance_time_def)
  then show ?case
    using send_messages_in_inv [OF assms _ one] Cons.IH [OF rest(1)] Cons.prems(2) rest(2) by simp
qed simp

lemma cluster_run_inv:
  assumes "en_sessions env = provider_ops P" "cluster_run env c"
  shows "cluster_inv P env c"
  using assms(2)
proof (induction rule: cluster_run.induct)
  case (new_cluster config)
  show ?case
    by (simp add: cluster_inv_def cluster_new_def)
next
  case (start c i leader actor c')
  have "platform_inv P env (send_start_node (cl_app_config c) leader (platform_new i (cl_app_config c) actor))"
    unfolding send_start_node_def
    by (rule append_input_inv)
      (auto simp: platform_inv_def platform_new_def fake_host_new_def intro: driver_run.start)
  then show ?case
    using start by (auto simp: start_node_def on_platform_def cluster_inv_def hm_insert_all hm_insert_twice)
next
  case (stop c i)
  then show ?case
    by (auto simp: cluster_inv_def stop_node_def list_all_iff hm_remove_def AList.delete_eq)
next
  case (input c m i c')
  obtain p where p: "hm_get (cl_platforms c) i = Some p" "c' = c\<lparr>cl_platforms := hm_insert i (append_message_in m p) (cl_platforms c)\<rparr>"
    using input.hyps(3) by (auto simp: on_platform_def result_simps)
  have "platform_inv P env p"
    using input.IH hm_get_Some_in [OF p(1)] by (auto simp: cluster_inv_def list_all_iff)
  then show ?case
    using input.IH input.hyps(2) append_input_inv [of P env p m] by (auto simp: p(2) cluster_inv_def hm_insert_all)
next
  case (step c logs c')
  let ?platforms = "map (\<lambda>e. (fst e, fst (take_messages_out (snd e)))) (cl_platforms c)"
  let ?routed = "List.map_filter route (sent (cl_platforms c))"
  obtain platforms' where advance: "advance_platforms env logs (cl_advance_step c) (fold deliver ?routed ?platforms) = Ok platforms'"
    and c': "c' = print_log_messages (c\<lparr>cl_platforms := platforms',
      cl_pull_messages := cl_pull_messages c @ filter (\<lambda>m. route m = None) (sent (cl_platforms c))\<rparr>)"
    using step.hyps(2) by (auto simp: cluster_advance_def collect_out_result result_simps)
  have platforms: "list_all (\<lambda>e. platform_inv P env (snd e)) ?platforms"
    using step.IH by (auto simp: cluster_inv_def list_all_iff take_messages_out_def platform_inv_def)
  have sealed: "sealed P x" if "x \<in> set (sent (cl_platforms c))" "peer_message x" for x
    using step.IH that by (auto simp: cluster_inv_def list_all_iff platform_inv_def)
  have "\<forall>(r, m) \<in> set ?routed. \<exists>x r. route x = Some (r, m) \<and> sealed P x"
  proof (clarsimp simp: List.map_filter_def)
    fix r m x i p
    assume "route x = Some (r, m)" "(i, p) \<in> set (cl_platforms c)" "x \<in> set (fh_messages_out (pf_host p))"
    then show "\<exists>x. (\<exists>r. route x = Some (r, m)) \<and> sealed P x"
      using sealed [of x] route_peer [of x] by force
  qed
  then have "list_all (\<lambda>e. platform_inv P env (snd e)) platforms'"
    using advance_platforms_inv [OF assms(1) advance] deliver_inv [OF platforms] by blast
  then show ?case
    using step.IH by (auto simp: c' cluster_inv_def print_log_messages_def extract_pull_partition route_peer)
next
  case (pull c f c' ms)
  then show ?case
    by (auto simp: cluster_inv_def extract_pull_partition)
qed

lemma advance_until_run:
  assumes "advance_until env logs condition n c = Some r"
  shows "cluster_run env c \<Longrightarrow> r = Ok (c', ms) \<Longrightarrow> cluster_run env c' \<and> ms \<noteq> [] \<and> list_all condition ms"
proof (induction rule: advance_until.raw_induct [OF _ assms, consumes 0, case_names step])
  case (step f env logs condition n c r)
  show ?case
  proof (cases "cluster_advance env (logs n) c")
    case (Ok c1)
    then have run: "cluster_run env c1"
      using step.prems(1) by (rule cluster_run.step [rotated])
    obtain c2 xs where pull: "extract_pull_messages condition c1 = (c2, xs)"
      by fastforce
    then have run2: "cluster_run env c2" and xs: "xs = filter condition (cl_pull_messages c1)"
      using cluster_run.pull [OF run] by (auto simp: extract_pull_partition)
    show ?thesis
    proof (cases "xs = []")
      case True
      then show ?thesis
        using step.IH [of env logs condition "Suc n" c2 r] step.hyps run2 step.prems Ok pull by simp
    next
      case False
      then show ?thesis
        using step.hyps step.prems Ok pull run2 xs by (auto simp: list_all_iff)
    qed
  qed (use step.hyps step.prems in auto)
qed

section \<open>The service\<close>

text \<open>The answer to a request has exactly what the driver sent in the call; an error of the driver panics.\<close>

lemma service_receive:
  assumes "service_receive_message env instant message logs d = (d', Ok messages)"
  shows "receive_message env instant message logs d = (d', Ok (Some messages)) \<or>
    receive_message env instant message logs d = (d', Ok None) \<and> messages = []"
proof -
  obtain d1 r where call: "receive_message env instant message logs d = (d1, r)"
    by fastforce
  then obtain out where "r = Ok out"
    using assms by (cases r) (auto simp: service_receive_message_def receive_with_host_def)
  then show ?thesis
    using assms call
    by (cases out) (auto simp: service_receive_message_def receive_with_host_def host_new_def host_send_messages_def host_take_messages_def)
qed

lemma service_no_error: "snd (service_receive_message env instant message logs d) \<noteq> Err e"
  by (simp add: service_receive_message_def split: prod.splits result.splits)

section \<open>Properties\<close>


text \<open>A cluster of one replica, before and after its first step.\<close>

definition demo_cluster :: "((nat \<times> storage_core \<times> raft_entry list, raft_ready) raft_simple, bytes list,
     (unit, unit option, unit, unit option) dyn_session, default_encryptor) fake_cluster" where
  "demo_cluster = (cluster_new [])\<lparr>cl_platforms := [(2, send_start_node [] True (platform_new 2 [] []))]\<rparr>"

lemma demo_cluster_run: "cluster_run (solo_env log_actor) demo_cluster"
proof -
  have "start_node 2 True [] (cluster_new []) = Ok demo_cluster"
    by (simp add: start_node_def on_platform_def demo_cluster_def cluster_new_def hm_insert_def hm_get_def)
  then show ?thesis
    by (rule cluster_run.start [OF cluster_run.new_cluster])
qed

lemma demo_cluster_step:
  "\<exists>c p. cluster_advance (solo_env log_actor) (\<lambda>_ _. []) demo_cluster = Ok c \<and> hm_get (cl_platforms c) 2 = Some p \<and>
     fh_messages_out (pf_host p) = [OutStartReplica 2] \<and> dv_driver_state (pf_driver p) = Started"
  by (simp add: cluster_advance_def demo_cluster_def cluster_new_def send_start_node_def platform_new_def append_message_in_def
      take_messages_out_def fake_host_new_def send_messages_in_def advance_time_def print_log_messages_def extract_pull_partition
      hm_get_def fake_send_messages_def replica_evals cong: try_st_weak lift_st_weak)

lemma platform_env_simps [simp]:
  "en_raft (platform_env N P env) = raft_simple_ops N" "en_sessions (platform_env N P env) = provider_ops P"
  by (simp_all add: platform_env_def)

lemma platform_solo [simp]: "platform_env solo_node (default_provider demo_oak) (solo_env A) = solo_env A"
  by (simp add: platform_env_def solo_env_def)


theorem advance_delivers_messages_witness:
  "\<exists>c' p'. cluster_advance (solo_env log_actor) (\<lambda>_ _. []) demo_cluster = Ok c' \<and> hm_get (cl_platforms c') 2 = Some p' \<and>
     send_messages_in (solo_env log_actor) (\<lambda>_. []) ((send_start_node [] True (platform_new 2 [] []))\<lparr>pf_instant := 100\<rparr>) = Ok p'"
proof -
  obtain c where step: "cluster_advance (solo_env log_actor) (\<lambda>_ _. []) demo_cluster = Ok c"
    using demo_cluster_step by blast
  let ?p = "send_start_node [] True (platform_new 2 [] [])"
  have start: "hm_get (cl_platforms demo_cluster) 2 = Some ?p" "sent (cl_platforms demo_cluster) = []" "cl_advance_step demo_cluster = 100"
    by (simp_all add: demo_cluster_def cluster_new_def hm_get_def send_start_node_def append_message_in_def platform_new_def fake_host_new_def)
  have eq: "?p\<lparr>pf_instant := pf_instant ?p + 100, pf_messages_in := pf_messages_in ?p @ map snd (filter (\<lambda>x. fst x = 2) (List.map_filter route [])),
      pf_host := (pf_host ?p)\<lparr>fh_messages_out := []\<rparr>\<rparr> = ?p\<lparr>pf_instant := 100\<rparr>"
    by (simp add: List.map_filter_simps send_start_node_def append_message_in_def platform_new_def fake_host_new_def)
  show ?thesis
    using advance_delivers_messages [OF step start(1), unfolded start(2,3) eq] step by blast
qed

end
