(* ===== verification/Applications.thy ===== *)
theory Applications
  imports LedgerActor Counter KeyValueStore Hosting
begin

text \<open>
  The applications as replicas: each actor behind the trait \<open>Actor\<close> (\<open>src/runtime/src/model.rs\<close>) that the
  driver calls, and the servers of \<open>src/apps/*/app/src/main.rs\<close> that host them.

  The locale \<open>replica_driver\<close> connects the contract of a replicated actor with the calls of a driver; it is
  interpreted for the counter, the ledger and the tablet store. The lemmas show that replicas of each application that
  apply the same committed entries agree, that a replica that restores a snapshot agrees with the replica that
  created it, and that the correlation ids of the tablet cache are used once.
\<close>

section \<open>The actors\<close>

text \<open>The driver shares its context with an actor that was initialized.\<close>

definition counter_actor_ops :: "counter_env \<Rightarrow> counter_actor actor_ops" where
  "counter_actor_ops E =
     \<lparr>ao_refresh = (\<lambda>context a. case ca_context a of None \<Rightarrow> a | Some _ \<Rightarrow> a\<lparr>ca_context := Some context\<rparr>),
      ao_on_init = counter_on_init E, ao_on_shutdown = (\<lambda>a. a),
      ao_on_save_snapshot = (\<lambda>a. (a, counter_on_save_snapshot E a)), ao_on_load_snapshot = counter_on_load_snapshot E,
      ao_on_process_command = (\<lambda>a command. (a, counter_on_process_command E a command)),
      ao_on_apply_event = counter_on_apply_event E\<rparr>"

text \<open>
  The ledger draws randomness: \<open>rand n\<close> is what its \<open>n\<close>-th call draws, the key ids that it tries and the seed
  of its encryptions. A call whose draws are all taken key ids does not return.
\<close>

definition with_draws :: "nat \<Rightarrow> 'a \<times> 'r \<Rightarrow> ('a \<times> nat) \<times> 'r" where
  "with_draws n p = ((fst p, n), snd p)"

definition ledger_actor_ops :: "ledger_actor_env \<Rightarrow> (nat \<Rightarrow> bytes list \<times> bytes) \<Rightarrow> (ledger_actor \<times> nat) actor_ops" where
  "ledger_actor_ops E rand =
     \<lparr>ao_refresh = (\<lambda>context (a, n). (case la_context a of None \<Rightarrow> a | Some _ \<Rightarrow> a\<lparr>la_context := Some context\<rparr>, n)),
      ao_on_init = (\<lambda>(a, n) context. with_draws n (ledger_on_init E a context)), ao_on_shutdown = (\<lambda>a. a),
      ao_on_save_snapshot = (\<lambda>(a, n). ((a, n), ledger_on_save_snapshot E a)),
      ao_on_load_snapshot = (\<lambda>(a, n) snapshot. with_draws n (ledger_on_load_snapshot E a snapshot)),
      ao_on_process_command = (\<lambda>(a, n) command.
        case ledger_on_process_command E (fst (rand n)) (snd (rand n)) a command of
          Some p \<Rightarrow> with_draws (Suc n) p
        | None \<Rightarrow> ((a, Suc n), Panic)),
      ao_on_apply_event = (\<lambda>(a, n) context event. with_draws (Suc n) (ledger_on_apply_event E (snd (rand n)) a context event))\<rparr>"

text \<open>The tablet store draws the ids of its first tablets; an initialization without enough new ids does not return.\<close>

definition store_actor_ops :: "store_env \<Rightarrow> u32 list \<Rightarrow> store_actor actor_ops" where
  "store_actor_ops E draws =
     \<lparr>ao_refresh = (\<lambda>context a. case sa_context a of None \<Rightarrow> a | Some _ \<Rightarrow> a\<lparr>sa_context := Some context\<rparr>),
      ao_on_init = (\<lambda>a context. case store_on_init E draws a context of Some p \<Rightarrow> p | None \<Rightarrow> (a, Panic)),
      ao_on_shutdown = (\<lambda>a. a), ao_on_save_snapshot = (\<lambda>a. (a, store_on_save_snapshot E a)),
      ao_on_load_snapshot = store_on_load_snapshot E,
      ao_on_process_command = (\<lambda>a command. (a, store_on_process_command E a command)),
      ao_on_apply_event = store_on_apply_event E\<rparr>"

definition cache_actor_ops :: "'p cache_env \<Rightarrow> 'p cache_actor actor_ops" where
  "cache_actor_ops E =
     \<lparr>ao_refresh = (\<lambda>context a. case cac_context a of None \<Rightarrow> a | Some _ \<Rightarrow> a\<lparr>cac_context := Some context\<rparr>),
      ao_on_init = cache_on_init E, ao_on_shutdown = (\<lambda>a. a),
      ao_on_save_snapshot = (\<lambda>a. (a, cache_on_save_snapshot a)), ao_on_load_snapshot = cache_on_load_snapshot,
      ao_on_process_command = cache_on_process_command E, ao_on_apply_event = cache_on_apply_event\<rparr>"

section \<open>The servers\<close>

text \<open>The services that the main programs start; the evidence of the ledger comes from the kernel.\<close>

definition counter_server :: "(('n, 'd) raft_simple, counter_actor, 's, 'e) driver" where
  "counter_server = service_new counter_new"

definition ledger_server ::
  "(evidence, unit) result \<Rightarrow> ((('n, 'd) raft_simple, ledger_actor \<times> nat, 's, 'e) driver, unit) result" where
  "ledger_server evidence = and_then evidence (\<lambda>evidence. Ok (service_new (ledger_actor_create evidence, 0)))"

definition store_server :: "(('n, 'd) raft_simple, store_actor, 's, 'e) driver" where
  "store_server = service_new store_new"

definition transaction_coordinator_correlation_counter :: nat where
  "transaction_coordinator_correlation_counter = 2 ^ 56"

definition data_cache_correlation_counter :: nat where
  "data_cache_correlation_counter = 2 * 2 ^ 56"

definition metadata_cache_correlation_counter :: nat where
  "metadata_cache_correlation_counter = 3 * 2 ^ 56"

definition cache_manager :: "unit kv_manager" where
  "cache_manager = manager_create (coordinator_create transaction_coordinator_correlation_counter)
     (metadata_cache_create metadata_cache_correlation_counter) (data_cache_create data_cache_correlation_counter ())"

definition cache_server :: "(('n, 'd) raft_simple, unit cache_actor, 's, 'e) driver" where
  "cache_server = service_new (cache_actor_new cache_manager kv_create)"

section \<open>Replicas of an application\<close>

lemma entry_events_same:
  "map snd (entry_events env i es) = map snd (entry_events env j es)"
proof -
  have "map_option snd (entry_event env i e) = map_option snd (entry_event env j e)" for e
    by (simp add: entry_event_def option.map_comp comp_def map_option_bind split: option.split)
  then have "map snd (List.map_filter (entry_event env i) xs) = map snd (List.map_filter (entry_event env j) xs)" for xs
  proof (induction xs)
    case (Cons x xs)
    from Cons.prems [of x] Cons.IH [OF Cons.prems] show ?case
      by (cases "entry_event env i x"; cases "entry_event env j x") (auto simp: List.map_filter_def)
  qed (simp add: List.map_filter_def)
  then show ?thesis
    by (simp add: entry_events_def)
qed

lemma committed_entries_actor:
  assumes "apply_raft_committed_entries env es d = (d', Ok ())"
  shows "dv_actor d' = apply_events (en_actor env) (entry_events env (dv_id d) es) (dv_actor d)"
    and "es \<noteq> [] \<Longrightarrow> rg_applied_index (dv_raft_progress d') = re_index (last (sort_key re_index es))"
  using for_each_entries [OF assms [unfolded apply_raft_committed_entries_def]]
  by (simp_all add: entry_events_def) (metis length_0_conv length_sort)

lemma restored_actor:
  assumes "restore_raft_snapshot env snapshot d = (d', Ok ())" "\<not> snapshot_is_empty snapshot"
  shows "ao_on_load_snapshot (en_actor env) (dv_actor d) (rs_data snapshot) = (dv_actor d', Ok ())"
    and "\<exists>m. rs_metadata snapshot = Some m \<and> rg_applied_index (dv_raft_progress d') = sm_index m"
proof -
  let ?load = "\<lambda>a. ao_on_load_snapshot (en_actor env) a (rs_data snapshot)"
  obtain c d1 d2 m where steps: "store_call env (\<lambda>s. apply_snapshot s snapshot) PalRaft (collect_config_state c d) = (d1, Ok ())"
    "actor_call ?load d1 = (d2, Ok ())" "get_metadata snapshot = Ok m"
    "d' = d2\<lparr>dv_raft_progress := (dv_raft_progress d2)\<lparr>rg_applied_index := sm_index m\<rparr>\<rparr>"
    using assms by (auto simp: restore_raft_snapshot_def result_simps Let_def)
  have "dv_actor d1 = dv_actor d"
    using steps(1) by (auto simp: store_call_def collect_config_state_def result_simps Let_def case_prod_eq)
  then show "?load (dv_actor d) = (dv_actor d', Ok ())"
    using steps(2,4) by (auto simp: actor_call_def result_simps Let_def case_prod_eq)
  show "\<exists>m. rs_metadata snapshot = Some m \<and> rg_applied_index (dv_raft_progress d') = sm_index m"
    using steps(3,4) by (cases "rs_metadata snapshot") (auto simp: get_metadata_def)
qed

text \<open>
  The actor of a driver has a view, the state of the replicated actor; an event is applied to the view in a
  context of the replica.
\<close>

locale replica_driver = replicated_actor inv agree admits step save load lags
  for inv :: "'s \<Rightarrow> bool" and agree :: "'s \<Rightarrow> 's \<Rightarrow> bool" and admits :: "'s \<Rightarrow> actor_event \<Rightarrow> bool"
    and step :: "'c \<Rightarrow> 's \<Rightarrow> actor_event \<Rightarrow> 's" and save :: "'s \<Rightarrow> bytes option" and load :: "'s \<Rightarrow> bytes \<Rightarrow> 's option"
    and lags :: "'s \<Rightarrow> 's \<Rightarrow> bool" +
  fixes ops :: "'a actor_ops" and view :: "'a \<Rightarrow> 's" and local :: "'a \<Rightarrow> actor_event_context \<Rightarrow> 'c"
  assumes view_apply: "view (fst (ao_on_apply_event ops a c e)) = step (local a c) (view a) e"
    and view_save: "ao_on_save_snapshot ops a = (a', Ok b) \<Longrightarrow> save (view a) = Some b"
    and view_load: "ao_on_load_snapshot ops a b = (a', Ok ()) \<Longrightarrow> load (view a) b = Some (view a')"
begin

lemma events_inv: "inv (view a) \<Longrightarrow> inv (view (apply_events ops evs a))"
  by (induction evs arbitrary: a) (auto simp: apply_events_def view_apply inv_step)

lemma events_lag: "inv (view a) \<Longrightarrow> lags t (view a) \<Longrightarrow> lags t (view (apply_events ops evs a))"
  by (induction evs arbitrary: a) (auto simp: apply_events_def view_apply inv_step lags_step)

lemma events_agree:
  assumes "inv (view a)" "inv (view b)" "agree (view a) (view b)" "map snd es = map snd fs"
    and "\<And>pre c e post. es = pre @ (c, e) # post \<Longrightarrow> admits (view (apply_events ops pre a)) e"
    and "\<And>pre c e post. fs = pre @ (c, e) # post \<Longrightarrow> admits (view (apply_events ops pre b)) e"
  shows "agree (view (apply_events ops es a)) (view (apply_events ops fs b))"
  using assms
proof (induction es arbitrary: a b fs)
  case (Cons x es)
  obtain c e where x: "x = (c, e)" by fastforce
  obtain d fs' where fs: "fs = (d, e) # fs'" and eq: "map snd es = map snd fs'"
    using Cons.prems(4) by (cases fs) (auto simp: x)
  let ?a = "fst (ao_on_apply_event ops a c e)" and ?b = "fst (ao_on_apply_event ops b d e)"
  have run: "apply_events ops ((c, e) # evs) s = apply_events ops evs (fst (ao_on_apply_event ops s c e))" for evs c s
    by (simp add: apply_events_def)
  have "admits (view a) e" "admits (view b) e"
    using Cons.prems(5) [of "[]"] Cons.prems(6) [of "[]"] by (auto simp: x fs apply_events_def)
  then have "agree (view ?a) (view ?b)"
    using Cons.prems(1-3) by (simp add: view_apply agree_step)
  moreover have "admits (view (apply_events ops pre ?a)) e'" if "es = pre @ (c', e') # post" for pre c' e' post
    using Cons.prems(5) [of "(c, e) # pre"] that by (simp add: x run)
  moreover have "admits (view (apply_events ops pre ?b)) e'" if "fs' = pre @ (c', e') # post" for pre c' e' post
    using Cons.prems(6) [of "(d, e) # pre"] that by (simp add: fs run)
  ultimately have "agree (view (apply_events ops es ?a)) (view (apply_events ops fs' ?b))"
    using Cons.IH [of ?a ?b fs'] Cons.prems(1,2) eq by (simp add: view_apply inv_step)
  then show ?case
    by (simp add: x fs run)
qed (simp add: apply_events_def)

text \<open>Two drivers that apply the same committed entries.\<close>

lemma cluster_agrees:
  assumes env: "en_actor env = ops"
    and inv: "inv (view (dv_actor d))" "inv (view (dv_actor e))" and agree: "agree (view (dv_actor d)) (view (dv_actor e))"
    and d': "apply_raft_committed_entries env es d = (d', Ok ())"
    and e': "apply_raft_committed_entries env es e = (e', Ok ())"
    and "\<And>pre c ev post. entry_events env (dv_id d) es = pre @ (c, ev) # post \<Longrightarrow>
      admits (view (apply_events ops pre (dv_actor d))) ev"
    and "\<And>pre c ev post. entry_events env (dv_id e) es = pre @ (c, ev) # post \<Longrightarrow>
      admits (view (apply_events ops pre (dv_actor e))) ev"
  shows "agree (view (dv_actor d')) (view (dv_actor e'))"
    and "es \<noteq> [] \<Longrightarrow> rg_applied_index (dv_raft_progress d') = rg_applied_index (dv_raft_progress e')"
proof -
  show "agree (view (dv_actor d')) (view (dv_actor e'))"
    unfolding committed_entries_actor(1) [OF d'] committed_entries_actor(1) [OF e'] env
    by (rule events_agree [OF inv agree entry_events_same]) (fact assms(7,8))+
qed (simp add: committed_entries_actor [OF d'] committed_entries_actor [OF e'])

text \<open>A driver that restores the snapshot of a driver that applied more entries.\<close>

lemma cluster_catch_up:
  assumes env: "en_actor env = ops"
    and inv: "inv (view (dv_actor d))" "inv (view (dv_actor e))" and lags: "lags (view (dv_actor d)) (view (dv_actor e))"
    and e': "apply_raft_committed_entries env es e = (e', Ok ())"
    and save: "ao_on_save_snapshot ops (dv_actor e') = (a, Ok (rs_data snapshot))"
    and d': "restore_raft_snapshot env snapshot d = (d', Ok ())" "\<not> snapshot_is_empty snapshot"
  shows "agree (view (dv_actor e')) (view (dv_actor d')) \<and> inv (view (dv_actor d'))"
proof -
  have "inv (view (dv_actor e'))" "lags (view (dv_actor d)) (view (dv_actor e'))"
    by (simp_all add: committed_entries_actor [OF e'] env events_inv events_lag inv lags)
  from load_save [OF this(1) inv(1) this(2) view_save [OF save]] show ?thesis
    using view_load [OF restored_actor(1) [OF d', unfolded env]] by auto
qed

end

interpretation counter_cluster: replica_driver
  "counter_inv E" counter_agree "\<lambda>_ _. True" "counter_step E" "counter_save E" "counter_load E" counter_lags
  "counter_actor_ops E" "\<lambda>a. a" "\<lambda>_ c. c" for E
  by unfold_locales (simp_all add: counter_actor_ops_def counter_step_def counter_save_def counter_load_def)

interpretation store_cluster: replica_driver
  "store_inv E" store_agree "\<lambda>_ _. True" "store_step E" "store_save E" "store_load E" store_lags
  "store_actor_ops E draws" "\<lambda>a. a" "\<lambda>_ c. c" for E draws
  by unfold_locales (simp_all add: store_actor_ops_def store_step_def store_save_def store_load_def)

interpretation ledger_cluster: replica_driver
  "ledger_actor_inv E" ledger_agree "no_collision E" "ledger_step E" "ledger_save E" "ledger_load E" "\<lambda>_ _. True"
  "ledger_actor_ops E rand" fst "\<lambda>a c. (c, snd (rand (snd a)))" for E rand
  by unfold_locales (auto simp: ledger_actor_ops_def with_draws_def ledger_step_def ledger_save_def ledger_load_def
    split: prod.splits)

section \<open>Witness replicas\<close>

text \<open>A replica of an actor and a committed entry that replica 1 proposed.\<close>

definition demo_replica :: "nat \<Rightarrow> 'a \<Rightarrow> ((nat \<times> storage_core \<times> raft_entry list, raft_ready) raft_simple, 'a,
     (unit, unit option, unit, unit option) dyn_session, default_encryptor) driver" where
  "demo_replica i a = (driver_new raft_simple_new (processor_new sender_new receiver_new) a cm_new)
     \<lparr>dv_id := i, dv_raft := \<lparr>rp_raft_node = Some (i, storage_new 10, []), rp_raft_ready = []\<rparr>\<rparr>"

definition demo_entry :: "bytes \<Rightarrow> raft_entry" where
  "demo_entry contents = create_raft_entry 2 1 EntryNormal (enc_entry (create_entry (create_entry_id 1 5) contents))"

abbreviation demo_event_context :: "nat \<Rightarrow> actor_event_context" where
  "demo_event_context i \<equiv> \<lparr> aec_index = 2, aec_owned = (1 = i) \<rparr>"

abbreviation demo_event :: "bytes \<Rightarrow> actor_event" where
  "demo_event contents \<equiv> \<lparr> ae_correlation_id = 5, ae_contents = contents \<rparr>"

lemma demo_replica_simps [simp]: "dv_actor (demo_replica i a) = a" "dv_id (demo_replica i a) = i"
  by (simp_all add: demo_replica_def driver_new_def)

lemma demo_entry_events: "entry_events (solo_env A) i [demo_entry b] = [(demo_event_context i, demo_event b)]"
  by (simp add: demo_entry_def entry_events_def entry_event_def replica_evals create_raft_entry_def List.map_filter_simps)

lemma demo_entry_applied:
  assumes "ao_on_apply_event A a (demo_event_context i) (demo_event b) = (a', Ok outcome)"
  shows "\<exists>d'. apply_raft_committed_entries (solo_env A) [demo_entry b] (demo_replica i a) = (d', Ok ()) \<and> dv_actor d' = a'"
  using assms
  by (simp add: demo_entry_def demo_replica_def replica_evals create_raft_entry_def cong: try_st_weak lift_st_weak)

section \<open>Properties\<close>

text \<open>
  C9. Two replicas of the counter that agree still agree after each applied the same committed entries in
  whatever order they were handed over: their counters are equal name by name, and both report the same applied index.
\<close>

theorem counter_cluster_agrees:
  assumes "en_actor env = counter_actor_ops E"
    and "counter_inv E (dv_actor d)" "counter_inv E (dv_actor e)" "counter_agree (dv_actor d) (dv_actor e)"
    and "apply_raft_committed_entries env es d = (d', Ok ())" "apply_raft_committed_entries env es e = (e', Ok ())"
  shows "counter_agree (dv_actor d') (dv_actor e') \<and> counters (dv_actor d') = counters (dv_actor e') \<and>
    (es \<noteq> [] \<longrightarrow> rg_applied_index (dv_raft_progress d') = rg_applied_index (dv_raft_progress e'))"
  using counter_cluster.cluster_agrees [OF assms] counters_agree by simp

text \<open>
  C7. Replicas of the ledger agree: two replicas whose ledgers agree on the keys that are not expired at the later of
  their clocks still agree after each applied the same committed entries, whoever proposed them and whatever
  randomness each replica draws, provided that no applied creation of a key reuses a key id.
\<close>

theorem ledger_cluster_agrees:
  assumes "en_actor env = ledger_actor_ops E rand"
    and "ledger_actor_inv E (fst (dv_actor d))" "ledger_actor_inv E (fst (dv_actor e))"
    and "ledger_agree (fst (dv_actor d)) (fst (dv_actor e))"
    and "apply_raft_committed_entries env es d = (d', Ok ())" "apply_raft_committed_entries env es e = (e', Ok ())"
    and "\<And>pre c ev post. entry_events env (dv_id d) es = pre @ (c, ev) # post \<Longrightarrow>
      no_collision E (fst (apply_events (ledger_actor_ops E rand) pre (dv_actor d))) ev"
    and "\<And>pre c ev post. entry_events env (dv_id e) es = pre @ (c, ev) # post \<Longrightarrow>
      no_collision E (fst (apply_events (ledger_actor_ops E rand) pre (dv_actor e))) ev"
  shows "ledger_agree (fst (dv_actor d')) (fst (dv_actor e')) \<and>
    (es \<noteq> [] \<longrightarrow> rg_applied_index (dv_raft_progress d') = rg_applied_index (dv_raft_progress e'))"
proof (intro conjI impI)
  show "ledger_agree (fst (dv_actor d')) (fst (dv_actor e'))"
    by (rule ledger_cluster.cluster_agrees(1) [OF assms(1-6)]) (fact assms(7,8))+
qed (simp add: committed_entries_actor [OF assms(5)] committed_entries_actor [OF assms(6)])

text \<open>
  C34. Replicas of the tablet store agree: two replicas with the same tables have the same tables, and report the
  same applied index, after each applied the same committed entries, also when an entry is undecodable or its
  transaction fails.
\<close>

theorem store_cluster_agrees:
  assumes "en_actor env = store_actor_ops E draws"
    and "store_inv E (dv_actor d)" "store_inv E (dv_actor e)" "store_agree (dv_actor d) (dv_actor e)"
    and "apply_raft_committed_entries env es d = (d', Ok ())" "apply_raft_committed_entries env es e = (e', Ok ())"
  shows "hm_get (sa_tables (dv_actor d')) = hm_get (sa_tables (dv_actor e')) \<and>
    (es \<noteq> [] \<longrightarrow> rg_applied_index (dv_raft_progress d') = rg_applied_index (dv_raft_progress e'))"
  using store_cluster.cluster_agrees [OF assms] by (simp add: store_agree_def)

text \<open>
  C13. Catching up: a replica of the ledger that restores the snapshot that another replica saves after applying
  more entries agrees with that replica, and is at the index of the snapshot.
\<close>

theorem ledger_cluster_catch_up:
  assumes "en_actor env = ledger_actor_ops E rand"
    and "ledger_actor_inv E (fst (dv_actor d))" "ledger_actor_inv E (fst (dv_actor e))"
    and "apply_raft_committed_entries env es e = (e', Ok ())"
    and "ledger_on_save_snapshot E (fst (dv_actor e')) = Ok (rs_data snapshot)"
    and "restore_raft_snapshot env snapshot d = (d', Ok ())" "\<not> snapshot_is_empty snapshot"
  shows "ledger_agree (fst (dv_actor e')) (fst (dv_actor d')) \<and> ledger_actor_inv E (fst (dv_actor d')) \<and>
    (\<exists>m. rs_metadata snapshot = Some m \<and> rg_applied_index (dv_raft_progress d') = sm_index m)"
proof -
  have "ao_on_save_snapshot (ledger_actor_ops E rand) (dv_actor e') = (dv_actor e', Ok (rs_data snapshot))"
    using assms(5) by (simp add: ledger_actor_ops_def case_prod_beta)
  from ledger_cluster.cluster_catch_up [OF assms(1-3) TrueI assms(4) this assms(6,7)] restored_actor(2) [OF assms(6,7)]
  show ?thesis
    by blast
qed

text \<open>
  Starting replicas: each replica of the tablet store draws tablets of its own, and has the tables of another one
  with the same table configurations once it restores the snapshot of that replica.
\<close>

theorem store_cluster_catch_up:
  assumes "en_actor env = store_actor_ops E draws"
    and "store_inv E (dv_actor d)" "store_inv E (dv_actor e)" "table_configs (dv_actor d) = table_configs (dv_actor e)"
    and "apply_raft_committed_entries env es e = (e', Ok ())"
    and "store_on_save_snapshot E (dv_actor e') = Ok (rs_data snapshot)"
    and "restore_raft_snapshot env snapshot d = (d', Ok ())" "\<not> snapshot_is_empty snapshot"
  shows "hm_get (sa_tables (dv_actor d')) = hm_get (sa_tables (dv_actor e')) \<and> store_inv E (dv_actor d')"
proof -
  have "ao_on_save_snapshot (store_actor_ops E draws) (dv_actor e') = (dv_actor e', Ok (rs_data snapshot))"
    using assms(6) by (simp add: store_actor_ops_def)
  from store_cluster.cluster_catch_up [OF assms(1-3) _ assms(5) this assms(7,8)] show ?thesis
    using assms(4) by (simp add: store_lags_def store_agree_def)
qed

lemma demo_restored:
  assumes "ao_on_load_snapshot A a b = (a', Ok ())"
  shows "\<exists>d'. restore_raft_snapshot (solo_env A) (create_raft_snapshot (create_raft_snapshot_metadata 2 1 (create_raft_config_state [1])) b)
    (demo_replica i a) = (d', Ok ()) \<and> dv_actor d' = a' \<and> rg_applied_index (dv_raft_progress d') = 2"
  using assms
  by (simp add: demo_replica_def restore_raft_snapshot_def snapshot_is_empty_def replica_evals create_raft_snapshot_def
    create_raft_snapshot_metadata_def apply_snapshot_def set_snapshot_def first_entry_index_def snapshot_index_def storage_new_def
    cong: try_st_weak lift_st_weak)

theorem counter_cluster_agrees_witness:
  "\<exists>d' e'. apply_raft_committed_entries (solo_env (counter_actor_ops demo_counter_env)) [demo_entry [1]]
      (demo_replica 1 demo_counter) = (d', Ok ()) \<and>
    apply_raft_committed_entries (solo_env (counter_actor_ops demo_counter_env)) [demo_entry [1]]
      (demo_replica 2 demo_counter) = (e', Ok ()) \<and>
    counters (dv_actor d') = counters (dv_actor e') \<and> cv_value (counters (dv_actor d') ''a'') = 5"
proof -
  let ?A = "counter_actor_ops demo_counter_env"
  have step: "\<exists>a' outcome. ao_on_apply_event ?A demo_counter (demo_event_context i) (demo_event [1]) = (a', Ok outcome) \<and>
      cv_value (counters a' ''a'') = 5" for i
    by (simp add: counter_actor_ops_def counter_on_apply_event_def demo_counter_def demo_counter_env_def demo_counter_request_def
      apply_compare_and_swap_def hm_get_def hm_insert_def counters_def)
  obtain d' where d': "apply_raft_committed_entries (solo_env ?A) [demo_entry [1]] (demo_replica 1 demo_counter) = (d', Ok ())"
    "cv_value (counters (dv_actor d') ''a'') = 5"
    using step [of 1] demo_entry_applied [of ?A demo_counter 1 "[1]"] by auto
  obtain e' where e': "apply_raft_committed_entries (solo_env ?A) [demo_entry [1]] (demo_replica 2 demo_counter) = (e', Ok ())"
    using step [of 2] demo_entry_applied [of ?A demo_counter 2 "[1]"] by auto
  have "counters (dv_actor d') = counters (dv_actor e')"
    using counter_cluster_agrees [OF _ _ _ _ d'(1) e', of demo_counter_env] demo_counter_inv
    by (simp add: solo_env_def counter_agree_def)
  then show ?thesis
    using d' e' by blast
qed

abbreviation demo_ledger_ops :: "(ledger_actor \<times> nat) actor_ops" where
  "demo_ledger_ops \<equiv> ledger_actor_ops demo_actor_env (\<lambda>n. ([], []))"

lemma demo_ledger_step:
  "\<exists>outcome. ao_on_apply_event demo_ledger_ops (demo_actor leader (ledger_create [6]), n) c (demo_event [1]) =
    ((demo_actor leader demo_ledger, Suc n), Ok outcome)"
  by (simp add: ledger_actor_ops_def with_draws_def ledger_on_apply_event_def handle_event_def on_ledger_def demo_actor_def
    demo_actor_env_def demo_create)

lemma demo_ledger_applied:
  "\<exists>d'. apply_raft_committed_entries (solo_env demo_ledger_ops) [demo_entry [1]]
     (demo_replica i (demo_actor leader (ledger_create [6]), 0)) = (d', Ok ()) \<and> dv_actor d' = (demo_actor leader demo_ledger, 1)"
  using demo_ledger_step [of leader 0 "demo_event_context i"] demo_entry_applied by (metis One_nat_def)

theorem ledger_cluster_agrees_witness:
  "\<exists>d' e'. apply_raft_committed_entries (solo_env demo_ledger_ops) [demo_entry [1]]
      (demo_replica 1 (demo_actor True (ledger_create [6]), 0)) = (d', Ok ()) \<and>
    apply_raft_committed_entries (solo_env demo_ledger_ops) [demo_entry [1]]
      (demo_replica 2 (demo_actor False (ledger_create [6]), 0)) = (e', Ok ()) \<and>
    ledger_agree (fst (dv_actor d')) (fst (dv_actor e')) \<and> fst (dv_actor d') = demo_actor True demo_ledger"
proof -
  obtain d' e' where run: "apply_raft_committed_entries (solo_env demo_ledger_ops) [demo_entry [1]]
      (demo_replica 1 (demo_actor True (ledger_create [6]), 0)) = (d', Ok ())"
    "apply_raft_committed_entries (solo_env demo_ledger_ops) [demo_entry [1]]
      (demo_replica 2 (demo_actor False (ledger_create [6]), 0)) = (e', Ok ())"
    "dv_actor d' = (demo_actor True demo_ledger, 1)"
    using demo_ledger_applied by metis
  have "no_collision demo_actor_env (demo_actor leader (ledger_create [6])) ev" for leader ev
    by (simp add: no_collision_def demo_actor_def advance_def ledger_create_def bt_get_def)
  then have no: "no_collision demo_actor_env (fst (apply_events demo_ledger_ops pre (demo_actor leader (ledger_create [6]), 0))) ev"
    if "entry_events (solo_env demo_ledger_ops) i [demo_entry [1]] = pre @ (c, ev) # post" for leader i pre c ev post
    using that by (auto simp: demo_entry_events Cons_eq_append_conv apply_events_def)
  have "ledger_agree (demo_actor True (ledger_create [6])) (demo_actor False (ledger_create [6]))"
    by (simp add: ledger_agree_def demo_actor_def ledgers_agree_refl)
  then have "ledger_agree (fst (dv_actor d')) (fst (dv_actor e'))"
    using ledger_cluster_agrees [OF _ _ _ _ run(1,2), of demo_actor_env "\<lambda>n. ([], [])"] demo_actor_inv [OF ledger_wf_create] no
    by (simp add: solo_evals)
  then show ?thesis
    using run by auto
qed

theorem store_cluster_agrees_witness:
  "\<exists>d' e'. apply_raft_committed_entries (solo_env (store_actor_ops demo_store_env [])) [demo_entry [1]]
      (demo_replica 1 demo_store) = (d', Ok ()) \<and>
    apply_raft_committed_entries (solo_env (store_actor_ops demo_store_env [])) [demo_entry [1]]
      (demo_replica 2 demo_store) = (e', Ok ()) \<and>
    hm_get (sa_tables (dv_actor d')) = hm_get (sa_tables (dv_actor e')) \<and>
    tablet_at (dv_actor d') ''t'' 20 = Some ((default_tablet 20)\<lparr>tablet_version := 1\<rparr>)"
proof -
  let ?A = "store_actor_ops demo_store_env []"
  obtain rs where "on_apply_tablets_request demo_store demo_ops =
      (fold apply_op demo_ops demo_store, Ok \<lparr> tr_status = RequestSucceeded, tr_results = rs \<rparr>)"
    using transaction_outcome [of demo_ops demo_store] demo_ops_ok by (auto simp: demo_ops_def op_supported_def)
  then have step: "\<exists>outcome. ao_on_apply_event ?A demo_store (demo_event_context i) (demo_event [1]) = (fold apply_op demo_ops demo_store, Ok outcome)" for i
    by (simp add: store_actor_ops_def store_on_apply_event_def demo_store_env_def)
  obtain d' where d': "apply_raft_committed_entries (solo_env ?A) [demo_entry [1]] (demo_replica 1 demo_store) = (d', Ok ())"
    "dv_actor d' = fold apply_op demo_ops demo_store"
    using step [of 1] demo_entry_applied [of ?A demo_store 1 "[1]"] by auto
  obtain e' where e': "apply_raft_committed_entries (solo_env ?A) [demo_entry [1]] (demo_replica 2 demo_store) = (e', Ok ())"
    using step [of 2] demo_entry_applied [of ?A demo_store 2 "[1]"] by auto
  have "tablet_at (fold apply_op demo_ops demo_store) ''t'' 20 = Some ((default_tablet 20)\<lparr>tablet_version := 1\<rparr>)"
    using demo_ops_ok by (subst tablet_at_apply_ops)
      (auto simp: last_update_def demo_ops_def op_update_def default_tablet_def demo_store_def hm_get_def)
  moreover have "hm_get (sa_tables (dv_actor d')) = hm_get (sa_tables (dv_actor e'))"
    using store_cluster_agrees [OF _ _ _ _ d'(1) e', of demo_store_env "[]"] demo_store_inv
    by (simp add: solo_evals store_agree_def)
  ultimately show ?thesis
    using d' e' by auto
qed

theorem ledger_cluster_catch_up_witness:
  "\<exists>snapshot d' e'. apply_raft_committed_entries (solo_env demo_ledger_ops) [demo_entry [1]]
      (demo_replica 1 (demo_actor True (ledger_create [6]), 0)) = (e', Ok ()) \<and>
    restore_raft_snapshot (solo_env demo_ledger_ops) snapshot (demo_replica 2 (demo_actor False (ledger_create [1]), 0)) = (d', Ok ()) \<and>
    ledger_agree (fst (dv_actor e')) (fst (dv_actor d')) \<and> fst (dv_actor e') = demo_actor True demo_ledger"
proof -
  obtain e' where e': "apply_raft_committed_entries (solo_env demo_ledger_ops) [demo_entry [1]]
      (demo_replica 1 (demo_actor True (ledger_create [6]), 0)) = (e', Ok ())" "dv_actor e' = (demo_actor True demo_ledger, 1)"
    using demo_ledger_applied by metis
  obtain s where s: "save_ledger_snapshot demo_ledger = Ok s"
    using save_ledger_snapshot_Ok [OF demo_ledger_wf] by (auto simp: demo_ledger_def)
  let ?snapshot = "create_raft_snapshot (create_raft_snapshot_metadata 2 1 (create_raft_config_state [1])) (enc_ledger_snapshot s)"
  have save: "ledger_on_save_snapshot demo_actor_env (fst (dv_actor e')) = Ok (rs_data ?snapshot)"
    by (simp add: e' ledger_on_save_snapshot_def create_raft_snapshot_def)
      (simp add: demo_actor_def demo_actor_env_def s)
  obtain u where "ledger_load demo_actor_env (demo_actor False (ledger_create [1])) (enc_ledger_snapshot s) = Some u"
    using ledger_load_save [OF demo_actor_inv [OF demo_ledger_wf] demo_actor_inv [OF ledger_wf_create], of True "enc_ledger_snapshot s" False "[1]"]
      save by (auto simp: e' ledger_save_def create_raft_snapshot_def)
  then have "ao_on_load_snapshot demo_ledger_ops (demo_actor False (ledger_create [1]), 0) (enc_ledger_snapshot s) = ((u, 0), Ok ())"
    by (simp add: ledger_actor_ops_def with_draws_def ledger_load_def split: prod.splits result.splits)
  from demo_restored [OF this, of 2] obtain d' where d': "restore_raft_snapshot (solo_env demo_ledger_ops) ?snapshot
      (demo_replica 2 (demo_actor False (ledger_create [1]), 0)) = (d', Ok ())"
    by blast
  have "\<not> snapshot_is_empty ?snapshot"
    by (simp add: snapshot_is_empty_def create_raft_snapshot_def create_raft_snapshot_metadata_def)
  then have "ledger_agree (fst (dv_actor e')) (fst (dv_actor d'))"
    using ledger_cluster_catch_up [OF _ _ _ e'(1) save d', of "\<lambda>n. ([], [])"] demo_actor_inv [OF ledger_wf_create]
    by (simp add: solo_evals)
  then show ?thesis
    using e' d' by auto
qed

section \<open>The requests of the tablet cache\<close>

lemma cache_manager_ids: "ids_wf metadata_cache_correlation_counter cache_manager"
  by (simp add: ids_wf_def fresh_ids_def cache_manager_def manager_create_def coordinator_create_def metadata_cache_create_def)

text \<open>
  C25. The requests of the tablet cache to the tablet store do not collide: with the first correlation ids that the server
  gives to the transaction coordinator and to the metadata cache, whatever the clients, the store and the
  blob storage do, taking the messages of the transaction manager never fails the check that a request has
  a new id, as long as the ids of the coordinator stay below those of the metadata cache.
\<close>

theorem cache_requests_distinct:
  assumes "manager_init config cache_manager = Ok manager" "(\<lambda>x y. \<exists>i. manager_step env i x y)\<^sup>*\<^sup>* (manager, c) (self, c')"
    and "co_correlation_counter (ma_coordinator self) \<le> metadata_cache_correlation_counter"
  shows "\<exists>self' ms. manager_take_out_messages self = Ok (self', ms)"
proof -
  have "ids_wf metadata_cache_correlation_counter manager"
    using assms(1) cache_manager_ids by (auto simp: manager_init_def metadata_init_def result_simps ids_wf_def)
  with assms(2) have "ids_wf metadata_cache_correlation_counter self"
    by (induction rule: rtranclp_induct2) (auto dest: manager_step_ids)
  then show ?thesis
    using take_ids [OF _ assms(3)] by blast
qed

theorem cache_requests_distinct_witness:
  "\<exists>self self' ms. (\<lambda>x y. \<exists>i. manager_step (bytes_env (\<lambda>b. b) (\<lambda>b. [])) i x y)\<^sup>*\<^sup>* (cache_manager, kv_create) (self, kv_create) \<and>
     manager_take_out_messages self = Ok (self', ms) \<and>
     hm_get (co_transactions (ma_coordinator self)) 2 = Some (TxCommitting []) \<and> co_correlation_counter (ma_coordinator self) = 2 ^ 56 + 1"
proof -
  let ?step = "\<lambda>x y. \<exists>i. manager_step (bytes_env (\<lambda>b. b) (\<lambda>b. [])) i x y"
  obtain m1 where m1: "start_transaction cache_manager = (m1, \<lparr> tt_transaction_id = 2, tt_transaction_outcome = None \<rparr>)"
      "hm_get (co_transactions (ma_coordinator m1)) 2 = Some (TxPreparing [])" "co_correlation_counter (ma_coordinator m1) = 2 ^ 56"
    by (simp add: start_transaction_def create_transaction_def cache_manager_def manager_create_def coordinator_create_def
      transaction_coordinator_correlation_counter_def hm_insert_def hm_get_def)
  then obtain m2 where m2: "transaction_commit \<lparr> tt_transaction_id = 2, tt_transaction_outcome = None \<rparr> m1 = Ok m2"
      "hm_get (co_transactions (ma_coordinator m2)) 2 = Some (TxCommitting [])" "co_correlation_counter (ma_coordinator m2) = 2 ^ 56 + 1"
    by (simp add: transaction_commit_def commit_transaction_def is_active_def transaction_stash_request_def)
  have run: "?step\<^sup>*\<^sup>* (cache_manager, kv_create) (m2, kv_create)"
    by (rule rtranclp.rtrancl_into_rtrancl [OF r_into_rtranclp])
      (use manager_step.start [OF m1(1)] manager_step.commit [OF m2(1)] in blast)+
  obtain config where init: "manager_init config cache_manager = Ok cache_manager"
  proof
    show "manager_init \<lparr> mcfg_data_cache = Some 0, mcfg_metadata_cache = Some [] \<rparr> cache_manager = Ok cache_manager"
      by (simp add: manager_init_def metadata_init_def cache_manager_def manager_create_def metadata_cache_create_def
        data_init_def data_cache_create_def)
  qed
  show ?thesis
    using cache_requests_distinct [OF init run] run m2 by (auto simp: metadata_cache_correlation_counter_def)
qed

end
