(* ===== verification/OakSession.thy ===== *)
theory OakSession
  imports Prelude
begin

text \<open>
  The default end-to-end encrypted sessions of \<open>src/runtime/src/session.rs\<close>: what one end writes, the other
  end reads. The sessions of the Oak library that they wrap are not used by the operations below;
  creating them is a parameter.
\<close>

section \<open>Messages\<close>

text \<open>The messages of a session; those other than ciphertexts are opaque.\<close>

datatype session_payload = Ciphertext bytes | OtherPayload bytes

type_synonym session_request = "session_payload option"
type_synonym session_response = "session_payload option"

section \<open>Client and server sessions\<close>

record 'i oak_session =
  os_inner :: 'i
  os_incoming_ciphertext :: "bytes option"
  os_outgoing_ciphertext :: "bytes option"

definition oak_client_session_create :: "('c \<Rightarrow> ('i, 'e) result) \<Rightarrow> 'c \<Rightarrow> ('i oak_session, 'e) result" where
  "oak_client_session_create create config = and_then (create config) (\<lambda>inner.
     Ok \<lparr>os_inner = inner, os_incoming_ciphertext = None, os_outgoing_ciphertext = None\<rparr>)"

definition oak_server_session_create :: "('c \<Rightarrow> 'i) \<Rightarrow> 'c \<Rightarrow> ('i oak_session, 'e) result" where
  "oak_server_session_create new_session config =
     Ok \<lparr>os_inner = new_session config, os_incoming_ciphertext = None, os_outgoing_ciphertext = None\<rparr>"

definition client_get_outgoing_message :: "'i oak_session \<Rightarrow> 'i oak_session \<times> (session_request option, 'e) result" where
  "client_get_outgoing_message s = (case os_outgoing_ciphertext s of
     Some c \<Rightarrow> (s\<lparr>os_outgoing_ciphertext := None\<rparr>, Ok (Some (Some (Ciphertext c))))
   | None \<Rightarrow> (s, Ok (Some None)))"

definition client_put_incoming_message ::
  "'i oak_session \<Rightarrow> session_response \<Rightarrow> 'i oak_session \<times> (unit option, 'e) result" where
  "client_put_incoming_message s m = (case m of
     Some (Ciphertext c) \<Rightarrow> (s\<lparr>os_incoming_ciphertext := Some c\<rparr>, Ok (Some ()))
   | _ \<Rightarrow> (s, Ok (Some ())))"

definition server_get_outgoing_message :: "'i oak_session \<Rightarrow> 'i oak_session \<times> (session_response option, 'e) result" where
  "server_get_outgoing_message s = (case os_outgoing_ciphertext s of
     Some c \<Rightarrow> (s\<lparr>os_outgoing_ciphertext := None\<rparr>, Ok (Some (Some (Ciphertext c))))
   | None \<Rightarrow> (s, Ok (Some None)))"

definition server_put_incoming_message ::
  "'i oak_session \<Rightarrow> session_request \<Rightarrow> 'i oak_session \<times> (unit option, 'e) result" where
  "server_put_incoming_message s m = (case m of
     Some (Ciphertext c) \<Rightarrow> (s\<lparr>os_incoming_ciphertext := Some c\<rparr>, Ok (Some ()))
   | _ \<Rightarrow> (s, Ok (Some ())))"

definition oak_session_is_open :: "'i oak_session \<Rightarrow> bool" where
  "oak_session_is_open s = True"

definition oak_session_write :: "'i oak_session \<Rightarrow> bytes \<Rightarrow> 'i oak_session \<times> (unit, 'e) result" where
  "oak_session_write s plaintext = (s\<lparr>os_outgoing_ciphertext := Some plaintext\<rparr>, Ok ())"

definition oak_session_read :: "'i oak_session \<Rightarrow> 'i oak_session \<times> (bytes option, 'e) result" where
  "oak_session_read s = (s\<lparr>os_incoming_ciphertext := None\<rparr>, Ok (os_incoming_ciphertext s))"

text \<open>One write at an end, carried to the other end and read there.\<close>

definition client_to_server ::
  "'i oak_session \<Rightarrow> 'j oak_session \<Rightarrow> bytes \<Rightarrow> ('i oak_session \<times> 'j oak_session) \<times> (bytes option, 'e) result" where
  "client_to_server c s plaintext =
     (let (c1, _) = oak_session_write c plaintext :: 'i oak_session \<times> (unit, 'e) result;
          (c2, r) = client_get_outgoing_message c1 in
      lift_st (c2, s) r (\<lambda>m.
      let (s1, _) = server_put_incoming_message s (the m) :: 'j oak_session \<times> (unit option, 'e) result;
          (s2, r') = oak_session_read s1 in
      ((c2, s2), r')))"

definition server_to_client ::
  "'i oak_session \<Rightarrow> 'j oak_session \<Rightarrow> bytes \<Rightarrow> ('i oak_session \<times> 'j oak_session) \<times> (bytes option, 'e) result" where
  "server_to_client c s plaintext =
     (let (s1, _) = oak_session_write s plaintext :: 'j oak_session \<times> (unit, 'e) result;
          (s2, r) = server_get_outgoing_message s1 in
      lift_st (c, s2) r (\<lambda>m.
      let (c1, _) = client_put_incoming_message c (the m) :: 'i oak_session \<times> (unit option, 'e) result;
          (c2, r') = oak_session_read c1 in
      ((c2, s2), r')))"

lemmas oak_session_defs =
  client_to_server_def server_to_client_def oak_session_write_def oak_session_read_def
  client_get_outgoing_message_def client_put_incoming_message_def
  server_get_outgoing_message_def server_put_incoming_message_def

lemma session_round_trip:
  "snd (client_to_server c s plaintext) = Ok (Some plaintext)"
  "snd (server_to_client c s plaintext) = Ok (Some plaintext)"
  by (simp_all add: oak_session_defs)

lemma session_transfer_clears:
  "fst (client_to_server c s plaintext) =
     (c\<lparr>os_outgoing_ciphertext := None\<rparr>, s\<lparr>os_incoming_ciphertext := None\<rparr>)"
  "fst (server_to_client c s plaintext) =
     (c\<lparr>os_incoming_ciphertext := None\<rparr>, s\<lparr>os_outgoing_ciphertext := None\<rparr>)"
  by (simp_all add: oak_session_defs)

text \<open>A second write before the message is taken out replaces the first one.\<close>

lemma second_write_replaces:
  "fst (oak_session_write (fst (oak_session_write s p)) q) = fst (oak_session_write s q)"
  by (simp add: oak_session_defs)

end
