(* ===== verification/Spec2Isabelle.thy ===== *)
theory Spec2Isabelle
  imports Applications OakSession
begin

text \<open>
  Verification of the trusted computations platform: a runtime that replicates an application,
  an \<^emph>\<open>actor\<close>, over trusted hosts with the Raft protocol, and the applications on top of it.

  \<^bold>\<open>Parts and how they interact.\<close> A launcher calls the service of an application (\<open>src/runtime/src/service.rs\<close>)
  with messages of \<open>src/proto/src/endpoint.proto\<close>. The service calls its driver (\<open>src/runtime/src/driver.rs\<close>), which
  gives application messages to the actor as commands (\<open>src/runtime/src/model.rs\<close>), proposes the events of the
  actor to its Raft node (\<open>src/runtime/src/consensus.rs\<close>), applies the committed entries of the node to the
  actor and returns messages for the launcher and for other replicas. The log of the node lives in a storage
  (\<open>src/runtime/src/storage.rs\<close>), and snapshots of the actor travel in chunks (\<open>src/runtime/src/snapshot.rs\<close>). All
  messages between replicas pass the communication module (\<open>src/runtime/src/communication.rs\<close>), which runs a
  handshake with every peer (\<open>src/runtime/src/handshake.rs\<close>, \<open>attestation.rs\<close>, \<open>oak_handshaker.rs\<close>) and encrypts with the
  keys of the handshake (\<open>src/runtime/src/encryptor.rs\<close>). Applications: a ledger that authorizes accesses to
  encrypted data under privacy budgets (\<open>src/apps/ledger\<close>), an atomic counter (\<open>src/apps/atomic_counter\<close>), a
  tablet store (\<open>src/apps/tablet_store\<close>), and a tablet cache (\<open>src/apps/tablet_cache\<close>), which is not replicated
  and executes transactions of a key value store against the tablet store.

  \<^bold>\<open>Theories of the library.\<close>
  \<^item> \<open>Prelude\<close>: results with panics, \<open>BTreeMap\<close> and \<open>HashMap\<close> behind the locales \<open>rust_map\<close> and
    \<open>ordered_map\<close>, durations, doubles, strings. \<open>Codec\<close>: codec combinators that instantiate the protobuf
    parameters in witnesses. \<open>Endpoint\<close>: the messages of \<open>endpoint.proto\<close>.

  \<^bold>\<open>Theories of the ledger.\<close>
  \<^item> \<open>Crypto\<close> (\<open>cfc_crypto/src/lib.rs\<close>): hybrid encryption; decryption and rewrapping invert encryption.
  \<^item> \<open>Attestation\<close> (\<open>attestation.rs\<close>): matching of an attested application; a match implies every matched property.
  \<^item> \<open>Budget\<close> (\<open>budget.rs\<close>): budgets of transforms and shared budgets, never exceeded in any sequence of
    accesses (locale \<open>budget_measure\<close>, interpreted for both kinds).
  \<^item> \<open>Ledger\<close> (\<open>ledger.rs\<close>): keys, authorization, revocation, snapshots; whatever requests arrive, the
    authorized accesses to a blob stay within its policy.
  \<^item> \<open>LedgerActor\<close> (\<open>actor.rs\<close>): the replicated actor.

  \<^bold>\<open>Theories of the other applications.\<close>
  \<^item> \<open>Counter\<close> (\<open>src/apps/atomic_counter/service/src/actor.rs\<close>): compare and swap refines an abstract counter.
  \<^item> \<open>TabletStore\<close> (\<open>src/apps/tablet_store/service/src/actor.rs\<close>): transactions are atomic, versions are optimistic locks,
    listing a range returns the owners of its key hashes on the ring.
  \<^item> \<open>CacheMetadata\<close> (\<open>transaction/metadata.rs\<close>, \<open>transaction/result.rs\<close>): the cached tables; resolved keys go to the
    tablets that own them. \<open>CacheData\<close> (\<open>transaction/data.rs\<close>): the cached contents; every batch is answered once
    its blobs are (locale \<open>eviction_policy\<close>). \<open>CacheManager\<close> (\<open>transaction/coordinator.rs\<close>, \<open>transaction/manager.rs\<close>):
    transactions, checked against the model of the store. \<open>KeyValueStore\<close> (\<open>store.rs\<close>, \<open>actor.rs\<close>): the key value
    store on tablets and its actor (locale \<open>tablet_handler\<close>).

  \<^bold>\<open>Theories of the runtime.\<close>
  \<^item> \<open>Actor\<close> (\<open>model.rs\<close>): the actor model and the locale \<open>replicated_actor\<close> with agreement of replicas and
    catching up from snapshots, interpreted for each application.
  \<^item> \<open>RaftStorage\<close> (\<open>storage.rs\<close>, \<open>util.rs\<close>): the log refines a list from the snapshot on. \<open>Snapshot\<close> (\<open>snapshot.rs\<close>): a
    transfer is a round trip, within its bounds on chunks in flight.
  \<^item> \<open>Handshake\<close> (\<open>handshake.rs\<close>, \<open>attestation.rs\<close>, \<open>oak_handshaker.rs\<close>, \<open>encryptor.rs\<close>): the sessions of both roles; a
    completed session verified its peer (locale \<open>handshake_sessions\<close>). \<open>OakSession\<close> (\<open>session.rs\<close>): the sessions of the
    Oak library behind their trait.
  \<^item> \<open>Communication\<close> (\<open>communication.rs\<close>): the channels; only messages over verified channels are delivered or
    sent, messages arrive in order after the handshake.
  \<^item> \<open>Consensus\<close> (\<open>consensus.rs\<close>): the Raft node behind its trait (locale \<open>raft_contract\<close>).
  \<^item> \<open>Logger\<close> (\<open>logger.rs\<close>): the log messages that a driver takes.
  \<^item> \<open>Driver\<close> (\<open>driver.rs\<close>): every handler and \<open>receive_message\<close>; the invariants of channels and of the parts of
    a replica in all states that a driver reaches (\<open>driver_run\<close>), the order in which entries reach the actor.
  \<^item> \<open>Hosting\<close> (\<open>service.rs\<close>, \<open>src/integration/src/harness.rs\<close>): the service, and clusters of drivers with the
    messages in transit between them (\<open>cluster_run\<close>).
  \<^item> \<open>Applications\<close> (the actors and \<open>src/apps/*/app/src/main.rs\<close>): each actor behind the trait of the driver; the
    locale \<open>replica_driver\<close> lifts agreement and catching up to the committed entries of drivers.
  \<^item> This theory: what a driver promises to other replicas and keeps of its parts.

  \<^bold>\<open>Conventions.\<close> Every definition is named after the function it translates, with a prefix where
  names clash. A Rust \<open>Result\<close> is \<open>result\<close> with the extra value \<open>Panic\<close> for a panic, \<open>unwrap\<close>,
  \<open>todo!()\<close> or index out of range; \<open>&mut self\<close> is state passing, also where the code shares a state through \<open>RefCell\<close>
  or a lock, and a borrow that can fail is a flag of the state. A trait object is a state with a record of its
  methods; a closure is a function on the state it captures. Integers are words where the code
  depends on their width (budgets, timestamps, tablet ids, versions and key hashes) and natural numbers
  elsewhere (ids, indices, sizes, counters of 64 bits that only count up). A \<open>HashMap\<close> that is iterated is a list in
  insertion order. Randomness is an argument. Third-party code is a parameter: a
  record of functions per component, with its documented laws as hypotheses and a concrete
  instance in the witnesses.

  \<^bold>\<open>Loops.\<close> A loop over random draws consumes a list of draws, and the theorems say which draws are enough. The
  loop \<open>next_requests\<close> of the driver has fuel, and \<open>snapshot_requests_end\<close> shows that the number of chunks that may still
  be put in flight is enough. \<open>advance_until\<close> of the cluster may run for ever and is a partial function. All other
  loops are recursions that end.

  \<^bold>\<open>Not modelled.\<close> The Raft protocol itself (the library behind \<open>consensus.rs\<close>), the cryptography and the Oak
  libraries, and the generated protobuf codecs are parameters. The blocking server and the channel of the kernel SDK, which the main
  programs call with the service, are outside of the sources. The texts that the code logs, the allocation of memory and
  the exact progress of a snapshot as a double have no effect on a modelled state. Test doubles (\<open>mock.rs\<close>), tests,
  build scripts and module roots hold no behaviour of the program.
\<close>

section \<open>Channels between replicas\<close>

lemma encrypted_no_handshake: "encrypt_contents V e m \<noteq> Ok (OutSecureChannelHandshake h)"
  by (cases m) (auto simp: encrypt_contents_def result_simps)



text \<open>
  C5. The Raft node of a replica takes a message of another replica only over a channel with that replica
  whose handshake was completed with verified evidence, and only when the message decrypts with the keys of
  that channel: any other system message leaves the node as it is.
\<close>

theorem raft_steps_verified_messages:
  assumes "driver_run (platform_env N P env) raft actor d"
    and step: "process_deliver_system_message (platform_env N P env) m
      (preset_state_machine (platform_env N P env) instant d) = (d', res)"
    and changed: "dv_raft d' \<noteq> dv_raft d"
  shows "\<exists>s r e plain. hm_get (cm_replicas (dv_communication d)) (dm_sender_replica_id m) = Some s \<and>
    cs_handshake_state s = CsCompleted \<and> cs_encryptor s = Some e \<and> verified_keys P r (de_session_keys e) \<and>
    decrypt_contents (provider_ops P) e (InDeliverSystemMessage m) = Ok plain"
proof -
  let ?p = "preset_state_machine (platform_env N P env) instant d"
  have same: "dv_raft ?p = dv_raft d" "dv_communication ?p = dv_communication d"
    by (simp_all add: preset_state_machine_def Let_def)
  have module: "module_inv (provider_ops P) (session_reach P) (genuine_encryptor P)
      (cm_replica_id (dv_communication d)) UNIV (dv_communication d)"
    using provided.channels_run [OF _ assms(1)] by (simp add: channels_inv_def)
  obtain c r where c: "process_in_message (provider_ops P) (dv_communication d) (InDeliverSystemMessage m) = (c, r)"
    by fastforce
  obtain x where "r = Ok (Some x)"
  proof (cases r)
    case (Ok y)
    then show ?thesis
      using step changed c that same
      by (cases y) (auto simp: process_deliver_system_message_def comm_call_def check_driver_started_def
        check_driver_state_def check_non_ephemeral_def split: if_splits)
  qed (use step changed c same in \<open>auto simp: process_deliver_system_message_def comm_call_def check_driver_started_def
      check_driver_state_def check_non_ephemeral_def split: if_splits\<close>)
  with provided.module_inv_delivered [OF module, of "InDeliverSystemMessage m"] c show ?thesis
    by (fastforce simp: genuine_encryptor_def)
qed

text \<open>
  C31. A replica that is started and not ephemeral has its parts: in every state that its driver reaches, the
  Raft node is initialized, so that its state can be read and it can be asked for work, and the snapshot
  processor has a role; none of these calls panics.
\<close>

theorem started_replica_ready:
  assumes "driver_run (platform_env N P env) raft actor d" "dv_driver_state d = Started" "\<not> dv_is_ephemeral d"
  shows "simple_initialized (dv_raft d) \<and> (\<exists>state. get_raft_state (platform_env N P env) d = Ok state) \<and>
    (\<exists>b. simple_has_ready N (dv_raft d) = Ok b) \<and> (\<exists>d' role. processor_call d = (d', Ok role))"
proof -
  have parts: "simple_initialized (dv_raft d)" "pr_state (dv_snapshot d) \<noteq> UnknownState"
    using simple.parts_run [OF _ assms(1), of N] assms(2,3) by (auto simp: parts_inv_def)
  have "ra_initialized (raft_simple_ops N) (dv_raft d)"
    using parts(1) by simp
  from simple.initialized_reads [OF this] have "\<exists>state. get_raft_state (platform_env N P env) d = Ok state"
    "\<exists>b. simple_has_ready N (dv_raft d) = Ok b"
    by (auto simp: get_raft_state_def)
  moreover have "\<exists>d' role. processor_call d = (d', Ok role)"
    using parts(2) by (cases "pr_state (dv_snapshot d)") (auto simp: processor_call_def mut_processor_def Let_def)
  ultimately show ?thesis
    using parts(1) by blast
qed

theorem started_replica_ready_witness:
  "\<exists>d. driver_run (solo_env log_actor) raft_simple_new [] d \<and> dv_driver_state d = Started \<and> \<not> dv_is_ephemeral d \<and>
     (\<exists>d' role. processor_call d = (d', Ok role))"
proof -
  obtain d where d: "receive_message (solo_env log_actor) 1 (Some (Some (InStartReplica (start_request 2 True False)))) []
      (driver_new raft_simple_new (processor_new sender_new receiver_new) [] cm_new) = (d, Ok (Some [OutStartReplica 2]))"
    "dv_driver_state d = Started" "\<not> dv_is_ephemeral d"
    by (simp add: replica_evals cong: try_st_weak lift_st_weak)
  have run: "driver_run (solo_env log_actor) raft_simple_new [] d"
    by (rule driver_run.receive [OF driver_run.start d(1)])
  show ?thesis
    using started_replica_ready [of solo_node "default_provider demo_oak" "solo_env log_actor", simplified, OF run d(2,3)]
      run d(2,3) by blast
qed

theorem raft_steps_verified_messages_witness:
  "\<exists>d d'. driver_run (solo_env log_actor) raft_simple_new [] d \<and>
     process_deliver_system_message (solo_env log_actor)
       \<lparr>dm_recipient_replica_id = 2, dm_sender_replica_id = 1, dm_message_contents = [7]\<rparr>
       (preset_state_machine (solo_env log_actor) 4 d) = (d', Ok ()) \<and> dv_raft d' \<noteq> dv_raft d \<and>
     (\<exists>s. hm_get (cm_replicas (dv_communication d)) 1 = Some s \<and> cs_handshake_state s = CsCompleted)"
proof -
  let ?r = "\<lambda>i m d. receive_message (solo_env log_actor) i (Some (Some m)) [] d"
  let ?h = "\<lambda>x. InSecureChannelHandshake (client_handshake 1 2 x)"
  let ?m = "\<lparr>dm_recipient_replica_id = 2, dm_sender_replica_id = 1, dm_message_contents = [7]\<rparr>"
  obtain d1 d2 d3 where
    d1: "?r 1 (InStartReplica (start_request 2 True False))
      (driver_new raft_simple_new (processor_new sender_new receiver_new) [] cm_new) = (d1, Ok (Some [OutStartReplica 2]))"
    and d2: "?r 2 (?h (AttestRequest [])) d1 =
      (d2, Ok (Some [OutSecureChannelHandshake (server_handshake 2 1 (AttestResponse []))]))"
    and d3: "?r 3 (?h (HandshakeRequest [])) d2 =
      (d3, Ok (Some [OutSecureChannelHandshake (server_handshake 2 1 (HandshakeResponse []))]))"
    and message: "\<exists>d'. process_deliver_system_message (solo_env log_actor) ?m
       (preset_state_machine (solo_env log_actor) 4 d3) = (d', Ok ()) \<and> dv_raft d' \<noteq> dv_raft d3"
    by (simp add: replica_evals module_defs handshake_evals tick_replica_def cs_make_tick_def cs_decrypt_message_def
      decrypt_contents_def provider_ops_def decrypt_def cong: try_st_weak lift_st_weak)
  from message obtain d' where d': "process_deliver_system_message (solo_env log_actor) ?m
       (preset_state_machine (solo_env log_actor) 4 d3) = (d', Ok ())" "dv_raft d' \<noteq> dv_raft d3"
    by blast
  have run: "driver_run (solo_env log_actor) raft_simple_new [] d3"
    by (rule driver_run.receive [OF driver_run.receive [OF driver_run.receive [OF driver_run.start d1] d2] d3])
  show ?thesis
    using raft_steps_verified_messages [of solo_node "default_provider demo_oak" "solo_env log_actor", simplified, OF run d'(1)]
      run d' by fastforce
qed

end
